(* ===== verification/Prelude.thy ===== *)
theory Prelude
  imports Main "HOL-Library.Word" "HOL-Library.Product_Lexorder" "HOL-Library.Option_ord"
begin

text \<open>
  Shared vocabulary of the development: the machine types of the program, the time and
  calendar arithmetic of \<^verbatim>\<open>chrono\<close> that the code uses, tables as lists of rows with the
  four SQL shapes the repositories use (select one row, update where, delete where, order
  and limit), transactions with roll-back, and the generic lemmas on them.

  A \<^verbatim>\<open>Uuid\<close> is its 128-bit big-endian value, so that \<^verbatim>\<open>Uuid::is_nil\<close> is equality with 0
  and the byte-wise order of the crate is the order of words.  An instant is a number of
  microseconds since the Unix epoch, the resolution of a PostgreSQL \<^verbatim>\<open>timestamptz\<close>; a date is
  a number of days since 1970-01-01, a Thursday.  A Rust \<^verbatim>\<open>str\<close> that carries user text is the
  list of its Unicode scalar values.
\<close>

section \<open>Types\<close>

type_synonym uuid = "128 word"
type_synonym instant = int
type_synonym duration = int
type_synonym date = int
type_synonym utext = "nat list"

named_theorems table_simps \<open>rewrite rules for tables held as lists of rows\<close>
named_theorems keeps_intros \<open>introduction rules for operations that keep an invariant\<close>
named_theorems time_simps \<open>definitions of durations and calendar arithmetic\<close>

section \<open>Durations, instants and dates\<close>

definition seconds :: "int \<Rightarrow> duration" where
  "seconds n = n * 1000000"

definition minutes :: "int \<Rightarrow> duration" where
  "minutes n = seconds (n * 60)"

definition hours :: "int \<Rightarrow> duration" where
  "hours n = seconds (n * 3600)"

definition days :: "int \<Rightarrow> duration" where
  "days n = seconds (n * 86400)"

definition timestamp :: "instant \<Rightarrow> int" where
  "timestamp t = t div seconds 1"

definition date_naive :: "instant \<Rightarrow> date" where
  "date_naive t = t div days 1"

text \<open>\<^verbatim>\<open>Weekday::num_days_from_monday\<close>: day 0 is a Thursday.\<close>

definition num_days_from_monday :: "date \<Rightarrow> int" where
  "num_days_from_monday d = (d + 3) mod 7"

declare seconds_def [time_simps] minutes_def [time_simps] hours_def [time_simps]
  days_def [time_simps]

lemma days_pos [simp]: "0 < days n \<longleftrightarrow> 0 < n" "0 \<le> days n \<longleftrightarrow> 0 \<le> n"
  by (simp_all add: time_simps)

lemma hours_pos [simp]: "0 < hours n \<longleftrightarrow> 0 < n" "0 \<le> hours n \<longleftrightarrow> 0 \<le> n"
  by (simp_all add: time_simps)

lemma date_naive_mono: "s \<le> t \<Longrightarrow> date_naive s \<le> date_naive t"
  by (simp add: date_naive_def time_simps zdiv_mono1)

text \<open>The representable instants of \<^verbatim>\<open>chrono::DateTime<Utc>\<close>
  (\<^verbatim>\<open>MIN_UTC\<close> = -262143-01-01T00:00:00, \<^verbatim>\<open>MAX_UTC\<close> = +262142-12-31T23:59:59.999999999), in
  microseconds; \<^verbatim>\<open>checked_add_signed\<close> and \<^verbatim>\<open>checked_sub_signed\<close> return nothing outside.\<close>

definition min_utc :: instant where
  "min_utc = days (- 96465293)"

definition max_utc :: instant where
  "max_utc = days 95026237 - 1"

definition checked_add_signed :: "instant \<Rightarrow> duration \<Rightarrow> instant option" where
  "checked_add_signed t d = (if min_utc \<le> t + d \<and> t + d \<le> max_utc then Some (t + d) else None)"

definition checked_sub_signed :: "instant \<Rightarrow> duration \<Rightarrow> instant option" where
  "checked_sub_signed t d = (if min_utc \<le> t - d \<and> t - d \<le> max_utc then Some (t - d) else None)"

section \<open>Fixed-width integers\<close>

definition u16_max :: nat where "u16_max = 65535"
definition u32_max :: nat where "u32_max = 4294967295"
definition u64_max :: nat where "u64_max = 18446744073709551615"

definition saturating_add_u32 :: "nat \<Rightarrow> nat \<Rightarrow> nat" where
  "saturating_add_u32 a b = min (a + b) u32_max"

definition saturating_mul_u32 :: "nat \<Rightarrow> nat \<Rightarrow> nat" where
  "saturating_mul_u32 a b = min (a * b) u32_max"

definition saturating_add_u64 :: "nat \<Rightarrow> nat \<Rightarrow> nat" where
  "saturating_add_u64 a b = min (a + b) u64_max"

lemma saturating_add_u64_bounds [simp]:
  "saturating_add_u64 a b \<le> u64_max" "saturating_add_u64 a b \<le> a + b"
  by (simp_all add: saturating_add_u64_def)

lemma saturating_add_u64_exact: "a + b \<le> u64_max \<Longrightarrow> saturating_add_u64 a b = a + b"
  by (simp add: saturating_add_u64_def)

section \<open>Tables as lists of rows\<close>

text \<open>\<^verbatim>\<open>UPDATE .. SET f WHERE P\<close>, \<^verbatim>\<open>DELETE .. WHERE P\<close>, the count of affected rows, and
  \<^verbatim>\<open>ORDER BY key LIMIT n\<close>.\<close>

definition upd_where :: "('r \<Rightarrow> bool) \<Rightarrow> ('r \<Rightarrow> 'r) \<Rightarrow> 'r list \<Rightarrow> 'r list" where
  "upd_where P f rows = map (\<lambda>r. if P r then f r else r) rows"

definition del_where :: "('r \<Rightarrow> bool) \<Rightarrow> 'r list \<Rightarrow> 'r list" where
  "del_where P rows = filter (\<lambda>r. \<not> P r) rows"

definition rows_where :: "('r \<Rightarrow> bool) \<Rightarrow> 'r list \<Rightarrow> nat" where
  "rows_where P rows = length (filter P rows)"

definition order_limit :: "('r \<Rightarrow> 'k::linorder) \<Rightarrow> nat \<Rightarrow> 'r list \<Rightarrow> 'r list" where
  "order_limit key n rows = take n (sort_key key rows)"

lemma upd_where_Nil [simp, table_simps]: "upd_where P f [] = []"
  by (simp add: upd_where_def)

lemma upd_where_Cons [simp, table_simps]:
  "upd_where P f (r # rs) = (if P r then f r else r) # upd_where P f rs"
  by (simp add: upd_where_def)

lemma length_upd_where [simp, table_simps]: "length (upd_where P f rows) = length rows"
  by (simp add: upd_where_def)

lemma set_upd_where [table_simps]:
  "set (upd_where P f rows) = (\<lambda>r. if P r then f r else r) ` set rows"
  by (simp add: upd_where_def)

lemma map_upd_where [table_simps]:
  "(\<And>r. k (f r) = k r) \<Longrightarrow> map k (upd_where P f rows) = map k rows"
  by (simp add: upd_where_def)

lemma set_del_where [simp, table_simps]: "set (del_where P rows) = {r \<in> set rows. \<not> P r}"
  by (auto simp: del_where_def)

lemma del_where_Nil [simp, table_simps]: "del_where P [] = []"
  by (simp add: del_where_def)

lemma del_where_Cons [simp, table_simps]:
  "del_where P (r # rs) = (if P r then del_where P rs else r # del_where P rs)"
  by (simp add: del_where_def)

lemma set_order_limit_subset: "set (order_limit key n rows) \<subseteq> set rows"
  by (auto simp: order_limit_def dest: in_set_takeD)

lemma length_order_limit [simp]: "length (order_limit key n rows) = min n (length rows)"
  by (simp add: order_limit_def min.commute)

lemma distinct_order_limit: "distinct (map k rows) \<Longrightarrow> distinct (map k (order_limit key n rows))"
  by (simp add: order_limit_def take_map [symmetric] distinct_map inj_on_def)

text \<open>Counting rows.\<close>

lemma rows_where_Nil [simp, table_simps]: "rows_where P [] = 0"
  by (simp add: rows_where_def)

lemma rows_where_Cons [simp, table_simps]:
  "rows_where P (r # rs) = (if P r then 1 else 0) + rows_where P rs"
  by (simp add: rows_where_def)

lemma rows_where_append [simp, table_simps]:
  "rows_where P (xs @ ys) = rows_where P xs + rows_where P ys"
  by (simp add: rows_where_def)

lemma rows_where_mono: "(\<And>r. r \<in> set xs \<Longrightarrow> P r \<Longrightarrow> Q r) \<Longrightarrow> rows_where P xs \<le> rows_where Q xs"
  by (induction xs) force+

lemma rows_where_cong: "(\<And>r. r \<in> set xs \<Longrightarrow> P r \<longleftrightarrow> Q r) \<Longrightarrow> rows_where P xs = rows_where Q xs"
  by (induction xs) auto

lemma rows_where_del: "rows_where P (del_where Q xs) = rows_where (\<lambda>r. P r \<and> \<not> Q r) xs"
  by (induction xs) auto

lemma rows_where_filter: "rows_where P (filter Q xs) = rows_where (\<lambda>r. P r \<and> Q r) xs"
  by (simp add: rows_where_def conj_commute)

lemma rows_where_split: "rows_where P xs = rows_where (\<lambda>r. P r \<and> Q r) xs + rows_where (\<lambda>r. P r \<and> \<not> Q r) xs"
  by (induction xs) auto

lemma rows_where_sort_key [simp]: "rows_where P (sort_key k xs) = rows_where P xs"
  by (simp add: rows_where_def filter_sort)

lemma rows_where_eq_0: "rows_where P xs = 0 \<longleftrightarrow> (\<forall>r \<in> set xs. \<not> P r)"
  by (induction xs) auto

lemma rows_where_distinct_key:
  "distinct (map k xs) \<Longrightarrow> rows_where (\<lambda>r. k r = a) xs \<le> 1"
proof (induction xs)
  case (Cons x xs)
  then have "rows_where (\<lambda>r. k r = a) xs = 0" if "k x = a"
    using that by (auto simp: rows_where_eq_0 image_iff)
  then show ?case
    using Cons by auto
qed simp

text \<open>Deleting by a list of at most \<open>limit\<close> identifiers removes at most \<open>limit\<close> rows of a table
  whose identifiers are unique.\<close>

lemma rows_where_key_in:
  "distinct (map k rows) \<Longrightarrow> rows_where (\<lambda>r. k r \<in> set ids) rows \<le> length ids"
proof -
  assume d: "distinct (map k rows)"
  have "rows_where (\<lambda>r. k r \<in> set ids) rows = length (filter (\<lambda>x. x \<in> set ids) (map k rows))"
    by (simp add: rows_where_def filter_map comp_def)
  also have "\<dots> = card (set (filter (\<lambda>x. x \<in> set ids) (map k rows)))"
    using distinct_card [OF distinct_filter [OF d, of "\<lambda>x. x \<in> set ids"]] by (rule sym)
  also have "\<dots> \<le> card (set ids)"
    by (rule card_mono) auto
  also have "\<dots> \<le> length ids"
    by (rule card_length)
  finally show ?thesis .
qed

text \<open>Primary-key lookup.\<close>

lemma find_SomeD: "find P xs = Some x \<Longrightarrow> x \<in> set xs \<and> P x"
  by (induction xs) (auto split: if_splits)

lemma find_NoneD: "find P xs = None \<Longrightarrow> x \<in> set xs \<Longrightarrow> \<not> P x"
  by (induction xs) (auto split: if_splits)

lemma find_distinct_key:
  "distinct (map k xs) \<Longrightarrow> x \<in> set xs \<Longrightarrow> find (\<lambda>r. k r = k x) xs = Some x"
  by (induction xs) (auto simp: rev_image_eqI)

lemma find_upd_where_same [table_simps]:
  "(\<And>r. k (f r) = k r) \<Longrightarrow>
   find (\<lambda>r. k r = a) (upd_where (\<lambda>r. k r = a) f xs) = map_option f (find (\<lambda>r. k r = a) xs)"
  by (induction xs) auto

lemma find_upd_where [table_simps]:
  "(\<And>r. k (f r) = k r) \<Longrightarrow>
   find (\<lambda>r. k r = a) (upd_where P f xs) =
     map_option (\<lambda>r. if P r then f r else r) (find (\<lambda>r. k r = a) xs)"
  by (induction xs) auto

lemma find_append: "find P (xs @ ys) = (case find P xs of Some x \<Rightarrow> Some x | None \<Rightarrow> find P ys)"
  by (induction xs) auto

lemma find_del_where:
  "find P (del_where Q xs) = find (\<lambda>r. P r \<and> \<not> Q r) xs"
  by (induction xs) auto

lemma find_upd_where_other [table_simps]:
  "(\<And>r. k (f r) = k r) \<Longrightarrow> a \<noteq> b \<Longrightarrow>
   find (\<lambda>r. k r = a) (upd_where (\<lambda>r. k r = b) f xs) = find (\<lambda>r. k r = a) xs"
  by (induction xs) auto

section \<open>Results and transactions\<close>

text \<open>\<^verbatim>\<open>Result<T, E>\<close> is \<open>'e + 'a\<close>.  A repository operation maps the database to a result and
  the database it leaves; \<open>transaction\<close> keeps the latter only when the result is \<^verbatim>\<open>Ok\<close>
  (\<^verbatim>\<open>Database::transaction\<close> of \<^verbatim>\<open>src/infra/postgres.rs\<close>: commit on \<^verbatim>\<open>Ok\<close>, roll back on
  \<^verbatim>\<open>Err\<close>).\<close>

type_synonym ('s, 'e, 'a) op = "'s \<Rightarrow> ('e + 'a) \<times> 's"

definition transaction :: "('s, 'e, 'a) op \<Rightarrow> ('s, 'e, 'a) op" where
  "transaction operation db =
     (case operation db of
        (Inr v, db') \<Rightarrow> (Inr v, db')
      | (Inl e, _) \<Rightarrow> (Inl e, db))"

lemma transaction_Ok [simp]: "operation db = (Inr v, db') \<Longrightarrow> transaction operation db = (Inr v, db')"
  by (simp add: transaction_def)

lemma transaction_Err [simp]: "operation db = (Inl e, db') \<Longrightarrow> transaction operation db = (Inl e, db)"
  by (simp add: transaction_def)

lemma transaction_rolls_back: "transaction operation db = (Inl e, db') \<Longrightarrow> db' = db"
  by (auto simp: transaction_def split: prod.splits sum.splits)

lemma transaction_OkD: "transaction operation db = (Inr v, db') \<Longrightarrow> operation db = (Inr v, db')"
  by (auto simp: transaction_def split: prod.splits sum.splits)

text \<open>What each operation keeps, its transaction keeps.\<close>

lemma transaction_invariant:
  "(\<And>r db'. operation db = (r, db') \<Longrightarrow> I db') \<Longrightarrow> I db \<Longrightarrow> I (snd (transaction operation db))"
  by (auto simp: transaction_def split: prod.splits sum.splits)

section \<open>Sequencing of fallible operations\<close>

text \<open>The \<^verbatim>\<open>?\<close> operator of Rust: an error leaves the block at once.  \<open>for_each\<close> is a \<^verbatim>\<open>for\<close>
  loop whose body may fail; the loop counter is passed along because the environment indexes
  its readings by it.\<close>

definition ok :: "'a \<Rightarrow> ('s, 'e, 'a) op" where
  "ok v s = (Inr v, s)"

definition err :: "'e \<Rightarrow> ('s, 'e, 'a) op" where
  "err e s = (Inl e, s)"

definition bind_op :: "('s, 'e, 'a) op \<Rightarrow> ('a \<Rightarrow> ('s, 'e, 'b) op) \<Rightarrow> ('s, 'e, 'b) op" where
  "bind_op m f s = (case m s of (Inl e, s') \<Rightarrow> (Inl e, s') | (Inr v, s') \<Rightarrow> f v s')"

definition then_op :: "('s, 'e, 'a) op \<Rightarrow> ('s, 'e, 'b) op \<Rightarrow> ('s, 'e, 'b) op" where
  "then_op m n = bind_op m (\<lambda>_. n)"

definition modify :: "('s \<Rightarrow> 's) \<Rightarrow> ('s, 'e, unit) op" where
  "modify f s = (Inr (), f s)"

definition gets :: "('s \<Rightarrow> 'a) \<Rightarrow> ('s, 'e, 'a) op" where
  "gets f s = (Inr (f s), s)"

definition lift_result :: "('s \<Rightarrow> 'e + 'a) \<Rightarrow> ('s, 'e, 'a) op" where
  "lift_result f s = (f s, s)"

definition map_err :: "('e \<Rightarrow> 'f) \<Rightarrow> ('s, 'e, 'a) op \<Rightarrow> ('s, 'f, 'a) op" where
  "map_err g m s = (case m s of (Inl e, s') \<Rightarrow> (Inl (g e), s') | (Inr v, s') \<Rightarrow> (Inr v, s'))"

fun for_each :: "nat \<Rightarrow> (nat \<Rightarrow> 'x \<Rightarrow> ('s, 'e, unit) op) \<Rightarrow> 'x list \<Rightarrow> ('s, 'e, unit) op" where
  "for_each k body [] = ok ()"
| "for_each k body (x # xs) = then_op (body k x) (for_each (Suc k) body xs)"

lemmas op_defs = ok_def err_def bind_op_def then_op_def modify_def gets_def lift_result_def
  map_err_def

text \<open>Partial-correctness triples: if the operation starts in \<open>P\<close> and returns \<^verbatim>\<open>Ok(v)\<close>, then
  \<open>Q v\<close> holds of the state it leaves.  The rules for the combinators let a proof walk along an
  operation the way the code is written.\<close>

definition valid :: "('s \<Rightarrow> bool) \<Rightarrow> ('s, 'e, 'a) op \<Rightarrow> ('a \<Rightarrow> 's \<Rightarrow> bool) \<Rightarrow> bool" where
  "valid P m Q \<longleftrightarrow> (\<forall>s v s'. P s \<longrightarrow> m s = (Inr v, s') \<longrightarrow> Q v s')"

lemma validI: "(\<And>s v s'. P s \<Longrightarrow> m s = (Inr v, s') \<Longrightarrow> Q v s') \<Longrightarrow> valid P m Q"
  by (auto simp: valid_def)

lemma validD: "valid P m Q \<Longrightarrow> m s = (Inr v, s') \<Longrightarrow> P s \<Longrightarrow> Q v s'"
  by (auto simp: valid_def)

lemma valid_weaken:
  "valid P m Q \<Longrightarrow> (\<And>s. P' s \<Longrightarrow> P s) \<Longrightarrow> (\<And>v s. Q v s \<Longrightarrow> Q' v s) \<Longrightarrow> valid P' m Q'"
  unfolding valid_def by meson

lemma valid_ok [intro]: "(\<And>s. P s \<Longrightarrow> Q v s) \<Longrightarrow> valid P (ok v) Q"
  by (auto simp: valid_def ok_def)

lemma valid_err [intro, simp]: "valid P (err e) Q"
  by (auto simp: valid_def err_def)

lemma valid_modify [intro]: "(\<And>s. P s \<Longrightarrow> Q () (f s)) \<Longrightarrow> valid P (modify f) Q"
  by (auto simp: valid_def modify_def)

lemma valid_bind [intro]:
  "valid P m R \<Longrightarrow> (\<And>v. valid (R v) (f v) Q) \<Longrightarrow> valid P (bind_op m f) Q"
  by (auto simp: valid_def bind_op_def split: prod.splits sum.splits)

lemma valid_then [intro]: "valid P m (\<lambda>_. R) \<Longrightarrow> valid R n Q \<Longrightarrow> valid P (then_op m n) Q"
  unfolding then_op_def by (rule valid_bind)

lemma valid_gets [intro]: "(\<And>s. P s \<Longrightarrow> Q (f s) s) \<Longrightarrow> valid P (gets f) Q"
  by (auto simp: valid_def gets_def)

lemma valid_lift_result [intro]:
  "(\<And>s v. P s \<Longrightarrow> f s = Inr v \<Longrightarrow> Q v s) \<Longrightarrow> valid P (lift_result f) Q"
  by (auto simp: valid_def lift_result_def)

lemma valid_map_err [intro]: "valid P m Q \<Longrightarrow> valid P (map_err g m) Q"
  by (auto simp: valid_def map_err_def split: prod.splits sum.splits)

lemma valid_if [intro]:
  "(c \<Longrightarrow> valid P m Q) \<Longrightarrow> (\<not> c \<Longrightarrow> valid P n Q) \<Longrightarrow> valid P (if c then m else n) Q"
  by simp

text \<open>The triples of an invariant, for walks that need no intermediate assertion.\<close>

abbreviation keeps :: "('s \<Rightarrow> bool) \<Rightarrow> ('s, 'e, 'a) op \<Rightarrow> bool" where
  "keeps I m \<equiv> valid I m (\<lambda>_. I)"

lemma keeps_ok [keeps_intros]: "keeps I (ok v)"
  by (rule valid_ok)

lemma keeps_err [keeps_intros]: "keeps I (err v)"
  by (rule valid_err)

lemma keeps_modify [keeps_intros]: "(\<And>s. I s \<Longrightarrow> I (f s)) \<Longrightarrow> keeps I (modify f)"
  by (rule valid_modify)

lemma keeps_bind [keeps_intros]: "keeps I m \<Longrightarrow> (\<And>v. keeps I (f v)) \<Longrightarrow> keeps I (bind_op m f)"
  by (rule valid_bind)

lemma keeps_then [keeps_intros]: "keeps I m \<Longrightarrow> keeps I n \<Longrightarrow> keeps I (then_op m n)"
  by (rule valid_then)

lemma keeps_gets [keeps_intros]: "keeps I (gets f)"
  by (rule valid_gets)

lemma keeps_lift_result [keeps_intros]: "keeps I (lift_result f)"
  by (rule valid_lift_result)

lemma keeps_map_err [keeps_intros]: "keeps I m \<Longrightarrow> keeps I (map_err g m)"
  by (rule valid_map_err)

lemma keeps_if [keeps_intros]:
  "(c \<Longrightarrow> keeps I m) \<Longrightarrow> (\<not> c \<Longrightarrow> keeps I n) \<Longrightarrow> keeps I (if c then m else n)"
  by simp

lemma keeps_for_each [keeps_intros]:
  "(\<And>k x. x \<in> set xs \<Longrightarrow> keeps I (body k x)) \<Longrightarrow> keeps I (for_each k body xs)"
  by (induction xs arbitrary: k) (auto intro!: keeps_intros)

text \<open>Operations that read the state before they choose what to run.\<close>

lemma validI_state: "(\<And>s. P s \<Longrightarrow> valid (\<lambda>x. x = s) m Q) \<Longrightarrow> valid P m Q"
  by (auto simp: valid_def)

lemma keeps_apply: "keeps I m \<Longrightarrow> m s = (Inr v, s') \<Longrightarrow> I s \<Longrightarrow> I s'"
  by (rule validD)

lemma valid_transaction [intro]:
  "valid P m Q \<Longrightarrow> valid P (transaction m) Q"
  by (auto simp: valid_def dest: transaction_OkD)

text \<open>The dual triples: if the operation starts in \<open>P\<close> and fails, it fails with an error in
  \<open>E\<close>.\<close>

definition throws :: "('s \<Rightarrow> bool) \<Rightarrow> ('s, 'e, 'a) op \<Rightarrow> ('e \<Rightarrow> bool) \<Rightarrow> bool" where
  "throws P m E \<longleftrightarrow> (\<forall>s e s'. P s \<longrightarrow> m s = (Inl e, s') \<longrightarrow> E e)"

lemma throwsI: "(\<And>s e s'. P s \<Longrightarrow> m s = (Inl e, s') \<Longrightarrow> E e) \<Longrightarrow> throws P m E"
  by (auto simp: throws_def)

lemma throwsD: "throws P m E \<Longrightarrow> m s = (Inl e, s') \<Longrightarrow> P s \<Longrightarrow> E e"
  by (auto simp: throws_def)

lemma throws_weaken: "throws P m E \<Longrightarrow> (\<And>s. P' s \<Longrightarrow> P s) \<Longrightarrow> throws P' m E"
  by (auto simp: throws_def)

lemma throws_ok [keeps_intros]: "throws P (ok v) E"
  by (auto simp: throws_def ok_def)

lemma throws_gets [keeps_intros]: "throws P (gets f) E"
  by (auto simp: throws_def gets_def)

lemma throws_modify [keeps_intros]: "throws P (modify f) E"
  by (auto simp: throws_def modify_def)

lemma throws_bind:
  "throws P m E \<Longrightarrow> valid P m R \<Longrightarrow> (\<And>v. throws (R v) (f v) E) \<Longrightarrow> throws P (bind_op m f) E"
  unfolding throws_def valid_def bind_op_def
  by (auto split: prod.splits sum.splits)

lemma throws_then:
  "throws P m E \<Longrightarrow> valid P m (\<lambda>_. R) \<Longrightarrow> throws R n E \<Longrightarrow> throws P (then_op m n) E"
  unfolding then_op_def by (rule throws_bind)

lemma throws_always_then: "throws (\<lambda>_. True) m E \<Longrightarrow> throws (\<lambda>_. True) n E \<Longrightarrow> throws P (then_op m n) E"
  by (rule throws_then [where R = "\<lambda>_. True"]) (auto simp: throws_def valid_def)

lemma throws_map_err: "throws P m (\<lambda>e. E (g e)) \<Longrightarrow> throws P (map_err g m) E"
  by (auto simp: throws_def map_err_def split: prod.splits sum.splits)

lemma throws_if:
  "(c \<Longrightarrow> throws P m E) \<Longrightarrow> (\<not> c \<Longrightarrow> throws P n E) \<Longrightarrow> throws P (if c then m else n) E"
  by simp

text \<open>A transaction keeps what its operation keeps on success, whatever its outcome.\<close>

lemma transaction_keeps:
  "valid I m (\<lambda>_. I) \<Longrightarrow> I s \<Longrightarrow> I (snd (transaction m s))"
  by (auto simp: transaction_def valid_def split: prod.splits sum.splits)

lemma bind_op_Ok [simp]: "m s = (Inr v, s') \<Longrightarrow> bind_op m f s = f v s'"
  by (simp add: bind_op_def)

lemma bind_op_Err [simp]: "m s = (Inl e, s') \<Longrightarrow> bind_op m f s = (Inl e, s')"
  by (simp add: bind_op_def)

lemma bind_op_InrD:
  "bind_op m f s = (Inr v, s'') \<Longrightarrow> \<exists>a s'. m s = (Inr a, s') \<and> f a s' = (Inr v, s'')"
  by (auto simp: bind_op_def split: prod.splits sum.splits)

lemma then_op_InrD:
  "then_op m n s = (Inr v, s'') \<Longrightarrow> \<exists>a s'. m s = (Inr a, s') \<and> n s' = (Inr v, s'')"
  unfolding then_op_def by (rule bind_op_InrD)

end
