(* ===== verification/Match_Domain.thy ===== *)
theory Match_Domain
  imports Prelude
begin

text \<open>
  The domain types of the match component (\<^verbatim>\<open>src/matches/domain.rs\<close>): the constants of the
  life cycle, the match status with its wire names, the match and message records, their
  public projections, the results of the commands and the start of the UTC week.  The
  rendering of an instant (\<^verbatim>\<open>wire_timestamp\<close>, a \<^verbatim>\<open>chrono\<close> formatter) is the parameter \<open>fmt\<close>
  of the projections.
\<close>

section \<open>Constants\<close>

definition ADVERTISING_STOCK_LIMIT :: int where "ADVERTISING_STOCK_LIMIT = 3"
definition FREE_WEEKLY_CREDITS :: int where "FREE_WEEKLY_CREDITS = 2"
definition FREE_WEEKLY_CONTINUATION_LIMIT :: int where "FREE_WEEKLY_CONTINUATION_LIMIT = 5"
definition MATCH_WINDOW_HOURS :: int where "MATCH_WINDOW_HOURS = 24"
definition MATCH_FIRST_PERIOD_REMINDER_HOURS :: int where
  "MATCH_FIRST_PERIOD_REMINDER_HOURS = 2"
definition MATCH_PURGE_DAYS :: int where "MATCH_PURGE_DAYS = 30"
definition MATCH_ARCHIVE_DAYS :: int where "MATCH_ARCHIVE_DAYS = 10"
definition MATCH_INACTIVITY_DAYS :: int where "MATCH_INACTIVITY_DAYS = 30"
definition MATCH_WARNING_DAYS :: int where "MATCH_WARNING_DAYS = 7"

lemmas match_constants =
  ADVERTISING_STOCK_LIMIT_def FREE_WEEKLY_CREDITS_def FREE_WEEKLY_CONTINUATION_LIMIT_def
  MATCH_WINDOW_HOURS_def MATCH_FIRST_PERIOD_REMINDER_HOURS_def MATCH_PURGE_DAYS_def
  MATCH_ARCHIVE_DAYS_def MATCH_INACTIVITY_DAYS_def MATCH_WARNING_DAYS_def

section \<open>Status\<close>

datatype match_status = AwaitingContinuation | Active | Confirmed | Expired | Ended

datatype photo_reveal_consent = Granted | Withdrawn

definition is_granted :: "photo_reveal_consent \<Rightarrow> bool" where
  "is_granted c \<longleftrightarrow> c = Granted"

fun status_as_str :: "match_status \<Rightarrow> string" where
  "status_as_str AwaitingContinuation = ''awaiting_continuation''"
| "status_as_str Active = ''active''"
| "status_as_str Confirmed = ''confirmed''"
| "status_as_str Expired = ''expired''"
| "status_as_str Ended = ''ended''"

definition status_parse :: "string \<Rightarrow> match_status option" where
  "status_parse value =
     (if value = ''awaiting_continuation'' then Some AwaitingContinuation
      else if value = ''active'' then Some Active
      else if value = ''confirmed'' then Some Confirmed
      else if value = ''expired'' then Some Expired
      else if value = ''ended'' then Some Ended
      else None)"

lemma status_parse_as_str [simp]: "status_parse (status_as_str s) = Some s"
  by (cases s) (simp_all add: status_parse_def)

lemma status_parse_inj: "status_parse v = Some s \<Longrightarrow> v = status_as_str s"
  by (auto simp: status_parse_def split: if_splits)

section \<open>Records\<close>

record match_record =
  m_id :: uuid
  user1_id :: uuid
  user2_id :: uuid
  m_status :: match_status
  m_expires_at :: instant
  purge_after :: "instant option"
  continuation_initiator_id :: "uuid option"
  m_created_at :: instant
  last_message_at :: "instant option"

definition is_archived_at :: "('a) match_record_scheme \<Rightarrow> instant \<Rightarrow> bool" where
  "is_archived_at m now \<longleftrightarrow>
     m_status m = Confirmed \<and> m_expires_at m > now \<and>
     m_expires_at m \<le> now + days (MATCH_INACTIVITY_DAYS - MATCH_ARCHIVE_DAYS)"

record page_cursor =
  cur_at :: instant
  cur_id :: uuid

record message_record =
  msg_id :: uuid
  msg_match_id :: uuid
  msg_sender_id :: uuid
  msg_content :: utext
  msg_created_at :: instant
  msg_read_at :: "instant option"

record message_creation =
  mc_message :: message_record
  mc_participant_ids :: "uuid \<times> uuid"
  mc_created :: bool

datatype match_availability_failure = NotFound | InvalidState | AvailExpired

datatype message_creation_result =
  MessageAvailable message_creation
| MessageUnavailable match_availability_failure
| IdempotencyConflict

record message_read =
  updated_count :: int
  mrd_participant_ids :: "uuid \<times> uuid"
  read_through_message_id :: uuid

datatype 'a match_command_result = Available 'a | Unavailable match_availability_failure

record match_end =
  me_participant_ids :: "uuid \<times> uuid"
  me_changed :: bool

datatype continuation_result =
  Cont_Pending | Cont_Confirmed | Cont_AlreadyConfirmed | Cont_AlreadyRecorded
| Cont_NotAvailableYet | Cont_NotFound | Cont_InvalidState | Cont_Expired
| Cont_QuotaReached | Cont_PlanChanged

record effective_plan =
  ep_plan :: string
  weekly_credits :: "int option"

record continuation_quota =
  q_plan :: string
  q_used :: int
  q_weekly_limit :: "int option"
  q_remaining :: "int option"
  q_weekly_credits :: int
  q_free_remaining :: int
  q_advertising_balance :: int
  q_advertising_remaining :: int
  q_reserved :: int
  q_advertising_stock_limit :: int

section \<open>Public projections\<close>

record public_message =
  pm_id :: uuid
  pm_match_id :: uuid
  pm_sender_id :: uuid
  pm_content :: utext
  pm_created_at :: string
  pm_read_at :: "string option"

definition public_message_from :: "(instant \<Rightarrow> string) \<Rightarrow> message_record \<Rightarrow> public_message" where
  "public_message_from fmt v =
     \<lparr>pm_id = msg_id v, pm_match_id = msg_match_id v, pm_sender_id = msg_sender_id v,
      pm_content = msg_content v, pm_created_at = fmt (msg_created_at v),
      pm_read_at = map_option fmt (msg_read_at v)\<rparr>"

record public_match =
  pub_id :: uuid
  pub_user1_id :: uuid
  pub_user2_id :: uuid
  pub_status :: match_status
  pub_archived :: bool
  pub_inactivity_expires_at :: "string option"
  pub_expires_at :: string
  pub_purge_after :: "string option"
  pub_created_at :: string
  pub_last_message_at :: "string option"

definition from_record_at ::
  "(instant \<Rightarrow> string) \<Rightarrow> match_record \<Rightarrow> instant \<Rightarrow> public_match" where
  "from_record_at fmt v now =
     \<lparr>pub_id = m_id v, pub_user1_id = user1_id v, pub_user2_id = user2_id v,
      pub_status = m_status v, pub_archived = is_archived_at v now,
      pub_inactivity_expires_at =
        (if m_status v = Confirmed then Some (fmt (m_expires_at v)) else None),
      pub_expires_at = fmt (m_expires_at v),
      pub_purge_after = map_option fmt (purge_after v),
      pub_created_at = fmt (m_created_at v),
      pub_last_message_at = map_option fmt (last_message_at v)\<rparr>"

section \<open>The UTC week\<close>

definition start_of_utc_week :: "instant \<Rightarrow> date" where
  "start_of_utc_week now = (let date = date_naive now in date - num_days_from_monday date)"

lemma start_of_utc_week_eq: "start_of_utc_week t = 7 * ((date_naive t + 3) div 7) - 3"
  by (simp add: start_of_utc_week_def num_days_from_monday_def Let_def
      minus_mod_eq_mult_div [symmetric])

lemma start_of_utc_week_monday: "num_days_from_monday (start_of_utc_week t) = 0"
  by (simp add: start_of_utc_week_eq num_days_from_monday_def)

lemma start_of_utc_week_le: "start_of_utc_week t \<le> date_naive t"
  by (simp add: start_of_utc_week_def num_days_from_monday_def Let_def)

lemma start_of_utc_week_gt: "date_naive t < start_of_utc_week t + 7"
  by (simp add: start_of_utc_week_def num_days_from_monday_def Let_def)

lemma start_of_utc_week_mono: "s \<le> t \<Longrightarrow> start_of_utc_week s \<le> start_of_utc_week t"
  using date_naive_mono [of s t] by (simp add: start_of_utc_week_eq zdiv_mono1)

end
