(* ===== verification/Notification_Domain.thy ===== *)
theory Notification_Domain
  imports Prelude
begin

text \<open>
  The notification intents of \<^verbatim>\<open>src/notifications/domain.rs\<close>: their kinds with wire names,
  Android channels and retention, the content-free JSON payload each carries, and the fields
  the enqueue statement binds.  A JSON object is an association list; the text of a UUID or of
  an instant in it is kept as the value it denotes, since both renderings are injective and the
  queries compare them for equality only.
\<close>

datatype notification_type =
  NT_NewMatch | NT_NewMessage | NT_MatchExpiring | NT_BillingPaymentFailed
| NT_ContinuationRequested | NT_ConversationContinued | NT_PhotosRevealed
| NT_FirstPeriodEnding | NT_DataRequestReplied | NT_NewSession

datatype notification_intent =
  NewMatch uuid
| NewMessage uuid uuid uuid
| MatchExpiring uuid instant
| ContinuationRequested uuid uuid
| ConversationContinued uuid
| PhotosRevealed uuid int
| FirstPeriodEnding uuid instant
| DataRequestReplied uuid string
| NewSession uuid
| BillingPaymentFailed string

fun kind :: "notification_intent \<Rightarrow> notification_type" where
  "kind (NewMatch _) = NT_NewMatch"
| "kind (NewMessage _ _ _) = NT_NewMessage"
| "kind (MatchExpiring _ _) = NT_MatchExpiring"
| "kind (ContinuationRequested _ _) = NT_ContinuationRequested"
| "kind (ConversationContinued _) = NT_ConversationContinued"
| "kind (PhotosRevealed _ _) = NT_PhotosRevealed"
| "kind (FirstPeriodEnding _ _) = NT_FirstPeriodEnding"
| "kind (DataRequestReplied _ _) = NT_DataRequestReplied"
| "kind (NewSession _) = NT_NewSession"
| "kind (BillingPaymentFailed _) = NT_BillingPaymentFailed"

fun notification_type_as_str :: "notification_type \<Rightarrow> string" where
  "notification_type_as_str NT_NewMatch = ''new_match''"
| "notification_type_as_str NT_NewMessage = ''new_message''"
| "notification_type_as_str NT_MatchExpiring = ''match_expiring''"
| "notification_type_as_str NT_BillingPaymentFailed = ''billing_payment_failed''"
| "notification_type_as_str NT_ContinuationRequested = ''continuation_requested''"
| "notification_type_as_str NT_ConversationContinued = ''conversation_continued''"
| "notification_type_as_str NT_PhotosRevealed = ''photos_revealed''"
| "notification_type_as_str NT_FirstPeriodEnding = ''first_period_ending''"
| "notification_type_as_str NT_DataRequestReplied = ''data_request_replied''"
| "notification_type_as_str NT_NewSession = ''new_session''"

definition notification_type_parse :: "string \<Rightarrow> notification_type option" where
  "notification_type_parse value =
     (if value = ''new_match'' then Some NT_NewMatch
      else if value = ''new_message'' then Some NT_NewMessage
      else if value = ''match_expiring'' then Some NT_MatchExpiring
      else if value = ''billing_payment_failed'' then Some NT_BillingPaymentFailed
      else if value = ''continuation_requested'' then Some NT_ContinuationRequested
      else if value = ''conversation_continued'' then Some NT_ConversationContinued
      else if value = ''photos_revealed'' then Some NT_PhotosRevealed
      else if value = ''first_period_ending'' then Some NT_FirstPeriodEnding
      else if value = ''data_request_replied'' then Some NT_DataRequestReplied
      else if value = ''new_session'' then Some NT_NewSession
      else None)"

fun channel_id :: "notification_type \<Rightarrow> string" where
  "channel_id NT_NewMessage = ''histae_messages''"
| "channel_id NT_NewMatch = ''histae_matches''"
| "channel_id NT_ContinuationRequested = ''histae_continuations''"
| "channel_id NT_ConversationContinued = ''histae_continuations''"
| "channel_id NT_PhotosRevealed = ''histae_photos''"
| "channel_id NT_FirstPeriodEnding = ''histae_reminders''"
| "channel_id NT_MatchExpiring = ''histae_reminders''"
| "channel_id NT_NewSession = ''histae_account''"
| "channel_id NT_DataRequestReplied = ''histae_account''"
| "channel_id NT_BillingPaymentFailed = ''histae_account''"

definition retention_seconds :: "notification_type \<Rightarrow> int" where
  "retention_seconds k =
     (let d = (if k \<in> {NT_NewMatch, NT_NewMessage, NT_MatchExpiring, NT_BillingPaymentFailed}
               then 90 else 1)
      in d * 24 * 60 * 60)"

datatype json = JUuid uuid | JInstant instant | JInt int | JStr string

type_synonym json_object = "(string \<times> json) list"

fun payload :: "notification_intent \<Rightarrow> json_object" where
  "payload (NewMatch m) = [(''match_id'', JUuid m)]"
| "payload (ConversationContinued m) = [(''match_id'', JUuid m)]"
| "payload (NewMessage m msg s) =
     [(''match_id'', JUuid m), (''message_id'', JUuid msg), (''sender_id'', JUuid s)]"
| "payload (MatchExpiring m t) = [(''match_id'', JUuid m), (''expires_at'', JInstant t)]"
| "payload (FirstPeriodEnding m t) = [(''match_id'', JUuid m), (''expires_at'', JInstant t)]"
| "payload (ContinuationRequested m a) = [(''match_id'', JUuid m), (''actor_id'', JUuid a)]"
| "payload (PhotosRevealed m v) = [(''match_id'', JUuid m), (''reveal_version'', JInt v)]"
| "payload (DataRequestReplied r s) = [(''request_id'', JUuid r), (''response_status'', JStr s)]"
| "payload (NewSession s) = [(''session_id'', JUuid s)]"
| "payload (BillingPaymentFailed _) = []"

fun billing_reference :: "notification_intent \<Rightarrow> string option" where
  "billing_reference (BillingPaymentFailed i) = Some i"
| "billing_reference _ = None"

fun intent_expires_at :: "notification_intent \<Rightarrow> instant option" where
  "intent_expires_at (MatchExpiring _ t) = Some t"
| "intent_expires_at (FirstPeriodEnding _ t) = Some t"
| "intent_expires_at _ = None"

fun excluded_session_id :: "notification_intent \<Rightarrow> uuid option" where
  "excluded_session_id (NewSession s) = Some s"
| "excluded_session_id _ = None"

text \<open>The match a notification belongs to (\<^verbatim>\<open>payload->>'match_id'\<close>).\<close>

definition payload_match :: "json_object \<Rightarrow> json option" where
  "payload_match p = map_of p ''match_id''"

lemma notification_type_round_trip [simp]:
  "notification_type_parse (notification_type_as_str k) = Some k"
  by (cases k) (simp_all add: notification_type_parse_def)

lemma retention_seconds_pos: "0 < retention_seconds k"
  by (simp add: retention_seconds_def Let_def)

end
