(* ===== verification/Outbox_Types.thy ===== *)
theory Outbox_Types
  imports Notification_Domain
begin

text \<open>
  The types of the outbox (\<^verbatim>\<open>src/outbox/types.rs\<close>): event types with their wire names, the
  status of a row, the results of a retry, of a dispatch and of a worker pass, and the claim
  window.
\<close>

datatype outbox_event_type =
  MobileOtpSend | PhotoDelete | NotificationPush | AccountErase
| BillingSubscriptionReconcile | BillingCustomerReconcile
| StoreNotification | StoreReconcile | StoreAcknowledge
| Unsupported string

definition event_type_parse :: "string \<Rightarrow> outbox_event_type" where
  "event_type_parse value =
     (if value = ''identity.otp.send'' then MobileOtpSend
      else if value = ''photo.delete'' then PhotoDelete
      else if value = ''notification.push'' then NotificationPush
      else if value = ''account.erase'' then AccountErase
      else if value = ''billing.subscription.reconcile'' then BillingSubscriptionReconcile
      else if value = ''billing.customer.reconcile'' then BillingCustomerReconcile
      else if value = ''billing.store.notification'' then StoreNotification
      else if value = ''billing.store.reconcile'' then StoreReconcile
      else if value = ''billing.store.acknowledge'' then StoreAcknowledge
      else Unsupported value)"

fun event_type_as_str :: "outbox_event_type \<Rightarrow> string" where
  "event_type_as_str MobileOtpSend = ''identity.otp.send''"
| "event_type_as_str PhotoDelete = ''photo.delete''"
| "event_type_as_str NotificationPush = ''notification.push''"
| "event_type_as_str AccountErase = ''account.erase''"
| "event_type_as_str BillingSubscriptionReconcile = ''billing.subscription.reconcile''"
| "event_type_as_str BillingCustomerReconcile = ''billing.customer.reconcile''"
| "event_type_as_str StoreNotification = ''billing.store.notification''"
| "event_type_as_str StoreReconcile = ''billing.store.reconcile''"
| "event_type_as_str StoreAcknowledge = ''billing.store.acknowledge''"
| "event_type_as_str (Unsupported value) = value"

datatype outbox_status = OS_Pending | OS_Processing | OS_Completed | OS_DeadLetter | OS_Discarded

definition outbox_status_parse :: "string \<Rightarrow> outbox_status option" where
  "outbox_status_parse value =
     (if value = ''pending'' then Some OS_Pending
      else if value = ''processing'' then Some OS_Processing
      else if value = ''completed'' then Some OS_Completed
      else if value = ''dead_letter'' then Some OS_DeadLetter
      else if value = ''discarded'' then Some OS_Discarded
      else None)"

record outbox_event =
  ev_id :: uuid
  ev_type :: outbox_event_type
  ev_aggregate_id :: uuid
  ev_payload :: json_object
  ev_status :: outbox_status
  ev_attempts :: nat

record new_outbox_event =
  new_type :: outbox_event_type
  new_aggregate_id :: uuid
  new_payload :: json_object

definition new_event_empty :: "outbox_event_type \<Rightarrow> uuid \<Rightarrow> new_outbox_event" where
  "new_event_empty ty agg = \<lparr>new_type = ty, new_aggregate_id = agg, new_payload = []\<rparr>"

datatype retry_result = RetryPending | RetryDeadLetter | RetryNotOwned

record outbox_worker_result =
  wr_claimed :: nat
  wr_completed :: nat
  wr_deferred :: nat
  wr_retried :: nat
  wr_dead_lettered :: nat
  wr_purged :: nat
  wr_purge_batches :: nat
  wr_work_remaining :: bool

datatype dispatch_outcome = DO_Completed | DO_Deferred

record dispatch_failure =
  df_code :: string
  df_permanent :: bool

definition df_transient :: "string \<Rightarrow> dispatch_failure" where
  "df_transient code = \<lparr>df_code = code, df_permanent = False\<rparr>"

definition df_make_permanent :: "string \<Rightarrow> dispatch_failure" where
  "df_make_permanent code = \<lparr>df_code = code, df_permanent = True\<rparr>"

record purge_result =
  pr_purged :: nat
  pr_batches :: nat
  pr_work_remaining :: bool

record claim_window =
  cw_now :: instant
  cw_stale_before :: instant

text \<open>Every stored wire name is kept: rendering a parsed name gives it back, so an unknown
  event type survives a round trip through the worker.\<close>

lemma event_type_as_str_parse [simp]: "event_type_as_str (event_type_parse v) = v"
  by (simp add: event_type_parse_def)

lemma event_type_parse_as_str:
  "(\<And>v. ty \<noteq> Unsupported v) \<Longrightarrow> event_type_parse (event_type_as_str ty) = ty"
  by (cases ty) (simp_all add: event_type_parse_def)

end
