(* ===== verification/Database.thy ===== *)
theory Database
  imports Match_Domain Outbox_Types
begin

text \<open>
  The tables the modelled components read and write (\<^verbatim>\<open>db/001_schema_postgres.sql\<close>), as one
  record; the errors of the database layer (\<^verbatim>\<open>src/infra/postgres.rs\<close>,
  \<^verbatim>\<open>src/matches/store.rs\<close>); the triggers that fire on those tables; and the account guards of
  \<^verbatim>\<open>src/identity/pg_guards.rs\<close>.

  A table that is only looked up by primary key is a map, so that the key is unique by
  construction; a table that is enumerated, counted or ordered is a list of rows.  Columns no
  modelled statement reads or writes are left out.  Transactions are run one after another:
  the row and advisory locks the statements take are therefore not visible in the state.
\<close>

section \<open>Errors\<close>

datatype constraint_kind = NotNull | ForeignKey | Unique | Check

datatype database_error =
  AccountUnavailable | Constraint constraint_kind | SerializationFailure | Deadlock | RowNotFound
| PoolTimedOut | ConnectionFailed | QueryFailed | TransactionBeginFailed | TransactionCommitFailed
| TransactionRollbackFailed | SchemaObjectsMissing

fun safe_code :: "database_error \<Rightarrow> string" where
  "safe_code AccountUnavailable = ''account_unavailable''"
| "safe_code (Constraint NotNull) = ''postgres_not_null_violation''"
| "safe_code (Constraint ForeignKey) = ''postgres_foreign_key_violation''"
| "safe_code (Constraint Unique) = ''postgres_unique_violation''"
| "safe_code (Constraint Check) = ''postgres_check_violation''"
| "safe_code SerializationFailure = ''postgres_serialization_failure''"
| "safe_code Deadlock = ''postgres_deadlock''"
| "safe_code RowNotFound = ''postgres_row_not_found''"
| "safe_code PoolTimedOut = ''postgres_pool_timeout''"
| "safe_code ConnectionFailed = ''postgres_connection_failed''"
| "safe_code QueryFailed = ''postgres_query_failed''"
| "safe_code TransactionBeginFailed = ''postgres_transaction_begin_failed''"
| "safe_code TransactionCommitFailed = ''postgres_transaction_commit_failed''"
| "safe_code TransactionRollbackFailed = ''postgres_transaction_rollback_failed''"
| "safe_code SchemaObjectsMissing = ''postgres_schema_objects_missing''"

datatype match_store_error =
  Blocked | ParticipantUnavailable | ContinuationExpired | PhotoRequired
| Database database_error

definition store_error_is_unique :: "match_store_error \<Rightarrow> bool" where
  "store_error_is_unique e \<longleftrightarrow> e = Database (Constraint Unique)"

fun store_error_display :: "match_store_error \<Rightarrow> string" where
  "store_error_display Blocked = ''match_blocked''"
| "store_error_display ParticipantUnavailable = ''participant_unavailable''"
| "store_error_display ContinuationExpired = ''match_expired''"
| "store_error_display PhotoRequired = ''photo_required''"
| "store_error_display (Database e) = safe_code e"

section \<open>Rows\<close>

record account =
  acc_role :: string
  is_banned :: bool
  deleted_at :: "instant option"
  discovery_paused :: bool
  is_review_account :: bool
  preferred_language :: string
  acc_created_at :: instant

record consent_row =
  con_user :: uuid
  con_type :: string
  con_version :: string
  con_granted :: bool
  con_withdrawn_at :: "instant option"

record match_row = match_record +
  photo_reveal_version :: int

record match_state_row =
  ms_match :: uuid
  ms_user :: uuid
  revealed :: bool
  continued :: bool

record chat_row = message_record +
  idempotency_key :: "uuid option"

record usage =
  used_count :: int
  free_used_count :: int

record wallet =
  advertising_credits :: int
  wallet_week :: date

datatype credit_source = Free | Advertising | Premium

record reservation =
  r_match :: uuid
  r_user :: uuid
  r_source :: credit_source
  r_week :: date

datatype billing_provider = AppStore | GooglePlay | Stripe

record subscription_row =
  sub_plan :: string
  sub_provider :: "billing_provider option"
  sub_status :: "string option"
  sub_period_ends_at :: "instant option"
  sub_updated_at :: instant

record store_subscription_row =
  ss_user :: "uuid option"
  ss_provider :: billing_provider
  ss_status :: string
  ss_starts_at :: instant
  ss_expires_at :: instant
  ss_superseded :: bool
  ss_verified_at :: instant

record photo_row =
  ph_id :: uuid
  ph_user :: uuid
  ph_ready :: bool

record report_row =
  rep_id :: uuid
  rep_match :: "uuid option"
  rep_created_at :: instant

record notification_row =
  n_id :: uuid
  n_user :: uuid
  n_type :: notification_type
  n_payload :: json_object
  n_read_at :: "instant option"
  n_created_at :: instant
  n_expires_at :: instant
  n_deduplication_key :: string
  n_billing_reference :: "string option"

record push_delivery_row =
  pd_id :: uuid
  pd_notification :: uuid
  pd_device :: uuid
  pd_session :: "uuid option"

record outbox_row =
  ob_id :: uuid
  ob_type :: string
  ob_aggregate_id :: uuid
  ob_payload :: json_object
  ob_status :: outbox_status
  ob_attempts :: nat
  ob_available_at :: instant
  ob_locked_at :: "instant option"
  ob_locked_by :: "uuid option"
  ob_last_error_code :: "string option"
  ob_created_at :: instant
  ob_processed_at :: "instant option"
  ob_dead_lettered_at :: "instant option"
  ob_resolved_at :: "instant option"
  ob_resolved_by :: "uuid option"
  ob_resolution_reason :: "utext option"

record device_row =
  dev_id :: uuid
  dev_user :: uuid
  dev_session :: "uuid option"

record session_row =
  ses_id :: uuid
  ses_user :: uuid
  ses_created_at :: instant
  ses_last_refreshed_at :: instant
  ses_expires_at :: instant
  ses_revoked_at :: "instant option"
  ses_revocation_reason :: "string option"

record notification_preference =
  pref_messages :: bool
  pref_new_matches :: bool
  pref_continuations :: bool
  pref_photos :: bool
  pref_reminders :: bool
  pref_account_security :: bool

record mute_row =
  muted :: bool
  muted_until :: "instant option"

record invoice_row =
  inv_id :: string
  inv_user :: uuid
  inv_status :: string
  inv_amount_remaining :: int

record data_request_row =
  dr_user :: uuid
  dr_status :: string
  dr_response :: "utext option"

record reward_intent_row =
  ri_id :: uuid
  ri_user :: uuid
  ri_ad_unit :: string
  ri_created_at :: instant
  ri_expires_at :: instant
  ri_completed_at :: "instant option"
  ri_credited_at :: "instant option"
  ri_cancelled_at :: "instant option"
  ri_transaction_hash :: "string option"

section \<open>The database\<close>

record db =
  user_account :: "uuid \<rightharpoonup> account"
  user_consent :: "consent_row list"
  user_block :: "(uuid \<times> uuid) list"
  user_photo :: "photo_row list"
  approved_photo :: "uuid list"
  user_report :: "report_row list"
  match_init :: "match_row list"
  match_state :: "match_state_row list"
  chat_message :: "chat_row list"
  continuation_usage :: "uuid \<times> date \<rightharpoonup> usage"
  continuation_wallet :: "uuid \<rightharpoonup> wallet"
  continuation_reservation :: "reservation list"
  advertising_reward_intent :: "reward_intent_row list"
  subscription_plan :: "string \<rightharpoonup> int option"
  user_subscription :: "uuid \<rightharpoonup> subscription_row"
  billing_store_subscription :: "store_subscription_row list"
  complimentary_premium_grant :: "uuid \<rightharpoonup> instant"
  billing_invoice :: "invoice_row list"
  data_subject_request :: "uuid \<rightharpoonup> data_request_row"
  device_token :: "device_row list"
  refresh_token_family :: "session_row list"
  user_notification_preference :: "uuid \<rightharpoonup> notification_preference"
  match_notification_preference :: "uuid \<times> uuid \<rightharpoonup> mute_row"
  notification :: "notification_row list"
  notification_push_delivery :: "push_delivery_row list"
  outbox_event :: "outbox_row list"

text \<open>What a transaction reads from outside the tables: \<^verbatim>\<open>now()\<close> (its start), the successive
  readings of \<^verbatim>\<open>clock_timestamp()\<close>, one per statement, the random identifiers of the
  notifications and of their delivery jobs, and the SHA-256 de-duplication digest of
  \<^verbatim>\<open>[type, source, user]\<close>.\<close>

datatype source_id = SUuid uuid | SUuidAt uuid int | SText string

record env =
  tx_now :: instant
  clk :: "nat \<Rightarrow> instant"
  new_v4 :: "nat \<Rightarrow> uuid"
  uuid_generate_v4 :: "nat \<Rightarrow> nat \<Rightarrow> uuid"
  sha256_hex :: "notification_type \<Rightarrow> source_id \<Rightarrow> uuid \<Rightarrow> string"

text \<open>The clock of a transaction never runs backwards and never shows an instant before
  \<open>t\<close>.\<close>

definition clock_from :: "instant \<Rightarrow> env \<Rightarrow> bool" where
  "clock_from t e \<longleftrightarrow> mono (clk e) \<and> t \<le> clk e 0"

lemma clock_fromD: "clock_from t e \<Longrightarrow> t \<le> clk e k"
  by (auto simp: clock_from_def mono_def intro: order_trans)

lemma clock_from_le: "clock_from t e \<Longrightarrow> i \<le> j \<Longrightarrow> clk e i \<le> clk e j"
  by (simp add: clock_from_def mono_def)

section \<open>Lookups shared by the statements\<close>

definition find_match :: "db \<Rightarrow> uuid \<Rightarrow> match_row option" where
  "find_match db i = find (\<lambda>m. m_id m = i) (match_init db)"

definition is_deleted :: "db \<Rightarrow> uuid \<Rightarrow> bool" where
  "is_deleted db u = (case user_account db u of Some a \<Rightarrow> deleted_at a \<noteq> None | None \<Rightarrow> False)"

definition live_account :: "db \<Rightarrow> uuid \<Rightarrow> bool" where
  "live_account db u =
     (case user_account db u of Some a \<Rightarrow> deleted_at a = None \<and> \<not> is_banned a | None \<Rightarrow> False)"

definition blocked_pair :: "db \<Rightarrow> uuid \<Rightarrow> uuid \<Rightarrow> bool" where
  "blocked_pair db a b \<longleftrightarrow> (a, b) \<in> set (user_block db) \<or> (b, a) \<in> set (user_block db)"

definition participant :: "('a) match_record_scheme \<Rightarrow> uuid \<Rightarrow> bool" where
  "participant m u \<longleftrightarrow> user1_id m = u \<or> user2_id m = u"

section \<open>Triggers\<close>

text \<open>\<^verbatim>\<open>fct_track_match_inactivity\<close>: the deadline of a confirmed match, on an update of its
  status or of its last message; \<open>t\<close> is the clock.\<close>

definition track_match_inactivity :: "instant \<Rightarrow> match_row \<Rightarrow> match_row \<Rightarrow> match_row" where
  "track_match_inactivity t old new =
     (if m_status new \<noteq> Confirmed then new
      else if m_status old \<noteq> Confirmed then new\<lparr>m_expires_at := t + days 30\<rparr>
      else if last_message_at new \<noteq> last_message_at old
      then (case last_message_at new of
              Some s \<Rightarrow> new\<lparr>m_expires_at := s + days 30\<rparr> | None \<Rightarrow> new)
      else new)"

text \<open>\<^verbatim>\<open>fct_require_live_account\<close> and \<^verbatim>\<open>fct_require_live_match\<close> raise
  \<^verbatim>\<open>account_unavailable\<close> when an account of the row, or of the row's match, is deleted.\<close>

definition require_live_account :: "uuid list \<Rightarrow> (db, database_error, unit) op" where
  "require_live_account us db =
     (if \<exists>u \<in> set us. is_deleted db u then (Inl AccountUnavailable, db) else (Inr (), db))"

definition require_live_match :: "uuid \<Rightarrow> (db, database_error, unit) op" where
  "require_live_match i db =
     (case find_match db i of
        Some m \<Rightarrow> require_live_account [user1_id m, user2_id m] db
      | None \<Rightarrow> (Inr (), db))"

definition update_match ::
  "instant \<Rightarrow> uuid \<Rightarrow> (match_row \<Rightarrow> match_row) \<Rightarrow> db \<Rightarrow> db" where
  "update_match t i f db =
     db\<lparr>match_init :=
        upd_where (\<lambda>m. m_id m = i) (\<lambda>m. track_match_inactivity t m (f m)) (match_init db)\<rparr>"

section \<open>Account guards\<close>

record legal_config =
  terms_version :: string
  privacy_version :: string
  sensitive_data_consent_version :: string
  location_consent_version :: string

text \<open>The consent rows the guard reads, and the set of their kinds.\<close>

definition current_consents :: "db \<Rightarrow> legal_config \<Rightarrow> uuid \<Rightarrow> string list" where
  "current_consents db legal u =
     remdups (map con_type (filter (\<lambda>c.
       con_user c = u \<and> con_granted c \<and> con_withdrawn_at c = None \<and>
       ((con_type c = ''terms_of_service_acceptance'' \<and> con_version c = terms_version legal) \<or>
        (con_type c = ''privacy_notice_acknowledgement'' \<and> con_version c = privacy_version legal)))
       (user_consent db)))"

definition account_eligible :: "db \<Rightarrow> legal_config option \<Rightarrow> uuid \<Rightarrow> account \<Rightarrow> bool" where
  "account_eligible db legal u a \<longleftrightarrow>
     \<not> is_banned a \<and> deleted_at a = None \<and>
     (case legal of
        Some l \<Rightarrow> acc_role a = ''user'' \<longrightarrow> length (current_consents db l u) = 2
      | None \<Rightarrow> True)"

definition lock_eligible_accounts ::
  "uuid list \<Rightarrow> legal_config option \<Rightarrow> (db, database_error, unit) op" where
  "lock_eligible_accounts users legal db =
     (if length (filter (\<lambda>u. user_account db u \<noteq> None) (remdups users)) \<noteq> length users
      then (Inl AccountUnavailable, db)
      else if \<forall>u \<in> set users.
           case user_account db u of Some a \<Rightarrow> account_eligible db legal u a | None \<Rightarrow> True
      then (Inr (), db)
      else (Inl AccountUnavailable, db))"

end
