(* ===== verification/Match_Access.thy ===== *)
theory Match_Access
  imports Database
begin

text \<open>
  \<^verbatim>\<open>src/matches/pg/access.rs\<close>: the gate every match command goes through.
  \<open>lock_available_match\<close> finds the match for a participant, refuses blocked or deleted
  participants, and moves an overdue match along its life cycle before it answers.  The life
  cycle itself is the step relation \<open>status_step\<close>.
\<close>

section \<open>The status life cycle\<close>

inductive status_step :: "match_status \<Rightarrow> match_status \<Rightarrow> bool" where
  open_window: "status_step Active AwaitingContinuation"
| confirm: "status_step AwaitingContinuation Confirmed"
| expire: "status_step AwaitingContinuation Expired"
| end_active: "status_step Active Ended"
| end_awaiting: "status_step AwaitingContinuation Ended"
| end_confirmed: "status_step Confirmed Ended"
| end_expired: "status_step Expired Ended"

code_pred status_step .

inductive_cases status_step_from: "status_step s s'"

inductive_simps status_step_simps [simp]:
  "status_step Active s" "status_step AwaitingContinuation s" "status_step Confirmed s"
  "status_step Expired s" "status_step Ended s"

abbreviation status_reaches :: "match_status \<Rightarrow> match_status \<Rightarrow> bool" where
  "status_reaches \<equiv> status_step\<^sup>*\<^sup>*"

fun status_rank :: "match_status \<Rightarrow> nat" where
  "status_rank Active = 0"
| "status_rank AwaitingContinuation = 1"
| "status_rank Confirmed = 2"
| "status_rank Expired = 2"
| "status_rank Ended = 3"

lemma status_step_rank: "status_step s s' \<Longrightarrow> status_rank s < status_rank s'"
  by (cases rule: status_step.cases) auto

lemma status_reaches_rank: "status_reaches s s' \<Longrightarrow> s = s' \<or> status_rank s < status_rank s'"
  by (induction rule: rtranclp_induct) (auto dest: status_step_rank)

lemma status_reaches_Ended [simp]: "status_reaches Ended s \<longleftrightarrow> s = Ended"
  by (auto dest: status_reaches_rank elim: status_rank.elims) (cases s; auto dest: status_reaches_rank)

lemma status_reaches_Confirmed [simp]:
  "status_reaches Confirmed s \<longleftrightarrow> s = Confirmed \<or> s = Ended"
proof
  assume "status_reaches Confirmed s"
  then show "s = Confirmed \<or> s = Ended"
    by (cases s) (auto dest!: status_reaches_rank)
qed auto

lemma status_reaches_Expired [simp]:
  "status_reaches Expired s \<longleftrightarrow> s = Expired \<or> s = Ended"
proof
  assume "status_reaches Expired s"
  then show "s = Expired \<or> s = Ended"
    by (cases s) (auto dest!: status_reaches_rank)
qed auto

section \<open>The gate\<close>

definition parse_status :: "string \<Rightarrow> match_store_error + match_status" where
  "parse_status v =
     (case status_parse v of Some s \<Rightarrow> Inr s | None \<Rightarrow> Inl (Database QueryFailed))"

text \<open>\<^verbatim>\<open>map_match_record\<close>: the nine columns of a row that make a \<^verbatim>\<open>MatchRecord\<close>.\<close>

definition map_match_record :: "match_row \<Rightarrow> match_record" where
  "map_match_record r =
     \<lparr>m_id = m_id r, user1_id = user1_id r, user2_id = user2_id r, m_status = m_status r,
      m_expires_at = m_expires_at r, purge_after = purge_after r,
      continuation_initiator_id = continuation_initiator_id r, m_created_at = m_created_at r,
      last_message_at = last_message_at r\<rparr>"

lemma map_match_record_simps [simp]:
  "m_id (map_match_record r) = m_id r" "user1_id (map_match_record r) = user1_id r"
  "user2_id (map_match_record r) = user2_id r" "m_status (map_match_record r) = m_status r"
  "m_expires_at (map_match_record r) = m_expires_at r"
  "purge_after (map_match_record r) = purge_after r"
  "last_message_at (map_match_record r) = last_message_at r"
  by (simp_all add: map_match_record_def)

definition delete_reservations :: "uuid \<Rightarrow> db \<Rightarrow> db" where
  "delete_reservations i db =
     db\<lparr>continuation_reservation := del_where (\<lambda>r. r_match r = i) (continuation_reservation db)\<rparr>"

text \<open>The locked row: the match, seen by one of its participants, with no block between them
  and neither account deleted.\<close>

definition visible_match :: "db \<Rightarrow> uuid \<Rightarrow> uuid \<Rightarrow> match_row option" where
  "visible_match db i u =
     (case find_match db i of
        None \<Rightarrow> None
      | Some m \<Rightarrow>
          if participant m u \<and> \<not> blocked_pair db (user1_id m) (user2_id m) \<and>
             \<not> is_deleted db (user1_id m) \<and> \<not> is_deleted db (user2_id m)
          then Some m else None)"

definition open_window_row :: "match_row \<Rightarrow> match_row" where
  "open_window_row m =
     m\<lparr>m_status := AwaitingContinuation, m_expires_at := m_expires_at m + hours 24\<rparr>"

definition lock_available_match ::
  "env \<Rightarrow> uuid \<Rightarrow> uuid \<Rightarrow> (db, match_store_error, match_record match_command_result) op" where
  "lock_available_match e i u db =
     (case visible_match db i u of
        None \<Rightarrow> (Inr (Unavailable NotFound), db)
      | Some row \<Rightarrow>
          let now = clk e 0 in
          if m_status row = Confirmed \<and> m_expires_at row \<le> now then
            (Inr (Unavailable AvailExpired),
             update_match now i (\<lambda>m. m\<lparr>m_status := Ended, purge_after := Some now\<rparr>) db)
          else
            let (row, db) =
              (if m_status row = Active \<and> m_expires_at row \<le> now
               then (open_window_row row, update_match now i open_window_row db)
               else (row, db)) in
            if m_status row = AwaitingContinuation \<and> m_expires_at row \<le> now then
              (Inr (Unavailable AvailExpired),
               delete_reservations i
                 (update_match now i
                    (\<lambda>m. m\<lparr>m_status := Expired,
                            purge_after := Some (now + days MATCH_PURGE_DAYS)\<rparr>) db))
            else if m_status row \<notin> {Active, AwaitingContinuation, Confirmed} then
              (Inr (Unavailable InvalidState), db)
            else (Inr (Available (map_match_record row)), db))"

section \<open>Updates of one match\<close>

lemma track_match_inactivity_simps [simp]:
  "m_id (track_match_inactivity t old new) = m_id new"
  "user1_id (track_match_inactivity t old new) = user1_id new"
  "user2_id (track_match_inactivity t old new) = user2_id new"
  "m_status (track_match_inactivity t old new) = m_status new"
  "purge_after (track_match_inactivity t old new) = purge_after new"
  "last_message_at (track_match_inactivity t old new) = last_message_at new"
  "m_created_at (track_match_inactivity t old new) = m_created_at new"
  "photo_reveal_version (track_match_inactivity t old new) = photo_reveal_version new"
  "m_status new \<noteq> Confirmed \<Longrightarrow> track_match_inactivity t old new = new"
  by (simp_all add: track_match_inactivity_def split: option.splits)

lemma find_match_update_same:
  "(\<And>m. m_id (f m) = m_id m) \<Longrightarrow>
   find_match (update_match t i f db) i =
     map_option (\<lambda>m. track_match_inactivity t m (f m)) (find_match db i)"
  by (simp add: find_match_def update_match_def find_upd_where_same)

lemma find_match_update_other:
  "(\<And>m. m_id (f m) = m_id m) \<Longrightarrow> j \<noteq> i \<Longrightarrow>
   find_match (update_match t i f db) j = find_match db j"
  by (simp add: find_match_def update_match_def find_upd_where_other)

lemma update_match_frame [simp]:
  "user_account (update_match t i f db) = user_account db"
  "user_block (update_match t i f db) = user_block db"
  "is_deleted (update_match t i f db) = is_deleted db"
  "blocked_pair (update_match t i f db) = blocked_pair db"
  "continuation_reservation (update_match t i f db) = continuation_reservation db"
  "continuation_usage (update_match t i f db) = continuation_usage db"
  "continuation_wallet (update_match t i f db) = continuation_wallet db"
  "match_state (update_match t i f db) = match_state db"
  "chat_message (update_match t i f db) = chat_message db"
  by (simp_all add: update_match_def is_deleted_def blocked_pair_def fun_eq_iff)

lemma find_match_delete_reservations [simp]:
  "find_match (delete_reservations i db) j = find_match db j"
  by (simp add: find_match_def delete_reservations_def)

lemma find_matchD: "find_match db i = Some m \<Longrightarrow> m \<in> set (match_init db) \<and> m_id m = i"
  by (auto simp: find_match_def dest: find_SomeD)

lemma open_window_row_simps [simp]:
  "m_id (open_window_row m) = m_id m" "user1_id (open_window_row m) = user1_id m"
  "user2_id (open_window_row m) = user2_id m"
  "m_status (open_window_row m) = AwaitingContinuation"
  "m_expires_at (open_window_row m) = m_expires_at m + hours 24"
  by (simp_all add: open_window_row_def)

lemma visible_matchD:
  "visible_match db i u = Some m \<Longrightarrow>
     find_match db i = Some m \<and> participant m u \<and> \<not> blocked_pair db (user1_id m) (user2_id m) \<and>
     \<not> is_deleted db (user1_id m) \<and> \<not> is_deleted db (user2_id m)"
  by (auto simp: visible_match_def split: option.splits if_splits)

section \<open>What the gate guarantees\<close>

text \<open>The life cycle between two databases that hold the same matches: the participants stay
  and the status only moves forward.\<close>

definition lifecycle :: "db \<Rightarrow> db \<Rightarrow> bool" where
  "lifecycle a b \<longleftrightarrow>
     (\<forall>i. rel_option (\<lambda>m m'. status_reaches (m_status m) (m_status m') \<and>
                user1_id m' = user1_id m \<and> user2_id m' = user2_id m)
            (find_match a i) (find_match b i))"

lemma lifecycle_same: "match_init b = match_init a \<Longrightarrow> lifecycle a b"
  by (simp add: lifecycle_def find_match_def option.rel_refl)

lemma lifecycle_refl [simp]: "lifecycle a a"
  by (simp add: lifecycle_same)

lemma lifecycle_trans: "lifecycle a b \<Longrightarrow> lifecycle b c \<Longrightarrow> lifecycle a c"
  unfolding lifecycle_def
proof (intro allI)
  fix i
  let ?R = "\<lambda>m m'. status_reaches (m_status m) (m_status m') \<and>
                user1_id m' = user1_id m \<and> user2_id m' = user2_id m"
  assume "\<forall>i. rel_option ?R (find_match a i) (find_match b i)"
    and "\<forall>i. rel_option ?R (find_match b i) (find_match c i)"
  then have "rel_option ?R (find_match a i) (find_match b i)"
    and "rel_option ?R (find_match b i) (find_match c i)"
    by blast+
  then show "rel_option ?R (find_match a i) (find_match c i)"
    by (auto elim!: option.rel_cases dest: rtranclp_trans)
qed

lemma lifecycle_find:
  "lifecycle a b \<Longrightarrow> find_match a i = Some m \<Longrightarrow>
   \<exists>m'. find_match b i = Some m' \<and> status_reaches (m_status m) (m_status m') \<and>
        user1_id m' = user1_id m \<and> user2_id m' = user2_id m"
  unfolding lifecycle_def by (auto elim!: allE [of _ i] simp: option_rel_Some1)

lemma lifecycle_update_match:
  assumes "\<And>m. m_id (f m) = m_id m \<and> user1_id (f m) = user1_id m \<and> user2_id (f m) = user2_id m"
    and "\<And>m. find_match db i = Some m \<Longrightarrow> status_reaches (m_status m) (m_status (f m))"
  shows "lifecycle db (update_match t i f db)"
  unfolding lifecycle_def
proof
  fix j
  show "rel_option (\<lambda>m m'. status_reaches (m_status m) (m_status m') \<and>
          user1_id m' = user1_id m \<and> user2_id m' = user2_id m)
          (find_match db j) (find_match (update_match t i f db) j)"
  proof (cases "j = i")
    case True
    then show ?thesis
      using assms by (cases "find_match db i") (simp_all add: find_match_update_same)
  next
    case False
    then show ?thesis
      using assms by (simp add: find_match_update_other option.rel_refl)
  qed
qed

lemma lifecycle_delete_reservations [simp]:
  "lifecycle a (delete_reservations i b) \<longleftrightarrow> lifecycle a b"
  by (simp add: lifecycle_def)

text \<open>The three databases the gate can leave, and when.\<close>

definition close_confirmed :: "instant \<Rightarrow> uuid \<Rightarrow> db \<Rightarrow> db" where
  "close_confirmed now i db =
     update_match now i (\<lambda>m. m\<lparr>m_status := Ended, purge_after := Some now\<rparr>) db"

definition expire_match :: "instant \<Rightarrow> uuid \<Rightarrow> db \<Rightarrow> db" where
  "expire_match now i db =
     delete_reservations i
       (update_match now i
          (\<lambda>m. m\<lparr>m_status := Expired, purge_after := Some (now + days MATCH_PURGE_DAYS)\<rparr>) db)"

inductive gate_outcome ::
  "instant \<Rightarrow> uuid \<Rightarrow> uuid \<Rightarrow> db \<Rightarrow> match_record match_command_result \<Rightarrow> db \<Rightarrow> bool"
  for now i u db where
  gate_missing: "visible_match db i u = None \<Longrightarrow>
     gate_outcome now i u db (Unavailable NotFound) db"
| gate_closed: "visible_match db i u = Some m \<Longrightarrow> m_status m = Confirmed \<Longrightarrow>
     m_expires_at m \<le> now \<Longrightarrow>
     gate_outcome now i u db (Unavailable AvailExpired) (close_confirmed now i db)"
| gate_opened: "visible_match db i u = Some m \<Longrightarrow> m_status m = Active \<Longrightarrow>
     m_expires_at m \<le> now \<Longrightarrow> now < m_expires_at m + hours 24 \<Longrightarrow>
     gate_outcome now i u db (Available (map_match_record (open_window_row m)))
       (update_match now i open_window_row db)"
| gate_lapsed: "visible_match db i u = Some m \<Longrightarrow> m_status m = Active \<Longrightarrow>
     m_expires_at m + hours 24 \<le> now \<Longrightarrow>
     gate_outcome now i u db (Unavailable AvailExpired)
       (expire_match now i (update_match now i open_window_row db))"
| gate_expired: "visible_match db i u = Some m \<Longrightarrow> m_status m = AwaitingContinuation \<Longrightarrow>
     m_expires_at m \<le> now \<Longrightarrow>
     gate_outcome now i u db (Unavailable AvailExpired) (expire_match now i db)"
| gate_dead: "visible_match db i u = Some m \<Longrightarrow> m_status m \<in> {Expired, Ended} \<Longrightarrow>
     gate_outcome now i u db (Unavailable InvalidState) db"
| gate_live: "visible_match db i u = Some m \<Longrightarrow>
     m_status m \<in> {Active, AwaitingContinuation, Confirmed} \<Longrightarrow> now < m_expires_at m \<Longrightarrow>
     gate_outcome now i u db (Available (map_match_record m)) db"

lemma lock_available_match_outcome:
  assumes "lock_available_match e i u db = (r, db')"
  shows "\<exists>res. r = Inr res \<and> gate_outcome (clk e 0) i u db res db'"
proof (cases "visible_match db i u")
  case None
  then show ?thesis
    using assms by (auto simp: lock_available_match_def intro: gate_missing)
next
  case (Some m)
  have "0 < hours 24"
    by simp
  then show ?thesis
    using assms Some
    by (cases "m_status m")
       (auto simp: lock_available_match_def Let_def close_confirmed_def [symmetric]
          expire_match_def [symmetric] not_le
        intro!: gate_closed gate_opened gate_lapsed gate_expired gate_dead gate_live
        split: if_splits)
qed

lemma gate_lifecycle: "gate_outcome now i u db res db' \<Longrightarrow> lifecycle db db'"
proof (induction rule: gate_outcome.induct)
  case (gate_lapsed m)
  have "lifecycle db (update_match now i open_window_row db)"
    using gate_lapsed by (intro lifecycle_update_match) (auto dest!: visible_matchD)
  moreover have "lifecycle (update_match now i open_window_row db)
      (expire_match now i (update_match now i open_window_row db))"
    unfolding expire_match_def using gate_lapsed
    by (simp, intro lifecycle_update_match)
       (auto simp: find_match_update_same dest!: visible_matchD)
  ultimately show ?case
    by (rule lifecycle_trans)
qed (auto simp: close_confirmed_def expire_match_def dest!: visible_matchD
     intro!: lifecycle_update_match)

text \<open>An available match is live, belongs to the caller, and is what the database holds.\<close>

lemma gate_available:
  assumes "gate_outcome now i u db (Available rec) db'"
  obtains m where "find_match db' i = Some m" "rec = map_match_record m" "participant m u"
    "m_status m \<in> {Active, AwaitingContinuation, Confirmed}" "now < m_expires_at m"
    "\<not> is_deleted db' (user1_id m)" "\<not> is_deleted db' (user2_id m)"
    "\<not> blocked_pair db' (user1_id m) (user2_id m)"
  using assms
proof (cases rule: gate_outcome.cases)
  case (gate_opened m)
  then show ?thesis
    using that [of "open_window_row m"]
    by (auto simp: find_match_update_same participant_def dest!: visible_matchD)
next
  case (gate_live m)
  then show ?thesis
    using that [of m] by (auto dest!: visible_matchD)
qed

end
