(* ===== verification/Credits.thy ===== *)
theory Credits
  imports Match_Access
begin

text \<open>
  \<^verbatim>\<open>src/matches/pg/credits.rs\<close> and \<^verbatim>\<open>effective_plan_on\<close> of \<^verbatim>\<open>src/matches/pg/matches.rs\<close>: the plan
  a user has at an instant (the SQL function \<^verbatim>\<open>effective_subscription_at\<close>), the weekly quota, the
  reservation of a credit, its debit and the credit granted for an advertisement.
\<close>

section \<open>The effective plan\<close>

record subscription_candidate =
  c_plan :: string
  c_provider :: "billing_provider option"
  c_status :: "string option"
  c_ends_at :: "instant option"
  c_access_granted :: bool
  c_updated_at :: instant

definition internal_candidate :: "instant \<Rightarrow> subscription_row \<Rightarrow> subscription_candidate" where
  "internal_candidate t s =
     \<lparr>c_plan = sub_plan s, c_provider = sub_provider s, c_status = sub_status s,
      c_ends_at = sub_period_ends_at s,
      c_access_granted =
        (sub_plan s = ''premium'' \<and>
         ((sub_provider s = None \<and>
             (case sub_period_ends_at s of None \<Rightarrow> True | Some x \<Rightarrow> x > t)) \<or>
          (sub_provider s = Some Stripe \<and>
             sub_status s \<in> {Some ''trialing'', Some ''active'', Some ''past_due''} \<and>
             (case sub_period_ends_at s of None \<Rightarrow> False | Some x \<Rightarrow> x > t)))),
      c_updated_at = sub_updated_at s\<rparr>"

definition store_candidate :: "instant \<Rightarrow> store_subscription_row \<Rightarrow> subscription_candidate" where
  "store_candidate t s =
     \<lparr>c_plan = ''premium'', c_provider = Some (ss_provider s), c_status = Some (ss_status s),
      c_ends_at = Some (ss_expires_at s),
      c_access_granted =
        (ss_starts_at s \<le> t \<and> ss_expires_at s > t \<and>
         (ss_status s \<in> {''active'', ''grace_period''} \<or>
          (ss_provider s = GooglePlay \<and> ss_status s = ''canceled''))),
      c_updated_at = ss_verified_at s\<rparr>"

text \<open>Complimentary access: a review account, or a gift of an operator, already started.\<close>

definition complimentary_start :: "db \<Rightarrow> uuid \<Rightarrow> instant option" where
  "complimentary_start db u =
     (case user_account db u of
        None \<Rightarrow> None
      | Some a \<Rightarrow>
          if is_banned a \<or> deleted_at a \<noteq> None then None
          else if is_review_account a
          then (if acc_role a = ''user'' \<or> complimentary_premium_grant db u \<noteq> None
                then Some (acc_created_at a) else None)
          else complimentary_premium_grant db u)"

definition complimentary_candidate :: "instant \<Rightarrow> subscription_candidate" where
  "complimentary_candidate starts =
     \<lparr>c_plan = ''premium'', c_provider = None, c_status = None, c_ends_at = None,
      c_access_granted = True, c_updated_at = starts\<rparr>"

definition subscription_candidates :: "db \<Rightarrow> uuid \<Rightarrow> instant \<Rightarrow> subscription_candidate list" where
  "subscription_candidates db u t =
     (case user_subscription db u of Some s \<Rightarrow> [internal_candidate t s] | None \<Rightarrow> []) @
     map (store_candidate t)
       (filter (\<lambda>s. ss_user s = Some u \<and> \<not> ss_superseded s) (billing_store_subscription db)) @
     (case complimentary_start db u of
        Some starts \<Rightarrow> if starts \<le> t then [complimentary_candidate starts] else []
      | None \<Rightarrow> [])"

definition open_statuses :: "string list" where
  "open_statuses =
     [''pending'', ''incomplete'', ''trialing'', ''active'', ''grace_period'', ''past_due'',
      ''on_hold'', ''paused'', ''unpaid'']"

fun provider_rank :: "billing_provider option \<Rightarrow> nat" where
  "provider_rank None = 0"
| "provider_rank (Some AppStore) = 1"
| "provider_rank (Some GooglePlay) = 2"
| "provider_rank (Some Stripe) = 3"

text \<open>The \<^verbatim>\<open>ORDER BY\<close> of the function, each key turned so that the preferred candidate is least.\<close>

definition candidate_key ::
  "subscription_candidate \<Rightarrow> bool \<times> nat \<times> bool \<times> (nat \<times> int) \<times> int \<times> nat" where
  "candidate_key c =
     (\<not> c_access_granted c,
      (case c_status c of None \<Rightarrow> 2 | Some s \<Rightarrow> if s \<in> set open_statuses then 0 else 1),
      c_plan c \<noteq> ''premium'',
      (case c_ends_at c of None \<Rightarrow> (0, 0) | Some x \<Rightarrow> (1, - x)),
      - c_updated_at c,
      provider_rank (c_provider c))"

definition effective_subscription_at ::
  "db \<Rightarrow> uuid \<Rightarrow> instant \<Rightarrow> subscription_candidate option" where
  "effective_subscription_at db u t =
     (case sort_key candidate_key (subscription_candidates db u t) of
        [] \<Rightarrow> None | c # _ \<Rightarrow> Some c)"

definition effective_plan_code :: "db \<Rightarrow> uuid \<Rightarrow> instant \<Rightarrow> string" where
  "effective_plan_code db u now =
     (case effective_subscription_at db u now of
        Some s \<Rightarrow>
          if c_access_granted s \<or> c_plan s = ''free'' \<or>
             (c_provider s = None \<and> (case c_ends_at s of None \<Rightarrow> True | Some x \<Rightarrow> x > now))
          then c_plan s else ''free''
      | None \<Rightarrow> ''free'')"

definition effective_plan_on ::
  "db \<Rightarrow> uuid \<Rightarrow> instant \<Rightarrow> match_store_error + effective_plan" where
  "effective_plan_on db u now =
     (let code = effective_plan_code db u now in
      case subscription_plan db code of
        None \<Rightarrow> Inl (Database RowNotFound)
      | Some limit \<Rightarrow> Inr \<lparr>ep_plan = code, weekly_credits = limit\<rparr>)"

section \<open>Quota\<close>

text \<open>A reservation holds a credit while its match waits for the second answer.\<close>

definition live_reservation :: "db \<Rightarrow> instant \<Rightarrow> reservation \<Rightarrow> bool" where
  "live_reservation db now r =
     (case find_match db (r_match r) of
        Some m \<Rightarrow> m_status m = AwaitingContinuation \<and> m_expires_at m > now
      | None \<Rightarrow> False)"

definition reserved_count ::
  "db \<Rightarrow> instant \<Rightarrow> uuid \<Rightarrow> (reservation \<Rightarrow> bool) \<Rightarrow> int" where
  "reserved_count db now u P =
     int (rows_where (\<lambda>r. r_user r = u \<and> live_reservation db now r \<and> P r)
       (continuation_reservation db))"

definition used_of :: "db \<Rightarrow> uuid \<Rightarrow> date \<Rightarrow> int" where
  "used_of db u w = (case continuation_usage db (u, w) of Some r \<Rightarrow> used_count r | None \<Rightarrow> 0)"

definition free_used_of :: "db \<Rightarrow> uuid \<Rightarrow> date \<Rightarrow> int" where
  "free_used_of db u w =
     (case continuation_usage db (u, w) of Some r \<Rightarrow> free_used_count r | None \<Rightarrow> 0)"

definition balance_of :: "db \<Rightarrow> uuid \<Rightarrow> date \<Rightarrow> int" where
  "balance_of db u w =
     (case continuation_wallet db u of
        Some r \<Rightarrow> if wallet_week r = w then advertising_credits r else 0
      | None \<Rightarrow> 0)"

definition quota_on ::
  "db \<Rightarrow> uuid \<Rightarrow> instant \<Rightarrow> match_store_error + continuation_quota" where
  "quota_on db u now =
     (case effective_plan_on db u now of
        Inl e \<Rightarrow> Inl e
      | Inr plan \<Rightarrow>
          let week = start_of_utc_week now;
              used = used_of db u week;
              free_used = free_used_of db u week;
              balance = balance_of db u week;
              reserved = reserved_count db now u
                (\<lambda>r. r_source r \<noteq> Premium \<and> (r_source r \<noteq> Advertising \<or> r_week r = week));
              free_reserved = reserved_count db now u (\<lambda>r. r_source r = Free \<and> r_week r = week);
              ad_reserved =
                reserved_count db now u (\<lambda>r. r_source r = Advertising \<and> r_week r = week)
          in
          case weekly_credits plan of
            None \<Rightarrow>
              Inr \<lparr>q_plan = ep_plan plan, q_used = 0, q_weekly_limit = None, q_remaining = None,
                   q_weekly_credits = 0, q_free_remaining = 0, q_advertising_balance = balance,
                   q_advertising_remaining = 0, q_reserved = reserved,
                   q_advertising_stock_limit = ADVERTISING_STOCK_LIMIT\<rparr>
          | Some limit \<Rightarrow>
              let included = min limit FREE_WEEKLY_CREDITS;
                  free_remaining = max (included - free_used - free_reserved) 0;
                  advertising_remaining = max (balance - ad_reserved) 0
              in
              Inr \<lparr>q_plan = ep_plan plan, q_used = used,
                   q_weekly_limit = Some FREE_WEEKLY_CONTINUATION_LIMIT,
                   q_remaining = Some (min (free_remaining + advertising_remaining)
                     (max (FREE_WEEKLY_CONTINUATION_LIMIT - used - reserved) 0)),
                   q_weekly_credits = included, q_free_remaining = free_remaining,
                   q_advertising_balance = balance,
                   q_advertising_remaining = advertising_remaining, q_reserved = reserved,
                   q_advertising_stock_limit = ADVERTISING_STOCK_LIMIT\<rparr>)"

section \<open>Reserve, debit, grant\<close>

text \<open>\<^verbatim>\<open>INSERT INTO continuation_reservation\<close>: primary key, foreign key and the live-match
  trigger.\<close>

definition insert_reservation :: "reservation \<Rightarrow> (db, database_error, unit) op" where
  "insert_reservation r =
     then_op (require_live_match (r_match r))
       (\<lambda>db. if \<exists>x \<in> set (continuation_reservation db).
                  r_match x = r_match r \<and> r_user x = r_user r
              then (Inl (Constraint Unique), db)
              else if find_match db (r_match r) = None \<or> user_account db (r_user r) = None
              then (Inl (Constraint ForeignKey), db)
              else (Inr (), db\<lparr>continuation_reservation := continuation_reservation db @ [r]\<rparr>))"

definition reserve_source :: "continuation_quota \<Rightarrow> credit_source option" where
  "reserve_source q =
     (if q_weekly_limit q = None then Some Premium
      else if (case q_remaining q of Some n \<Rightarrow> n | None \<Rightarrow> 0) = 0 then None
      else if q_free_remaining q > 0 then Some Free
      else Some Advertising)"

definition reserve :: "uuid \<Rightarrow> uuid \<Rightarrow> instant \<Rightarrow> (db, match_store_error, bool) op" where
  "reserve i u now =
     bind_op (lift_result (\<lambda>db. quota_on db u now)) (\<lambda>quota.
       case reserve_source quota of
         None \<Rightarrow> ok False
       | Some source \<Rightarrow>
           then_op (map_err Database (insert_reservation
             \<lparr>r_match = i, r_user = u, r_source = source, r_week = start_of_utc_week now\<rparr>))
           (ok True))"

definition bump_usage :: "uuid \<Rightarrow> date \<Rightarrow> usage \<Rightarrow> (usage \<Rightarrow> usage) \<Rightarrow> db \<Rightarrow> db" where
  "bump_usage u w initial f db =
     db\<lparr>continuation_usage := (continuation_usage db)((u, w) \<mapsto>
        (case continuation_usage db (u, w) of Some r \<Rightarrow> f r | None \<Rightarrow> initial))\<rparr>"

text \<open>The wallet update touches one row when the balance of that week is positive; its trigger
  refuses a deleted account.\<close>

definition debit_wallet :: "uuid \<Rightarrow> date \<Rightarrow> (db, match_store_error, unit) op" where
  "debit_wallet u w db =
     (case continuation_wallet db u of
        Some r \<Rightarrow>
          if wallet_week r = w \<and> advertising_credits r > 0
          then if is_deleted db u then (Inl (Database AccountUnavailable), db)
               else (Inr (), db\<lparr>continuation_wallet := (continuation_wallet db)(u \<mapsto>
                       r\<lparr>advertising_credits := advertising_credits r - 1\<rparr>)\<rparr>)
          else (Inl (Database QueryFailed), db)
      | None \<Rightarrow> (Inl (Database QueryFailed), db))"

definition debit ::
  "uuid \<Rightarrow> credit_source \<Rightarrow> date \<Rightarrow> instant \<Rightarrow> (db, match_store_error, unit) op" where
  "debit u source reserved_week now =
     (if source = Premium then ok ()
      else
        then_op
          (modify (bump_usage u (start_of_utc_week now) \<lparr>used_count = 1, free_used_count = 0\<rparr>
             (\<lambda>r. r\<lparr>used_count := used_count r + 1\<rparr>)))
          (if source = Free
           then modify (bump_usage u reserved_week \<lparr>used_count = 0, free_used_count = 1\<rparr>
                  (\<lambda>r. r\<lparr>free_used_count := free_used_count r + 1\<rparr>))
           else debit_wallet u reserved_week))"

definition grant_advertising_credit :: "uuid \<Rightarrow> instant \<Rightarrow> (db, database_error, bool) op" where
  "grant_advertising_credit u now db =
     (let week = start_of_utc_week now;
          put = (\<lambda>r. (Inr True, db\<lparr>continuation_wallet := (continuation_wallet db)(u \<mapsto> r)\<rparr>))
      in
      if is_deleted db u then (Inl AccountUnavailable, db)
      else case continuation_wallet db u of
        None \<Rightarrow>
          if user_account db u = None then (Inl (Constraint ForeignKey), db)
          else put \<lparr>advertising_credits = 1, wallet_week = week\<rparr>
      | Some r \<Rightarrow>
          if wallet_week r < week then put \<lparr>advertising_credits = 1, wallet_week = week\<rparr>
          else if wallet_week r = week \<and> advertising_credits r < ADVERTISING_STOCK_LIMIT
          then put \<lparr>advertising_credits = advertising_credits r + 1, wallet_week = week\<rparr>
          else (Inr False, db))"

end
