(* ===== verification/Notifications.thy ===== *)
theory Notifications
  imports Database
begin

text \<open>
  \<^verbatim>\<open>src/notifications/enqueue.rs\<close> and \<^verbatim>\<open>src/notifications/eligibility.rs\<close>: the single statement
  that stores an inbox notification, one outbox job per eligible device and the delivery
  references, on the caller's transaction.  \<open>k\<close> numbers the calls of one transaction and \<open>t\<close> is
  the reading of the clock in this statement.
\<close>

section \<open>Eligibility\<close>

definition billing_notification_eligible :: "db \<Rightarrow> uuid \<Rightarrow> notification_intent \<Rightarrow> bool" where
  "billing_notification_eligible db u i \<longleftrightarrow>
     kind i = NT_BillingPaymentFailed \<and>
     (\<exists>v \<in> set (billing_invoice db). Some (inv_id v) = billing_reference i \<and> inv_user v = u \<and>
        inv_status v = ''open'' \<and> inv_amount_remaining v > 0)"

definition session_live :: "db \<Rightarrow> instant \<Rightarrow> uuid \<Rightarrow> bool" where
  "session_live db t s =
     (\<exists>f \<in> set (refresh_token_family db).
        ses_id f = s \<and> ses_revoked_at f = None \<and> ses_expires_at f > t)"

text \<open>A device without a session counts as signed in.\<close>

definition device_session_live :: "db \<Rightarrow> instant \<Rightarrow> device_row \<Rightarrow> bool" where
  "device_session_live db t d =
     (case dev_session d of None \<Rightarrow> True | Some s \<Rightarrow> session_live db t s)"

fun account_notification_eligible ::
  "db \<Rightarrow> instant \<Rightarrow> uuid \<Rightarrow> notification_intent \<Rightarrow> bool" where
  "account_notification_eligible db t u (DataRequestReplied r st) =
     (case data_subject_request db r of
        Some q \<Rightarrow> dr_user q = u \<and> dr_status q = st \<and>
          st \<in> {''in_progress'', ''completed'', ''rejected''} \<and>
          (case dr_response q of Some txt \<Rightarrow> (\<exists>c \<in> set txt. c \<noteq> 32) | None \<Rightarrow> False)
      | None \<Rightarrow> False)"
| "account_notification_eligible db t u (NewSession s) =
     ((\<exists>f \<in> set (refresh_token_family db).
         ses_id f = s \<and> ses_user f = u \<and> ses_revoked_at f = None \<and> ses_expires_at f > t) \<and>
      (\<exists>d \<in> set (device_token db).
         dev_user d = u \<and> dev_session d \<noteq> Some s \<and> device_session_live db t d))"
| "account_notification_eligible db t u _ = False"

definition match_notification_types :: "notification_type list" where
  "match_notification_types =
     [NT_NewMatch, NT_NewMessage, NT_MatchExpiring, NT_ContinuationRequested,
      NT_ConversationContinued, NT_PhotosRevealed, NT_FirstPeriodEnding]"

definition notification_eligible ::
  "db \<Rightarrow> instant \<Rightarrow> uuid \<Rightarrow> notification_intent \<Rightarrow> bool" where
  "notification_eligible db t u i \<longleftrightarrow>
     kind i \<in> set match_notification_types \<or>
     billing_notification_eligible db u i \<or> account_notification_eligible db t u i"

fun preference_allows :: "notification_preference \<Rightarrow> notification_type \<Rightarrow> bool" where
  "preference_allows p NT_NewMessage = pref_messages p"
| "preference_allows p NT_NewMatch = pref_new_matches p"
| "preference_allows p NT_ContinuationRequested = pref_continuations p"
| "preference_allows p NT_ConversationContinued = pref_continuations p"
| "preference_allows p NT_PhotosRevealed = pref_photos p"
| "preference_allows p NT_FirstPeriodEnding = pref_reminders p"
| "preference_allows p NT_MatchExpiring = pref_reminders p"
| "preference_allows p _ = pref_account_security p"

definition mute_active :: "mute_row \<Rightarrow> instant \<Rightarrow> bool" where
  "mute_active r t \<longleftrightarrow>
     muted r \<and> (case muted_until r of None \<Rightarrow> True | Some e \<Rightarrow> e > t)"

definition push_preferences_eligible ::
  "db \<Rightarrow> instant \<Rightarrow> uuid \<Rightarrow> notification_intent \<Rightarrow> bool" where
  "push_preferences_eligible db t u i \<longleftrightarrow>
     (case user_notification_preference db u of
        Some p \<Rightarrow> preference_allows p (kind i) | None \<Rightarrow> True) \<and>
     \<not> (case payload_match (payload i) of
          Some (JUuid m) \<Rightarrow>
            (case match_notification_preference db (m, u) of
               Some r \<Rightarrow> mute_active r t | None \<Rightarrow> False)
        | _ \<Rightarrow> False)"

section \<open>Enqueue\<close>

record prepared_notification =
  notification_id :: uuid
  deduplication_key :: string

definition prepare_notification ::
  "env \<Rightarrow> nat \<Rightarrow> uuid \<Rightarrow> source_id \<Rightarrow> notification_intent \<Rightarrow> prepared_notification" where
  "prepare_notification e k u src i =
     \<lparr>notification_id = new_v4 e k, deduplication_key = sha256_hex e (kind i) src u\<rparr>"

text \<open>\<^verbatim>\<open>chk_notification_billing_context\<close>: the reference of an invoice is \<^verbatim>\<open>in_\<close> and one or more
  ASCII letters or digits.\<close>

definition ascii_alnum :: "char \<Rightarrow> bool" where
  "ascii_alnum c \<longleftrightarrow>
     (let n = (of_char c :: nat) in
      (48 \<le> n \<and> n \<le> 57) \<or> (65 \<le> n \<and> n \<le> 90) \<or> (97 \<le> n \<and> n \<le> 122))"

definition billing_context_ok :: "notification_intent \<Rightarrow> bool" where
  "billing_context_ok i =
     (case billing_reference i of
        None \<Rightarrow> True
      | Some r \<Rightarrow> take 3 r = ''in_'' \<and> drop 3 r \<noteq> [] \<and> list_all ascii_alnum (drop 3 r))"

definition new_notification ::
  "env \<Rightarrow> instant \<Rightarrow> prepared_notification \<Rightarrow> uuid \<Rightarrow> notification_intent \<Rightarrow> notification_row" where
  "new_notification e t p u i =
     \<lparr>n_id = notification_id p, n_user = u, n_type = kind i, n_payload = payload i,
      n_read_at = None, n_created_at = tx_now e,
      n_expires_at =
        (case intent_expires_at i of
           Some x \<Rightarrow> x | None \<Rightarrow> t + seconds (retention_seconds (kind i))),
      n_deduplication_key = deduplication_key p, n_billing_reference = billing_reference i\<rparr>"

definition push_targets :: "db \<Rightarrow> instant \<Rightarrow> uuid \<Rightarrow> notification_intent \<Rightarrow> device_row list" where
  "push_targets db t u i =
     filter (\<lambda>d. dev_user d = u \<and> device_session_live db t d \<and>
               (case excluded_session_id i of None \<Rightarrow> True | Some s \<Rightarrow> dev_session d \<noteq> Some s) \<and>
               push_preferences_eligible db t u i) (device_token db)"

text \<open>\<^verbatim>\<open>INSERT INTO outbox_event (id, event_type, aggregate_id)\<close> with the defaults of the
  table.\<close>

definition outbox_defaults :: "instant \<Rightarrow> uuid \<Rightarrow> string \<Rightarrow> uuid \<Rightarrow> json_object \<Rightarrow> outbox_row" where
  "outbox_defaults now i ty agg p =
     \<lparr>ob_id = i, ob_type = ty, ob_aggregate_id = agg, ob_payload = p, ob_status = OS_Pending,
      ob_attempts = 0, ob_available_at = now, ob_locked_at = None, ob_locked_by = None,
      ob_last_error_code = None, ob_created_at = now, ob_processed_at = None,
      ob_dead_lettered_at = None, ob_resolved_at = None, ob_resolved_by = None,
      ob_resolution_reason = None\<rparr>"

definition push_job :: "env \<Rightarrow> uuid \<Rightarrow> outbox_row" where
  "push_job e i = outbox_defaults (tx_now e) i ''notification.push'' i []"

definition push_jobs :: "env \<Rightarrow> nat \<Rightarrow> nat \<Rightarrow> outbox_row list" where
  "push_jobs e k n = map (\<lambda>j. push_job e (uuid_generate_v4 e k j)) [0..<n]"

definition push_deliveries :: "env \<Rightarrow> nat \<Rightarrow> uuid \<Rightarrow> device_row list \<Rightarrow> push_delivery_row list" where
  "push_deliveries e k nid ds =
     map (\<lambda>(j, d). \<lparr>pd_id = uuid_generate_v4 e k j, pd_notification = nid,
                    pd_device = dev_id d, pd_session = dev_session d\<rparr>)
       (enumerate 0 ds)"

text \<open>The primary key and the key \<^verbatim>\<open>(event_type, aggregate_id)\<close> of the outbox.\<close>

definition outbox_keys_free :: "outbox_row list \<Rightarrow> outbox_row list \<Rightarrow> bool" where
  "outbox_keys_free new rows \<longleftrightarrow>
     distinct (map ob_id new) \<and> distinct (map (\<lambda>r. (ob_type r, ob_aggregate_id r)) new) \<and>
     (\<forall>n \<in> set new. \<forall>r \<in> set rows.
        ob_id r \<noteq> ob_id n \<and> (ob_type r, ob_aggregate_id r) \<noteq> (ob_type n, ob_aggregate_id n))"

definition enqueue_notification ::
  "env \<Rightarrow> nat \<Rightarrow> instant \<Rightarrow> uuid \<Rightarrow> source_id \<Rightarrow> notification_intent \<Rightarrow>
   (db, database_error, unit) op" where
  "enqueue_notification e k t u src i db =
     (let p = prepare_notification e k u src i;
          ds = push_targets db t u i;
          jobs = push_jobs e k (length ds)
      in
      if \<not> live_account db u \<or> \<not> notification_eligible db t u i then (Inr (), db)
      else if \<not> billing_context_ok i then (Inl (Constraint Check), db)
      else if \<exists>n \<in> set (notification db). n_deduplication_key n = deduplication_key p
      then (Inr (), db)
      else if (\<exists>n \<in> set (notification db). n_id n = notification_id p) \<or>
              \<not> outbox_keys_free jobs (outbox_event db)
      then (Inl (Constraint Unique), db)
      else (Inr (), db\<lparr>notification := notification db @ [new_notification e t p u i],
                      outbox_event := outbox_event db @ jobs,
                      notification_push_delivery := notification_push_delivery db @
                        push_deliveries e k (notification_id p) ds\<rparr>))"

section \<open>Frame and effect of an enqueue\<close>

text \<open>Every table but the three of the statement is left alone.\<close>

definition same_but_notifications :: "db \<Rightarrow> db \<Rightarrow> bool" where
  "same_but_notifications a b \<longleftrightarrow>
     b = a\<lparr>notification := notification b, outbox_event := outbox_event b,
           notification_push_delivery := notification_push_delivery b\<rparr>"

lemma same_but_notifications_refl [simp]: "same_but_notifications a a"
  by (simp add: same_but_notifications_def)

lemma enqueue_notification_frame:
  "enqueue_notification e k t u src i db = (r, db') \<Longrightarrow> same_but_notifications db db'"
  by (auto simp: enqueue_notification_def same_but_notifications_def Let_def split: if_splits)

lemma same_but_notificationsD:
  assumes "same_but_notifications a b"
  shows "match_init b = match_init a" "match_state b = match_state a"
    "continuation_reservation b = continuation_reservation a"
    "continuation_usage b = continuation_usage a"
    "continuation_wallet b = continuation_wallet a"
    "chat_message b = chat_message a" "user_account b = user_account a"
    "user_block b = user_block a" "subscription_plan b = subscription_plan a"
    "user_subscription b = user_subscription a"
    "billing_store_subscription b = billing_store_subscription a"
    "complimentary_premium_grant b = complimentary_premium_grant a"
    "advertising_reward_intent b = advertising_reward_intent a"
    "user_report b = user_report a"
  by (subst assms [unfolded same_but_notifications_def], simp)+

end
