(* ===== verification/Continuation.thy ===== *)
theory Continuation
  imports Credits Notifications
begin

text \<open>
  \<^verbatim>\<open>src/matches/pg/continuation.rs\<close>: the agreement of one participant to continue a match, from
  the gate to the confirmation that debits both.  The readings of the clock are numbered in the
  order of the statements: 0 the gate, 1 the decision, 2 a choice withdrawn before the
  reservation, 3 a choice withdrawn while the charges are checked, 4 and 5 the waiting
  notification, 6 the confirmation, 7 and 8 its notifications.
\<close>

section \<open>Choices and their notification\<close>

definition other_participant :: "db \<Rightarrow> uuid \<Rightarrow> uuid \<Rightarrow> uuid option" where
  "other_participant db i actor =
     (case find_match db i of
        Some m \<Rightarrow>
          if participant m actor
          then Some (if user1_id m = actor then user2_id m else user1_id m) else None
      | None \<Rightarrow> None)"

definition is_choice_notification :: "uuid \<Rightarrow> uuid \<Rightarrow> instant \<Rightarrow> notification_row \<Rightarrow> bool" where
  "is_choice_notification i actor t n \<longleftrightarrow>
     n_type n = NT_ContinuationRequested \<and>
     map_of (n_payload n) ''match_id'' = Some (JUuid i) \<and>
     map_of (n_payload n) ''actor_id'' = Some (JUuid actor) \<and> n_expires_at n > t"

definition expire_choice_notification :: "instant \<Rightarrow> uuid \<Rightarrow> uuid \<Rightarrow> db \<Rightarrow> db" where
  "expire_choice_notification t i actor db =
     (case other_participant db i actor of
        None \<Rightarrow> db
      | Some u \<Rightarrow>
          db\<lparr>notification :=
            upd_where (\<lambda>n. n_user n = u \<and> is_choice_notification i actor t n)
              (\<lambda>n. n\<lparr>n_expires_at := t\<rparr>) (notification db)\<rparr>)"

text \<open>\<^verbatim>\<open>UPDATE match_state SET .. WHERE match_id=$1 AND user_id=$2\<close>, with its live-match
  trigger when a row is touched.\<close>

definition is_state_of :: "uuid \<Rightarrow> uuid \<Rightarrow> match_state_row \<Rightarrow> bool" where
  "is_state_of i u s \<longleftrightarrow> ms_match s = i \<and> ms_user s = u"

definition update_match_state ::
  "uuid \<Rightarrow> uuid \<Rightarrow> (match_state_row \<Rightarrow> match_state_row) \<Rightarrow> (db, database_error, unit) op" where
  "update_match_state i u f db =
     (if list_ex (is_state_of i u) (match_state db)
      then then_op (require_live_match i)
        (modify (\<lambda>db. db\<lparr>match_state := upd_where (is_state_of i u) f (match_state db)\<rparr>)) db
      else (Inr (), db))"

definition set_continued :: "uuid \<Rightarrow> uuid \<Rightarrow> bool \<Rightarrow> (db, match_store_error, unit) op" where
  "set_continued i u b = map_err Database (update_match_state i u (\<lambda>s. s\<lparr>continued := b\<rparr>))"

definition delete_choice :: "uuid \<Rightarrow> uuid \<Rightarrow> db \<Rightarrow> db" where
  "delete_choice i u db =
     db\<lparr>continuation_reservation :=
        del_where (\<lambda>r. r_match r = i \<and> r_user r = u) (continuation_reservation db)\<rparr>"

definition clear_choice :: "instant \<Rightarrow> uuid \<Rightarrow> uuid \<Rightarrow> (db, match_store_error, unit) op" where
  "clear_choice t i u =
     then_op (modify (delete_choice i u))
       (then_op (modify (expire_choice_notification t i u)) (set_continued i u False))"

definition waiting_notice_needed :: "db \<Rightarrow> uuid \<Rightarrow> uuid \<Rightarrow> uuid \<Rightarrow> bool" where
  "waiting_notice_needed db i actor recipient \<longleftrightarrow>
     list_ex (\<lambda>s. is_state_of i actor s \<and> continued s) (match_state db) \<and>
     list_ex (\<lambda>s. is_state_of i recipient s \<and> \<not> continued s) (match_state db)"

definition notify_waiting ::
  "env \<Rightarrow> uuid \<Rightarrow> uuid \<Rightarrow> uuid \<Rightarrow> uuid \<Rightarrow> (db, match_store_error, unit) op" where
  "notify_waiting e i actor first second db =
     (let recipient = (if actor = first then second else first) in
      if waiting_notice_needed db i actor recipient
      then then_op (modify (expire_choice_notification (clk e 4) i actor))
             (map_err Database (enqueue_notification e 1 (clk e 5) recipient
                (SUuid (new_v4 e 0)) (ContinuationRequested i actor))) db
      else (Inr (), db))"

section \<open>Charges\<close>

type_synonym charge = "uuid \<times> credit_source \<times> date"

text \<open>\<open>None\<close> stands for the early \<^verbatim>\<open>return Ok(ContinuationResult::Pending)\<close> of the loop.\<close>

definition withdraw_and_wait ::
  "env \<Rightarrow> uuid \<Rightarrow> uuid \<Rightarrow> match_record \<Rightarrow> uuid \<Rightarrow> (db, match_store_error, charge list option) op"
  where
  "withdraw_and_wait e i user rec holder =
     then_op (clear_choice (clk e 3) i holder)
       (then_op (notify_waiting e i user (user1_id rec) (user2_id rec)) (ok None))"

fun collect_charges ::
  "env \<Rightarrow> uuid \<Rightarrow> uuid \<Rightarrow> match_record \<Rightarrow> instant \<Rightarrow> reservation list \<Rightarrow>
   (db, match_store_error, charge list option) op" where
  "collect_charges e i user rec now [] = ok (Some [])"
| "collect_charges e i user rec now (r # rs) =
     (if r_source r = Advertising \<and> r_week r \<noteq> start_of_utc_week now
      then withdraw_and_wait e i user rec (r_user r)
      else bind_op (lift_result (\<lambda>db. quota_on db (r_user r) now)) (\<lambda>quota.
        if q_weekly_limit quota \<noteq> None \<and>
           (r_source r = Premium \<or> q_used quota \<ge> FREE_WEEKLY_CONTINUATION_LIMIT)
        then withdraw_and_wait e i user rec (r_user r)
        else
          let c = (r_user r, (if q_weekly_limit quota = None then Premium else r_source r), r_week r)
          in bind_op (collect_charges e i user rec now rs) (\<lambda>charges.
               ok (map_option (Cons c) charges))))"

fun debit_all :: "charge list \<Rightarrow> instant \<Rightarrow> (db, match_store_error, unit) op" where
  "debit_all [] now = ok ()"
| "debit_all ((u, source, week) # cs) now = then_op (debit u source week now) (debit_all cs now)"

definition confirmed_row :: "match_row \<Rightarrow> match_row" where
  "confirmed_row m = m\<lparr>m_status := Confirmed, purge_after := None\<rparr>"

definition confirm_match :: "instant \<Rightarrow> uuid \<Rightarrow> (db, match_store_error, unit) op" where
  "confirm_match t i db =
     (if (case find_match db i of Some m \<Rightarrow> m_expires_at m > t | None \<Rightarrow> False)
      then (Inr (), update_match t i confirmed_row db)
      else (Inl ContinuationExpired, db))"

definition announce_confirmation ::
  "env \<Rightarrow> uuid \<Rightarrow> match_record \<Rightarrow> (db, match_store_error, unit) op" where
  "announce_confirmation e i rec =
     then_op (map_err Database (enqueue_notification e 2 (clk e 7) (user1_id rec) (SUuid i)
                (ConversationContinued i)))
       (map_err Database (enqueue_notification e 3 (clk e 8) (user2_id rec) (SUuid i)
          (ConversationContinued i)))"

section \<open>The agreement\<close>

definition reservations_of :: "uuid \<Rightarrow> db \<Rightarrow> reservation list" where
  "reservations_of i db =
     sort_key r_user (filter (\<lambda>r. r_match r = i) (continuation_reservation db))"

definition find_reservation :: "uuid \<Rightarrow> uuid \<Rightarrow> db \<Rightarrow> reservation option" where
  "find_reservation i u db =
     find (\<lambda>r. r_match r = i \<and> r_user r = u) (continuation_reservation db)"

text \<open>Debit both, confirm, announce, release the reservations.\<close>

definition apply_charges ::
  "env \<Rightarrow> uuid \<Rightarrow> match_record \<Rightarrow> instant \<Rightarrow> charge list \<Rightarrow>
   (db, match_store_error, continuation_result) op" where
  "apply_charges e i rec now cs =
     then_op (debit_all cs now)
       (then_op (confirm_match (clk e 6) i)
         (then_op (announce_confirmation e i rec)
           (then_op (modify (delete_reservations i)) (ok Cont_Confirmed))))"

text \<open>Both entitlements are validated before either debit is applied.\<close>

definition settle ::
  "env \<Rightarrow> uuid \<Rightarrow> uuid \<Rightarrow> match_record \<Rightarrow> instant \<Rightarrow> (db, match_store_error, continuation_result) op"
  where
  "settle e i user rec now =
     bind_op (gets (reservations_of i)) (\<lambda>rs.
       if length rs \<noteq> 2
       then then_op (notify_waiting e i user (user1_id rec) (user2_id rec)) (ok Cont_Pending)
       else bind_op (collect_charges e i user rec now rs) (\<lambda>charges.
         case charges of
           None \<Rightarrow> ok Cont_Pending
         | Some cs \<Rightarrow> apply_charges e i rec now cs))"

definition reserve_and_settle ::
  "env \<Rightarrow> uuid \<Rightarrow> uuid \<Rightarrow> match_record \<Rightarrow> instant \<Rightarrow> (db, match_store_error, continuation_result) op"
  where
  "reserve_and_settle e i user rec now =
     bind_op (reserve i user now) (\<lambda>reserved.
       if \<not> reserved then ok Cont_QuotaReached
       else then_op (set_continued i user True) (settle e i user rec now))"

text \<open>From the choice of the plan on, for a match that is still waiting at \<open>now\<close>.\<close>

definition make_choice ::
  "env \<Rightarrow> uuid \<Rightarrow> uuid \<Rightarrow> match_record \<Rightarrow> int \<Rightarrow> instant \<Rightarrow>
   (db, match_store_error, continuation_result) op" where
  "make_choice e i user rec cost now =
     bind_op (lift_result (\<lambda>db. effective_plan_on db user now)) (\<lambda>plan.
     bind_op (gets (find_reservation i user)) (\<lambda>existing.
       if (case existing of Some r \<Rightarrow> r_source r = Premium | None \<Rightarrow> False) \<and>
          weekly_credits plan \<noteq> None
       then then_op (clear_choice (clk e 2) i user) (ok Cont_PlanChanged)
       else if weekly_credits plan \<noteq> None \<and> cost \<noteq> 1 then ok Cont_PlanChanged
       else case existing of
         Some r \<Rightarrow>
           if r_source r = Advertising \<and> r_week r \<noteq> start_of_utc_week now
           then then_op (clear_choice (clk e 2) i user) (reserve_and_settle e i user rec now)
           else ok Cont_AlreadyRecorded
       | None \<Rightarrow> reserve_and_settle e i user rec now))"

text \<open>After the locks, at the decisive reading of the clock: the window may have closed in the
  meantime.\<close>

definition agree ::
  "env \<Rightarrow> uuid \<Rightarrow> uuid \<Rightarrow> match_record \<Rightarrow> int \<Rightarrow> instant \<Rightarrow>
   (db, match_store_error, continuation_result) op" where
  "agree e i user rec cost now =
     (if m_expires_at rec \<le> now
      then then_op (modify (expire_match now i)) (ok Cont_Expired)
      else make_choice e i user rec cost now)"

definition decide ::
  "env \<Rightarrow> uuid \<Rightarrow> uuid \<Rightarrow> legal_config option \<Rightarrow> int \<Rightarrow> match_record \<Rightarrow>
   (db, match_store_error, continuation_result) op" where
  "decide e i user legal cost rec =
     (if m_status rec = Confirmed then ok Cont_AlreadyConfirmed
      else if m_status rec = Active then ok Cont_NotAvailableYet
      else bind_op (gets (\<lambda>db. blocked_pair db (user1_id rec) (user2_id rec))) (\<lambda>blocked.
        if blocked then ok Cont_NotFound
        else then_op (map_err Database (lock_eligible_accounts
               (sort [user1_id rec, user2_id rec]) legal))
          (agree e i user rec cost (clk e 1))))"

fun unavailable_result :: "match_availability_failure \<Rightarrow> continuation_result" where
  "unavailable_result NotFound = Cont_NotFound"
| "unavailable_result AvailExpired = Cont_Expired"
| "unavailable_result InvalidState = Cont_InvalidState"

definition record_continuation ::
  "env \<Rightarrow> uuid \<Rightarrow> uuid \<Rightarrow> legal_config option \<Rightarrow> int \<Rightarrow>
   (db, match_store_error, continuation_result) op" where
  "record_continuation e i user legal cost =
     bind_op (lock_available_match e i user) (\<lambda>available.
       case available of
         Unavailable failure \<Rightarrow> ok (unavailable_result failure)
       | Available rec \<Rightarrow> decide e i user legal cost rec)"

text \<open>\<^verbatim>\<open>PgMatchRepository::record_continuation\<close>: the whole agreement is one transaction.\<close>

definition pg_record_continuation ::
  "env \<Rightarrow> uuid \<Rightarrow> uuid \<Rightarrow> legal_config option \<Rightarrow> int \<Rightarrow>
   (db, match_store_error, continuation_result) op" where
  "pg_record_continuation e i user legal cost =
     transaction (record_continuation e i user legal cost)"

end
