(* ===== verification/Credit_Invariant.thy ===== *)
theory Credit_Invariant
  imports Continuation
begin

text \<open>
  The bookkeeping invariant of the continuation credits and that the statements of the
  components keep it.  It is indexed by an instant: what a reservation holds depends on whether
  its match is still waiting then, and the invariant can only get weaker as time passes.
\<close>

section \<open>The invariant\<close>

definition held :: "db \<Rightarrow> instant \<Rightarrow> uuid \<Rightarrow> credit_source \<Rightarrow> date \<Rightarrow> int" where
  "held db t u s w = reserved_count db t u (\<lambda>r. r_source r = s \<and> r_week r = w)"

text \<open>Keys: primary keys are unique, and a reservation belongs to a participant of a match
  that has left its first period.\<close>

definition keys_ok :: "db \<Rightarrow> bool" where
  "keys_ok db \<longleftrightarrow>
     distinct (map m_id (match_init db)) \<and>
     distinct (map (\<lambda>r. (r_match r, r_user r)) (continuation_reservation db)) \<and>
     (\<forall>r \<in> set (continuation_reservation db). \<exists>m. find_match db (r_match r) = Some m \<and>
        m_status m \<noteq> Active \<and> participant m (r_user r)) \<and>
     (\<forall>m \<in> set (match_init db). user1_id m < user2_id m)"

definition usage_ok :: "db \<Rightarrow> bool" where
  "usage_ok db \<longleftrightarrow>
     (\<forall>u w. 0 \<le> used_of db u w \<and> used_of db u w \<le> FREE_WEEKLY_CONTINUATION_LIMIT \<and>
            0 \<le> free_used_of db u w)"

definition wallet_ok :: "db \<Rightarrow> bool" where
  "wallet_ok db \<longleftrightarrow>
     (\<forall>u r. continuation_wallet db u = Some r \<longrightarrow>
        0 \<le> advertising_credits r \<and> advertising_credits r \<le> ADVERTISING_STOCK_LIMIT \<and>
        num_days_from_monday (wallet_week r) = 0)"

definition free_bounded :: "instant \<Rightarrow> db \<Rightarrow> bool" where
  "free_bounded t db \<longleftrightarrow>
     (\<forall>u w. free_used_of db u w + held db t u Free w \<le> FREE_WEEKLY_CREDITS)"

definition ads_covered :: "instant \<Rightarrow> db \<Rightarrow> bool" where
  "ads_covered t db \<longleftrightarrow>
     (\<forall>u. held db t u Advertising (start_of_utc_week t) \<le> balance_of db u (start_of_utc_week t))"

definition weeks_past :: "instant \<Rightarrow> db \<Rightarrow> bool" where
  "weeks_past t db \<longleftrightarrow>
     (\<forall>r \<in> set (continuation_reservation db). r_week r \<le> start_of_utc_week t)"

definition credit_inv :: "instant \<Rightarrow> db \<Rightarrow> bool" where
  "credit_inv t db \<longleftrightarrow>
     keys_ok db \<and> usage_ok db \<and> wallet_ok db \<and> free_bounded t db \<and> ads_covered t db \<and>
     weeks_past t db"

lemmas credit_inv_defs = credit_inv_def keys_ok_def usage_ok_def wallet_ok_def free_bounded_def
  ads_covered_def weeks_past_def

section \<open>Time\<close>

lemma live_reservation_antimono: "live_reservation db t' r \<Longrightarrow> t \<le> t' \<Longrightarrow> live_reservation db t r"
  by (auto simp: live_reservation_def split: option.splits)

lemma held_antimono: "t \<le> t' \<Longrightarrow> held db t' u s w \<le> held db t u s w"
  unfolding held_def reserved_count_def of_nat_le_iff
  by (rule rows_where_mono) (simp add: live_reservation_antimono [of db t' _ t])

lemma held_nonneg [simp]: "0 \<le> held db t u s w"
  by (simp add: held_def reserved_count_def)

lemma held_future:
  "weeks_past t db \<Longrightarrow> start_of_utc_week t < w \<Longrightarrow> held db t' u s w = 0"
  by (fastforce simp: held_def reserved_count_def rows_where_eq_0 weeks_past_def)

lemma balance_nonneg: "wallet_ok db \<Longrightarrow> 0 \<le> balance_of db u w"
  by (auto simp: balance_of_def wallet_ok_def split: option.splits)

lemma ads_covered_mono:
  assumes "ads_covered t db" "weeks_past t db" "wallet_ok db" "t \<le> t'"
  shows "ads_covered t' db"
proof (cases "start_of_utc_week t' = start_of_utc_week t")
  case True
  then show ?thesis
    using assms held_antimono [OF \<open>t \<le> t'\<close>] unfolding ads_covered_def
    by (metis order_trans)
next
  case False
  then have "start_of_utc_week t < start_of_utc_week t'"
    using start_of_utc_week_mono [OF \<open>t \<le> t'\<close>] by linarith
  then show ?thesis
    using assms by (simp add: ads_covered_def held_future balance_nonneg)
qed

lemma credit_inv_later:
  assumes "credit_inv t db" "t \<le> t'"
  shows "credit_inv t' db"
proof -
  have "free_bounded t' db"
    using assms held_antimono [OF \<open>t \<le> t'\<close>] unfolding credit_inv_def free_bounded_def
    by (meson add_left_mono order_trans)
  moreover have "weeks_past t' db"
    using assms start_of_utc_week_mono [OF \<open>t \<le> t'\<close>] unfolding credit_inv_def weeks_past_def
    by (meson order_trans)
  ultimately show ?thesis
    using assms ads_covered_mono [of t db t'] by (simp add: credit_inv_def)
qed

section \<open>Fewer reservations\<close>

text \<open>The invariant survives any change that leaves usage and wallets alone and lets no
  reservation hold more than before.\<close>

definition releases :: "instant \<Rightarrow> db \<Rightarrow> db \<Rightarrow> bool" where
  "releases t db db' \<longleftrightarrow>
     continuation_usage db' = continuation_usage db \<and>
     continuation_wallet db' = continuation_wallet db \<and>
     (\<exists>P. continuation_reservation db' = del_where P (continuation_reservation db)) \<and>
     (\<forall>r \<in> set (continuation_reservation db').
        live_reservation db' t r \<longrightarrow> live_reservation db t r)"

lemma releases_held: "releases t db db' \<Longrightarrow> held db' t u s w \<le> held db t u s w"
  unfolding releases_def held_def reserved_count_def
  by (auto simp: rows_where_del intro!: rows_where_mono)

lemma credit_inv_releases:
  assumes "credit_inv t db" "releases t db db'" "keys_ok db'"
  shows "credit_inv t db'"
proof -
  have frame: "used_of db' = used_of db" "free_used_of db' = free_used_of db"
    "balance_of db' = balance_of db" "continuation_wallet db' = continuation_wallet db"
    using assms(2) by (auto simp: releases_def used_of_def free_used_of_def balance_of_def fun_eq_iff)
  have less: "held db' t u s w \<le> held db t u s w" for u s w
    using assms(2) by (rule releases_held)
  have "free_bounded t db'"
    using assms(1) less unfolding credit_inv_def free_bounded_def frame
    by (meson add_left_mono order_trans)
  moreover have "ads_covered t db'"
    using assms(1) less unfolding credit_inv_def ads_covered_def frame
    by (meson order_trans)
  moreover have "weeks_past t db'"
    using assms(1,2) by (auto simp: credit_inv_def weeks_past_def releases_def)
  ultimately show ?thesis
    using assms(1,3) by (simp add: credit_inv_def usage_ok_def wallet_ok_def frame)
qed

text \<open>The invariant reads four tables only.\<close>

lemma credit_inv_cong:
  assumes "match_init db' = match_init db"
    "continuation_reservation db' = continuation_reservation db"
    "continuation_usage db' = continuation_usage db"
    "continuation_wallet db' = continuation_wallet db"
  shows "credit_inv t db' \<longleftrightarrow> credit_inv t db"
proof -
  have "find_match db' = find_match db" "used_of db' = used_of db"
    "free_used_of db' = free_used_of db" "balance_of db' = balance_of db"
    using assms by (auto simp: find_match_def used_of_def free_used_of_def balance_of_def fun_eq_iff)
  moreover from this have "held db' = held db"
    using assms by (auto simp: held_def reserved_count_def live_reservation_def fun_eq_iff)
  ultimately show ?thesis
    using assms by (simp add: credit_inv_defs)
qed

lemma live_reservation_cong:
  "match_init db' = match_init db \<Longrightarrow> live_reservation db' t r \<longleftrightarrow> live_reservation db t r"
  by (simp add: live_reservation_def find_match_def)

lemma distinct_map_del_where: "distinct (map k xs) \<Longrightarrow> distinct (map k (del_where P xs))"
  by (induction xs) auto

lemma credit_inv_del_reservations:
  assumes "credit_inv t db"
  shows "credit_inv t (db\<lparr>continuation_reservation := del_where P (continuation_reservation db)\<rparr>)"
    (is "credit_inv t ?db")
proof (rule credit_inv_releases [OF assms])
  show "releases t db ?db"
    by (auto simp: releases_def live_reservation_def find_match_def)
  show "keys_ok ?db"
    using assms by (auto simp: credit_inv_def keys_ok_def find_match_def distinct_map_del_where)
qed

lemma credit_inv_delete_reservations:
  "credit_inv t db \<Longrightarrow> credit_inv t (delete_reservations i db)"
  unfolding delete_reservations_def by (rule credit_inv_del_reservations)

lemma credit_inv_delete_choice: "credit_inv t db \<Longrightarrow> credit_inv t (delete_choice i u db)"
  unfolding delete_choice_def by (rule credit_inv_del_reservations)

section \<open>Updates of a match\<close>

lemma map_m_id_update_match:
  "(\<And>m. m_id (f m) = m_id m) \<Longrightarrow> map m_id (match_init (update_match s i f db)) = map m_id (match_init db)"
  by (simp add: update_match_def map_upd_where)

lemma set_update_match:
  "m' \<in> set (match_init (update_match s i f db)) \<Longrightarrow>
   m' \<in> set (match_init db) \<or>
   (\<exists>m \<in> set (match_init db). m_id m = i \<and> m' = track_match_inactivity s m (f m))"
  by (auto simp: update_match_def set_upd_where split: if_splits)

lemma find_match_update:
  "(\<And>m. m_id (f m) = m_id m) \<Longrightarrow>
   find_match (update_match s i f db) j =
     map_option (\<lambda>m. if j = i then track_match_inactivity s m (f m) else m) (find_match db j)"
  by (cases "j = i") (simp_all add: find_match_update_same find_match_update_other option.map_ident)

lemma credit_inv_update_match:
  assumes inv: "credit_inv t db"
    and ids: "\<And>m. m_id (f m) = m_id m \<and> user1_id (f m) = user1_id m \<and> user2_id (f m) = user2_id m"
    and act: "\<And>m. find_match db i = Some m \<Longrightarrow> m_status (f m) = Active \<Longrightarrow> m_status m = Active"
    and wait: "\<And>m. find_match db i = Some m \<Longrightarrow> m_status (f m) = AwaitingContinuation \<Longrightarrow>
      m_status m = Active \<or> m_status m = AwaitingContinuation \<and> m_expires_at (f m) = m_expires_at m"
  shows "credit_inv t (update_match s i f db)" (is "credit_inv t ?db")
proof (rule credit_inv_releases [OF inv])
  have look: "find_match ?db j =
      map_option (\<lambda>m. if j = i then track_match_inactivity s m (f m) else m) (find_match db j)" for j
    using ids by (simp add: find_match_update)
  have holder: "\<exists>m. find_match db (r_match r) = Some m \<and> m_status m \<noteq> Active \<and> participant m (r_user r)"
    if "r \<in> set (continuation_reservation db)" for r
    using inv that by (auto simp: credit_inv_def keys_ok_def)
  have live: "live_reservation db t r"
    if "r \<in> set (continuation_reservation db)" "live_reservation ?db t r" for r
    using holder [OF that(1)] that(2) wait
    by (cases "r_match r = i") (auto simp: live_reservation_def look)
  show "releases t db ?db"
    using live by (auto simp: releases_def intro!: exI [of _ "\<lambda>_. False"] simp: del_where_def)
  have lt: "user1_id m < user2_id m" if "m \<in> set (match_init ?db)" for m
    using set_update_match [OF that] ids inv by (auto simp: credit_inv_def keys_ok_def)
  have res: "\<exists>m. find_match ?db (r_match r) = Some m \<and> m_status m \<noteq> Active \<and> participant m (r_user r)"
    if "r \<in> set (continuation_reservation db)" for r
    using holder [OF that] ids act by (fastforce simp: look participant_def)
  show "keys_ok ?db"
    using inv ids lt res by (simp add: credit_inv_def keys_ok_def map_m_id_update_match)
qed

lemma credit_inv_close_confirmed:
  "credit_inv t db \<Longrightarrow> credit_inv t (close_confirmed s i db)"
  unfolding close_confirmed_def by (rule credit_inv_update_match) auto

lemma credit_inv_expire_match: "credit_inv t db \<Longrightarrow> credit_inv t (expire_match s i db)"
  unfolding expire_match_def
  by (rule credit_inv_delete_reservations, rule credit_inv_update_match) auto

lemma credit_inv_open_window:
  "credit_inv t db \<Longrightarrow> find_match db i = Some m \<Longrightarrow> m_status m = Active \<Longrightarrow>
   credit_inv t (update_match s i open_window_row db)"
  by (rule credit_inv_update_match) auto

lemma credit_inv_gate: "gate_outcome s i u db res db' \<Longrightarrow> credit_inv t db \<Longrightarrow> credit_inv t db'"
  by (induction rule: gate_outcome.induct)
     (auto dest!: visible_matchD
       intro!: credit_inv_close_confirmed credit_inv_expire_match credit_inv_open_window)

lemma lock_available_match_credit_inv:
  "keeps (credit_inv t) (lock_available_match e i u)"
  by (rule validI) (auto dest: lock_available_match_outcome credit_inv_gate)

section \<open>Statements that leave the bookkeeping alone\<close>

definition same_books :: "db \<Rightarrow> db \<Rightarrow> bool" where
  "same_books a b \<longleftrightarrow>
     match_init b = match_init a \<and> continuation_reservation b = continuation_reservation a \<and>
     continuation_usage b = continuation_usage a \<and> continuation_wallet b = continuation_wallet a \<and>
     user_account b = user_account a"

lemma same_books_credit_inv: "same_books a b \<Longrightarrow> credit_inv t a \<Longrightarrow> credit_inv t b"
  by (rule iffD2 [OF credit_inv_cong]) (simp_all add: same_books_def)

lemma same_books_refl [simp]: "same_books a a"
  by (simp add: same_books_def)

lemma same_books_trans: "same_books a b \<Longrightarrow> same_books b c \<Longrightarrow> same_books a c"
  by (simp add: same_books_def)

lemma same_books_find: "same_books a b \<Longrightarrow> find_match b = find_match a"
  by (simp add: same_books_def find_match_def fun_eq_iff)

lemma enqueue_same_books:
  "keeps (same_books a) (enqueue_notification e k t u src i)"
  by (rule validI)
     (auto simp: same_books_def dest!: enqueue_notification_frame dest: same_but_notificationsD)

lemma expire_choice_same_books [simp]:
  "same_books a (expire_choice_notification t i actor db) \<longleftrightarrow> same_books a db"
  by (auto simp: expire_choice_notification_def same_books_def split: option.splits)

lemma require_live_account_same: "require_live_account us db = (r, db') \<Longrightarrow> db' = db"
  by (auto simp: require_live_account_def split: if_splits)

lemma require_live_match_same: "require_live_match i db = (r, db') \<Longrightarrow> db' = db"
  by (auto simp: require_live_match_def dest: require_live_account_same split: option.splits)

lemma update_match_state_same_books:
  "keeps (same_books a) (update_match_state i u f)"
  by (rule validI)
     (auto simp: update_match_state_def then_op_def bind_op_def modify_def same_books_def
       dest!: require_live_match_same split: if_splits sum.splits prod.splits)

lemma set_continued_same_books: "keeps (same_books a) (set_continued i u b)"
  unfolding set_continued_def by (rule valid_map_err, rule update_match_state_same_books)

lemma notify_waiting_same_books:
  "keeps (same_books a) (notify_waiting e i actor x y)"
proof (rule validI)
  fix s v s'
  assume start: "same_books a s" and run: "notify_waiting e i actor x y s = (Inr v, s')"
  let ?u = "if actor = x then y else x"
  have "keeps (same_books a) (then_op (modify (expire_choice_notification (clk e 4) i actor))
      (map_err Database (enqueue_notification e 1 (clk e 5) ?u (SUuid (new_v4 e 0))
         (ContinuationRequested i actor))))"
    by (intro keeps_intros enqueue_same_books) simp
  with run start show "same_books a s'"
    by (auto simp: notify_waiting_def Let_def split: if_splits dest: keeps_apply)
qed

lemma announce_same_books: "keeps (same_books a) (announce_confirmation e i rec)"
  unfolding announce_confirmation_def by (intro keeps_intros enqueue_same_books)

text \<open>The same triples, as preservation of any property of the books.\<close>

lemma keeps_same_books:
  assumes "\<And>a. keeps (same_books a) m" and "\<And>a b. same_books a b \<Longrightarrow> P a \<Longrightarrow> P b"
  shows "keeps P m"
proof (rule validI)
  fix s v s'
  assume "P s" "m s = (Inr v, s')"
  then show "P s'"
    using keeps_apply [OF assms(1) [of s], of s v s'] assms(2) by simp
qed

lemma clear_choice_credit_inv: "keeps (credit_inv t) (clear_choice s i u)"
  unfolding clear_choice_def
proof (intro keeps_intros credit_inv_delete_choice)
  show "credit_inv t (expire_choice_notification s i u db)" if "credit_inv t db" for db
    using same_books_credit_inv [OF _ that] by simp
  show "keeps (credit_inv t) (set_continued i u False)"
    by (rule keeps_same_books [OF set_continued_same_books same_books_credit_inv])
qed

section \<open>Reserving a credit\<close>

text \<open>The numbers of a limited quota.\<close>

lemma quota_on_limited:
  assumes "quota_on db u now = Inr q" "q_weekly_limit q \<noteq> None"
  shows "q_used q = used_of db u (start_of_utc_week now)"
    and "\<exists>limit. q_free_remaining q =
           max (min limit FREE_WEEKLY_CREDITS - free_used_of db u (start_of_utc_week now) -
                held db now u Free (start_of_utc_week now)) 0"
    and "q_advertising_remaining q =
           max (balance_of db u (start_of_utc_week now) -
                held db now u Advertising (start_of_utc_week now)) 0"
    and "q_remaining q =
           Some (min (q_free_remaining q + q_advertising_remaining q)
             (max (FREE_WEEKLY_CONTINUATION_LIMIT - q_used q - q_reserved q) 0))"
proof -
  obtain p where p: "effective_plan_on db u now = Inr p"
    using assms(1) by (cases "effective_plan_on db u now") (simp_all add: quota_on_def)
  obtain limit where l: "weekly_credits p = Some limit"
    using assms p by (cases "weekly_credits p") (auto simp: quota_on_def Let_def)
  note q = assms(1) [unfolded quota_on_def p sum.case l option.case Let_def Inr_Inl_False
      sum.inject, symmetric]
  show "q_used q = used_of db u (start_of_utc_week now)"
    by (simp add: q)
  show "\<exists>limit. q_free_remaining q =
      max (min limit FREE_WEEKLY_CREDITS - free_used_of db u (start_of_utc_week now) -
           held db now u Free (start_of_utc_week now)) 0"
    by (rule exI [of _ limit]) (simp add: q held_def)
  show "q_advertising_remaining q = max (balance_of db u (start_of_utc_week now) -
      held db now u Advertising (start_of_utc_week now)) 0"
    by (simp add: q held_def)
  show "q_remaining q = Some (min (q_free_remaining q + q_advertising_remaining q)
      (max (FREE_WEEKLY_CONTINUATION_LIMIT - q_used q - q_reserved q) 0))"
    by (simp add: q)
qed

lemma reserve_source_cases:
  "reserve_source q = Some Free \<Longrightarrow> q_weekly_limit q \<noteq> None \<and> q_free_remaining q > 0"
  "reserve_source q = Some Advertising \<Longrightarrow>
     q_weekly_limit q \<noteq> None \<and> q_free_remaining q \<le> 0 \<and>
     (case q_remaining q of Some n \<Rightarrow> n | None \<Rightarrow> 0) \<noteq> 0"
  by (auto simp: reserve_source_def split: if_splits)

lemma quota_on_limits:
  assumes "quota_on db u now = Inr q"
  shows "reserve_source q = Some Free \<Longrightarrow>
           free_used_of db u (start_of_utc_week now) + held db now u Free (start_of_utc_week now)
             < FREE_WEEKLY_CREDITS"
    and "reserve_source q = Some Advertising \<Longrightarrow>
           held db now u Advertising (start_of_utc_week now) < balance_of db u (start_of_utc_week now)"
proof -
  assume "reserve_source q = Some Free"
  then have lim: "q_weekly_limit q \<noteq> None" and pos: "q_free_remaining q > 0"
    by (auto dest: reserve_source_cases)
  show "free_used_of db u (start_of_utc_week now) + held db now u Free (start_of_utc_week now)
      < FREE_WEEKLY_CREDITS"
    using quota_on_limited(2) [OF assms lim] pos by auto
next
  assume "reserve_source q = Some Advertising"
  then have lim: "q_weekly_limit q \<noteq> None" and z: "q_free_remaining q \<le> 0"
    and r: "(case q_remaining q of Some n \<Rightarrow> n | None \<Rightarrow> 0) \<noteq> 0"
    by (auto dest: reserve_source_cases)
  have "q_free_remaining q = 0"
    using quota_on_limited(2) [OF assms lim] z by auto
  then have "q_advertising_remaining q \<noteq> 0"
    using quota_on_limited(4) [OF assms lim] r by (auto split: if_splits simp: min_def)
  then show "held db now u Advertising (start_of_utc_week now) < balance_of db u (start_of_utc_week now)"
    using quota_on_limited(3) [OF assms lim] by auto
qed

lemma held_append:
  "held (db\<lparr>continuation_reservation := continuation_reservation db @ [r]\<rparr>) t u s w =
   held db t u s w +
     (if r_user r = u \<and> live_reservation db t r \<and> r_source r = s \<and> r_week r = w then 1 else 0)"
proof -
  have "live_reservation (db\<lparr>continuation_reservation := X\<rparr>) = live_reservation db" for X
    by (simp add: fun_eq_iff live_reservation_def find_match_def)
  then show ?thesis
    by (simp add: held_def reserved_count_def)
qed

lemma insert_reservation_OkD:
  assumes "insert_reservation r db = (Inr v, db')"
  shows "db' = db\<lparr>continuation_reservation := continuation_reservation db @ [r]\<rparr>"
    and "\<forall>x \<in> set (continuation_reservation db). \<not> (r_match x = r_match r \<and> r_user x = r_user r)"
    and "user_account db (r_user r) \<noteq> None"
  using assms unfolding insert_reservation_def
  by (auto dest!: then_op_InrD require_live_match_same split: if_splits)

lemma credit_inv_insert_reservation:
  fixes now :: instant
  defines "week \<equiv> start_of_utc_week now"
  assumes inv: "credit_inv now db" and r: "r_week r = week"
    and new: "\<forall>x \<in> set (continuation_reservation db). \<not> (r_match x = r_match r \<and> r_user x = r_user r)"
    and mt: "find_match db (r_match r) = Some m" "m_status m \<noteq> Active" "participant m (r_user r)"
    and free: "r_source r = Free \<Longrightarrow>
      free_used_of db (r_user r) week + held db now (r_user r) Free week < FREE_WEEKLY_CREDITS"
    and ads: "r_source r = Advertising \<Longrightarrow>
      held db now (r_user r) Advertising week < balance_of db (r_user r) week"
  shows "credit_inv now (db\<lparr>continuation_reservation := continuation_reservation db @ [r]\<rparr>)"
    (is "credit_inv now ?db")
proof -
  have frame: "used_of ?db = used_of db" "free_used_of ?db = free_used_of db"
    "balance_of ?db = balance_of db" "find_match ?db = find_match db"
    by (simp_all add: used_of_def free_used_of_def balance_of_def find_match_def fun_eq_iff)
  have "keys_ok ?db"
    using inv new mt by (auto simp: credit_inv_def keys_ok_def frame)
  moreover have "usage_ok ?db" "wallet_ok ?db"
    using inv by (simp_all add: credit_inv_def usage_ok_def wallet_ok_def frame)
  moreover have "free_bounded now ?db"
    unfolding free_bounded_def
  proof (intro allI)
    fix u w
    have "free_used_of db u w + held db now u Free w \<le> FREE_WEEKLY_CREDITS"
      using inv by (simp add: credit_inv_def free_bounded_def)
    then show "free_used_of ?db u w + held ?db now u Free w \<le> FREE_WEEKLY_CREDITS"
      using free r by (auto simp: held_append frame)
  qed
  moreover have "ads_covered now ?db"
    unfolding ads_covered_def
  proof (intro allI)
    fix u
    have "held db now u Advertising week \<le> balance_of db u week"
      using inv by (simp add: credit_inv_def ads_covered_def week_def)
    then show "held ?db now u Advertising (start_of_utc_week now) \<le> balance_of ?db u (start_of_utc_week now)"
      using ads r by (auto simp: held_append frame week_def)
  qed
  moreover have "weeks_past now ?db"
    using inv r by (auto simp: credit_inv_def weeks_past_def week_def)
  ultimately show ?thesis
    by (simp add: credit_inv_def)
qed

lemma reserve_credit_inv:
  "valid (\<lambda>db. credit_inv now db \<and> (\<exists>m. find_match db i = Some m \<and> m_status m \<noteq> Active \<and> participant m u))
     (reserve i u now) (\<lambda>_. credit_inv now)"
proof (rule validI)
  fix s v s'
  assume pre: "credit_inv now s \<and> (\<exists>m. find_match s i = Some m \<and> m_status m \<noteq> Active \<and> participant m u)"
    and run: "reserve i u now s = (Inr v, s')"
  then obtain q where q: "quota_on s u now = Inr q"
    by (auto simp: reserve_def lift_result_def dest!: bind_op_InrD)
  show "credit_inv now s'"
  proof (cases "reserve_source q")
    case None
    then show ?thesis
      using run pre q by (auto simp: reserve_def lift_result_def bind_op_def ok_def)
  next
    case (Some src)
    let ?r = "\<lparr>r_match = i, r_user = u, r_source = src, r_week = start_of_utc_week now\<rparr>"
    obtain w where ins: "insert_reservation ?r s = (Inr w, s')"
      using run q Some
      by (auto simp: reserve_def lift_result_def bind_op_def then_op_def ok_def map_err_def
          split: prod.splits sum.splits)
    obtain m where "find_match s i = Some m" "m_status m \<noteq> Active" "participant m u"
      using pre by blast
    then show ?thesis
      unfolding insert_reservation_OkD(1) [OF ins]
      using pre insert_reservation_OkD(2) [OF ins] quota_on_limits [OF q] Some
      by (intro credit_inv_insert_reservation) auto
  qed
qed

end
