(* ===== verification/Continuation_Proofs.thy ===== *)
theory Continuation_Proofs
  imports Credit_Invariant
begin

text \<open>
  The agreement keeps the books: what a list of charges does to usage and wallets, that a
  checked list of charges never fails, and that settling a match turns each held credit into a
  used one.
\<close>

section \<open>Charges\<close>

definition charges_used :: "charge list \<Rightarrow> uuid \<Rightarrow> int" where
  "charges_used cs u = int (rows_where (\<lambda>(v, s, w). v = u \<and> s \<noteq> Premium) cs)"

definition charges_from :: "credit_source \<Rightarrow> charge list \<Rightarrow> uuid \<Rightarrow> date \<Rightarrow> int" where
  "charges_from src cs u x = int (rows_where (\<lambda>(v, s, w). v = u \<and> s = src \<and> w = x) cs)"

lemma charges_Nil [simp]: "charges_used [] u = 0" "charges_from src [] u x = 0"
  by (simp_all add: charges_used_def charges_from_def)

lemma charges_Cons [simp]:
  "charges_used ((v, s, w) # cs) u = (if v = u \<and> s \<noteq> Premium then 1 else 0) + charges_used cs u"
  "charges_from src ((v, s, w) # cs) u x =
     (if v = u \<and> s = src \<and> w = x then 1 else 0) + charges_from src cs u x"
  by (simp_all add: charges_used_def charges_from_def)

lemma charges_nonneg [simp]: "0 \<le> charges_used cs u" "0 \<le> charges_from src cs u x"
  by (simp_all add: charges_used_def charges_from_def)

text \<open>What a run of debits changes: usage grows, free usage grows and balances shrink by given
  amounts, and nothing else moves.\<close>

definition moves ::
  "(uuid \<Rightarrow> date \<Rightarrow> int) \<Rightarrow> (uuid \<Rightarrow> date \<Rightarrow> int) \<Rightarrow> (uuid \<Rightarrow> date \<Rightarrow> int) \<Rightarrow> db \<Rightarrow> db \<Rightarrow> bool" where
  "moves used free ads db db' \<longleftrightarrow>
     (\<exists>us ws. db' = db\<lparr>continuation_usage := us, continuation_wallet := ws\<rparr>) \<and>
     (\<forall>u w. used_of db' u w = used_of db u w + used u w) \<and>
     (\<forall>u w. free_used_of db' u w = free_used_of db u w + free u w) \<and>
     (\<forall>u w. balance_of db' u w = balance_of db u w - ads u w) \<and>
     (wallet_ok db \<longrightarrow> wallet_ok db')"

lemma movesI:
  assumes "db' = db\<lparr>continuation_usage := us, continuation_wallet := ws\<rparr>"
    "\<And>u w. used_of db' u w = used_of db u w + x u w"
    "\<And>u w. free_used_of db' u w = free_used_of db u w + y u w"
    "\<And>u w. balance_of db' u w = balance_of db u w - z u w"
    "wallet_ok db \<Longrightarrow> wallet_ok db'"
  shows "moves x y z db db'"
  using assms unfolding moves_def by blast

lemma moves_refl: "moves (\<lambda>_ _. 0) (\<lambda>_ _. 0) (\<lambda>_ _. 0) db db"
  by (rule movesI [where us = "continuation_usage db" and ws = "continuation_wallet db"]) simp_all

lemma moves_frame:
  assumes "moves x y z db db'"
  shows "match_init db' = match_init db" "match_state db' = match_state db"
    "continuation_reservation db' = continuation_reservation db"
    "user_account db' = user_account db"
  using assms by (auto simp: moves_def)

lemma moves_trans:
  assumes "moves x y z a b" "moves x' y' z' b c"
  shows "moves (\<lambda>u w. x u w + x' u w) (\<lambda>u w. y u w + y' u w) (\<lambda>u w. z u w + z' u w) a c"
proof -
  obtain us ws us' ws' where "b = a\<lparr>continuation_usage := us, continuation_wallet := ws\<rparr>"
    and "c = b\<lparr>continuation_usage := us', continuation_wallet := ws'\<rparr>"
    using assms by (auto simp: moves_def)
  then have "c = a\<lparr>continuation_usage := us', continuation_wallet := ws'\<rparr>"
    by simp
  then show ?thesis
    using assms by (intro movesI) (auto simp: moves_def)
qed

lemma moves_bump_used:
  "moves (\<lambda>v x. if v = u \<and> x = w then 1 else 0) (\<lambda>_ _. 0) (\<lambda>_ _. 0) db
     (bump_usage u w \<lparr>used_count = 1, free_used_count = 0\<rparr>
        (\<lambda>r. r\<lparr>used_count := used_count r + 1\<rparr>) db)"
  by (rule movesI [where ws = "continuation_wallet db"])
     (auto simp: bump_usage_def used_of_def free_used_of_def balance_of_def wallet_ok_def
       split: option.splits)

lemma moves_bump_free:
  "moves (\<lambda>_ _. 0) (\<lambda>v x. if v = u \<and> x = w then 1 else 0) (\<lambda>_ _. 0) db
     (bump_usage u w \<lparr>used_count = 0, free_used_count = 1\<rparr>
        (\<lambda>r. r\<lparr>free_used_count := free_used_count r + 1\<rparr>) db)"
  by (rule movesI [where ws = "continuation_wallet db"])
     (auto simp: bump_usage_def used_of_def free_used_of_def balance_of_def wallet_ok_def
       split: option.splits)

lemma moves_debit_wallet:
  assumes "debit_wallet u w db = (Inr v, db')"
  shows "moves (\<lambda>_ _. 0) (\<lambda>_ _. 0) (\<lambda>v x. if v = u \<and> x = w then 1 else 0) db db'"
proof -
  obtain r where r: "continuation_wallet db u = Some r" "wallet_week r = w" "advertising_credits r > 0"
    and db': "db' = db\<lparr>continuation_wallet := (continuation_wallet db)(u \<mapsto>
      r\<lparr>advertising_credits := advertising_credits r - 1\<rparr>)\<rparr>"
    using assms by (auto simp: debit_wallet_def split: option.splits if_splits)
  have "wallet_ok db'" if "wallet_ok db"
  proof -
    have "advertising_credits r \<le> ADVERTISING_STOCK_LIMIT" "num_days_from_monday w = 0"
      using that r by (auto simp: wallet_ok_def)
    then have "advertising_credits r - 1 \<le> ADVERTISING_STOCK_LIMIT" "num_days_from_monday w = 0"
      by linarith+
    then show ?thesis
      using that r by (simp add: db' wallet_ok_def)
  qed
  then show ?thesis
    by (intro movesI [where us = "continuation_usage db"])
       (use r in \<open>auto simp: db' balance_of_def used_of_def free_used_of_def\<close>)
qed

definition charged :: "charge list \<Rightarrow> instant \<Rightarrow> db \<Rightarrow> db \<Rightarrow> bool" where
  "charged cs now =
     moves (\<lambda>u w. if w = start_of_utc_week now then charges_used cs u else 0)
       (charges_from Free cs) (charges_from Advertising cs)"

lemma moves_cong:
  "moves x y z a b \<Longrightarrow> x = x' \<Longrightarrow> y = y' \<Longrightarrow> z = z' \<Longrightarrow> moves x' y' z' a b"
  by simp

lemma debit_charged:
  assumes run: "debit u s w now db = (Inr v, db')"
  shows "charged [(u, s, w)] now db db'"
proof -
  let ?db1 = "bump_usage u (start_of_utc_week now) \<lparr>used_count = 1, free_used_count = 0\<rparr>
        (\<lambda>r. r\<lparr>used_count := used_count r + 1\<rparr>) db"
  note used = moves_bump_used [of u "start_of_utc_week now" db]
  show ?thesis
  proof (cases s)
    case Free
    then have "db' = bump_usage u w \<lparr>used_count = 0, free_used_count = 1\<rparr>
        (\<lambda>r. r\<lparr>free_used_count := free_used_count r + 1\<rparr>) ?db1"
      using run by (auto simp: debit_def modify_def then_op_def)
    then show ?thesis
      unfolding charged_def
      by (auto intro!: moves_cong [OF moves_trans [OF used moves_bump_free [of u w]]] simp: Free fun_eq_iff)
  next
    case Advertising
    then have "debit_wallet u w ?db1 = (Inr v, db')"
      using run by (auto simp: debit_def modify_def then_op_def)
    then show ?thesis
      unfolding charged_def
      by (auto intro!: moves_cong [OF moves_trans [OF used moves_debit_wallet]] simp: Advertising fun_eq_iff)
  next
    case Premium
    then show ?thesis
      using run by (auto simp: debit_def ok_def charged_def fun_eq_iff intro!: moves_cong [OF moves_refl])
  qed
qed

lemma debit_all_charged: "debit_all cs now db = (Inr v, db') \<Longrightarrow> charged cs now db db'"
proof (induction cs now arbitrary: db rule: debit_all.induct)
  case (1 now)
  then show ?case
    by (auto simp: ok_def charged_def fun_eq_iff intro!: moves_cong [OF moves_refl])
next
  case (2 u s w cs now)
  then obtain x db1 where "debit u s w now db = (Inr x, db1)" "debit_all cs now db1 = (Inr v, db')"
    by (auto dest!: then_op_InrD)
  then have "charged [(u, s, w)] now db db1" "charged cs now db1 db'"
    using debit_charged 2 by auto
  then show ?case
    unfolding charged_def by (rule moves_cong [OF moves_trans]) (simp_all add: fun_eq_iff)
qed

text \<open>A list of charges the wallets cover goes through.\<close>

lemma debit_succeeds:
  assumes "s = Advertising \<Longrightarrow> 0 < balance_of db u w" "\<not> is_deleted db u"
  shows "\<exists>db'. debit u s w now db = (Inr (), db')"
  using assms
  by (cases s)
     (auto simp: debit_def ok_def then_op_def modify_def debit_wallet_def bump_usage_def
        balance_of_def is_deleted_def split: option.splits if_splits)

lemma debit_all_succeeds:
  assumes "\<And>u w. charges_from Advertising cs u w \<le> balance_of db u w"
    and "\<forall>c \<in> set cs. \<not> is_deleted db (fst c)"
  shows "\<exists>db'. debit_all cs now db = (Inr (), db')"
  using assms
proof (induction cs now arbitrary: db rule: debit_all.induct)
  case (1 now)
  then show ?case
    by (simp add: ok_def)
next
  case (2 u s w cs now)
  have nonneg: "0 \<le> charges_from Advertising cs u w"
    by simp
  have "0 < balance_of db u w" if "s = Advertising"
    using 2(2) [of u w] nonneg that by (simp add: zle_iff_zadd) linarith
  then obtain db1 where run: "debit u s w now db = (Inr (), db1)"
    using debit_succeeds [of s db u w now] 2(3) by auto
  then have ch: "charged [(u, s, w)] now db db1"
    by (rule debit_charged)
  then have "user_account db1 = user_account db"
    unfolding charged_def by (auto dest: moves_frame)
  then have acc: "is_deleted db1 = is_deleted db"
    by (simp add: is_deleted_def fun_eq_iff)
  have bal: "balance_of db1 v x = balance_of db v x - charges_from Advertising [(u, s, w)] v x" for v x
    using ch by (simp add: charged_def moves_def)
  have "charges_from Advertising cs v x \<le> balance_of db1 v x" for v x
    using 2(2) [of v x] unfolding bal by simp
  then have "\<exists>db'. debit_all cs now db1 = (Inr (), db')"
    using 2(3) acc by (intro 2(1)) auto
  then show ?case
    using run by (auto simp: then_op_def)
qed

section \<open>The checked charges\<close>

text \<open>The charge of a reservation: nothing under an unlimited plan, otherwise the reserved
  source, for a user still under the weekly limit.\<close>

definition charge_of :: "db \<Rightarrow> instant \<Rightarrow> reservation \<Rightarrow> charge \<Rightarrow> bool" where
  "charge_of db now r c \<longleftrightarrow>
     (\<exists>q. quota_on db (r_user r) now = Inr q \<and>
        c = (r_user r, (if q_weekly_limit q = None then Premium else r_source r), r_week r) \<and>
        (q_weekly_limit q \<noteq> None \<longrightarrow>
           r_source r \<noteq> Premium \<and> used_of db (r_user r) (start_of_utc_week now)
             < FREE_WEEKLY_CONTINUATION_LIMIT)) \<and>
     (r_source r = Advertising \<longrightarrow> r_week r = start_of_utc_week now)"

lemma withdraw_and_wait_None:
  "withdraw_and_wait e i user rec h db = (Inr v, db') \<Longrightarrow> v = None"
  unfolding withdraw_and_wait_def by (auto dest!: then_op_InrD simp: ok_def)

lemma collect_charges_Some:
  "collect_charges e i user rec now rs db = (Inr (Some cs), db') \<Longrightarrow>
   db' = db \<and> list_all2 (charge_of db now) rs cs"
proof (induction e i user rec now rs arbitrary: cs rule: collect_charges.induct)
  case (1 e i user rec now)
  then show ?case
    by (simp add: ok_def)
next
  case (2 e i user rec now r rs)
  have fresh: "\<not> (r_source r = Advertising \<and> r_week r \<noteq> start_of_utc_week now)"
    using 2(2) by (auto dest: withdraw_and_wait_None split: if_splits)
  then obtain q where q: "quota_on db (r_user r) now = Inr q"
    using 2(2) by (auto simp: lift_result_def dest!: bind_op_InrD split: if_splits)
  have pass: "\<not> (q_weekly_limit q \<noteq> None \<and>
      (r_source r = Premium \<or> q_used q \<ge> FREE_WEEKLY_CONTINUATION_LIMIT))"
    using 2(2) fresh q by (auto simp: lift_result_def bind_op_def dest: withdraw_and_wait_None)
  let ?c = "(r_user r, (if q_weekly_limit q = None then Premium else r_source r), r_week r)"
  obtain cs' where cs: "collect_charges e i user rec now rs db = (Inr (Some cs'), db')" "cs = ?c # cs'"
    using 2(2) fresh q pass
    by (auto simp: lift_result_def bind_op_def ok_def Let_def map_option_case
        split: prod.splits sum.splits option.splits if_splits)
  have "charge_of db now r ?c"
    using fresh pass q quota_on_limited(1) [OF q] by (auto simp: charge_of_def not_le)
  moreover have "db' = db \<and> list_all2 (charge_of db now) rs cs'"
    using 2(1) [of q ?c cs'] cs(1) fresh pass by blast
  ultimately show ?case
    using cs(2) by simp
qed

lemma withdraw_and_wait_credit_inv: "keeps (credit_inv t) (withdraw_and_wait e i user rec h)"
  unfolding withdraw_and_wait_def
  by (intro keeps_intros clear_choice_credit_inv
      keeps_same_books [OF notify_waiting_same_books same_books_credit_inv])

lemma collect_charges_credit_inv: "keeps (credit_inv t) (collect_charges e i user rec now rs)"
  by (induction rs)
     (auto intro!: keeps_intros withdraw_and_wait_credit_inv simp: Let_def)

lemma charges_from_le:
  "list_all2 (charge_of db now) rs cs \<Longrightarrow> src \<noteq> Premium \<Longrightarrow>
   charges_from src cs u x \<le> int (rows_where (\<lambda>r. r_user r = u \<and> r_source r = src \<and> r_week r = x) rs)"
  by (induction rule: list_all2_induct) (auto simp: charge_of_def)

lemma charges_used_le:
  "list_all2 (charge_of db now) rs cs \<Longrightarrow>
   charges_used cs u \<le> int (rows_where (\<lambda>r. r_user r = u) rs)"
  by (induction rule: list_all2_induct) (auto simp: charge_of_def)

lemma charges_used_under_limit:
  "list_all2 (charge_of db now) rs cs \<Longrightarrow> 0 < charges_used cs u \<Longrightarrow>
   used_of db u (start_of_utc_week now) < FREE_WEEKLY_CONTINUATION_LIMIT"
  by (induction rule: list_all2_induct) (auto simp: charge_of_def split: if_splits)

lemma charges_ads_week:
  "list_all2 (charge_of db now) rs cs \<Longrightarrow> x \<noteq> start_of_utc_week now \<Longrightarrow>
   charges_from Advertising cs u x = 0"
  by (induction rule: list_all2_induct) (auto simp: charge_of_def)

section \<open>Settling\<close>

lemma held_split:
  assumes "find_match db i = Some m" "m_status m = AwaitingContinuation" "t < m_expires_at m"
  shows "held db t u src w =
     int (rows_where (\<lambda>r. r_user r = u \<and> r_source r = src \<and> r_week r = w)
            (filter (\<lambda>r. r_match r = i) (continuation_reservation db))) +
     held (delete_reservations i db) t u src w"
proof -
  let ?P = "\<lambda>r. r_user r = u \<and> live_reservation db t r \<and> r_source r = src \<and> r_week r = w"
  have "live_reservation (delete_reservations i db) = live_reservation db"
    by (simp add: live_reservation_def fun_eq_iff)
  moreover have "rows_where (\<lambda>r. ?P r \<and> r_match r = i) (continuation_reservation db) =
      rows_where (\<lambda>r. (r_user r = u \<and> r_source r = src \<and> r_week r = w) \<and> r_match r = i)
        (continuation_reservation db)"
    by (rule rows_where_cong) (use assms in \<open>auto simp: live_reservation_def\<close>)
  ultimately show ?thesis
    using rows_where_split [of ?P "continuation_reservation db" "\<lambda>r. r_match r = i"]
    by (simp add: held_def reserved_count_def rows_where_filter rows_where_del delete_reservations_def)
qed

lemma charge_le_held:
  assumes "find_match db i = Some m" "m_status m = AwaitingContinuation" "now < m_expires_at m"
    and "list_all2 (charge_of db now) (reservations_of i db) cs" "src \<noteq> Premium"
  shows "charges_from src cs u w + held (delete_reservations i db) now u src w \<le> held db now u src w"
  using charges_from_le [OF assms(4,5), of u w] held_split [OF assms(1-3), of u src w]
  by (simp add: reservations_of_def)

lemma charges_used_le_1:
  assumes "keys_ok db" "list_all2 (charge_of db now) (reservations_of i db) cs"
  shows "charges_used cs u \<le> 1"
proof -
  have "rows_where (\<lambda>r. (r_match r, r_user r) = (i, u)) (continuation_reservation db) \<le> 1"
    using assms(1) unfolding keys_ok_def by (intro rows_where_distinct_key) simp
  then show ?thesis
    using charges_used_le [OF assms(2), of u]
    by (simp add: reservations_of_def rows_where_filter conj_commute)
qed

lemma charged_usage_ok:
  assumes "keys_ok db" "usage_ok db" "list_all2 (charge_of db now) (reservations_of i db) cs"
    and "charged cs now db db'"
  shows "usage_ok db'"
  unfolding usage_ok_def
proof (intro allI conjI)
  fix u w
  have base: "0 \<le> used_of db u w" "used_of db u w \<le> FREE_WEEKLY_CONTINUATION_LIMIT"
    "0 \<le> free_used_of db u w"
    using assms(2) by (simp_all add: usage_ok_def)
  have num: "used_of db' u w =
        used_of db u w + (if w = start_of_utc_week now then charges_used cs u else 0)"
      "free_used_of db' u w = free_used_of db u w + charges_from Free cs u w"
    using assms(4) by (simp_all add: charged_def moves_def)
  show "0 \<le> used_of db' u w" "0 \<le> free_used_of db' u w"
    using base by (simp_all add: num)
  show "used_of db' u w \<le> FREE_WEEKLY_CONTINUATION_LIMIT"
    using base charges_used_le_1 [OF assms(1,3), of u] charges_used_under_limit [OF assms(3), of u]
    by (cases "0 < charges_used cs u") (auto simp: num)
qed

lemma held_after_confirm:
  assumes "match_init db2 = match_init (update_match t i f db)" "\<And>m. m_id (f m) = m_id m"
    and "continuation_reservation db2 = del_where (\<lambda>r. r_match r = i) (continuation_reservation db)"
  shows "held db2 now u src w \<le> held (delete_reservations i db) now u src w"
proof -
  have "find_match db2 j = find_match db j" if "j \<noteq> i" for j
    using that assms(1,2)
    by (simp add: find_match_def [of db2] find_match_def [symmetric] find_match_update_other)
  then show ?thesis
    using assms(3)
    by (auto simp: held_def reserved_count_def live_reservation_def delete_reservations_def
        find_match_def rows_where_del intro!: rows_where_mono)
qed

text \<open>The books after a confirmation: the reservations of the match are gone, the charges are
  in the usage and the wallets.\<close>

lemma confirmed_row_simps [simp]:
  "m_id (confirmed_row m) = m_id m" "user1_id (confirmed_row m) = user1_id m"
  "user2_id (confirmed_row m) = user2_id m" "m_status (confirmed_row m) = Confirmed"
  "purge_after (confirmed_row m) = None"
  by (simp_all add: confirmed_row_def)

lemma settled_credit_inv:
  assumes inv: "credit_inv now db"
    and mt: "find_match db i = Some m" "m_status m = AwaitingContinuation" "now < m_expires_at m"
    and cs: "list_all2 (charge_of db now) (reservations_of i db) cs"
    and ch: "charged cs now db db1"
    and fin: "match_init db2 = match_init (update_match t i confirmed_row db)"
      "continuation_reservation db2 = del_where (\<lambda>r. r_match r = i) (continuation_reservation db)"
      "continuation_usage db2 = continuation_usage db1"
      "continuation_wallet db2 = continuation_wallet db1"
  shows "credit_inv now db2"
proof -
  have frame: "used_of db2 = used_of db1" "free_used_of db2 = free_used_of db1"
    "balance_of db2 = balance_of db1"
    using fin(3,4) by (simp_all add: used_of_def free_used_of_def balance_of_def fun_eq_iff)
  have num: "free_used_of db2 u w = free_used_of db u w + charges_from Free cs u w"
      "balance_of db2 u w = balance_of db u w - charges_from Advertising cs u w" for u w
    using ch by (simp_all add: frame charged_def moves_def)
  have "credit_inv now (delete_reservations i (update_match t i confirmed_row db))"
    using inv by (intro credit_inv_delete_reservations credit_inv_update_match) auto
  then have keys: "keys_ok db2"
    using fin(1,2) by (simp add: credit_inv_def keys_ok_def find_match_def delete_reservations_def)
  have "usage_ok db2"
    using charged_usage_ok [OF _ _ cs ch] inv by (simp add: credit_inv_def usage_ok_def frame)
  moreover have "wallet_ok db2"
    using inv ch fin(4) by (auto simp: credit_inv_def charged_def moves_def wallet_ok_def)
  moreover have "free_used_of db2 u w + held db2 now u Free w \<le> FREE_WEEKLY_CREDITS" for u w
    using inv held_after_confirm [OF fin(1) _ fin(2), of now u Free w]
      charge_le_held [OF mt cs, of Free u w]
    by (auto simp: num credit_inv_def free_bounded_def dest!: spec [of _ u] spec [of _ w])
  moreover have "held db2 now u Advertising (start_of_utc_week now)
      \<le> balance_of db2 u (start_of_utc_week now)" for u
    using inv held_after_confirm [OF fin(1) _ fin(2), of now u Advertising "start_of_utc_week now"]
      charge_le_held [OF mt cs, of Advertising u "start_of_utc_week now"]
    by (auto simp: num credit_inv_def ads_covered_def dest!: spec [of _ u])
  ultimately show ?thesis
    using inv fin(2) keys
    by (simp add: credit_inv_def free_bounded_def ads_covered_def weeks_past_def)
qed

lemma update_match_same:
  "match_init a = match_init b \<Longrightarrow> match_init (update_match t i f a) = match_init (update_match t i f b)"
  by (simp add: update_match_def)

definition waiting :: "uuid \<Rightarrow> instant \<Rightarrow> db \<Rightarrow> bool" where
  "waiting i now db \<longleftrightarrow>
     (\<exists>m. find_match db i = Some m \<and> m_status m = AwaitingContinuation \<and> now < m_expires_at m)"

text \<open>The three ways to leave \<open>settle\<close> without an error.\<close>

lemma settle_cases:
  assumes "settle e i user rec now db = (Inr v, db')"
  obtains
    (alone) u where "length (reservations_of i db) \<noteq> 2" "v = Cont_Pending"
      "notify_waiting e i user (user1_id rec) (user2_id rec) db = (Inr u, db')"
  | (withdrawn) "length (reservations_of i db) = 2" "v = Cont_Pending"
      "collect_charges e i user rec now (reservations_of i db) db = (Inr None, db')"
  | (charged) cs where "length (reservations_of i db) = 2" "v = Cont_Confirmed"
      "list_all2 (charge_of db now) (reservations_of i db) cs"
      "apply_charges e i rec now cs db = (Inr v, db')"
proof (cases "length (reservations_of i db) = 2")
  case False
  then show ?thesis
    using assms alone by (auto simp: settle_def gets_def ok_def dest!: then_op_InrD)
next
  case True
  then obtain ch db0 where col:
      "collect_charges e i user rec now (reservations_of i db) db = (Inr ch, db0)"
    and rest: "(case ch of None \<Rightarrow> ok Cont_Pending | Some cs \<Rightarrow> apply_charges e i rec now cs) db0
       = (Inr v, db')"
    using assms by (auto simp: settle_def gets_def dest!: bind_op_InrD)
  show ?thesis
  proof (cases ch)
    case None
    then show ?thesis
      using True col rest withdrawn by (simp add: ok_def)
  next
    case (Some cs)
    then have "db0 = db" "list_all2 (charge_of db now) (reservations_of i db) cs"
      using collect_charges_Some [of e i user rec now "reservations_of i db" db cs db0] col by auto
    moreover have "v = Cont_Confirmed"
      using rest Some by (auto simp: apply_charges_def ok_def dest!: then_op_InrD)
    ultimately show ?thesis
      using True rest Some charged by simp
  qed
qed

text \<open>What the confirmation leaves.\<close>

lemma apply_charges_Ok:
  assumes "apply_charges e i rec now cs db = (Inr v, db')"
  obtains db1 m where "debit_all cs now db = (Inr (), db1)"
    "find_match db i = Some m" "clk e 6 < m_expires_at m"
    "match_init db' = match_init (update_match (clk e 6) i confirmed_row db)"
    "continuation_reservation db' = del_where (\<lambda>r. r_match r = i) (continuation_reservation db)"
    "continuation_usage db' = continuation_usage db1"
    "continuation_wallet db' = continuation_wallet db1"
proof -
  obtain db1 db2 db3 v where run: "debit_all cs now db = (Inr (), db1)"
      "confirm_match (clk e 6) i db1 = (Inr (), db2)"
      "announce_confirmation e i rec db2 = (Inr v, db3)" "db' = delete_reservations i db3"
    using assms by (auto simp: apply_charges_def modify_def ok_def dest!: then_op_InrD)
  have fr: "match_init db1 = match_init db"
      "continuation_reservation db1 = continuation_reservation db"
    using debit_all_charged [OF run(1)] by (simp_all add: charged_def moves_frame)
  have same: "same_books db2 db3"
    using keeps_apply [OF announce_same_books run(3)] by simp
  obtain m where m: "find_match db1 i = Some m" "clk e 6 < m_expires_at m"
    and db2: "db2 = update_match (clk e 6) i confirmed_row db1"
    using run(2) by (auto simp: confirm_match_def split: if_splits option.splits)
  have find: "find_match db1 = find_match db"
    using fr by (simp add: find_match_def fun_eq_iff)
  show ?thesis
    by (rule that [OF run(1)])
       (use m find same fr in \<open>simp_all add: run(4) db2 same_books_def delete_reservations_def
          update_match_same [OF fr(1)]\<close>)
qed

lemma settle_credit_inv:
  "valid (\<lambda>db. credit_inv now db \<and> waiting i now db) (settle e i user rec now) (\<lambda>_. credit_inv now)"
proof (rule validI)
  fix db v db'
  assume pre: "credit_inv now db \<and> waiting i now db" and run: "settle e i user rec now db = (Inr v, db')"
  from run show "credit_inv now db'"
  proof (cases rule: settle_cases)
    case (alone u)
    then show ?thesis
      using keeps_apply [OF notify_waiting_same_books alone(3) same_books_refl] pre
      by (auto intro: same_books_credit_inv)
  next
    case withdrawn
    then show ?thesis
      using keeps_apply [OF collect_charges_credit_inv] pre by blast
  next
    case (charged cs)
    obtain m where m: "find_match db i = Some m" "m_status m = AwaitingContinuation"
        "now < m_expires_at m"
      using pre by (auto simp: waiting_def)
    from charged(4) show ?thesis
    proof (rule apply_charges_Ok)
      fix db1
      assume a: "debit_all cs now db = (Inr (), db1)"
        "match_init db' = match_init (update_match (clk e 6) i confirmed_row db)"
        "continuation_reservation db' = del_where (\<lambda>r. r_match r = i) (continuation_reservation db)"
        "continuation_usage db' = continuation_usage db1"
        "continuation_wallet db' = continuation_wallet db1"
      show ?thesis
        using settled_credit_inv [OF _ m charged(3) debit_all_charged [OF a(1)] a(2-5)] pre
        by blast
    qed
  qed
qed

section \<open>The whole agreement\<close>

lemma same_books_waiting: "same_books a b \<Longrightarrow> waiting i now a \<Longrightarrow> waiting i now b"
  by (simp add: waiting_def same_books_find)

lemma clear_choice_waiting: "keeps (waiting i now) (clear_choice t j u)"
  unfolding clear_choice_def
proof (intro keeps_intros)
  show "waiting i now (delete_choice j u db)" if "waiting i now db" for db
    using that by (simp add: waiting_def delete_choice_def find_match_def)
  show "waiting i now (expire_choice_notification t j u db)" if "waiting i now db" for db
    using same_books_waiting [OF _ that] by simp
  show "keeps (waiting i now) (set_continued j u False)"
    by (rule keeps_same_books [OF set_continued_same_books same_books_waiting])
qed

lemma reserve_waiting: "keeps (waiting i now) (reserve j u now)"
proof (rule validI)
  fix db v db'
  assume "waiting i now db" and run: "reserve j u now db = (Inr v, db')"
  moreover have "match_init db' = match_init db"
    using run unfolding reserve_def
    by (auto simp: lift_result_def ok_def map_err_def dest!: bind_op_InrD then_op_InrD
        insert_reservation_OkD(1) split: option.splits prod.splits sum.splits)
  ultimately show "waiting i now db'"
    by (simp add: waiting_def find_match_def)
qed

lemma valid_conj: "valid P m (\<lambda>_. P') \<Longrightarrow> valid Q m (\<lambda>_. Q') \<Longrightarrow>
   valid (\<lambda>s. P s \<and> Q s) m (\<lambda>_ s. P' s \<and> Q' s)"
  by (auto simp: valid_def)

text \<open>What the gate and the guards establish before a choice is recorded.\<close>

definition ready :: "uuid \<Rightarrow> uuid \<Rightarrow> instant \<Rightarrow> db \<Rightarrow> bool" where
  "ready i u now db \<longleftrightarrow>
     credit_inv now db \<and> waiting i now db \<and> (\<exists>m. find_match db i = Some m \<and> participant m u)"

lemma reserve_and_settle_credit_inv:
  "valid (ready i u now) (reserve_and_settle e i u rec now) (\<lambda>_. credit_inv now)"
  unfolding reserve_and_settle_def
proof (rule valid_bind)
  show "valid (ready i u now) (reserve i u now) (\<lambda>_ db. credit_inv now db \<and> waiting i now db)"
    by (rule valid_weaken [OF valid_conj [OF reserve_credit_inv reserve_waiting]])
       (auto simp: ready_def waiting_def)
  show "valid (\<lambda>db. credit_inv now db \<and> waiting i now db)
      (if \<not> b then ok Cont_QuotaReached
       else then_op (set_continued i u True) (settle e i u rec now)) (\<lambda>_. credit_inv now)" for b
  proof (intro valid_if)
    have "keeps (\<lambda>db. credit_inv now db \<and> waiting i now db) (set_continued i u True)"
      by (rule keeps_same_books [OF set_continued_same_books])
         (auto intro: same_books_waiting same_books_credit_inv)
    then show "valid (\<lambda>db. credit_inv now db \<and> waiting i now db)
        (then_op (set_continued i u True) (settle e i u rec now)) (\<lambda>_. credit_inv now)"
      by (rule valid_then) (rule settle_credit_inv)
  qed (auto intro: valid_ok)
qed

lemma clear_choice_ready: "keeps (ready i u now) (clear_choice t i u)"
proof -
  have "keeps (\<lambda>db. \<exists>m. find_match db i = Some m \<and> participant m u) (clear_choice t i u)"
    unfolding clear_choice_def
    by (intro keeps_intros keeps_same_books [OF set_continued_same_books])
       (auto simp: delete_choice_def find_match_def expire_choice_notification_def
         same_books_def split: option.splits)
  then show ?thesis
    using clear_choice_waiting [of i now t i u] clear_choice_credit_inv [of now t i u]
    unfolding ready_def valid_def by blast
qed

lemma make_choice_credit_inv:
  "valid (ready i u now) (make_choice e i u rec cost now) (\<lambda>_. credit_inv now)"
proof -
  have base: "valid (ready i u now) (ok v) (\<lambda>_. credit_inv now)" for v :: continuation_result
    by (rule valid_ok) (simp add: ready_def)
  have clear: "valid (ready i u now) (clear_choice (clk e 2) i u) (\<lambda>_. ready i u now)"
    by (rule clear_choice_ready)
  show ?thesis
    unfolding make_choice_def
    by (intro valid_bind [where R = "\<lambda>_. ready i u now"] keeps_lift_result keeps_gets valid_if
        valid_then [OF clear] base)
       (auto split: option.splits intro!: reserve_and_settle_credit_inv base
         valid_then [OF clear])
qed

definition gated :: "instant \<Rightarrow> uuid \<Rightarrow> uuid \<Rightarrow> match_record \<Rightarrow> db \<Rightarrow> bool" where
  "gated t i u rec db \<longleftrightarrow>
     credit_inv t db \<and> m_status rec \<in> {Active, AwaitingContinuation, Confirmed} \<and>
     (\<exists>m. find_match db i = Some m \<and> rec = map_match_record m \<and> participant m u \<and>
        \<not> is_deleted db (user1_id m) \<and> \<not> is_deleted db (user2_id m))"

lemma lock_available_match_spec:
  "valid (credit_inv t) (lock_available_match e i u)
     (\<lambda>res db. credit_inv t db \<and> (\<forall>rec. res = Available rec \<longrightarrow> gated t i u rec db))"
proof (rule validI)
  fix db res db'
  assume "credit_inv t db" "lock_available_match e i u db = (Inr res, db')"
  then have inv: "credit_inv t db'" and out: "gate_outcome (clk e 0) i u db res db'"
    by (auto dest: lock_available_match_outcome keeps_apply [OF lock_available_match_credit_inv])
  moreover have "gated t i u rec db'" if "res = Available rec" for rec
    using out unfolding that by (rule gate_available) (simp add: gated_def inv)
  ultimately show "credit_inv t db' \<and> (\<forall>rec. res = Available rec \<longrightarrow> gated t i u rec db')"
    by blast
qed

lemma keeps_lock_eligible_accounts: "keeps P (lock_eligible_accounts us legal)"
  by (auto simp: valid_def lock_eligible_accounts_def split: if_splits)

lemma gated_ready:
  "gated t i u rec db \<Longrightarrow> m_status rec \<noteq> Confirmed \<Longrightarrow> m_status rec \<noteq> Active \<Longrightarrow>
   now < m_expires_at rec \<Longrightarrow> t \<le> now \<Longrightarrow> ready i u now db"
  by (auto simp: gated_def ready_def waiting_def intro: credit_inv_later)

lemma agree_credit_inv:
  assumes "m_status rec \<noteq> Confirmed" "m_status rec \<noteq> Active" "t \<le> now"
  shows "valid (gated t i u rec) (agree e i u rec cost now) (\<lambda>_. credit_inv now)"
  unfolding agree_def
proof (rule valid_if)
  show "valid (gated t i u rec) (then_op (modify (expire_match now i)) (ok Cont_Expired))
      (\<lambda>_. credit_inv now)"
    by (rule valid_then [where R = "credit_inv now"])
       (use assms in \<open>auto simp: gated_def intro!: valid_modify valid_ok credit_inv_expire_match
          intro: credit_inv_later\<close>)
  show "valid (gated t i u rec) (make_choice e i u rec cost now) (\<lambda>_. credit_inv now)"
    if "\<not> m_expires_at rec \<le> now"
    by (rule valid_weaken [OF make_choice_credit_inv]) (use that assms gated_ready in auto)
qed

lemma decide_credit_inv:
  assumes "t \<le> clk e 1"
  shows "valid (gated t i u rec) (decide e i u legal cost rec) (\<lambda>_. credit_inv (clk e 1))"
proof -
  have stop: "valid (gated t i u rec) (ok v) (\<lambda>_. credit_inv (clk e 1))" for v :: continuation_result
    by (rule valid_ok) (rule credit_inv_later [OF _ assms], simp add: gated_def)
  show ?thesis
    unfolding decide_def
    by (intro valid_if stop valid_bind [OF keeps_gets]
        valid_then [OF keeps_map_err [OF keeps_lock_eligible_accounts]] agree_credit_inv assms)
qed

lemma record_continuation_credit_inv:
  assumes "clock_from t e"
  shows "valid (credit_inv t) (record_continuation e i u legal cost) (\<lambda>_. credit_inv (clk e 1))"
  unfolding record_continuation_def
proof (rule valid_bind [OF lock_available_match_spec])
  fix res
  have le: "t \<le> clk e 1"
    by (rule clock_fromD [OF assms])
  show "valid (\<lambda>db. credit_inv t db \<and> (\<forall>rec. res = Available rec \<longrightarrow> gated t i u rec db))
      (case res of Available rec \<Rightarrow> decide e i u legal cost rec
       | Unavailable failure \<Rightarrow> ok (unavailable_result failure)) (\<lambda>_. credit_inv (clk e 1))"
  proof (cases res)
    case (Available rec)
    show ?thesis
      unfolding Available match_command_result.case
      by (rule valid_weaken [OF decide_credit_inv [OF le]]) auto
  next
    case (Unavailable f)
    show ?thesis
      unfolding Unavailable match_command_result.case
      by (rule valid_ok) (use le credit_inv_later in blast)
  qed
qed

end
