(* ===== verification/Paging.thy ===== *)
theory Paging
  imports Prelude
begin

text \<open>
  Cursor paging, shared by the message list and the match list of \<^verbatim>\<open>src/matches/service.rs\<close>: a
  query returns the rows strictly before a cursor in descending key order, the service asks for
  one row more than the page holds and hands out the key of the last row of the page as the next
  cursor.  The locale states what a store promises of such a query; its lemmas show that walking
  the cursors enumerates every row exactly once.
\<close>

section \<open>The query\<close>

definition before_cursor :: "('r \<Rightarrow> 'k::linorder) \<Rightarrow> 'k option \<Rightarrow> 'r \<Rightarrow> bool" where
  "before_cursor key cur r = (case cur of None \<Rightarrow> True | Some c \<Rightarrow> key r < c)"

definition order_desc :: "('r \<Rightarrow> 'k::linorder) \<Rightarrow> 'r list \<Rightarrow> 'r list" where
  "order_desc key rows = rev (sort_key key rows)"

definition select_page ::
  "('r \<Rightarrow> 'k::linorder) \<Rightarrow> 'r list \<Rightarrow> nat \<Rightarrow> nat \<Rightarrow> 'k option \<Rightarrow> 'r list" where
  "select_page key rows limit offset cur =
     take limit (drop offset (order_desc key (filter (before_cursor key cur) rows)))"

text \<open>The page the service builds from the \<open>limit + 1\<close> rows it fetched.\<close>

definition next_cursor :: "('r \<Rightarrow> 'k) \<Rightarrow> nat \<Rightarrow> 'r list \<Rightarrow> 'k option" where
  "next_cursor key limit rows =
     (if length rows > limit then Some (key (rows ! (limit - 1))) else None)"

definition cursor_page ::
  "(nat \<Rightarrow> 'k option \<Rightarrow> 'r list) \<Rightarrow> ('r \<Rightarrow> 'k) \<Rightarrow> nat \<Rightarrow> 'k option \<Rightarrow> 'r list \<times> 'k option" where
  "cursor_page fetch key limit cur =
     (let rows = fetch (limit + 1) cur in (take limit rows, next_cursor key limit rows))"

text \<open>A client that follows the cursors for at most \<open>fuel\<close> pages.\<close>

fun walk_pages ::
  "(nat \<Rightarrow> 'k option \<Rightarrow> 'r list) \<Rightarrow> ('r \<Rightarrow> 'k) \<Rightarrow> nat \<Rightarrow> nat \<Rightarrow> 'k option \<Rightarrow> 'r list" where
  "walk_pages fetch key 0 limit cur = []"
| "walk_pages fetch key (Suc fuel) limit cur =
     (let (items, next) = cursor_page fetch key limit cur in
      items @ (case next of None \<Rightarrow> [] | Some c \<Rightarrow> walk_pages fetch key fuel limit (Some c)))"

lemma set_order_desc [simp]: "set (order_desc key rows) = set rows"
  by (simp add: order_desc_def)

lemma length_order_desc [simp]: "length (order_desc key rows) = length rows"
  by (simp add: order_desc_def)

lemma filter_order_desc: "filter P (order_desc key rows) = order_desc key (filter P rows)"
  by (simp add: order_desc_def rev_filter [symmetric] filter_sort)

lemma sorted_wrt_order_desc:
  assumes "distinct (map key rows)"
  shows "sorted_wrt (\<lambda>a b. key b < key a) (order_desc key rows)"
proof -
  have "distinct (map key (sort_key key rows))"
    using assms by (simp add: distinct_map)
  moreover have "sorted (map key (sort_key key rows))"
    by simp
  ultimately have "sorted_wrt (<) (map key (sort_key key rows))"
    by (simp add: strict_sorted_iff)
  then show ?thesis
    by (simp add: order_desc_def sorted_wrt_rev sorted_wrt_map)
qed

lemma filter_take_drop_desc:
  assumes "sorted_wrt (\<lambda>a b. key b < key a) xs" "i < length xs"
  shows "filter (\<lambda>r. key r < (key (xs ! i) :: 'k::linorder)) xs = drop (Suc i) xs"
  using assms
proof (induction xs arbitrary: i)
  case (Cons x xs)
  show ?case
  proof (cases i)
    case 0
    then show ?thesis
      using Cons.prems by (auto simp: filter_id_conv)
  next
    case (Suc j)
    then have "key (xs ! j) < key x"
      using Cons.prems by (auto simp: nth_mem)
    then have "\<not> key x < key (xs ! j)"
      by simp
    then show ?thesis
      using Cons Suc by simp
  qed
qed simp

section \<open>The contract of a paged store\<close>

locale paged_store =
  fixes fetch :: "'q \<Rightarrow> nat \<Rightarrow> 'k::linorder option \<Rightarrow> 'r list"
    and listing :: "'q \<Rightarrow> 'r list"
    and key :: "'r \<Rightarrow> 'k"
    and wf :: "'q \<Rightarrow> bool"
  assumes fetch_before: "wf q \<Longrightarrow> fetch q n cur = take n (filter (before_cursor key cur) (listing q))"
    and listing_desc: "wf q \<Longrightarrow> sorted_wrt (\<lambda>a b. key b < key a) (listing q)"
begin

lemma page_length: "wf q \<Longrightarrow> length (fst (cursor_page (fetch q) key limit cur)) \<le> limit"
  by (simp add: cursor_page_def Let_def)

lemma page_split:
  fixes cur :: "'k option"
  assumes "wf q" "0 < limit"
  defines "rest \<equiv> filter (before_cursor key cur) (listing q)"
  shows "fst (cursor_page (fetch q) key limit cur) = take limit rest"
    and "snd (cursor_page (fetch q) key limit cur) = None \<longleftrightarrow> length rest \<le> limit"
    and "snd (cursor_page (fetch q) key limit cur) = Some c \<Longrightarrow>
           filter (before_cursor key (Some c)) (listing q) = drop limit rest"
proof -
  have rows: "fetch q (Suc limit) cur = take (Suc limit) rest"
    using assms by (simp add: fetch_before rest_def)
  show "fst (cursor_page (fetch q) key limit cur) = take limit rest"
    by (simp add: cursor_page_def Let_def rows)
  show "snd (cursor_page (fetch q) key limit cur) = None \<longleftrightarrow> length rest \<le> limit"
    by (auto simp: cursor_page_def Let_def rows next_cursor_def min_def)
  assume "snd (cursor_page (fetch q) key limit cur) = Some c"
  then have len: "limit < length rest" and c: "c = key (rest ! (limit - 1))"
    using assms(2) by (auto simp: cursor_page_def Let_def rows next_cursor_def split: if_splits)
  have lt: "before_cursor key cur (rest ! (limit - 1))"
    using nth_mem [of "limit - 1" rest] len by (auto simp: rest_def)
  have "filter (before_cursor key (Some c)) (listing q) = filter (\<lambda>r. key r < c) rest"
    using lt c
    by (auto simp: rest_def before_cursor_def filter_filter intro!: filter_cong split: option.splits)
  also have "\<dots> = drop (Suc (limit - 1)) rest"
    unfolding c
  proof (rule filter_take_drop_desc)
    show "sorted_wrt (\<lambda>a b. key b < key a) rest"
      using listing_desc [OF assms(1)] by (simp add: rest_def sorted_wrt_filter)
  qed (use len in simp)
  finally show "filter (before_cursor key (Some c)) (listing q) = drop limit rest"
    using assms(2) by simp
qed

text \<open>Walking the cursors returns every row before the first cursor once, in order, and ends.\<close>

lemma walk_complete:
  "wf q \<Longrightarrow> 0 < limit \<Longrightarrow> length (filter (before_cursor key cur) (listing q)) < fuel \<Longrightarrow>
   walk_pages (fetch q) key fuel limit cur = filter (before_cursor key cur) (listing q)"
proof (induction fuel arbitrary: cur)
  case (Suc fuel)
  note split = page_split [OF Suc.prems(1,2), where cur = cur]
  show ?case
  proof (cases "snd (cursor_page (fetch q) key limit cur)")
    case None
    then show ?thesis
      using split by (simp add: case_prod_beta Let_def)
  next
    case (Some c)
    then have rest: "filter (before_cursor key (Some c)) (listing q) =
        drop limit (filter (before_cursor key cur) (listing q))"
      by (rule split(3))
    have "limit < length (filter (before_cursor key cur) (listing q))"
      using split(2) Some by (simp add: not_le [symmetric])
    then have "length (filter (before_cursor key (Some c)) (listing q)) < fuel"
      using Suc.prems by (simp add: rest)
    then have "walk_pages (fetch q) key fuel limit (Some c) = drop limit (filter (before_cursor key cur) (listing q))"
      using Suc.IH [of "Some c"] Suc.prems rest by simp
    then show ?thesis
      using split(1) Some by (simp add: case_prod_beta Let_def)
  qed
qed simp

lemma walk_all:
  assumes "wf q" "0 < limit" "length (listing q) < fuel"
  shows "walk_pages (fetch q) key fuel limit None = listing q"
  using walk_complete [of q limit None fuel] assms by (simp add: before_cursor_def)

end

end
