(* ===== verification/Messages.thy ===== *)
theory Messages
  imports Continuation_Proofs Paging
begin

text \<open>
  \<^verbatim>\<open>src/matches/pg/messages.rs\<close>: listing, sending and reading the messages of a match.  Readings
  of the clock: 0 the gate, 1 the insertion or the read mark, 2 the update of the match, 3 the
  notification.
\<close>

section \<open>Listing\<close>

definition message_key :: "('a) message_record_scheme \<Rightarrow> instant \<times> uuid" where
  "message_key m = (msg_created_at m, msg_id m)"

definition map_message_record :: "chat_row \<Rightarrow> message_record" where
  "map_message_record r =
     \<lparr>msg_id = msg_id r, msg_match_id = msg_match_id r, msg_sender_id = msg_sender_id r,
      msg_content = msg_content r, msg_created_at = msg_created_at r, msg_read_at = msg_read_at r\<rparr>"

lemma map_message_record_simps [simp]:
  "msg_id (map_message_record r) = msg_id r"
  "msg_match_id (map_message_record r) = msg_match_id r"
  "msg_sender_id (map_message_record r) = msg_sender_id r"
  "msg_content (map_message_record r) = msg_content r"
  "msg_created_at (map_message_record r) = msg_created_at r"
  "msg_read_at (map_message_record r) = msg_read_at r"
  "message_key (map_message_record r) = message_key r"
  by (simp_all add: map_message_record_def message_key_def)

definition select_messages ::
  "db \<Rightarrow> uuid \<Rightarrow> nat \<Rightarrow> nat \<Rightarrow> (instant \<times> uuid) option \<Rightarrow> message_record list" where
  "select_messages db i limit offset cur =
     map map_message_record (select_page message_key
       (filter (\<lambda>m. msg_match_id m = i) (chat_message db)) limit offset cur)"

definition messages_for_user ::
  "env \<Rightarrow> uuid \<Rightarrow> uuid \<Rightarrow> nat \<Rightarrow> nat \<Rightarrow> (instant \<times> uuid) option \<Rightarrow>
   (db, match_store_error, message_record list match_command_result) op" where
  "messages_for_user e i u limit offset cur =
     transaction (bind_op (lock_available_match e i u) (\<lambda>available.
       case available of
         Unavailable reason \<Rightarrow> ok (Unavailable reason)
       | Available _ \<Rightarrow> gets (\<lambda>db. Available (select_messages db i limit offset cur))))"

section \<open>Sending\<close>

definition find_idempotent_message :: "uuid \<Rightarrow> uuid \<Rightarrow> db \<Rightarrow> message_creation option" where
  "find_idempotent_message sender k db =
     (case find (\<lambda>m. msg_sender_id m = sender \<and> idempotency_key m = Some k) (chat_message db) of
        None \<Rightarrow> None
      | Some m \<Rightarrow>
          (case find_match db (msg_match_id m) of
             None \<Rightarrow> None
           | Some r \<Rightarrow>
               if is_deleted db (user1_id r) \<or> is_deleted db (user2_id r) then None
               else Some \<lparr>mc_message = map_message_record m,
                          mc_participant_ids = (user1_id r, user2_id r), mc_created = False\<rparr>))"

text \<open>A replay answers with the stored message when it is the same message.\<close>

definition replay_result :: "uuid \<Rightarrow> utext \<Rightarrow> message_creation \<Rightarrow> message_creation_result" where
  "replay_result i content replay =
     (if msg_match_id (mc_message replay) \<noteq> i \<or> msg_content (mc_message replay) \<noteq> content
      then IdempotencyConflict
      else MessageAvailable (replay\<lparr>mc_created := False\<rparr>))"

text \<open>\<^verbatim>\<open>INSERT .. ON CONFLICT (sender_id, idempotency_key) DO NOTHING RETURNING ..\<close>: the live-match
  trigger, the keys, and the row unless the idempotency key is taken.\<close>

definition insert_message :: "chat_row \<Rightarrow> (db, database_error, message_record option) op" where
  "insert_message m =
     then_op (require_live_match (msg_match_id m))
       (\<lambda>db. if \<exists>x \<in> set (chat_message db). msg_id x = msg_id m then (Inl (Constraint Unique), db)
              else if \<exists>x \<in> set (chat_message db).
                 msg_sender_id x = msg_sender_id m \<and> idempotency_key m \<noteq> None \<and>
                 idempotency_key x = idempotency_key m
              then (Inr None, db)
              else if find_match db (msg_match_id m) = None \<or> user_account db (msg_sender_id m) = None
              then (Inl (Constraint ForeignKey), db)
              else (Inr (Some (map_message_record m)), db\<lparr>chat_message := chat_message db @ [m]\<rparr>))"

definition new_message_row ::
  "env \<Rightarrow> uuid \<Rightarrow> uuid \<Rightarrow> uuid \<Rightarrow> utext \<Rightarrow> uuid \<Rightarrow> chat_row" where
  "new_message_row e mid i sender content k =
     \<lparr>msg_id = mid, msg_match_id = i, msg_sender_id = sender, msg_content = content,
      msg_created_at = clk e 1, msg_read_at = None, idempotency_key = Some k\<rparr>"

definition touch_match :: "instant \<Rightarrow> instant \<Rightarrow> uuid \<Rightarrow> db \<Rightarrow> db" where
  "touch_match t at i = update_match t i (\<lambda>m. m\<lparr>last_message_at := Some at\<rparr>)"

definition announce_message ::
  "env \<Rightarrow> match_record \<Rightarrow> message_record \<Rightarrow> (db, match_store_error, unit) op" where
  "announce_message e rec m =
     (let recipient = (if user1_id rec = msg_sender_id m then user2_id rec else user1_id rec) in
      map_err Database (enqueue_notification e 0 (clk e 3) recipient (SUuid (msg_id m))
        (NewMessage (msg_match_id m) (msg_id m) (msg_sender_id m))))"

definition store_message ::
  "env \<Rightarrow> match_record \<Rightarrow> chat_row \<Rightarrow> uuid \<Rightarrow> (db, match_store_error, message_creation_result) op" where
  "store_message e rec row k =
     bind_op (map_err Database (insert_message row)) (\<lambda>inserted.
       case inserted of
         None \<Rightarrow> gets (\<lambda>db. case find_idempotent_message (msg_sender_id row) k db of
             None \<Rightarrow> IdempotencyConflict
           | Some concurrent \<Rightarrow> replay_result (msg_match_id row) (msg_content row) concurrent)
       | Some m \<Rightarrow>
           then_op (modify (touch_match (clk e 2) (msg_created_at m) (msg_match_id row)))
             (then_op (announce_message e rec m)
               (ok (MessageAvailable \<lparr>mc_message = m,
                  mc_participant_ids = (user1_id rec, user2_id rec), mc_created = True\<rparr>))))"

definition send_available ::
  "env \<Rightarrow> match_record \<Rightarrow> uuid \<Rightarrow> uuid \<Rightarrow> uuid \<Rightarrow> utext \<Rightarrow> uuid \<Rightarrow>
   (db, match_store_error, message_creation_result) op" where
  "send_available e rec mid i sender content k =
     (if m_status rec = AwaitingContinuation then ok (MessageUnavailable InvalidState)
      else bind_op (gets (find_idempotent_message sender k)) (\<lambda>found.
        case found of
          Some replay \<Rightarrow> ok (replay_result i content replay)
        | None \<Rightarrow> store_message e rec (new_message_row e mid i sender content k) k))"

definition create_message ::
  "env \<Rightarrow> uuid \<Rightarrow> uuid \<Rightarrow> uuid \<Rightarrow> utext \<Rightarrow> uuid \<Rightarrow>
   (db, match_store_error, message_creation_result) op" where
  "create_message e mid i sender content k =
     transaction (bind_op (lock_available_match e i sender) (\<lambda>available.
       case available of
         Unavailable reason \<Rightarrow> ok (MessageUnavailable reason)
       | Available rec \<Rightarrow> send_available e rec mid i sender content k))"

section \<open>Reading\<close>

definition mark_one_read :: "instant \<Rightarrow> uuid \<Rightarrow> uuid \<Rightarrow> uuid \<Rightarrow> (db, match_store_error, nat) op" where
  "mark_one_read t mid i u db =
     (let P = (\<lambda>m. msg_id m = mid \<and> msg_match_id m = i \<and> msg_sender_id m \<noteq> u) in
      (Inr (rows_where P (chat_message db)),
       db\<lparr>chat_message := upd_where P
          (\<lambda>m. m\<lparr>msg_read_at := Some (case msg_read_at m of Some r \<Rightarrow> r | None \<Rightarrow> t)\<rparr>)
          (chat_message db)\<rparr>))"

definition read_result :: "match_record \<Rightarrow> uuid \<Rightarrow> int \<Rightarrow> message_read" where
  "read_result rec mid n =
     \<lparr>updated_count = n, mrd_participant_ids = (user1_id rec, user2_id rec),
      read_through_message_id = mid\<rparr>"

definition mark_message_read ::
  "env \<Rightarrow> uuid \<Rightarrow> uuid \<Rightarrow> uuid \<Rightarrow>
   (db, match_store_error, message_read option match_command_result) op" where
  "mark_message_read e i mid u =
     transaction (bind_op (lock_available_match e i u) (\<lambda>available.
       case available of
         Unavailable reason \<Rightarrow> ok (Unavailable reason)
       | Available rec \<Rightarrow>
           bind_op (mark_one_read (clk e 1) mid i u) (\<lambda>n.
             ok (Available (if n = 1 then Some (read_result rec mid 1) else None)))))"

text \<open>The messages a boundary covers: those of the other participant, unread, at or before it.\<close>

definition unread_through :: "chat_row \<Rightarrow> uuid \<Rightarrow> uuid \<Rightarrow> chat_row \<Rightarrow> bool" where
  "unread_through boundary i u m \<longleftrightarrow>
     msg_match_id m = i \<and> msg_sender_id m \<noteq> u \<and> msg_read_at m = None \<and>
     message_key m \<le> message_key boundary"

definition mark_through ::
  "instant \<Rightarrow> uuid \<Rightarrow> uuid \<Rightarrow> uuid \<Rightarrow> (db, match_store_error, nat option) op" where
  "mark_through t mid i u db =
     (case find (\<lambda>m. msg_id m = mid \<and> msg_match_id m = i) (chat_message db) of
        None \<Rightarrow> (Inr None, db)
      | Some b \<Rightarrow>
          (Inr (Some (rows_where (unread_through b i u) (chat_message db))),
           db\<lparr>chat_message := upd_where (unread_through b i u)
              (\<lambda>m. m\<lparr>msg_read_at := Some t\<rparr>) (chat_message db)\<rparr>))"

definition mark_messages_read_through ::
  "env \<Rightarrow> uuid \<Rightarrow> uuid \<Rightarrow> uuid \<Rightarrow>
   (db, match_store_error, message_read option match_command_result) op" where
  "mark_messages_read_through e i mid u =
     transaction (bind_op (lock_available_match e i u) (\<lambda>available.
       case available of
         Unavailable reason \<Rightarrow> ok (Unavailable reason)
       | Available rec \<Rightarrow>
           bind_op (mark_through (clk e 1) mid i u) (\<lambda>n.
             ok (Available (map_option (\<lambda>k. read_result rec mid (int k)) n)))))"

end
