(* ===== verification/Continuation_Confirm.thy ===== *)
theory Continuation_Confirm
  imports Continuation_Proofs
begin

text \<open>
  What a confirmation does to the two participants: each is charged exactly once from one
  source, nobody else is charged, the match gets its inactivity deadline and no reservation is
  left behind.
\<close>

section \<open>Money and plans before the charges\<close>

definition same_money :: "db \<Rightarrow> db \<Rightarrow> bool" where
  "same_money a b \<longleftrightarrow>
     continuation_usage b = continuation_usage a \<and> continuation_wallet b = continuation_wallet a \<and>
     user_account b = user_account a \<and> subscription_plan b = subscription_plan a \<and>
     user_subscription b = user_subscription a \<and>
     billing_store_subscription b = billing_store_subscription a \<and>
     complimentary_premium_grant b = complimentary_premium_grant a"

lemma same_money_refl [simp]: "same_money a a"
  by (simp add: same_money_def)

lemma same_money_numbers:
  assumes "same_money a b"
  shows "used_of b = used_of a" "free_used_of b = free_used_of a" "balance_of b = balance_of a"
  using assms
  by (simp_all add: same_money_def used_of_def free_used_of_def balance_of_def fun_eq_iff)

lemma same_money_plan:
  assumes "same_money a b"
  shows "effective_plan_on b = effective_plan_on a"
proof (intro ext)
  fix u t
  have "complimentary_start b u = complimentary_start a u"
    using assms by (auto simp: same_money_def complimentary_start_def split: option.split)
  then have "subscription_candidates b u t = subscription_candidates a u t"
    using assms by (simp add: same_money_def subscription_candidates_def)
  then have "effective_plan_code b u t = effective_plan_code a u t"
    by (simp add: effective_plan_code_def effective_subscription_at_def)
  then show "effective_plan_on b u t = effective_plan_on a u t"
    using assms by (simp add: same_money_def effective_plan_on_def)
qed

lemma update_match_money [simp]: "same_money a (update_match t i f db) \<longleftrightarrow> same_money a db"
  by (simp add: same_money_def update_match_def)

lemma delete_reservations_money [simp]:
  "same_money a (delete_reservations i db) \<longleftrightarrow> same_money a db"
  by (simp add: same_money_def delete_reservations_def)

lemma lock_available_match_money: "keeps (same_money a) (lock_available_match e i u)"
proof (rule validI)
  fix db res db'
  assume "same_money a db" "lock_available_match e i u db = (Inr res, db')"
  then show "same_money a db'"
    by (auto dest!: lock_available_match_outcome elim!: gate_outcome.cases
        simp: close_confirmed_def expire_match_def)
qed

lemma update_match_state_money: "keeps (same_money a) (update_match_state i u f)"
  by (rule validI)
     (auto simp: update_match_state_def then_op_def bind_op_def modify_def same_money_def
       dest!: require_live_match_same split: if_splits sum.splits prod.splits)

lemma set_continued_money: "keeps (same_money a) (set_continued i u b)"
  unfolding set_continued_def by (intro keeps_intros update_match_state_money)

lemma clear_choice_money: "keeps (same_money a) (clear_choice t i u)"
  unfolding clear_choice_def
  by (intro keeps_intros set_continued_money)
     (auto simp: same_money_def delete_choice_def expire_choice_notification_def
       split: option.splits)

lemma insert_reservation_money: "keeps (same_money a) (insert_reservation r)"
  by (rule validI) (auto simp: same_money_def dest!: insert_reservation_OkD(1))

lemma reserve_money: "keeps (same_money a) (reserve i u now)"
  unfolding reserve_def
  by (intro keeps_bind keeps_lift_result)
     (auto split: option.splits intro!: keeps_intros insert_reservation_money)

section \<open>The reservations before the request\<close>

text \<open>The database \<open>b\<close> differs from \<open>a\<close>, as far as the reservations and the matches that hold them go,
  only in the match \<open>i\<close> and in the reservation \<open>u\<close> has on it.\<close>

definition same_pledges :: "db \<Rightarrow> uuid \<Rightarrow> uuid \<Rightarrow> db \<Rightarrow> bool" where
  "same_pledges a i u b \<longleftrightarrow>
     filter (\<lambda>r. \<not> (r_match r = i \<and> r_user r = u)) (continuation_reservation b) =
     filter (\<lambda>r. \<not> (r_match r = i \<and> r_user r = u)) (continuation_reservation a) \<and>
     (\<forall>j. j \<noteq> i \<longrightarrow> find_match b j = find_match a j)"

lemma same_pledges_refl [simp]: "same_pledges a i u a"
  by (simp add: same_pledges_def)

lemma same_pledges_other:
  assumes "same_pledges a i u b" "r_user r \<noteq> u"
  shows "r \<in> set (continuation_reservation b) \<longleftrightarrow> r \<in> set (continuation_reservation a)"
proof -
  let ?P = "\<lambda>r. \<not> (r_match r = i \<and> r_user r = u)"
  have "set (filter ?P (continuation_reservation b)) = set (filter ?P (continuation_reservation a))"
    using assms(1) by (simp only: same_pledges_def)
  then show ?thesis
    using assms(2) by auto
qed

lemma same_books_pledges: "same_books b c \<Longrightarrow> same_pledges a i u b \<Longrightarrow> same_pledges a i u c"
  by (simp add: same_books_def same_pledges_def find_match_def)

lemma gate_available_pledges:
  "gate_outcome now i u db (Available rec) db' \<Longrightarrow> same_pledges db i v db'"
  by (auto elim!: gate_outcome.cases simp: same_pledges_def find_match_update_other)

lemma set_continued_pledges: "keeps (same_pledges a i u) (set_continued j v b)"
  by (rule keeps_same_books [OF set_continued_same_books same_books_pledges])

lemma clear_choice_pledges: "keeps (same_pledges a i u) (clear_choice t i u)"
  unfolding clear_choice_def
  by (intro keeps_intros set_continued_pledges)
     (auto simp: same_pledges_def delete_choice_def del_where_def find_match_def
       expire_choice_notification_def split: option.splits)

text \<open>The free credits of the week left to \<open>u\<close> before an agreement on \<open>i\<close>: those of the plan, less
  those spent, less those held by the other matches of \<open>u\<close> that wait for an answer.\<close>

definition free_left :: "db \<Rightarrow> uuid \<Rightarrow> instant \<Rightarrow> uuid \<Rightarrow> int" where
  "free_left db i now u =
     (case effective_plan_on db u now of
        Inl _ \<Rightarrow> 0
      | Inr p \<Rightarrow> (case weekly_credits p of
          None \<Rightarrow> 0
        | Some limit \<Rightarrow>
            min limit 2 - free_used_of db u (start_of_utc_week now) -
            int (length (filter (\<lambda>r. r_user r = u \<and> r_match r \<noteq> i \<and> r_source r = Free \<and>
                   r_week r = start_of_utc_week now \<and> live_reservation db now r)
                 (continuation_reservation db)))))"

lemma free_left_cong:
  assumes "same_money a b" "same_pledges a i u b"
  shows "free_left b i now u = free_left a i now u"
proof -
  let ?other = "\<lambda>r. \<not> (r_match r = i \<and> r_user r = u)"
  let ?P = "\<lambda>db r. r_user r = u \<and> r_match r \<noteq> i \<and> r_source r = Free \<and>
                 r_week r = start_of_utc_week now \<and> live_reservation db now r"
  have P: "?P b = ?P a"
    using assms(2) by (auto simp: same_pledges_def live_reservation_def fun_eq_iff)
  have F: "filter (?P db) rs = filter (?P db) (filter ?other rs)" for db rs
    unfolding filter_filter by (rule filter_cong) auto
  have R: "filter ?other (continuation_reservation b) = filter ?other (continuation_reservation a)"
    using assms(2) by (simp only: same_pledges_def)
  have "filter (?P b) (continuation_reservation b) = filter (?P a) (continuation_reservation a)"
    unfolding P by (subst (1 2) F) (simp only: R)
  then show ?thesis
    using same_money_plan [OF assms(1)] same_money_numbers(2) [OF assms(1)]
    by (simp only: free_left_def)
qed

text \<open>The source the agreement of \<open>u\<close> draws on: nothing under an unlimited plan, otherwise a free
  credit of the week as long as one is left, otherwise an advertising credit.\<close>

definition unlimited :: "db \<Rightarrow> instant \<Rightarrow> uuid \<Rightarrow> bool" where
  "unlimited db now u =
     (case effective_plan_on db u now of Inr p \<Rightarrow> weekly_credits p = None | Inl _ \<Rightarrow> False)"

definition source_due :: "db \<Rightarrow> uuid \<Rightarrow> instant \<Rightarrow> uuid \<Rightarrow> credit_source" where
  "source_due db i now u =
     (if unlimited db now u then Premium else if 0 < free_left db i now u then Free else Advertising)"

lemma unlimited_cong: "same_money a b \<Longrightarrow> unlimited b = unlimited a"
  using same_money_plan [of a b] by (simp add: unlimited_def fun_eq_iff)

lemma quota_unlimited:
  assumes "quota_on db u now = Inr q"
  shows "q_weekly_limit q = None \<longleftrightarrow> unlimited db now u"
proof -
  obtain p where p: "effective_plan_on db u now = Inr p"
    using assms by (cases "effective_plan_on db u now") (simp_all add: quota_on_def)
  show ?thesis
    using assms unfolding quota_on_def p sum.case
    by (cases "weekly_credits p") (auto simp: Let_def unlimited_def p)
qed

lemma quota_free_left:
  assumes "quota_on db u now = Inr q" "q_weekly_limit q \<noteq> None"
    and "\<forall>r \<in> set (continuation_reservation db). \<not> (r_match r = i \<and> r_user r = u)"
  shows "q_free_remaining q = max (free_left db i now u) 0"
proof -
  obtain p where p: "effective_plan_on db u now = Inr p"
    using assms(1) by (cases "effective_plan_on db u now") (simp_all add: quota_on_def)
  obtain limit where l: "weekly_credits p = Some limit"
    using assms(1,2) p by (cases "weekly_credits p") (auto simp: quota_on_def Let_def)
  note q = assms(1) [unfolded quota_on_def p sum.case l option.case Let_def Inr_Inl_False
      sum.inject, symmetric]
  let ?week = "start_of_utc_week now"
  have "filter (\<lambda>r. r_user r = u \<and> live_reservation db now r \<and> r_source r = Free \<and> r_week r = ?week)
          (continuation_reservation db) =
        filter (\<lambda>r. r_user r = u \<and> r_match r \<noteq> i \<and> r_source r = Free \<and> r_week r = ?week \<and>
          live_reservation db now r) (continuation_reservation db)"
    using assms(3) by (auto intro: filter_cong)
  then have "reserved_count db now u (\<lambda>r. r_source r = Free \<and> r_week r = ?week) =
      int (length (filter (\<lambda>r. r_user r = u \<and> r_match r \<noteq> i \<and> r_source r = Free \<and> r_week r = ?week \<and>
          live_reservation db now r) (continuation_reservation db)))"
    by (simp only: reserved_count_def rows_where_def)
  then show ?thesis
    by (simp add: q free_left_def p l FREE_WEEKLY_CREDITS_def)
qed

lemma reserve_source_due:
  assumes "quota_on db u now = Inr q" "reserve_source q = Some s"
    and "\<forall>r \<in> set (continuation_reservation db). \<not> (r_match r = i \<and> r_user r = u)"
  shows "s = source_due db i now u"
  using assms(2) quota_unlimited [OF assms(1)] quota_free_left [OF assms(1) _ assms(3)]
  by (auto simp: reserve_source_def source_due_def split: if_splits)

text \<open>What a successful reservation leaves: everything else as in \<open>a\<close>, and the reservation that was
  due there.\<close>

definition pledged :: "db \<Rightarrow> uuid \<Rightarrow> uuid \<Rightarrow> instant \<Rightarrow> db \<Rightarrow> bool" where
  "pledged a i u now db \<longleftrightarrow> same_money a db \<and> same_pledges a i u db \<and>
     \<lparr>r_match = i, r_user = u, r_source = source_due a i now u, r_week = start_of_utc_week now\<rparr>
       \<in> set (continuation_reservation db)"

lemma same_books_pledged:
  assumes "same_books b c" "same_money b c" "pledged a i u now b"
  shows "pledged a i u now c"
proof -
  have "same_money a c"
    using assms(2,3) by (simp add: pledged_def same_money_def)
  then show ?thesis
    using assms(1,3) same_books_pledges [OF assms(1)] by (simp add: pledged_def same_books_def)
qed

lemma keeps_conj_books:
  assumes "\<And>b. keeps (\<lambda>db. same_books b db \<and> same_money b db) m"
    and "\<And>b c. same_books b c \<Longrightarrow> same_money b c \<Longrightarrow> P b \<Longrightarrow> P c"
  shows "keeps P m"
proof (rule validI)
  fix s v s'
  assume "P s" "m s = (Inr v, s')"
  then show "P s'"
    using keeps_apply [OF assms(1) [of s], of s v s'] assms(2) [of s s'] by simp
qed

lemma reserve_pledged:
  "valid (\<lambda>db. same_money a db \<and> same_pledges a i u db) (reserve i u now)
     (\<lambda>b db. b \<longrightarrow> pledged a i u now db)"
proof (rule validI, rule impI)
  fix db b db'
  assume pre: "same_money a db \<and> same_pledges a i u db" and run: "reserve i u now db = (Inr b, db')"
    and b: "b"
  from run b obtain q s where q: "quota_on db u now = Inr q" "reserve_source q = Some s"
    and ins: "insert_reservation
        \<lparr>r_match = i, r_user = u, r_source = s, r_week = start_of_utc_week now\<rparr> db = (Inr (), db')"
    unfolding reserve_def
    by (auto simp: lift_result_def ok_def map_err_def dest!: bind_op_InrD then_op_InrD
        split: option.splits prod.splits sum.splits)
  note row = insert_reservation_OkD [OF ins]
  have "s = source_due db i now u"
    using reserve_source_due [OF q] row(2) by simp
  then have "s = source_due a i now u"
    using pre unlimited_cong [of a db] free_left_cong [of a db i u now] by (simp add: source_due_def)
  moreover have "same_money a db'" "same_pledges a i u db'"
    using pre by (simp_all add: row(1) same_money_def same_pledges_def find_match_def)
  ultimately show "pledged a i u now db'"
    by (simp add: pledged_def row(1))
qed

section \<open>The two reservations\<close>

lemma reservations_of_pair:
  assumes "keys_ok db" "length (reservations_of i db) = 2" "find_match db i = Some m"
  shows "map r_user (reservations_of i db) = [user1_id m, user2_id m]"
proof -
  obtain x y where xy: "reservations_of i db = [x, y]"
    using assms(2) by (auto simp: length_Suc_conv numeral_2_eq_2)
  have "distinct (map (\<lambda>r. (r_match r, r_user r)) (reservations_of i db))"
    using assms(1) by (simp add: keys_ok_def reservations_of_def distinct_map inj_on_def)
  then have keys: "(r_match x, r_user x) \<noteq> (r_match y, r_user y)"
    using xy by simp
  have mem: "r \<in> set (continuation_reservation db) \<and> r_match r = i"
    if "r \<in> set (reservations_of i db)" for r
    using that by (auto simp: reservations_of_def)
  have "r_match x = i" "r_match y = i"
    by (rule mem [THEN conjunct2]; simp add: xy)+
  then have ne: "r_user x \<noteq> r_user y"
    using keys by simp
  have "sorted (map r_user (reservations_of i db))"
    by (simp add: reservations_of_def)
  with ne have lt: "r_user x < r_user y"
    using xy by simp
  have part: "participant m (r_user r)" if r: "r \<in> set (reservations_of i db)" for r
  proof -
    obtain m' where "find_match db (r_match r) = Some m'" "participant m' (r_user r)"
      using mem [OF r] assms(1) unfolding keys_ok_def by blast
    then show ?thesis
      using mem [OF r] assms(3) by simp
  qed
  have "user1_id m < user2_id m"
    using assms(1,3) by (auto simp: keys_ok_def dest: find_matchD)
  moreover have "participant m (r_user x)" "participant m (r_user y)"
    by (rule part; simp add: xy)+
  ultimately show ?thesis
    using xy lt by (auto simp: participant_def)
qed

text \<open>The charge due of the participant \<open>v\<close> when the agreement of \<open>u\<close> confirms the match \<open>i\<close>: the one
  who confirms is charged in the current week, from the source due then; the other from the
  reservation that was waiting, in its week, unless the plan has become unlimited since.\<close>

definition charge_due ::
  "db \<Rightarrow> uuid \<Rightarrow> uuid \<Rightarrow> instant \<Rightarrow> uuid \<Rightarrow> credit_source \<Rightarrow> date \<Rightarrow> bool" where
  "charge_due db i u now v s w \<longleftrightarrow>
     (s = Premium \<longleftrightarrow> unlimited db now v) \<and>
     (if v = u then s = source_due db i now u \<and> w = start_of_utc_week now
      else \<exists>r \<in> set (continuation_reservation db). r_match r = i \<and> r_user r = v \<and> r_week r = w \<and>
             (s = Premium \<or> s = r_source r))"

definition charged_both ::
  "db \<Rightarrow> uuid \<Rightarrow> uuid \<Rightarrow> instant \<Rightarrow> uuid \<Rightarrow> uuid \<Rightarrow> db \<Rightarrow> bool" where
  "charged_both db i u now p q db' \<longleftrightarrow>
     (\<exists>sp wp sq wq. let cs = [(p, sp, wp), (q, sq, wq)] in
        charge_due db i u now p sp wp \<and> charge_due db i u now q sq wq \<and>
        (\<forall>v w. used_of db' v w =
           used_of db v w + (if w = start_of_utc_week now then charges_used cs v else 0)) \<and>
        (\<forall>v w. free_used_of db' v w = free_used_of db v w + charges_from Free cs v w) \<and>
        (\<forall>v w. balance_of db' v w = balance_of db v w - charges_from Advertising cs v w))"

lemma charge_of_source:
  assumes "charge_of db now r (u, s, w)"
  shows "u = r_user r \<and> w = r_week r \<and> (s = Premium \<longleftrightarrow> unlimited db now (r_user r)) \<and>
    (s = Premium \<or> s = r_source r)"
proof -
  obtain q where q: "quota_on db (r_user r) now = Inr q"
    "(u, s, w) = (r_user r, (if q_weekly_limit q = None then Premium else r_source r), r_week r)"
    "q_weekly_limit q \<noteq> None \<longrightarrow> r_source r \<noteq> Premium"
    using assms by (auto simp: charge_of_def)
  show ?thesis
    using q(2,3) quota_unlimited [OF q(1)] by (cases "q_weekly_limit q = None") auto
qed

lemma charge_of_due:
  assumes "pledged a i u now db" "keys_ok db"
    and "r \<in> set (continuation_reservation db)" "r_match r = i" "charge_of db now r (v, s, w)"
  shows "charge_due a i u now v s w"
proof -
  note c = charge_of_source [OF assms(5)]
  have plan: "unlimited db = unlimited a"
    using assms(1) by (simp add: pledged_def unlimited_cong)
  show ?thesis
  proof (cases "v = u")
    case True
    let ?r = "\<lparr>r_match = i, r_user = u, r_source = source_due a i now u, r_week = start_of_utc_week now\<rparr>"
    have "inj_on (\<lambda>r. (r_match r, r_user r)) (set (continuation_reservation db))"
      using assms(2) by (simp add: keys_ok_def distinct_map)
    then have "r = ?r"
      by (rule inj_onD) (use assms(1,3,4) c True in \<open>simp_all add: pledged_def\<close>)
    then show ?thesis
      using c True plan by (auto simp: charge_due_def source_due_def)
  next
    case False
    then have "r \<in> set (continuation_reservation a)"
      using assms(1,3) c same_pledges_other [of a i u db r] by (simp add: pledged_def)
    then show ?thesis
      using c False plan assms(4) by (auto simp: charge_due_def)
  qed
qed

text \<open>The state a confirmation leaves, seen from the database \<open>a\<close> before the request.\<close>

definition confirmed_state :: "db \<Rightarrow> env \<Rightarrow> uuid \<Rightarrow> uuid \<Rightarrow> instant \<Rightarrow> db \<Rightarrow> bool" where
  "confirmed_state a e i u now db' \<longleftrightarrow>
     (\<exists>m. find_match db' i = Some m \<and> m_status m = Confirmed \<and> purge_after m = None \<and>
        m_expires_at m = clk e 6 + days 30 \<and>
        charged_both a i u now (user1_id m) (user2_id m) db') \<and>
     (\<forall>r \<in> set (continuation_reservation db'). r_match r \<noteq> i)"

lemma settle_confirmed_state:
  "valid (\<lambda>db. credit_inv now db \<and> waiting i now db \<and> pledged a i u now db) (settle e i u rec now)
     (\<lambda>v db'. v = Cont_Confirmed \<longrightarrow> confirmed_state a e i u now db')"
proof (rule validI, rule impI)
  fix db v db'
  assume pre: "credit_inv now db \<and> waiting i now db \<and> pledged a i u now db"
    and run: "settle e i u rec now db = (Inr v, db')" and v: "v = Cont_Confirmed"
  from run obtain cs where len: "length (reservations_of i db) = 2"
    and cs: "list_all2 (charge_of db now) (reservations_of i db) cs"
    and app: "apply_charges e i rec now cs db = (Inr v, db')"
    using v by (cases rule: settle_cases) auto
  obtain m where m: "find_match db i = Some m" "m_status m = AwaitingContinuation"
    using pre by (auto simp: waiting_def)
  have users: "map r_user (reservations_of i db) = [user1_id m, user2_id m]"
    using reservations_of_pair [OF _ len m(1)] pre by (simp add: credit_inv_def)
  have "set (reservations_of i db) = {r \<in> set (continuation_reservation db). r_match r = i}"
    by (simp add: reservations_of_def)
  then have due: "charge_due a i u now v s w" if "r \<in> set (reservations_of i db)" "charge_of db now r (v, s, w)"
    for r v s w
    using that pre charge_of_due [of a i u now db r v s w] by (simp add: credit_inv_def)
  obtain x y where xy: "reservations_of i db = [x, y]" "r_user x = user1_id m" "r_user y = user2_id m"
    using users by (auto simp: map_eq_Cons_conv)
  then obtain sp wp sq wq where shape: "cs = [(user1_id m, sp, wp), (user2_id m, sq, wq)]"
    and of: "charge_of db now x (user1_id m, sp, wp)" "charge_of db now y (user2_id m, sq, wq)"
    using cs by (auto simp: list_all2_Cons1) (use charge_of_source xy(2,3) in metis)
  have src: "charge_due a i u now (user1_id m) sp wp" "charge_due a i u now (user2_id m) sq wq"
    by (rule due [OF _ of(1)], simp add: xy(1), rule due [OF _ of(2)], simp add: xy(1))
  from app show "confirmed_state a e i u now db'"
  proof (rule apply_charges_Ok)
    fix db1
    assume d: "debit_all cs now db = (Inr (), db1)"
      and fin: "match_init db' = match_init (update_match (clk e 6) i confirmed_row db)"
        "continuation_reservation db' = del_where (\<lambda>r. r_match r = i) (continuation_reservation db)"
        "continuation_usage db' = continuation_usage db1"
        "continuation_wallet db' = continuation_wallet db1"
    have "find_match db' i = find_match (update_match (clk e 6) i confirmed_row db) i"
      using fin(1) by (simp add: find_match_def)
    then have "find_match db' i = Some (track_match_inactivity (clk e 6) m (confirmed_row m))"
      using m(1) by (simp add: find_match_update_same)
    moreover have "m_expires_at (track_match_inactivity (clk e 6) m (confirmed_row m)) = clk e 6 + days 30"
      using m(2) by (simp add: track_match_inactivity_def)
    moreover have num: "used_of db' = used_of db1" "free_used_of db' = free_used_of db1"
        "balance_of db' = balance_of db1"
      using fin(3,4) by (simp_all add: used_of_def free_used_of_def balance_of_def fun_eq_iff)
    moreover have "charged_both a i u now (user1_id m) (user2_id m) db'"
      unfolding charged_both_def Let_def num
      by (rule exI [of _ sp], rule exI [of _ wp], rule exI [of _ sq], rule exI [of _ wq])
         (use debit_all_charged [OF d] src same_money_numbers [of a db] pre in
           \<open>simp add: charged_def moves_def shape pledged_def\<close>)
    ultimately show ?thesis
      using fin(2) by (simp add: confirmed_state_def)
  qed
qed

section \<open>The request\<close>

lemma reserve_and_settle_confirmed_state:
  "valid (\<lambda>db. ready i u now db \<and> same_money a db \<and> same_pledges a i u db) (reserve_and_settle e i u rec now)
     (\<lambda>v db'. v = Cont_Confirmed \<longrightarrow> confirmed_state a e i u now db')"
  unfolding reserve_and_settle_def
proof (rule valid_bind)
  let ?R = "\<lambda>db. credit_inv now db \<and> waiting i now db \<and> pledged a i u now db"
  show "valid (\<lambda>db. ready i u now db \<and> same_money a db \<and> same_pledges a i u db) (reserve i u now)
      (\<lambda>b db. b \<longrightarrow> ?R db)"
  proof (rule validI, rule impI)
    fix db b db'
    assume "ready i u now db \<and> same_money a db \<and> same_pledges a i u db"
      and run: "reserve i u now db = (Inr b, db')" and "b"
    then show "?R db'"
      using validD [OF reserve_credit_inv run] validD [OF reserve_waiting run]
        validD [OF reserve_pledged run] by (auto simp: ready_def waiting_def)
  qed
  have "keeps (\<lambda>db. same_books b db \<and> same_money b db) (set_continued i u True)" for b
    by (rule valid_conj [OF set_continued_same_books set_continued_money])
  then have cont: "keeps ?R (set_continued i u True)"
    by (rule keeps_conj_books)
       (auto intro: same_books_waiting same_books_credit_inv same_books_pledged)
  show "valid (\<lambda>db. b \<longrightarrow> ?R db) (if \<not> b then ok Cont_QuotaReached
       else then_op (set_continued i u True) (settle e i u rec now))
       (\<lambda>v db'. v = Cont_Confirmed \<longrightarrow> confirmed_state a e i u now db')" for b
    by (cases b) (auto intro: valid_then [OF cont] settle_confirmed_state)
qed

lemma make_choice_confirmed_state:
  "valid (\<lambda>db. ready i u now db \<and> same_money a db \<and> same_pledges a i u db) (make_choice e i u rec cost now)
     (\<lambda>v db'. v = Cont_Confirmed \<longrightarrow> confirmed_state a e i u now db')"
proof -
  let ?P = "\<lambda>db. ready i u now db \<and> same_money a db \<and> same_pledges a i u db"
  let ?Q = "\<lambda>v db'. v = Cont_Confirmed \<longrightarrow> confirmed_state a e i u now db'"
  have clear: "keeps ?P (clear_choice (clk e 2) i u)"
    by (intro valid_conj clear_choice_ready clear_choice_money clear_choice_pledges)
  have stop: "valid ?P (ok Cont_PlanChanged) ?Q" "valid ?P (ok Cont_AlreadyRecorded) ?Q"
    by (auto intro: valid_ok)
  show ?thesis
    unfolding make_choice_def
    by (intro valid_bind [where R = "\<lambda>_. ?P"] keeps_lift_result keeps_gets valid_if
        valid_then [OF clear] stop)
       (auto split: option.splits intro!: reserve_and_settle_confirmed_state stop
         valid_then [OF clear])
qed

lemma agree_confirmed_state:
  assumes "m_status rec \<noteq> Confirmed" "m_status rec \<noteq> Active" "t \<le> now"
  shows "valid (\<lambda>db. gated t i u rec db \<and> same_money a db \<and> same_pledges a i u db) (agree e i u rec cost now)
     (\<lambda>v db'. v = Cont_Confirmed \<longrightarrow> confirmed_state a e i u now db')"
  unfolding agree_def
proof (rule valid_if)
  show "valid (\<lambda>db. gated t i u rec db \<and> same_money a db \<and> same_pledges a i u db)
      (then_op (modify (expire_match now i)) (ok Cont_Expired))
      (\<lambda>v db'. v = Cont_Confirmed \<longrightarrow> confirmed_state a e i u now db')"
    by (rule valid_then [where R = "\<lambda>_. True"]) (auto intro: valid_ok valid_modify)
  show "valid (\<lambda>db. gated t i u rec db \<and> same_money a db \<and> same_pledges a i u db) (make_choice e i u rec cost now)
      (\<lambda>v db'. v = Cont_Confirmed \<longrightarrow> confirmed_state a e i u now db')"
    if "\<not> m_expires_at rec \<le> now"
    by (rule valid_weaken [OF make_choice_confirmed_state]) (use that assms gated_ready in auto)
qed

lemma decide_confirmed_state:
  assumes "t \<le> clk e 1"
  shows "valid (\<lambda>db. gated t i u rec db \<and> same_money a db \<and> same_pledges a i u db) (decide e i u legal cost rec)
     (\<lambda>v db'. v = Cont_Confirmed \<longrightarrow> confirmed_state a e i u (clk e 1) db')"
  unfolding decide_def
  by (intro valid_if valid_ok valid_bind [OF keeps_gets]
      valid_then [OF keeps_map_err [OF keeps_lock_eligible_accounts]] agree_confirmed_state assms)
     simp_all

lemma record_continuation_confirmed_state:
  assumes "clock_from t e" "credit_inv t db"
    and "record_continuation e i u legal cost db = (Inr Cont_Confirmed, db')"
  shows "confirmed_state db e i u (clk e 1) db'"
proof -
  have le: "t \<le> clk e 1"
    by (rule clock_fromD [OF assms(1)])
  obtain res db0 where gate: "lock_available_match e i u db = (Inr res, db0)"
    and rest: "(case res of Unavailable f \<Rightarrow> ok (unavailable_result f)
      | Available rec \<Rightarrow> decide e i u legal cost rec) db0 = (Inr Cont_Confirmed, db')"
    using assms(3) by (auto simp: record_continuation_def dest!: bind_op_InrD)
  have money: "same_money db db0"
    using keeps_apply [OF lock_available_match_money gate] by simp
  show ?thesis
  proof (cases res)
    case (Available rec)
    then have "gated t i u rec db0"
      using validD [OF lock_available_match_spec gate assms(2)] by simp
    moreover have "same_pledges db i u db0"
      using lock_available_match_outcome [OF gate] Available by (auto intro: gate_available_pledges)
    ultimately show ?thesis
      using validD [OF decide_confirmed_state [OF le]] rest money Available by auto
  next
    case (Unavailable f)
    then show ?thesis
      using rest by (cases f) (simp_all add: ok_def)
  qed
qed

end
