(* ===== verification/Continuation_Errors.thy ===== *)
theory Continuation_Errors
  imports Continuation_Confirm
begin

text \<open>
  The errors of the agreement.  \<^verbatim>\<open>debit\<close> reports \<^verbatim>\<open>DatabaseError::QueryFailed\<close> when the wallet
  cannot pay for a reserved advertising credit; under the credit invariant this never happens.
\<close>

definition not_query_failed :: "match_store_error \<Rightarrow> bool" where
  "not_query_failed er \<longleftrightarrow> er \<noteq> Database QueryFailed"

section \<open>Charges\<close>

lemma debit_error:
  "debit u s w now db = (Inl er, db') \<Longrightarrow> s = Advertising \<longrightarrow> 0 < balance_of db u w \<Longrightarrow>
   not_query_failed er"
  by (cases s)
     (auto simp: debit_def ok_def then_op_def modify_def debit_wallet_def bump_usage_def
        balance_of_def is_deleted_def not_query_failed_def split: option.splits if_splits)

lemma debit_all_error:
  assumes "\<And>u w. charges_from Advertising cs u w \<le> balance_of db u w"
    and "debit_all cs now db = (Inl er, db')"
  shows "not_query_failed er"
  using assms
proof (induction cs now arbitrary: db rule: debit_all.induct)
  case (1 now)
  then show ?case
    by (simp add: ok_def)
next
  case (2 u s w cs now)
  have cover: "s = Advertising \<longrightarrow> 0 < balance_of db u w"
  proof
    assume "s = Advertising"
    then show "0 < balance_of db u w"
      using 2(2) [of u w] charges_nonneg(2) [of Advertising cs u w] by (simp, linarith)
  qed
  show ?case
  proof (cases "debit u s w now db")
    case (Pair r db1)
    show ?thesis
    proof (cases r)
      case (Inl er')
      then show ?thesis
        using 2(3) Pair debit_error [OF _ cover] by (auto simp: then_op_def)
    next
      case (Inr x)
      then have "charged [(u, s, w)] now db db1"
        using Pair debit_charged by simp
      then have bal: "balance_of db1 v y = balance_of db v y - charges_from Advertising [(u, s, w)] v y"
        for v y by (simp add: charged_def moves_def)
      have "charges_from Advertising cs v y \<le> balance_of db1 v y" for v y
        using 2(2) [of v y] unfolding bal by simp
      then show ?thesis
        using 2(1) [of db1] 2(3) Pair Inr by (simp add: then_op_def)
    qed
  qed
qed

lemma charges_covered:
  assumes "credit_inv now db" "waiting i now db"
    and "list_all2 (charge_of db now) (reservations_of i db) cs"
  shows "charges_from Advertising cs u w \<le> balance_of db u w"
proof (cases "w = start_of_utc_week now")
  case True
  obtain m where "find_match db i = Some m" "m_status m = AwaitingContinuation" "now < m_expires_at m"
    using assms(2) by (auto simp: waiting_def)
  then have "charges_from Advertising cs u w + held (delete_reservations i db) now u Advertising w
      \<le> held db now u Advertising w"
    by (rule charge_le_held [OF _ _ _ assms(3)]) simp
  moreover have "held db now u Advertising w \<le> balance_of db u w"
    using assms(1) True by (simp add: credit_inv_def ads_covered_def)
  ultimately show ?thesis
    using held_nonneg [of "delete_reservations i db" now u Advertising w] by linarith
next
  case False
  then show ?thesis
    using charges_ads_week [OF assms(3) False] balance_nonneg assms(1)
    by (simp add: credit_inv_def)
qed

section \<open>Statements that report other errors only\<close>

lemma enqueue_throws: "throws P (map_err Database (enqueue_notification e k t u src i)) not_query_failed"
  by (rule throws_map_err, rule throwsI)
     (auto simp: enqueue_notification_def Let_def not_query_failed_def split: if_splits)

lemma require_live_match_throws: "throws P (require_live_match i) (\<lambda>er. not_query_failed (Database er))"
  by (rule throwsI)
     (auto simp: require_live_match_def require_live_account_def not_query_failed_def
       split: option.splits if_splits)

lemma set_continued_throws: "throws P (set_continued i u b) not_query_failed"
  unfolding set_continued_def
proof (rule throws_map_err, rule throwsI)
  fix s er s'
  have "throws (\<lambda>_. True) (then_op (require_live_match i) (modify (\<lambda>db. db\<lparr>match_state :=
      upd_where (is_state_of i u) (\<lambda>s. s\<lparr>continued := b\<rparr>) (match_state db)\<rparr>)))
      (\<lambda>er. not_query_failed (Database er))"
    by (rule throws_always_then) (rule require_live_match_throws throws_modify)+
  moreover assume "update_match_state i u (\<lambda>s. s\<lparr>continued := b\<rparr>) s = (Inl er, s')"
  ultimately show "not_query_failed (Database er)"
    by (auto simp: update_match_state_def split: if_splits dest: throwsD)
qed

lemma clear_choice_throws: "throws P (clear_choice t i u) not_query_failed"
  unfolding clear_choice_def
  by (intro throws_always_then throws_modify set_continued_throws)

lemma notify_waiting_throws: "throws P (notify_waiting e i actor x y) not_query_failed"
proof (rule throwsI)
  fix s er s'
  assume "notify_waiting e i actor x y s = (Inl er, s')"
  moreover have "throws (\<lambda>_. True) (then_op (modify (expire_choice_notification (clk e 4) i actor))
      (map_err Database (enqueue_notification e 1 (clk e 5) u (SUuid (new_v4 e 0))
         (ContinuationRequested i actor)))) not_query_failed" for u
    by (intro throws_always_then throws_modify enqueue_throws)
  ultimately show "not_query_failed er"
    by (auto simp: notify_waiting_def Let_def split: if_splits dest: throwsD)
qed

lemma quota_on_error: "quota_on db u now = Inl er \<Longrightarrow> not_query_failed er"
  by (cases "effective_plan_on db u now")
     (auto simp: quota_on_def effective_plan_on_def Let_def not_query_failed_def split: option.splits)

lemma quota_throws: "throws P (lift_result (\<lambda>db. quota_on db u now)) not_query_failed"
  by (rule throwsI) (auto simp: lift_result_def dest: quota_on_error)

lemma throws_true_bind:
  "throws (\<lambda>_. True) m E \<Longrightarrow> (\<And>v. throws (\<lambda>_. True) (f v) E) \<Longrightarrow> throws P (bind_op m f) E"
  by (rule throws_bind [where R = "\<lambda>_ _. True"]) (auto simp: throws_def valid_def)

lemma withdraw_and_wait_throws: "throws P (withdraw_and_wait e i user rec h) not_query_failed"
  unfolding withdraw_and_wait_def
  by (intro throws_always_then clear_choice_throws notify_waiting_throws throws_ok)

lemma collect_charges_throws: "throws P (collect_charges e i user rec now rs) not_query_failed"
proof (induction rs arbitrary: P)
  case (Cons r rs)
  then show ?case
    unfolding collect_charges.simps Let_def
    by (intro throws_if throws_true_bind quota_throws withdraw_and_wait_throws throws_ok)
qed (simp add: throws_ok)

lemma insert_reservation_throws: "throws P (map_err Database (insert_reservation r)) not_query_failed"
  unfolding insert_reservation_def
  by (rule throws_map_err, rule throws_always_then, rule require_live_match_throws, rule throwsI)
     (auto simp: not_query_failed_def split: if_splits)

lemma reserve_throws: "throws P (reserve i u now) not_query_failed"
proof -
  have "throws (\<lambda>_. True) (case reserve_source q of None \<Rightarrow> ok False
      | Some source \<Rightarrow> then_op (map_err Database (insert_reservation
          \<lparr>r_match = i, r_user = u, r_source = source, r_week = start_of_utc_week now\<rparr>)) (ok True))
      not_query_failed" for q
    by (cases "reserve_source q")
       (simp_all add: throws_ok throws_always_then insert_reservation_throws)
  then show ?thesis
    unfolding reserve_def by (intro throws_true_bind quota_throws)
qed

section \<open>The agreement\<close>

lemma apply_charges_throws:
  assumes "\<And>db. P db \<Longrightarrow> credit_inv now db \<and> waiting i now db \<and>
      list_all2 (charge_of db now) (reservations_of i db) cs"
  shows "throws P (apply_charges e i rec now cs) not_query_failed"
  unfolding apply_charges_def
proof (rule throws_then [where R = "\<lambda>_. True"])
  show "throws P (debit_all cs now) not_query_failed"
  proof (rule throwsI)
    fix db er db'
    assume "P db" and run: "debit_all cs now db = (Inl er, db')"
    then have "charges_from Advertising cs u w \<le> balance_of db u w" for u w
      using assms by (intro charges_covered [of now db i]) auto
    then show "not_query_failed er"
      using run by (rule debit_all_error)
  qed
  have "throws (\<lambda>_. True) (confirm_match t j) not_query_failed" for t j
    by (rule throwsI) (auto simp: confirm_match_def not_query_failed_def split: if_splits)
  then show "throws (\<lambda>_. True) (then_op (confirm_match (clk e 6) i) (then_op (announce_confirmation e i rec)
      (then_op (modify (delete_reservations i)) (ok Cont_Confirmed)))) not_query_failed"
    unfolding announce_confirmation_def
    by (intro throws_always_then throws_modify throws_ok enqueue_throws)
qed (simp add: valid_def)

lemma settle_throws:
  "throws (\<lambda>db. credit_inv now db \<and> waiting i now db) (settle e i u rec now) not_query_failed"
proof (rule throwsI)
  fix db er db'
  assume pre: "credit_inv now db \<and> waiting i now db" and run: "settle e i u rec now db = (Inl er, db')"
  let ?rs = "reservations_of i db"
  show "not_query_failed er"
  proof (cases "length ?rs = 2")
    case False
    have "throws (\<lambda>_. True) (then_op (notify_waiting e i u (user1_id rec) (user2_id rec)) (ok Cont_Pending))
        not_query_failed"
      by (intro throws_always_then notify_waiting_throws throws_ok)
    then show ?thesis
      using run False by (auto simp: settle_def gets_def dest: throwsD)
  next
    case True
    have eq: "settle e i u rec now db =
        bind_op (collect_charges e i u rec now ?rs) (\<lambda>ch. case ch of None \<Rightarrow> ok Cont_Pending
          | Some cs \<Rightarrow> apply_charges e i rec now cs) db"
      using True by (simp add: settle_def gets_def)
    have "throws (\<lambda>x. x = db) (bind_op (collect_charges e i u rec now ?rs) (\<lambda>ch. case ch of
        None \<Rightarrow> ok Cont_Pending | Some cs \<Rightarrow> apply_charges e i rec now cs)) not_query_failed"
    proof (rule throws_bind [OF collect_charges_throws])
      show "valid (\<lambda>x. x = db) (collect_charges e i u rec now ?rs) (\<lambda>ch x. \<forall>cs. ch = Some cs \<longrightarrow>
          x = db \<and> list_all2 (charge_of db now) ?rs cs)"
        by (rule validI) (auto dest: collect_charges_Some)
      show "throws (\<lambda>x. \<forall>cs. ch = Some cs \<longrightarrow> x = db \<and> list_all2 (charge_of db now) ?rs cs)
          (case ch of None \<Rightarrow> ok Cont_Pending | Some cs \<Rightarrow> apply_charges e i rec now cs)
          not_query_failed" for ch
        using pre by (cases ch) (auto intro!: throws_ok apply_charges_throws)
    qed
    then show ?thesis
      using run eq by (auto dest: throwsD)
  qed
qed

lemma reserve_and_settle_throws:
  "throws (ready i u now) (reserve_and_settle e i u rec now) not_query_failed"
  unfolding reserve_and_settle_def
proof (rule throws_bind [OF reserve_throws])
  let ?R = "\<lambda>db. credit_inv now db \<and> waiting i now db"
  show "valid (ready i u now) (reserve i u now) (\<lambda>_. ?R)"
    by (rule valid_weaken [OF valid_conj [OF reserve_credit_inv reserve_waiting]])
       (auto simp: ready_def waiting_def)
  have "keeps ?R (set_continued i u True)"
    by (intro valid_conj keeps_same_books [OF set_continued_same_books same_books_waiting]
        keeps_same_books [OF set_continued_same_books same_books_credit_inv])
  then show "throws ?R (if \<not> b then ok Cont_QuotaReached
       else then_op (set_continued i u True) (settle e i u rec now)) not_query_failed" for b
    by (intro throws_if throws_ok throws_then [OF set_continued_throws _ settle_throws])
qed

lemma make_choice_throws: "throws (ready i u now) (make_choice e i u rec cost now) not_query_failed"
proof -
  have plan: "throws (ready i u now) (lift_result (\<lambda>db. effective_plan_on db u now)) not_query_failed"
    by (rule throwsI)
       (auto simp: lift_result_def effective_plan_on_def Let_def not_query_failed_def split: option.splits)
  have clear: "throws (ready i u now) (then_op (clear_choice (clk e 2) i u) (reserve_and_settle e i u rec now))
      not_query_failed"
    by (rule throws_then [OF clear_choice_throws clear_choice_ready reserve_and_settle_throws])
  show ?thesis
    unfolding make_choice_def
    by (intro throws_bind [where R = "\<lambda>_. ready i u now", OF plan keeps_lift_result]
        throws_bind [where R = "\<lambda>_. ready i u now", OF throws_gets keeps_gets] throws_if)
       (auto split: option.splits
         intro!: throws_ok clear reserve_and_settle_throws throws_always_then clear_choice_throws)
qed

lemma record_continuation_throws:
  assumes "clock_from t e"
  shows "throws (credit_inv t) (record_continuation e i u legal cost) not_query_failed"
  unfolding record_continuation_def
proof (rule throws_bind [OF _ lock_available_match_spec])
  show "throws (credit_inv t) (lock_available_match e i u) not_query_failed"
    by (rule throwsI) (auto dest: lock_available_match_outcome)
  have elig: "throws P (map_err Database (lock_eligible_accounts us legal)) not_query_failed" for P us
    by (rule throws_map_err, rule throwsI)
       (auto simp: lock_eligible_accounts_def not_query_failed_def split: if_splits)
  have agree: "throws (gated t i u rec) (agree e i u rec cost (clk e 1)) not_query_failed"
    if "m_status rec \<noteq> Confirmed" "m_status rec \<noteq> Active" for rec
    unfolding agree_def
    by (intro throws_if throws_always_then throws_modify throws_ok)
       (rule throws_weaken [OF make_choice_throws], use that gated_ready clock_fromD [OF assms] in auto)
  have "throws (gated t i u rec) (decide e i u legal cost rec) not_query_failed" for rec
    unfolding decide_def
    by (intro throws_if throws_ok throws_bind [OF throws_gets keeps_gets]
        throws_then [OF elig keeps_map_err [OF keeps_lock_eligible_accounts]] agree)
  then show "throws (\<lambda>db. credit_inv t db \<and> (\<forall>rec. res = Available rec \<longrightarrow> gated t i u rec db))
      (case res of Available rec \<Rightarrow> decide e i u legal cost rec
       | Unavailable failure \<Rightarrow> ok (unavailable_result failure)) not_query_failed" for res
    by (cases res) (auto intro: throws_ok throws_weaken)
qed

end
