(* ===== verification/Match_Store.thy ===== *)
theory Match_Store
  imports Messages Continuation_Errors
begin

text \<open>
  The remaining operations of \<^verbatim>\<open>PgMatchRepository\<close> (\<^verbatim>\<open>src/matches/pg/matches.rs\<close>,
  \<^verbatim>\<open>src/matches/pg/reveal.rs\<close>): creating a match, looking it up, listing the matches of a user,
  revealing photos and ending a match.  What the list shows of the other user's profile (name,
  age, sex, bio, traits, answers) comes from the profile tables and is the argument \<open>profile\<close>.
\<close>

section \<open>Creation\<close>

definition match_row_of :: "match_record \<Rightarrow> match_row" where
  "match_row_of r =
     \<lparr>m_id = m_id r, user1_id = user1_id r, user2_id = user2_id r, m_status = m_status r,
      m_expires_at = m_expires_at r, purge_after = purge_after r,
      continuation_initiator_id = continuation_initiator_id r, m_created_at = m_created_at r,
      last_message_at = last_message_at r, photo_reveal_version = 0\<rparr>"

text \<open>The insert trigger of \<^verbatim>\<open>match_init\<close>: a match born confirmed gets its deadline.\<close>

definition track_inserted :: "instant \<Rightarrow> match_row \<Rightarrow> match_row" where
  "track_inserted t m = (if m_status m = Confirmed then m\<lparr>m_expires_at := t + days 30\<rparr> else m)"

definition insert_match :: "env \<Rightarrow> match_record \<Rightarrow> (db, database_error, nat) op" where
  "insert_match e r db =
     (if \<not> live_account db (user1_id r) \<or> \<not> live_account db (user2_id r) \<or>
         blocked_pair db (user1_id r) (user2_id r)
      then (Inr 0, db)
      else if \<not> user1_id r < user2_id r then (Inl (Constraint Check), db)
      else if \<exists>m \<in> set (match_init db). m_id m = m_id r \<or>
                (user1_id m = user1_id r \<and> user2_id m = user2_id r)
      then (Inl (Constraint Unique), db)
      else if (case continuation_initiator_id r of
                 None \<Rightarrow> False | Some u \<Rightarrow> user_account db u = None)
      then (Inl (Constraint ForeignKey), db)
      else (Inr 1, db\<lparr>match_init := match_init db @ [track_inserted (clk e 0) (match_row_of r)]\<rparr>))"

definition new_state :: "uuid \<Rightarrow> uuid \<Rightarrow> match_state_row" where
  "new_state i u = \<lparr>ms_match = i, ms_user = u, revealed = False, continued = False\<rparr>"

definition insert_match_states :: "uuid \<Rightarrow> uuid \<Rightarrow> uuid \<Rightarrow> (db, database_error, unit) op" where
  "insert_match_states i a b =
     then_op (require_live_match i)
       (\<lambda>db. if a = b \<or> list_ex (\<lambda>s. is_state_of i a s \<or> is_state_of i b s) (match_state db)
              then (Inl (Constraint Unique), db)
              else (Inr (), db\<lparr>match_state := match_state db @ [new_state i a, new_state i b]\<rparr>))"

definition candidates_available :: "db \<Rightarrow> uuid \<Rightarrow> uuid \<Rightarrow> bool" where
  "candidates_available db a b \<longleftrightarrow>
     (let rows = filter (live_account db) (remdups [a, b]) in
      length rows = 2 \<and>
      \<not> list_ex (\<lambda>u. case user_account db u of Some x \<Rightarrow> discovery_paused x | None \<Rightarrow> False) rows)"

definition announce_match :: "env \<Rightarrow> match_record \<Rightarrow> (db, match_store_error, unit) op" where
  "announce_match e r =
     then_op (map_err Database (enqueue_notification e 0 (clk e 1) (user1_id r) (SUuid (m_id r))
                (NewMatch (m_id r))))
       (map_err Database (enqueue_notification e 1 (clk e 2) (user2_id r) (SUuid (m_id r))
          (NewMatch (m_id r))))"

definition create_body :: "env \<Rightarrow> match_record \<Rightarrow> (db, match_store_error, unit) op" where
  "create_body e r =
     bind_op (gets (\<lambda>db. candidates_available db (user1_id r) (user2_id r))) (\<lambda>available.
       if \<not> available then err ParticipantUnavailable
       else bind_op (map_err Database (insert_match e r)) (\<lambda>inserted.
         if inserted \<noteq> 1
         then bind_op (gets (\<lambda>db. blocked_pair db (user1_id r) (user2_id r))) (\<lambda>blocked.
           err (if blocked then Blocked else ParticipantUnavailable))
         else then_op (map_err Database (insert_match_states (m_id r) (user1_id r) (user2_id r)))
           (announce_match e r)))"

definition create :: "env \<Rightarrow> match_record \<Rightarrow> (db, match_store_error, unit) op" where
  "create e r = transaction (create_body e r)"

section \<open>Lookups\<close>

definition find_by_pair :: "db \<Rightarrow> uuid \<Rightarrow> uuid \<Rightarrow> match_record option" where
  "find_by_pair db a b =
     map_option map_match_record
       (find (\<lambda>m. user1_id m = a \<and> user2_id m = b) (match_init db))"

definition participant_ids :: "db \<Rightarrow> uuid \<Rightarrow> uuid \<Rightarrow> (uuid \<times> uuid) option" where
  "participant_ids db i u =
     (case find_match db i of
        Some m \<Rightarrow> if participant m u then Some (user1_id m, user2_id m) else None
      | None \<Rightarrow> None)"

definition quota_snapshot :: "db \<Rightarrow> uuid \<Rightarrow> instant \<Rightarrow> match_store_error + continuation_quota" where
  "quota_snapshot db u now = quota_on db u now"

section \<open>The list of matches\<close>

definition other_of :: "uuid \<Rightarrow> ('a) match_record_scheme \<Rightarrow> uuid" where
  "other_of u m = (if user1_id m = u then user2_id m else user1_id m)"

definition activity_key :: "('a) match_record_scheme \<Rightarrow> instant \<times> uuid" where
  "activity_key m =
     ((case last_message_at m of Some t \<Rightarrow> t | None \<Rightarrow> m_created_at m), m_id m)"

definition listed_match :: "db \<Rightarrow> instant \<Rightarrow> uuid \<Rightarrow> match_row \<Rightarrow> bool" where
  "listed_match db now u m \<longleftrightarrow>
     participant m u \<and> m_status m \<noteq> Ended \<and>
     (m_status m = Confirmed \<longrightarrow> m_expires_at m > now) \<and>
     (case user_account db (other_of u m) of Some a \<Rightarrow> deleted_at a = None | None \<Rightarrow> False) \<and>
     \<not> blocked_pair db u (other_of u m)"

text \<open>The page: the rows where the user is first and those where the user is second, each cut to
  \<open>limit + offset\<close>, merged, ordered and cut again.\<close>

definition match_page ::
  "db \<Rightarrow> instant \<Rightarrow> uuid \<Rightarrow> nat \<Rightarrow> nat \<Rightarrow> (instant \<times> uuid) option \<Rightarrow> match_row list" where
  "match_page db now u limit offset cur =
     (let side = (\<lambda>first. take (limit + offset) (order_desc activity_key
            (filter (\<lambda>m. (if first then user1_id m else user2_id m) = u \<and>
               listed_match db now u m \<and> before_cursor activity_key cur m) (match_init db))))
      in take limit (drop offset (order_desc activity_key (side True @ side False))))"

record 'p user_match_row =
  um_record :: match_record
  um_other_user_id :: uuid
  um_other_profile :: 'p
  um_other_photo :: "uuid option"
  um_my_revealed :: bool
  um_photos_revealed :: bool
  um_my_continued :: bool
  um_unread_count :: int
  um_last_message :: "message_record option"

definition state_flag ::
  "db \<Rightarrow> (match_state_row \<Rightarrow> bool) \<Rightarrow> uuid \<Rightarrow> uuid \<Rightarrow> bool" where
  "state_flag db flag i u =
     (case find (is_state_of i u) (match_state db) of Some s \<Rightarrow> flag s | None \<Rightarrow> False)"

definition approved_ready_photo :: "db \<Rightarrow> uuid \<Rightarrow> uuid option" where
  "approved_ready_photo db u =
     map_option ph_id (find (\<lambda>p. ph_user p = u \<and> ph_ready p \<and> ph_id p \<in> set (approved_photo db))
       (user_photo db))"

definition my_continued :: "db \<Rightarrow> instant \<Rightarrow> uuid \<Rightarrow> match_row \<Rightarrow> bool" where
  "my_continued db now u m \<longleftrightarrow>
     state_flag db continued (m_id m) u \<and>
     (m_status m = Confirmed \<or>
      list_ex (\<lambda>r. r_match r = m_id m \<and> r_user r = u \<and>
         (r_source r \<noteq> Advertising \<or> r_week r = start_of_utc_week now))
        (continuation_reservation db))"

definition last_message :: "db \<Rightarrow> uuid \<Rightarrow> message_record option" where
  "last_message db i =
     (case order_desc message_key (filter (\<lambda>m. msg_match_id m = i) (chat_message db)) of
        [] \<Rightarrow> None | m # _ \<Rightarrow> Some (map_message_record m))"

definition unread_count :: "db \<Rightarrow> uuid \<Rightarrow> uuid \<Rightarrow> int" where
  "unread_count db i u =
     int (rows_where (\<lambda>m. msg_match_id m = i \<and> msg_sender_id m \<noteq> u \<and> msg_read_at m = None)
       (chat_message db))"

definition map_user_match_row ::
  "db \<Rightarrow> instant \<Rightarrow> uuid \<Rightarrow> 'p \<Rightarrow> match_row \<Rightarrow> 'p user_match_row" where
  "map_user_match_row db now u p m =
     (let other = other_of u m;
          mine = state_flag db revealed (m_id m) u;
          both = mine \<and> state_flag db revealed (m_id m) other
      in \<lparr>um_record = map_match_record m, um_other_user_id = other, um_other_profile = p,
          um_other_photo =
            (if both \<and> approved_ready_photo db u \<noteq> None then approved_ready_photo db other
             else None),
          um_my_revealed = mine, um_photos_revealed = both,
          um_my_continued = my_continued db now u m,
          um_unread_count = unread_count db (m_id m) u,
          um_last_message = last_message db (m_id m)\<rparr>)"

definition list_for_user ::
  "(uuid \<rightharpoonup> 'p) \<Rightarrow> db \<Rightarrow> instant \<Rightarrow> uuid \<Rightarrow> nat \<Rightarrow> nat \<Rightarrow> (instant \<times> uuid) option \<Rightarrow>
   'p user_match_row list" where
  "list_for_user profile db now u limit offset cur =
     List.map_filter (\<lambda>m. map_option (\<lambda>p. map_user_match_row db now u p m) (profile (other_of u m)))
       (match_page db now u limit offset cur)"

section \<open>Photo reveal\<close>

definition participants_photos_ready :: "db \<Rightarrow> uuid \<Rightarrow> uuid \<Rightarrow> bool" where
  "participants_photos_ready db a b \<longleftrightarrow>
     length (remdups (map ph_user (filter (\<lambda>p. ph_user p \<in> {a, b} \<and> ph_ready p \<and>
        ph_id p \<in> set (approved_photo db)) (user_photo db)))) = 2"

definition all_revealed :: "uuid \<Rightarrow> match_state_row list \<Rightarrow> bool" where
  "all_revealed i rows \<longleftrightarrow>
     (let s = filter (\<lambda>s. ms_match s = i) rows in length s = 2 \<and> list_all revealed s)"

text \<open>\<^verbatim>\<open>RECORD_REVEAL_SQL\<close>: whether the caller's row exists, and whether both have agreed once the
  caller's new choice is laid over the snapshot.\<close>

definition set_revealed ::
  "uuid \<Rightarrow> uuid \<Rightarrow> bool \<Rightarrow> (db, database_error, bool \<times> bool) op" where
  "set_revealed i u b =
     then_op (update_match_state i u (\<lambda>s. s\<lparr>revealed := b\<rparr>))
       (gets (\<lambda>db. (list_ex (is_state_of i u) (match_state db),
          list_ex (is_state_of i u) (match_state db) \<and> all_revealed i (match_state db))))"

definition bump_reveal_version :: "uuid \<Rightarrow> db \<Rightarrow> db" where
  "bump_reveal_version i db =
     db\<lparr>match_init := upd_where (\<lambda>m. m_id m = i)
        (\<lambda>m. m\<lparr>photo_reveal_version := photo_reveal_version m + 1\<rparr>) (match_init db)\<rparr>"

definition announce_reveal :: "env \<Rightarrow> uuid \<Rightarrow> match_record \<Rightarrow> (db, match_store_error, unit) op" where
  "announce_reveal e i rec =
     then_op (modify (bump_reveal_version i))
       (bind_op (gets (\<lambda>db. case find_match db i of Some m \<Rightarrow> photo_reveal_version m | None \<Rightarrow> 0))
         (\<lambda>v. then_op (map_err Database (enqueue_notification e 0 (clk e 1) (user1_id rec)
                  (SUuidAt i v) (PhotosRevealed i v)))
               (map_err Database (enqueue_notification e 1 (clk e 2) (user2_id rec)
                  (SUuidAt i v) (PhotosRevealed i v)))))"

definition reveal_available ::
  "env \<Rightarrow> uuid \<Rightarrow> uuid \<Rightarrow> photo_reveal_consent \<Rightarrow> match_record \<Rightarrow>
   (db, match_store_error, bool match_command_result) op" where
  "reveal_available e i u consent rec =
     bind_op (gets (\<lambda>db. participants_photos_ready db (user1_id rec) (user2_id rec))) (\<lambda>ready.
       if is_granted consent \<and> \<not> ready then err PhotoRequired
       else bind_op (gets (\<lambda>db. all_revealed i (match_state db))) (\<lambda>was_revealed.
         bind_op (map_err Database (set_revealed i u (is_granted consent))) (\<lambda>(updated, now_revealed).
           if \<not> updated then ok (Unavailable NotFound)
           else if now_revealed \<and> \<not> was_revealed
           then then_op (announce_reveal e i rec) (ok (Available now_revealed))
           else ok (Available now_revealed))))"

definition record_reveal ::
  "env \<Rightarrow> uuid \<Rightarrow> uuid \<Rightarrow> photo_reveal_consent \<Rightarrow>
   (db, match_store_error, bool match_command_result) op" where
  "record_reveal e i u consent =
     transaction (bind_op (lock_available_match e i u) (\<lambda>available.
       case available of
         Unavailable reason \<Rightarrow> ok (Unavailable reason)
       | Available rec \<Rightarrow> reveal_available e i u consent rec))"

section \<open>Ending\<close>

definition ended_row :: "instant \<Rightarrow> match_row \<Rightarrow> match_row" where
  "ended_row t m =
     m\<lparr>m_status := Ended,
       purge_after := Some (case purge_after m of
          Some p \<Rightarrow> p
        | None \<Rightarrow> if m_status m = Confirmed \<and> m_expires_at m \<le> t then t
                  else t + days MATCH_PURGE_DAYS)\<rparr>"

definition record_end :: "env \<Rightarrow> uuid \<Rightarrow> uuid \<Rightarrow> (db, match_store_error, match_end option) op" where
  "record_end e i u =
     transaction (\<lambda>db.
       case find_match db i of
         None \<Rightarrow> (Inr None, db)
       | Some m \<Rightarrow>
           if \<not> participant m u \<or> is_deleted db (user1_id m) \<or> is_deleted db (user2_id m)
           then (Inr None, db)
           else
             let changed = (m_status m \<noteq> Ended) in
             (Inr (Some \<lparr>me_participant_ids = (user1_id m, user2_id m), me_changed = changed\<rparr>),
              if changed
              then delete_reservations i (update_match (clk e 0) i (ended_row (clk e 0)) db)
              else db))"

end
