(* ===== verification/Match_Maintenance.thy ===== *)
theory Match_Maintenance
  imports Match_Store
begin

text \<open>
  \<^verbatim>\<open>src/matches/pg/maintenance.rs\<close>, \<^verbatim>\<open>reminders.rs\<close>, \<^verbatim>\<open>inactivity.rs\<close> and
  \<^verbatim>\<open>src/matches/maintenance.rs\<close>: the bounded batches that move overdue matches along, remind and
  warn their participants, and erase what is past its purge date.  \<^verbatim>\<open>FOR UPDATE .. SKIP LOCKED\<close>
  leaves out the rows another transaction holds: the argument \<open>skip\<close>.
\<close>

section \<open>Batches and totals\<close>

record maintenance_batch =
  mb_opened :: nat
  mb_reminded :: nat
  mb_expired :: nat
  mb_warned :: nat
  mb_closed_inactive :: nat
  mb_deleted_messages :: nat
  mb_deleted_notifications :: nat
  mb_detached_reports :: nat
  mb_purged :: nat

definition is_full :: "maintenance_batch \<Rightarrow> nat \<Rightarrow> bool" where
  "is_full b limit \<longleftrightarrow>
     list_ex (\<lambda>count. count \<ge> limit)
       [mb_opened b, mb_reminded b, mb_expired b, mb_warned b, mb_closed_inactive b,
        mb_deleted_messages b, mb_deleted_notifications b, mb_detached_reports b, mb_purged b]"

record maintenance_result = maintenance_batch +
  mr_batches :: nat
  mr_work_remaining :: bool

definition empty_result :: maintenance_result where
  "empty_result =
     \<lparr>mb_opened = 0, mb_reminded = 0, mb_expired = 0, mb_warned = 0, mb_closed_inactive = 0,
      mb_deleted_messages = 0, mb_deleted_notifications = 0, mb_detached_reports = 0,
      mb_purged = 0, mr_batches = 0, mr_work_remaining = False\<rparr>"

definition processed :: "maintenance_result \<Rightarrow> nat" where
  "processed r =
     foldl saturating_add_u64 (mb_opened r)
       [mb_reminded r, mb_expired r, mb_warned r, mb_closed_inactive r, mb_deleted_messages r,
        mb_deleted_notifications r, mb_detached_reports r, mb_purged r]"

definition merge_batch :: "maintenance_result \<Rightarrow> maintenance_batch \<Rightarrow> maintenance_result" where
  "merge_batch r b =
     r\<lparr>mb_opened := saturating_add_u64 (mb_opened r) (mb_opened b),
       mb_reminded := saturating_add_u64 (mb_reminded r) (mb_reminded b),
       mb_expired := saturating_add_u64 (mb_expired r) (mb_expired b),
       mb_warned := saturating_add_u64 (mb_warned r) (mb_warned b),
       mb_closed_inactive := saturating_add_u64 (mb_closed_inactive r) (mb_closed_inactive b),
       mb_deleted_messages := saturating_add_u64 (mb_deleted_messages r) (mb_deleted_messages b),
       mb_deleted_notifications :=
         saturating_add_u64 (mb_deleted_notifications r) (mb_deleted_notifications b),
       mb_detached_reports := saturating_add_u64 (mb_detached_reports r) (mb_detached_reports b),
       mb_purged := saturating_add_u64 (mb_purged r) (mb_purged b)\<rparr>"

section \<open>Selection\<close>

definition deadline_key :: "match_row \<Rightarrow> instant \<times> uuid" where
  "deadline_key m = (m_expires_at m, m_id m)"

definition due_matches ::
  "(uuid \<Rightarrow> bool) \<Rightarrow> (match_row \<Rightarrow> bool) \<Rightarrow> nat \<Rightarrow> db \<Rightarrow> match_row list" where
  "due_matches skip P limit db =
     order_limit deadline_key limit (filter (\<lambda>m. P m \<and> \<not> skip (m_id m)) (match_init db))"

definition update_matches ::
  "instant \<Rightarrow> uuid list \<Rightarrow> (match_row \<Rightarrow> match_row) \<Rightarrow> db \<Rightarrow> db" where
  "update_matches t ids f db =
     db\<lparr>match_init := upd_where (\<lambda>m. m_id m \<in> set ids)
        (\<lambda>m. track_match_inactivity t m (f m)) (match_init db)\<rparr>"

definition move_due ::
  "(uuid \<Rightarrow> bool) \<Rightarrow> (match_row \<Rightarrow> bool) \<Rightarrow> (match_row \<Rightarrow> match_row) \<Rightarrow> instant \<Rightarrow> nat \<Rightarrow>
   (db, database_error, nat) op" where
  "move_due skip P f now limit db =
     (let due = due_matches skip P limit db in
      (Inr (length due), update_matches now (map m_id due) f db))"

definition open_continuation_windows ::
  "(uuid \<Rightarrow> bool) \<Rightarrow> instant \<Rightarrow> nat \<Rightarrow> (db, database_error, nat) op" where
  "open_continuation_windows skip now =
     move_due skip (\<lambda>m. m_status m = Active \<and> m_expires_at m \<le> now) open_window_row now"

definition expire_continuation_windows ::
  "(uuid \<Rightarrow> bool) \<Rightarrow> instant \<Rightarrow> instant \<Rightarrow> nat \<Rightarrow> (db, database_error, nat) op" where
  "expire_continuation_windows skip now purge =
     move_due skip (\<lambda>m. m_status m = AwaitingContinuation \<and> m_expires_at m \<le> now)
       (\<lambda>m. m\<lparr>m_status := Expired, purge_after := Some purge\<rparr>) now"

definition close_inactive_matches ::
  "(uuid \<Rightarrow> bool) \<Rightarrow> instant \<Rightarrow> nat \<Rightarrow> (db, database_error, nat) op" where
  "close_inactive_matches skip now =
     move_due skip (\<lambda>m. m_status m = Confirmed \<and> m_expires_at m \<le> now)
       (\<lambda>m. m\<lparr>m_status := Ended, purge_after := Some now\<rparr>) now"

section \<open>Reminders and warnings\<close>

definition reachable_pair :: "db \<Rightarrow> match_row \<Rightarrow> bool" where
  "reachable_pair db m \<longleftrightarrow>
     live_account db (user1_id m) \<and> live_account db (user2_id m) \<and>
     \<not> blocked_pair db (user1_id m) (user2_id m)"

definition reminder_due :: "db \<Rightarrow> instant \<Rightarrow> match_row \<Rightarrow> bool" where
  "reminder_due db now m \<longleftrightarrow>
     reachable_pair db m \<and> m_status m = Active \<and> m_expires_at m > now \<and>
     m_expires_at m \<le> now + hours MATCH_FIRST_PERIOD_REMINDER_HOURS \<and>
     \<not> (\<exists>n \<in> set (notification db). n_user n = user1_id m \<and> n_type n = NT_FirstPeriodEnding \<and>
          payload_match (n_payload n) = Some (JUuid (m_id m)) \<and> n_expires_at n = m_expires_at m)"

definition warning_due :: "db \<Rightarrow> instant \<Rightarrow> match_row \<Rightarrow> bool" where
  "warning_due db now m \<longleftrightarrow>
     reachable_pair db m \<and> m_status m = Confirmed \<and> m_expires_at m > now \<and>
     m_expires_at m \<le> now + days MATCH_WARNING_DAYS \<and>
     \<not> (\<exists>n \<in> set (notification db). n_user n = user1_id m \<and> n_type n = NT_MatchExpiring \<and>
          payload_match (n_payload n) = Some (JUuid (m_id m)) \<and>
          map_of (n_payload n) ''expires_at'' = Some (JInstant (m_expires_at m)))"

definition notify_both ::
  "env \<Rightarrow> (uuid \<Rightarrow> instant \<Rightarrow> notification_intent) \<Rightarrow> nat \<Rightarrow> match_row \<Rightarrow>
   (db, database_error, unit) op" where
  "notify_both e intent k m =
     (let source = SUuidAt (m_id m) (m_expires_at m);
          i = intent (m_id m) (m_expires_at m)
      in then_op (enqueue_notification e (2 * k) (clk e (2 * k)) (user1_id m) source i)
           (enqueue_notification e (2 * k + 1) (clk e (2 * k + 1)) (user2_id m) source i))"

definition notify_due ::
  "env \<Rightarrow> (uuid \<Rightarrow> bool) \<Rightarrow> (db \<Rightarrow> match_row \<Rightarrow> bool) \<Rightarrow> (uuid \<Rightarrow> instant \<Rightarrow> notification_intent) \<Rightarrow>
   nat \<Rightarrow> nat \<Rightarrow> (db, database_error, nat) op" where
  "notify_due e skip P intent k limit =
     bind_op (gets (\<lambda>db. due_matches skip (P db) limit db)) (\<lambda>due.
       then_op (for_each k (notify_both e intent) due) (ok (length due)))"

definition enqueue_first_period_reminders ::
  "env \<Rightarrow> (uuid \<Rightarrow> bool) \<Rightarrow> instant \<Rightarrow> nat \<Rightarrow> nat \<Rightarrow> (db, database_error, nat) op" where
  "enqueue_first_period_reminders e skip now =
     notify_due e skip (\<lambda>db. reminder_due db now) FirstPeriodEnding"

definition enqueue_warnings ::
  "env \<Rightarrow> (uuid \<Rightarrow> bool) \<Rightarrow> instant \<Rightarrow> nat \<Rightarrow> nat \<Rightarrow> (db, database_error, nat) op" where
  "enqueue_warnings e skip now =
     notify_due e skip (\<lambda>db. warning_due db now) MatchExpiring"

section \<open>Erasure\<close>

definition purge_due :: "instant \<Rightarrow> match_row \<Rightarrow> bool" where
  "purge_due now m \<longleftrightarrow>
     m_status m \<in> {Expired, Ended} \<and>
     (case purge_after m of Some p \<Rightarrow> p \<le> now | None \<Rightarrow> False)"

text \<open>The rows of a child table that hang on a match past its purge date, oldest purge first.\<close>

definition doomed_children ::
  "(uuid \<Rightarrow> bool) \<Rightarrow> ('r \<Rightarrow> uuid) \<Rightarrow> ('r \<Rightarrow> instant) \<Rightarrow> (match_row \<Rightarrow> 'r \<Rightarrow> bool) \<Rightarrow> instant \<Rightarrow> nat \<Rightarrow>
   match_row list \<Rightarrow> 'r list \<Rightarrow> uuid list" where
  "doomed_children skip rid at belongs now limit ms rows =
     map (rid \<circ> snd) (order_limit
       (\<lambda>(m, r). (purge_after m, m_id m, at r, rid r)) limit
       (filter (\<lambda>(m, r). purge_due now m \<and> belongs m r \<and> \<not> skip (rid r)) (List.product ms rows)))"

definition delete_expired_messages ::
  "(uuid \<Rightarrow> bool) \<Rightarrow> instant \<Rightarrow> nat \<Rightarrow> (db, database_error, nat) op" where
  "delete_expired_messages skip now limit db =
     (let ids = doomed_children skip msg_id msg_created_at (\<lambda>m c. msg_match_id c = m_id m) now limit
            (match_init db) (chat_message db)
      in (Inr (rows_where (\<lambda>c. msg_id c \<in> set ids) (chat_message db)),
          db\<lparr>chat_message := del_where (\<lambda>c. msg_id c \<in> set ids) (chat_message db)\<rparr>))"

definition detach_expired_reports ::
  "(uuid \<Rightarrow> bool) \<Rightarrow> instant \<Rightarrow> nat \<Rightarrow> (db, database_error, nat) op" where
  "detach_expired_reports skip now limit db =
     (let ids = doomed_children skip rep_id rep_created_at (\<lambda>m r. rep_match r = Some (m_id m)) now
            limit (match_init db) (user_report db)
      in (Inr (rows_where (\<lambda>r. rep_id r \<in> set ids) (user_report db)),
          db\<lparr>user_report := upd_where (\<lambda>r. rep_id r \<in> set ids) (\<lambda>r. r\<lparr>rep_match := None\<rparr>)
             (user_report db)\<rparr>))"

definition notification_of :: "match_row \<Rightarrow> notification_row \<Rightarrow> bool" where
  "notification_of m n \<longleftrightarrow>
     participant m (n_user n) \<and> payload_match (n_payload n) = Some (JUuid (m_id m))"

definition delete_expired_notifications ::
  "(uuid \<Rightarrow> bool) \<Rightarrow> instant \<Rightarrow> nat \<Rightarrow> (db, database_error, nat) op" where
  "delete_expired_notifications skip now limit db =
     (let ids = doomed_children skip n_id n_created_at notification_of now limit
            (match_init db) (notification db)
      in (Inr (rows_where (\<lambda>n. n_id n \<in> set ids) (notification db)),
          db\<lparr>notification := del_where (\<lambda>n. n_id n \<in> set ids) (notification db),
             notification_push_delivery :=
               del_where (\<lambda>d. pd_notification d \<in> set ids) (notification_push_delivery db)\<rparr>))"

definition childless :: "db \<Rightarrow> match_row \<Rightarrow> bool" where
  "childless db m \<longleftrightarrow>
     \<not> (\<exists>c \<in> set (chat_message db). msg_match_id c = m_id m) \<and>
     \<not> (\<exists>r \<in> set (user_report db). rep_match r = Some (m_id m)) \<and>
     \<not> (\<exists>n \<in> set (notification db). notification_of m n)"

text \<open>\<^verbatim>\<open>DELETE FROM match_init\<close> with its cascades.\<close>

definition cascade_delete_matches :: "uuid list \<Rightarrow> db \<Rightarrow> db" where
  "cascade_delete_matches ids db =
     db\<lparr>match_init := del_where (\<lambda>m. m_id m \<in> set ids) (match_init db),
        match_state := del_where (\<lambda>s. ms_match s \<in> set ids) (match_state db),
        chat_message := del_where (\<lambda>c. msg_match_id c \<in> set ids) (chat_message db),
        continuation_reservation :=
          del_where (\<lambda>r. r_match r \<in> set ids) (continuation_reservation db),
        match_notification_preference :=
          (\<lambda>(i, u). if i \<in> set ids then None else match_notification_preference db (i, u)),
        user_report := upd_where (\<lambda>r. \<exists>i \<in> set ids. rep_match r = Some i)
          (\<lambda>r. r\<lparr>rep_match := None\<rparr>) (user_report db)\<rparr>"

definition purge_expired_matches ::
  "(uuid \<Rightarrow> bool) \<Rightarrow> instant \<Rightarrow> nat \<Rightarrow> (db, database_error, nat) op" where
  "purge_expired_matches skip now limit db =
     (let ms = order_limit (\<lambda>m. (purge_after m, m_id m)) limit
            (filter (\<lambda>m. purge_due now m \<and> childless db m \<and> \<not> skip (m_id m)) (match_init db))
      in (Inr (length ms), cascade_delete_matches (map m_id ms) db))"

section \<open>The job\<close>

text \<open>One batch: nine bounded statements in one transaction.  The second notification loop
  continues the numbering of the first.\<close>

definition run_batch ::
  "env \<Rightarrow> (uuid \<Rightarrow> bool) \<Rightarrow> instant \<Rightarrow> nat \<Rightarrow> (db, database_error, maintenance_batch) op" where
  "run_batch e skip now limit =
     (case checked_add_signed now (days MATCH_PURGE_DAYS) of
        None \<Rightarrow> err QueryFailed
      | Some purge \<Rightarrow>
          bind_op (enqueue_first_period_reminders e skip now 0 limit) (\<lambda>reminded.
          bind_op (open_continuation_windows skip now limit) (\<lambda>opened.
          bind_op (expire_continuation_windows skip now purge limit) (\<lambda>expired.
          bind_op (enqueue_warnings e skip now reminded limit) (\<lambda>warned.
          bind_op (close_inactive_matches skip now limit) (\<lambda>closed_inactive.
          bind_op (delete_expired_messages skip now limit) (\<lambda>deleted_messages.
          bind_op (detach_expired_reports skip now limit) (\<lambda>detached_reports.
          bind_op (delete_expired_notifications skip now limit) (\<lambda>deleted_notifications.
          bind_op (purge_expired_matches skip now limit) (\<lambda>purged.
            ok \<lparr>mb_opened = opened, mb_reminded = reminded, mb_expired = expired,
                mb_warned = warned, mb_closed_inactive = closed_inactive,
                mb_deleted_messages = deleted_messages,
                mb_deleted_notifications = deleted_notifications,
                mb_detached_reports = detached_reports, mb_purged = purged\<rparr>))))))))))"

text \<open>\<^verbatim>\<open>for _ in 0..max_batches\<close>: \<open>n\<close> counts the batches left; batch \<open>k\<close> runs with its own
  transaction environment \<open>es k\<close> and its own locked rows.\<close>

fun run_batches ::
  "(nat \<Rightarrow> env) \<Rightarrow> (nat \<Rightarrow> uuid \<Rightarrow> bool) \<Rightarrow> instant \<Rightarrow> nat \<Rightarrow> nat \<Rightarrow> nat \<Rightarrow> maintenance_result \<Rightarrow>
   (db, database_error, maintenance_result) op" where
  "run_batches es skips now limit 0 k totals = ok totals"
| "run_batches es skips now limit (Suc n) k totals =
     bind_op (transaction (run_batch (es k) (skips k) now limit)) (\<lambda>batch.
       let totals = (merge_batch totals batch)
             \<lparr>mr_batches := saturating_add_u32 (mr_batches totals) 1,
              mr_work_remaining := is_full batch limit\<rparr>
       in if \<not> mr_work_remaining totals then ok totals
          else run_batches es skips now limit n (Suc k) totals)"

definition run_locked ::
  "(nat \<Rightarrow> env) \<Rightarrow> (nat \<Rightarrow> uuid \<Rightarrow> bool) \<Rightarrow> instant \<Rightarrow> nat \<Rightarrow> nat \<Rightarrow>
   (db, database_error, maintenance_result) op" where
  "run_locked es skips now batch_size max_batches =
     run_batches es skips now batch_size max_batches 0 empty_result"

text \<open>\<open>acquired\<close> is the answer of \<^verbatim>\<open>pg_try_advisory_lock\<close>, \<open>unlock\<close> that of
  \<^verbatim>\<open>pg_advisory_unlock\<close>.\<close>

definition run_as_leader ::
  "bool \<Rightarrow> database_error + bool \<Rightarrow> (nat \<Rightarrow> env) \<Rightarrow> (nat \<Rightarrow> uuid \<Rightarrow> bool) \<Rightarrow> instant \<Rightarrow> nat \<Rightarrow> nat \<Rightarrow>
   (db, database_error, maintenance_result option) op" where
  "run_as_leader acquired unlock es skips now batch_size max_batches db =
     (if \<not> acquired then (Inr None, db)
      else case run_locked es skips now batch_size max_batches db of
        (Inr v, db') \<Rightarrow>
          (case unlock of Inr True \<Rightarrow> (Inr (Some v), db') | _ \<Rightarrow> (Inl QueryFailed, db'))
      | (Inl er, db') \<Rightarrow> (Inl er, db'))"

section \<open>Bounds\<close>

lemma move_due_count: "move_due skip P f now limit db = (Inr n, db') \<Longrightarrow> n \<le> limit"
  by (auto simp: move_due_def Let_def due_matches_def)

lemma notify_due_count: "notify_due e skip P intent k limit db = (Inr n, db') \<Longrightarrow> n \<le> limit"
  by (auto simp: notify_due_def due_matches_def gets_def ok_def dest!: bind_op_InrD then_op_InrD)

lemma length_doomed_children:
  "length (doomed_children skip rid at belongs now limit ms rows) \<le> limit"
  by (simp add: doomed_children_def)

lemma doomed_childrenD:
  "x \<in> set (doomed_children skip rid at belongs now limit ms rows) \<Longrightarrow>
   \<exists>m \<in> set ms. \<exists>r \<in> set rows. purge_due now m \<and> belongs m r \<and> x = rid r"
  unfolding doomed_children_def
  by (fastforce dest!: set_order_limit_subset [THEN subsetD])

lemma run_batches_count:
  "run_batches es skips now limit n k totals db = (Inr r, db') \<Longrightarrow>
   mr_batches r \<le> mr_batches totals + n"
proof (induction n arbitrary: k totals db)
  case 0
  then show ?case
    by (simp add: ok_def)
next
  case (Suc n)
  obtain batch db1 where
    rest: "(let totals = (merge_batch totals batch)
             \<lparr>mr_batches := saturating_add_u32 (mr_batches totals) 1,
              mr_work_remaining := is_full batch limit\<rparr>
       in if \<not> mr_work_remaining totals then ok totals
          else run_batches es skips now limit n (Suc k) totals) db1 = (Inr r, db')"
    using Suc.prems by (auto dest!: bind_op_InrD)
  have step: "saturating_add_u32 (mr_batches totals) 1 \<le> mr_batches totals + 1"
    by (simp add: saturating_add_u32_def)
  show ?case
  proof (cases "is_full batch limit")
    case True
    then show ?thesis
      using rest step Suc.IH by (fastforce simp: Let_def)
  next
    case False
    then show ?thesis
      using rest step by (auto simp: Let_def ok_def)
  qed
qed

end
