(* ===== verification/Message_Proofs.thy ===== *)
theory Message_Proofs
  imports Messages
begin

text \<open>
  Properties of the message operations: paging is complete, sending needs a live conversation and
  is idempotent per key, reading marks exactly the messages it covers, and none of them touches
  the credit books.
\<close>

section \<open>Paging\<close>

text \<open>The message list of a match as a paged store; a query is a database and a match.\<close>

definition message_listing :: "db \<times> uuid \<Rightarrow> message_record list" where
  "message_listing q =
     map map_message_record
       (order_desc message_key (filter (\<lambda>m. msg_match_id m = snd q) (chat_message (fst q))))"

definition message_fetch ::
  "db \<times> uuid \<Rightarrow> nat \<Rightarrow> (instant \<times> uuid) option \<Rightarrow> message_record list" where
  "message_fetch q n cur = select_messages (fst q) (snd q) n 0 cur"

definition message_ids_distinct :: "db \<times> uuid \<Rightarrow> bool" where
  "message_ids_distinct q \<longleftrightarrow> distinct (map msg_id (chat_message (fst q)))"

lemma distinct_message_key:
  "distinct (map msg_id rows) \<Longrightarrow> distinct (map message_key (filter P rows))"
  by (induction rows) (auto simp: message_key_def image_iff)

interpretation messages: paged_store message_fetch message_listing message_key message_ids_distinct
proof
  fix q :: "db \<times> uuid" and n cur
  show "message_fetch q n cur = take n (filter (before_cursor message_key cur) (message_listing q))"
    by (simp add: message_fetch_def select_messages_def select_page_def message_listing_def
        filter_map comp_def filter_order_desc before_cursor_def take_map
        cong: option.case_cong filter_cong)
next
  fix q :: "db \<times> uuid"
  assume "message_ids_distinct q"
  then have "distinct (map message_key (filter (\<lambda>m. msg_match_id m = snd q) (chat_message (fst q))))"
    by (simp add: message_ids_distinct_def distinct_message_key)
  then show "sorted_wrt (\<lambda>a b. message_key b < message_key a) (message_listing q)"
    by (simp add: message_listing_def sorted_wrt_map sorted_wrt_order_desc)
qed

section \<open>Sending\<close>

lemma insert_message_Ok:
  assumes "insert_message m db = (Inr v, db')"
  shows "(v = None \<and> db' = db \<and> (\<exists>x \<in> set (chat_message db). msg_sender_id x = msg_sender_id m \<and>
             idempotency_key x = idempotency_key m)) \<or>
         (v = Some (map_message_record m) \<and> db' = db\<lparr>chat_message := chat_message db @ [m]\<rparr> \<and>
          (\<forall>x \<in> set (chat_message db). msg_id x \<noteq> msg_id m) \<and>
          (\<forall>x \<in> set (chat_message db). \<not> (msg_sender_id x = msg_sender_id m \<and>
             idempotency_key m \<noteq> None \<and> idempotency_key x = idempotency_key m)))"
  using assms unfolding insert_message_def
  by (auto dest!: then_op_InrD require_live_match_same split: if_splits)

lemma announce_message_frame:
  "announce_message e rec m db = (r, db') \<Longrightarrow> same_but_notifications db db'"
  by (auto simp: announce_message_def Let_def map_err_def dest: enqueue_notification_frame
      split: prod.splits sum.splits)

text \<open>A message is created only through \<open>store_message\<close>, with this effect.\<close>

definition message_stored :: "env \<Rightarrow> chat_row \<Rightarrow> db \<Rightarrow> db \<Rightarrow> bool" where
  "message_stored e row db db' \<longleftrightarrow>
     chat_message db' = chat_message db @ [row] \<and>
     match_init db' = match_init (touch_match (clk e 2) (msg_created_at row) (msg_match_id row) db) \<and>
     same_books (touch_match (clk e 2) (msg_created_at row) (msg_match_id row) db) db' \<and>
     user_block db' = user_block db"

lemma store_message_created:
  assumes "store_message e rec row k db = (Inr (MessageAvailable c), db')" "mc_created c"
  shows "mc_message c = map_message_record row" "message_stored e row db db'"
    "\<forall>x \<in> set (chat_message db). \<not> (msg_sender_id x = msg_sender_id row \<and>
       idempotency_key row \<noteq> None \<and> idempotency_key x = idempotency_key row)"
proof -
  obtain ins db1 where ins: "insert_message row db = (Inr ins, db1)"
    and rest: "(case ins of
         None \<Rightarrow> gets (\<lambda>db. case find_idempotent_message (msg_sender_id row) k db of
             None \<Rightarrow> IdempotencyConflict
           | Some concurrent \<Rightarrow> replay_result (msg_match_id row) (msg_content row) concurrent)
       | Some m \<Rightarrow>
           then_op (modify (touch_match (clk e 2) (msg_created_at m) (msg_match_id row)))
             (then_op (announce_message e rec m)
               (ok (MessageAvailable \<lparr>mc_message = m,
                  mc_participant_ids = (user1_id rec, user2_id rec), mc_created = True\<rparr>)))) db1
       = (Inr (MessageAvailable c), db')"
    using assms(1)
    by (auto simp: store_message_def map_err_def dest!: bind_op_InrD split: prod.splits sum.splits)
  have "ins \<noteq> None"
    using rest assms(2)
    by (auto simp: gets_def replay_result_def split: option.splits if_splits)
  then have m: "ins = Some (map_message_record row)" "db1 = db\<lparr>chat_message := chat_message db @ [row]\<rparr>"
    and new: "\<forall>x \<in> set (chat_message db). \<not> (msg_sender_id x = msg_sender_id row \<and>
       idempotency_key row \<noteq> None \<and> idempotency_key x = idempotency_key row)"
    using insert_message_Ok [OF ins] by auto
  obtain v where ann: "announce_message e rec (map_message_record row)
      (touch_match (clk e 2) (msg_created_at row) (msg_match_id row) db1) = (Inr v, db')"
    and c: "mc_message c = map_message_record row"
    using rest m(1) by (auto simp: modify_def ok_def dest!: then_op_InrD)
  note same = same_but_notificationsD [OF announce_message_frame [OF ann]]
  show "mc_message c = map_message_record row"
    by (rule c)
  show "message_stored e row db db'"
    using same by (simp add: message_stored_def m(2) touch_match_def update_match_def same_books_def)
  show "\<forall>x \<in> set (chat_message db). \<not> (msg_sender_id x = msg_sender_id row \<and>
       idempotency_key row \<noteq> None \<and> idempotency_key x = idempotency_key row)"
    by (rule new)
qed

lemma gate_frame:
  assumes "lock_available_match e i u db = (r, db')"
  shows "chat_message db' = chat_message db" "match_state db' = match_state db"
    "user_account db' = user_account db" "user_block db' = user_block db"
    "notification db' = notification db" "user_report db' = user_report db"
    "outbox_event db' = outbox_event db"
  using lock_available_match_outcome [OF assms]
  by (auto elim!: gate_outcome.cases
      simp: close_confirmed_def expire_match_def delete_reservations_def update_match_def)

text \<open>A send that succeeds passed the gate.\<close>

lemma create_message_gate:
  assumes "create_message e mid i sender content k db = (Inr v, db')"
  obtains (closed) reason where "v = MessageUnavailable reason"
      "lock_available_match e i sender db = (Inr (Unavailable reason), db')"
  | (available) rec db0 m where "lock_available_match e i sender db = (Inr (Available rec), db0)"
      "find_match db0 i = Some m" "rec = map_match_record m" "participant m sender"
      "m_status m \<in> {Active, AwaitingContinuation, Confirmed}" "clk e 0 < m_expires_at m"
      "\<not> is_deleted db0 (user1_id m)" "\<not> is_deleted db0 (user2_id m)"
      "\<not> blocked_pair db0 (user1_id m) (user2_id m)"
      "send_available e rec mid i sender content k db0 = (Inr v, db')"
proof -
  obtain res db0 where gate: "lock_available_match e i sender db = (Inr res, db0)"
    and rest: "(case res of Unavailable reason \<Rightarrow> ok (MessageUnavailable reason)
       | Available rec \<Rightarrow> send_available e rec mid i sender content k) db0 = (Inr v, db')"
    using assms by (auto simp: create_message_def dest!: transaction_OkD bind_op_InrD)
  show ?thesis
  proof (cases res)
    case (Available rec)
    then have "gate_outcome (clk e 0) i sender db (Available rec) db0"
      using lock_available_match_outcome [OF gate] by simp
    then show ?thesis
      using available [of rec db0] gate rest Available by (auto elim!: gate_available)
  next
    case (Unavailable reason)
    then show ?thesis
      using closed gate rest by (simp add: ok_def)
  qed
qed

lemma send_available_created:
  assumes "send_available e rec mid i sender content k db = (Inr (MessageAvailable c), db')"
    and "mc_created c"
  shows "m_status rec \<noteq> AwaitingContinuation"
    and "mc_message c = map_message_record (new_message_row e mid i sender content k)"
    and "message_stored e (new_message_row e mid i sender content k) db db'"
proof -
  have ne: "m_status rec \<noteq> AwaitingContinuation"
    using assms(1) by (auto simp: send_available_def ok_def split: if_splits)
  moreover have "find_idempotent_message sender k db = None"
    using assms ne
    by (cases "find_idempotent_message sender k db")
       (auto simp: send_available_def gets_def ok_def replay_result_def split: if_splits)
  ultimately have "store_message e rec (new_message_row e mid i sender content k) k db =
      (Inr (MessageAvailable c), db')"
    using assms(1) by (simp add: send_available_def gets_def)
  then show "m_status rec \<noteq> AwaitingContinuation"
    "mc_message c = map_message_record (new_message_row e mid i sender content k)"
    "message_stored e (new_message_row e mid i sender content k) db db'"
    using ne store_message_created [OF _ assms(2)] by blast+
qed

lemma find_match_touch:
  "find_match (touch_match t at i db) i =
     map_option (\<lambda>m. track_match_inactivity t m (m\<lparr>last_message_at := Some at\<rparr>)) (find_match db i)"
  unfolding touch_match_def by (rule find_match_update_same) simp

lemma create_message_effect:
  assumes "create_message e mid i sender content k db = (Inr (MessageAvailable c), db')"
    and "mc_created c"
  defines "row \<equiv> new_message_row e mid i sender content k"
  obtains m where "mc_message c = map_message_record row"
    "chat_message db' = chat_message db @ [row]" "find_match db' i = Some m"
    "m_status m \<in> {Active, Confirmed}" "participant m sender"
    "\<not> blocked_pair db' (user1_id m) (user2_id m)" "last_message_at m = Some (clk e 1)"
    "m_status m = Confirmed \<Longrightarrow> map_option last_message_at (find_match db i) \<noteq> Some (Some (clk e 1)) \<Longrightarrow>
       m_expires_at m = clk e 1 + days 30"
  using assms(1)
proof (cases rule: create_message_gate)
  case (available rec db0 m0)
  note sent = send_available_created [OF available(10) assms(2)]
  let ?m = "track_match_inactivity (clk e 2) m0 (m0\<lparr>last_message_at := Some (clk e 1)\<rparr>)"
  have chat: "chat_message db' = chat_message db @ [row]"
    using sent(3) gate_frame(1) [OF available(1)] by (simp add: message_stored_def row_def)
  have find: "find_match db' i = Some ?m"
    using sent(3) available(2) find_match_touch [of "clk e 2" "clk e 1" i db0]
    by (simp add: message_stored_def find_match_def new_message_row_def)
  have blocks: "blocked_pair db' = blocked_pair db0"
    using sent(3) by (simp add: message_stored_def blocked_pair_def fun_eq_iff)
  have old: "last_message_at m0 \<noteq> Some (clk e 1)"
    if conf: "m_status m0 = Confirmed"
      and ne: "map_option last_message_at (find_match db i) \<noteq> Some (Some (clk e 1))"
  proof -
    have "gate_outcome (clk e 0) i sender db (Available rec) db0"
      using lock_available_match_outcome [OF available(1)] by simp
    then show ?thesis
      using conf ne available(2,3)
      by (cases rule: gate_outcome.cases)
         (auto dest!: visible_matchD simp: find_match_update_same)
  qed
  show ?thesis
    by (rule that [of ?m])
       (use sent(1,2) chat find blocks available old in
         \<open>auto simp: row_def participant_def track_match_inactivity_def\<close>)
qed simp

section \<open>Replays\<close>

abbreviation has_key :: "uuid \<Rightarrow> uuid \<Rightarrow> chat_row \<Rightarrow> bool" where
  "has_key sender k m \<equiv> msg_sender_id m = sender \<and> idempotency_key m = Some k"

lemma find_append_new: "\<forall>x \<in> set xs. \<not> P x \<Longrightarrow> P y \<Longrightarrow> find P (xs @ [y]) = Some y"
  by (induction xs) auto

text \<open>Whenever a send answers with a message, that message is what the key stands for.\<close>

definition key_stands_for :: "uuid \<Rightarrow> uuid \<Rightarrow> uuid \<Rightarrow> utext \<Rightarrow> message_creation \<Rightarrow> db \<Rightarrow> bool" where
  "key_stands_for sender k i content c db \<longleftrightarrow>
     (\<exists>r m. find (has_key sender k) (chat_message db) = Some r \<and> msg_match_id r = i \<and>
        msg_content r = content \<and> mc_message c = map_message_record r \<and>
        find_match db i = Some m \<and> mc_participant_ids c = (user1_id m, user2_id m))"

lemma find_idempotent_Some:
  "find_idempotent_message sender k db = Some c \<Longrightarrow> replay_result i content c = MessageAvailable c' \<Longrightarrow>
   key_stands_for sender k i content c' db"
  by (auto simp: find_idempotent_message_def replay_result_def key_stands_for_def
      split: option.splits if_splits)

lemma store_message_parts:
  "store_message e rec row k db = (Inr (MessageAvailable c), db') \<Longrightarrow>
   find_idempotent_message (msg_sender_id row) k db = None \<Longrightarrow> mc_created c \<and>
   mc_participant_ids c = (user1_id rec, user2_id rec)"
  unfolding store_message_def
  by (auto simp: map_err_def gets_def ok_def dest!: bind_op_InrD then_op_InrD insert_message_Ok
      split: prod.splits sum.splits option.splits)

lemma create_message_key:
  assumes "create_message e mid i sender content k db = (Inr (MessageAvailable c), db')"
  shows "key_stands_for sender k i content c db'"
  using assms
proof (cases rule: create_message_gate)
  case (available rec db0 m)
  have ne: "m_status rec \<noteq> AwaitingContinuation"
    using available(10) by (auto simp: send_available_def ok_def split: if_splits)
  show ?thesis
  proof (cases "find_idempotent_message sender k db0")
    case None
    then have st: "store_message e rec (new_message_row e mid i sender content k) k db0 =
        (Inr (MessageAvailable c), db')" (is "store_message e rec ?row k db0 = _")
      using available(10) ne by (simp add: send_available_def gets_def)
    have row: "msg_sender_id ?row = sender" "msg_match_id ?row = i" "msg_content ?row = content"
      "idempotency_key ?row = Some k" "msg_created_at ?row = clk e 1"
      by (simp_all add: new_message_row_def)
    have c: "mc_created c" "mc_participant_ids c = (user1_id rec, user2_id rec)"
      using store_message_parts [OF st] None row by auto
    note stored = store_message_created [OF st c(1)]
    have "find (has_key sender k) (chat_message db') = Some ?row"
      using stored(2,3) row by (simp add: message_stored_def find_append_new)
    moreover have "find_match db' i = find_match (touch_match (clk e 2) (clk e 1) i db0) i"
      using stored(2) row by (simp add: message_stored_def find_match_def)
    ultimately show ?thesis
      using stored(1) c(2) available(2,3) row by (auto simp: key_stands_for_def find_match_touch)
  next
    case (Some replay)
    then have "db' = db0" "replay_result i content replay = MessageAvailable c"
      using available(10) ne by (simp_all add: send_available_def gets_def ok_def)
    then show ?thesis
      using find_idempotent_Some [OF Some] by simp
  qed
qed simp

lemma find_idempotent_known:
  assumes "key_stands_for sender k i content c db" "find_match db i = Some m"
    "\<not> is_deleted db (user1_id m)" "\<not> is_deleted db (user2_id m)"
  shows "find_idempotent_message sender k db = Some (c\<lparr>mc_created := False\<rparr>)"
  using assms by (cases c) (auto simp: key_stands_for_def find_idempotent_message_def)

lemma send_available_replay:
  assumes "key_stands_for sender k i content c db" "find_match db i = Some m"
    "\<not> is_deleted db (user1_id m)" "\<not> is_deleted db (user2_id m)"
  shows "send_available e rec mid i sender content k db =
     (Inr (if m_status rec = AwaitingContinuation then MessageUnavailable InvalidState
           else MessageAvailable (c\<lparr>mc_created := False\<rparr>)), db)"
proof -
  have "msg_match_id (mc_message c) = i" "msg_content (mc_message c) = content"
    using assms(1) by (auto simp: key_stands_for_def)
  then have "replay_result i content (c\<lparr>mc_created := False\<rparr>) = MessageAvailable (c\<lparr>mc_created := False\<rparr>)"
    by (simp add: replay_result_def)
  then show ?thesis
    using find_idempotent_known [OF assms] by (simp add: send_available_def gets_def ok_def)
qed

section \<open>Reading\<close>

lemma mark_through_spec:
  assumes "mark_through t mid i u db = (Inr (Some n), db')"
  obtains b where "b \<in> set (chat_message db)" "msg_id b = mid" "msg_match_id b = i"
    "n = rows_where (unread_through b i u) (chat_message db)"
    "chat_message db' = upd_where (unread_through b i u) (\<lambda>m. m\<lparr>msg_read_at := Some t\<rparr>) (chat_message db)"
  using assms by (auto simp: mark_through_def split: option.splits dest: find_SomeD)

lemma unread_through_marked [simp]: "\<not> unread_through b i u (m\<lparr>msg_read_at := Some t\<rparr>)"
  by (simp add: unread_through_def)

lemma unread_through_done:
  "rows_where (unread_through b i u)
     (upd_where (unread_through b i u) (\<lambda>m. m\<lparr>msg_read_at := Some t\<rparr>) rows) = 0"
  by (induction rows) simp_all

lemma mark_messages_read_through_Ok:
  assumes "mark_messages_read_through e i mid u db = (Inr (Available (Some r)), db')"
  obtains db0 n rec where "lock_available_match e i u db = (Inr (Available rec), db0)"
    "mark_through (clk e 1) mid i u db0 = (Inr (Some n), db')" "updated_count r = int n"
    "mrd_participant_ids r = (user1_id rec, user2_id rec)" "read_through_message_id r = mid"
  using assms
  by (auto simp: mark_messages_read_through_def ok_def read_result_def
      dest!: transaction_OkD bind_op_InrD split: match_command_result.splits)

section \<open>The credit books\<close>

lemma touch_match_credit_inv: "credit_inv t db \<Longrightarrow> credit_inv t (touch_match s at i db)"
  unfolding touch_match_def by (rule credit_inv_update_match) auto

lemma insert_message_same_books: "keeps (same_books a) (insert_message m)"
  by (rule validI) (auto simp: same_books_def dest!: insert_message_Ok)

lemma announce_message_same_books: "keeps (same_books a) (announce_message e rec m)"
  unfolding announce_message_def Let_def by (intro keeps_intros enqueue_same_books)

lemma store_message_credit_inv: "keeps (credit_inv t) (store_message e rec row k)"
  unfolding store_message_def
  by (intro keeps_bind keeps_map_err keeps_same_books [OF insert_message_same_books same_books_credit_inv])
     (auto split: option.splits intro!: keeps_intros touch_match_credit_inv
       keeps_same_books [OF announce_message_same_books same_books_credit_inv])

lemma send_available_credit_inv: "keeps (credit_inv t) (send_available e rec mid i sender content k)"
  unfolding send_available_def
  by (intro keeps_intros) (auto split: option.splits intro!: keeps_intros store_message_credit_inv)

lemma message_operations_credit_inv:
  "keeps (credit_inv t) (create_message e mid i sender content k)"
  "keeps (credit_inv t) (messages_for_user e i u limit offset cur)"
  "keeps (credit_inv t) (mark_message_read e i mid u)"
  "keeps (credit_inv t) (mark_messages_read_through e i mid u)"
proof -
  have one: "keeps (same_books a) (mark_one_read t mid i u)" for a t mid i u
    by (rule validI) (auto simp: mark_one_read_def Let_def same_books_def)
  have through: "keeps (same_books a) (mark_through t mid i u)" for a t mid i u
    by (rule validI) (auto simp: mark_through_def same_books_def split: option.splits)
  note rules = valid_transaction keeps_intros lock_available_match_credit_inv
  show "keeps (credit_inv t) (create_message e mid i sender content k)"
    unfolding create_message_def
    by (intro rules) (auto split: match_command_result.splits
        intro!: keeps_intros send_available_credit_inv)
  show "keeps (credit_inv t) (messages_for_user e i u limit offset cur)"
    unfolding messages_for_user_def
    by (intro rules) (auto split: match_command_result.splits intro!: keeps_intros)
  show "keeps (credit_inv t) (mark_message_read e i mid u)"
    unfolding mark_message_read_def
    by (intro rules) (auto split: match_command_result.splits
        intro!: keeps_intros keeps_same_books [OF one same_books_credit_inv])
  show "keeps (credit_inv t) (mark_messages_read_through e i mid u)"
    unfolding mark_messages_read_through_def
    by (intro rules) (auto split: match_command_result.splits
        intro!: keeps_intros keeps_same_books [OF through same_books_credit_inv])
qed

end
