(* ===== verification/Bytes.thy ===== *)
theory Bytes
  imports Prelude
begin

text \<open>
  Bytes and the text that is made of them: big-endian layout of a word, the version and variant of
  a \<^verbatim>\<open>Uuid\<close>, the UTF-8 check of \<^verbatim>\<open>String::from_utf8\<close>, hexadecimal text
  (\<^verbatim>\<open>hex_lower\<close> of \<^verbatim>\<open>src/infra/crypto.rs\<close>) and the identifiers that
  \<^verbatim>\<open>src/shared/validation.rs\<close> accepts.

  A Rust \<^verbatim>\<open>str\<close> that carries a token, a key or an identifier is a \<open>string\<close> whose characters are the
  bytes of its UTF-8 encoding, so that its length is \<^verbatim>\<open>str::len\<close>.
\<close>

unbundle bit_operations_syntax

section \<open>Words and bytes\<close>

type_synonym byte = "8 word"

text \<open>\<^verbatim>\<open>to_be_bytes\<close> and \<^verbatim>\<open>from_be_bytes\<close> of a word of \<open>n\<close> bytes.\<close>

primrec be_bytes :: "nat \<Rightarrow> 'a::len word \<Rightarrow> byte list" where
  "be_bytes 0 w = []"
| "be_bytes (Suc n) w = ucast (drop_bit (8 * n) w) # be_bytes n w"

definition push_byte :: "'a::len word \<Rightarrow> byte \<Rightarrow> 'a word" where
  "push_byte acc b = push_bit 8 acc OR ucast b"

definition from_be_bytes :: "byte list \<Rightarrow> 'a::len word" where
  "from_be_bytes bs = foldl push_byte 0 bs"

lemma length_be_bytes [simp]: "length (be_bytes n w) = n"
  by (induction n) simp_all

lemma foldl_push_be_bytes:
  "foldl push_byte acc (be_bytes n w) = push_bit (8 * n) acc OR take_bit (8 * n) (w :: 'a::len word)"
proof (induction n arbitrary: acc)
  case (Suc n)
  have "push_bit (8 * n) (push_byte acc (ucast (drop_bit (8 * n) w))) OR take_bit (8 * n) w =
      push_bit (8 * Suc n) acc OR take_bit (8 * Suc n) w"
    by (rule bit_word_eqI) (auto simp: push_byte_def bit_simps add.commute)
  then show ?case
    by (simp add: Suc)
qed simp

lemma from_be_bytes_inverse:
  "LENGTH('a) \<le> 8 * n \<Longrightarrow> from_be_bytes (be_bytes n (w :: 'a::len word)) = w"
  by (simp add: from_be_bytes_def foldl_push_be_bytes take_bit_word_eq_self)

lemma be_bytes_inj: "LENGTH('a) \<le> 8 * n \<Longrightarrow> be_bytes n v = be_bytes n (w :: 'a::len word) \<longleftrightarrow> v = w"
  by (metis from_be_bytes_inverse)

section \<open>Identifiers\<close>

text \<open>\<^verbatim>\<open>Uuid::get_version_num\<close> and \<^verbatim>\<open>Uuid::get_variant\<close>: the high half of byte 6, the two high bits
  of byte 8.\<close>

definition version_num :: "uuid \<Rightarrow> nat" where
  "version_num i = unat (take_bit 4 (drop_bit 76 i))"

definition variant_rfc4122 :: "uuid \<Rightarrow> bool" where
  "variant_rfc4122 i \<longleftrightarrow> bit i 63 \<and> \<not> bit i 62"

definition uuid_all :: "uuid \<Rightarrow> bool" where
  "uuid_all v \<longleftrightarrow>
     v = 0 \<or> v = - 1 \<or> (1 \<le> version_num v \<and> version_num v \<le> 8 \<and> variant_rfc4122 v)"

definition random_v4 :: "uuid \<Rightarrow> bool" where
  "random_v4 v \<longleftrightarrow> version_num v = 4 \<and> variant_rfc4122 v"

lemma random_v4_uuid_all [simp]: "random_v4 v \<Longrightarrow> uuid_all v"
  by (simp add: random_v4_def uuid_all_def)

section \<open>Text as bytes\<close>

definition as_bytes :: "string \<Rightarrow> byte list" where
  "as_bytes = map (\<lambda>c. of_nat (of_char c))"

definition of_bytes :: "byte list \<Rightarrow> string" where
  "of_bytes = map (\<lambda>b. char_of (unat b))"

lemma of_bytes_as_bytes [simp]: "of_bytes (as_bytes s) = s"
proof -
  have "unat (of_nat (of_char c) :: byte) = (of_char c :: nat)" for c :: char
    by (simp add: unat_of_nat take_bit_eq_mod of_char_mod_256)
  then show ?thesis
    by (simp add: of_bytes_def as_bytes_def comp_def map_idI)
qed

lemma length_as_bytes [simp]: "length (as_bytes s) = length s"
  by (simp add: as_bytes_def)

lemma as_bytes_append [simp]: "as_bytes (s @ t) = as_bytes s @ as_bytes t"
  by (simp add: as_bytes_def)

lemma as_bytes_inj [simp]: "as_bytes s = as_bytes t \<longleftrightarrow> s = t"
  by (metis of_bytes_as_bytes)

definition is_ascii :: "string \<Rightarrow> bool" where
  "is_ascii s \<longleftrightarrow> (\<forall>c \<in> set s. (of_char c :: nat) < 128)"

text \<open>The well-formed sequences of \<^verbatim>\<open>String::from_utf8\<close>.\<close>

definition between :: "byte \<Rightarrow> byte \<Rightarrow> byte \<Rightarrow> bool" where
  "between lo b hi \<longleftrightarrow> lo \<le> b \<and> b \<le> hi"

abbreviation continuation :: "byte \<Rightarrow> bool" where
  "continuation b \<equiv> between 0x80 b 0xBF"

definition second_of_three :: "byte \<Rightarrow> byte \<Rightarrow> bool" where
  "second_of_three b c \<longleftrightarrow>
     (b = 0xE0 \<and> between 0xA0 c 0xBF) \<or> (b = 0xED \<and> between 0x80 c 0x9F) \<or>
     ((between 0xE1 b 0xEC \<or> between 0xEE b 0xEF) \<and> continuation c)"

definition second_of_four :: "byte \<Rightarrow> byte \<Rightarrow> bool" where
  "second_of_four b c \<longleftrightarrow>
     (b = 0xF0 \<and> between 0x90 c 0xBF) \<or> (b = 0xF4 \<and> between 0x80 c 0x8F) \<or>
     (between 0xF1 b 0xF3 \<and> continuation c)"

fun valid_utf8 :: "byte list \<Rightarrow> bool" where
  "valid_utf8 [] = True"
| "valid_utf8 (b # r) =
     (if b < 0x80 then valid_utf8 r
      else if between 0xC2 b 0xDF
      then (case r of c # r' \<Rightarrow> continuation c \<and> valid_utf8 r' | [] \<Rightarrow> False)
      else if between 0xE0 b 0xEF
      then (case r of c # d # r' \<Rightarrow> second_of_three b c \<and> continuation d \<and> valid_utf8 r'
            | _ \<Rightarrow> False)
      else if between 0xF0 b 0xF4
      then (case r of c # d # f # r' \<Rightarrow>
              second_of_four b c \<and> continuation d \<and> continuation f \<and> valid_utf8 r' | _ \<Rightarrow> False)
      else False)"

lemma ascii_byte: "(of_char c :: nat) < 128 \<Longrightarrow> (of_nat (of_char c) :: byte) < 0x80"
  by (simp add: word_less_nat_alt unat_of_nat take_bit_eq_mod)

lemma valid_utf8_ascii: "is_ascii s \<Longrightarrow> valid_utf8 (as_bytes s)"
  by (induction s) (auto simp: is_ascii_def as_bytes_def ascii_byte)

section \<open>Hexadecimal text\<close>

definition hex_char :: "nat \<Rightarrow> char" where
  "hex_char n = ''0123456789abcdef'' ! n"

text \<open>\<^verbatim>\<open>char::to_digit(16)\<close>.\<close>

definition hex_value :: "char \<Rightarrow> nat option" where
  "hex_value c =
     (let n = of_char c :: nat in
      if 48 \<le> n \<and> n \<le> 57 then Some (n - 48)
      else if 97 \<le> n \<and> n \<le> 102 then Some (n - 87)
      else if 65 \<le> n \<and> n \<le> 70 then Some (n - 55) else None)"

definition hex_byte :: "byte \<Rightarrow> string" where
  "hex_byte b = [hex_char (unat (drop_bit 4 b)), hex_char (unat (take_bit 4 b))]"

definition hex_lower :: "byte list \<Rightarrow> string" where
  "hex_lower bs = concat (map hex_byte bs)"

text \<open>\<^verbatim>\<open>u8::from_str_radix(_, 16)\<close> on two hexadecimal digits, over the whole text.\<close>

fun hex_decode :: "string \<Rightarrow> byte list option" where
  "hex_decode [] = Some []"
| "hex_decode [c] = None"
| "hex_decode (c # d # r) =
     (case (hex_value c, hex_value d, hex_decode r) of
        (Some x, Some y, Some bs) \<Rightarrow> Some (of_nat (16 * x + y) # bs)
      | _ \<Rightarrow> None)"

lemma hex_value_char: "n < 16 \<Longrightarrow> hex_value (hex_char n) = Some n"
proof -
  have "\<forall>n \<in> set [0..<16]. hex_value (hex_char n) = Some n"
    by code_simp
  then show "n < 16 \<Longrightarrow> ?thesis"
    by simp
qed

lemma hex_char_ascii: "n < 16 \<Longrightarrow> (of_char (hex_char n) :: nat) < 128"
proof -
  have "\<forall>n \<in> set [0..<16]. (of_char (hex_char n) :: nat) < 128"
    by code_simp
  then show "n < 16 \<Longrightarrow> ?thesis"
    by simp
qed

lemma nibble_bounds: "unat (drop_bit 4 (b :: byte)) < 16" "unat (take_bit 4 (b :: byte)) < 16"
proof -
  have "unat b < 256"
    using unsigned_less [of b] by simp
  then show "unat (drop_bit 4 b) < 16" "unat (take_bit 4 b) < 16"
    by (simp_all add: drop_bit_eq_div take_bit_eq_mod unat_div unat_mod)
qed

lemma nibbles_value:
  "of_nat (16 * unat (drop_bit 4 b) + unat (take_bit 4 b)) = (b :: byte)"
proof -
  have "16 * unat (drop_bit 4 b) + unat (take_bit 4 b) = unat b"
    by (simp add: drop_bit_eq_div take_bit_eq_mod unat_div unat_mod)
  then show ?thesis
    by simp
qed

lemma hex_lower_Nil [simp]: "hex_lower [] = []"
  by (simp add: hex_lower_def)

lemma hex_lower_Cons [simp]: "hex_lower (b # bs) = hex_byte b @ hex_lower bs"
  by (simp add: hex_lower_def)

lemma length_hex_lower [simp]: "length (hex_lower bs) = 2 * length bs"
  by (induction bs) (simp_all add: hex_byte_def)

lemma hex_decode_lower [simp]: "hex_decode (hex_lower bs) = Some bs"
  by (induction bs) (simp_all add: hex_byte_def hex_value_char nibble_bounds nibbles_value
      del: of_nat_add of_nat_mult)

lemma set_hex_lower: "c \<in> set (hex_lower bs) \<Longrightarrow> \<exists>n < 16. c = hex_char n"
  by (induction bs) (auto simp: hex_byte_def intro: nibble_bounds)

lemma hex_lower_digits: "c \<in> set (hex_lower bs) \<Longrightarrow> hex_value c \<noteq> None"
  by (auto dest!: set_hex_lower simp: hex_value_char)

lemma hex_lower_ascii [simp]: "is_ascii (hex_lower bs)"
  by (auto simp: is_ascii_def dest!: set_hex_lower intro: hex_char_ascii)

section \<open>Identifiers as text\<close>

text \<open>What the \<^verbatim>\<open>uuid\<close> and \<^verbatim>\<open>base64\<close> crates compute on text: the hyphenated form, the parser, and
  URL-safe base64 without padding.\<close>

record text_crates =
  hyphenated :: "uuid \<Rightarrow> string"
  parse_uuid :: "string \<Rightarrow> uuid option"
  base64url_encode :: "byte list \<Rightarrow> string"
  base64url_decode :: "string \<Rightarrow> byte list option"

definition ascii_lower :: "char \<Rightarrow> char" where
  "ascii_lower c =
     (let n = of_char c :: nat in if 65 \<le> n \<and> n \<le> 90 then char_of (n + 32) else c)"

definition eq_ignore_ascii_case :: "string \<Rightarrow> string \<Rightarrow> bool" where
  "eq_ignore_ascii_case s t \<longleftrightarrow> map ascii_lower s = map ascii_lower t"

definition canonical_uuid :: "text_crates \<Rightarrow> string \<Rightarrow> uuid option" where
  "canonical_uuid X v =
     (case parse_uuid X v of
        None \<Rightarrow> None
      | Some parsed \<Rightarrow>
          if eq_ignore_ascii_case (hyphenated X parsed) v \<and> uuid_all parsed then Some parsed
          else None)"

text \<open>What the crates document: an identifier is printed without a colon and read back, and 32 bytes
  are 43 letters, digits, hyphens and underscores.\<close>

definition base64url_char :: "char \<Rightarrow> bool" where
  "base64url_char c \<longleftrightarrow>
     (let n = of_char c :: nat in
      (48 \<le> n \<and> n \<le> 57) \<or> (65 \<le> n \<and> n \<le> 90) \<or> (97 \<le> n \<and> n \<le> 122) \<or> n = 95 \<or> n = 45)"

definition text_laws :: "text_crates \<Rightarrow> bool" where
  "text_laws X \<longleftrightarrow>
     (\<forall>v. parse_uuid X (hyphenated X v) = Some v \<and> CHR '':'' \<notin> set (hyphenated X v) \<and>
          is_ascii (hyphenated X v)) \<and>
     (\<forall>bs. list_all base64url_char (base64url_encode X bs)) \<and>
     (\<forall>bs. length bs = 32 \<longrightarrow> length (base64url_encode X bs) = 43)"

lemma canonical_uuid_hyphenated:
  "text_laws X \<Longrightarrow> uuid_all v \<Longrightarrow> canonical_uuid X (hyphenated X v) = Some v"
  by (simp add: text_laws_def canonical_uuid_def eq_ignore_ascii_case_def)

lemma canonical_uuid_all: "canonical_uuid X v = Some i \<Longrightarrow> uuid_all i"
  by (auto simp: canonical_uuid_def split: option.splits if_splits)

end
