(* ===== verification/Rewards.thy ===== *)
theory Rewards
  imports Credits Bytes
begin

text \<open>
  \<^verbatim>\<open>src/advertising/pg.rs\<close>: rewarded advertisements.  A user opens an intent, the provider's
  signed callback completes it at most once and grants one credit of the current week.  The
  signature of the callback is checked before (\<^verbatim>\<open>src/advertising/ssv.rs\<close>); the SHA-256 digest of
  the transaction identifier is the argument \<open>digest\<close>.  Clock readings: 0 the decision, 1 the
  defaults of an inserted intent.
\<close>

section \<open>Types\<close>

definition REWARD_CREDITS :: int where "REWARD_CREDITS = 1"

datatype reward_platform = Android | Ios

datatype reward_status = RewardPending | RewardCredited | RewardCancelled | RewardExpired

datatype reward_error =
  Disabled | NotEligible | StockFull | RewardNotFound | InvalidProof
| RewardDatabase database_error

fun reward_error_from_store :: "match_store_error \<Rightarrow> reward_error" where
  "reward_error_from_store (Database e) = RewardDatabase e"
| "reward_error_from_store _ = NotEligible"

fun reward_error_display :: "reward_error \<Rightarrow> string" where
  "reward_error_display Disabled = ''advertising_disabled''"
| "reward_error_display NotEligible = ''advertising_not_eligible''"
| "reward_error_display StockFull = ''advertising_stock_full''"
| "reward_error_display RewardNotFound = ''reward_not_found''"
| "reward_error_display InvalidProof = ''invalid_admob_reward''"
| "reward_error_display (RewardDatabase e) = safe_code e"

record reward_intent =
  rw_id :: uuid
  rw_custom_data :: uuid
  rw_ad_unit :: string
  rw_expires_at :: instant
  rw_status :: reward_status
  rw_credits :: int

record callback =
  cb_intent_id :: uuid
  cb_ad_unit :: string
  cb_transaction_id :: string
  cb_timestamp_ms :: int
  cb_reward_amount :: int
  cb_reward_item :: string

record advertising_config =
  ads_enabled :: bool
  android_ad_unit :: string
  ios_ad_unit :: string
  ads_reward_item :: string

definition find_intent :: "db \<Rightarrow> uuid \<Rightarrow> reward_intent_row option" where
  "find_intent db i = find (\<lambda>r. ri_id r = i) (advertising_reward_intent db)"

definition map_intent ::
  "reward_intent_row \<Rightarrow> reward_status option \<Rightarrow> instant \<Rightarrow> reward_intent" where
  "map_intent r outcome now =
     \<lparr>rw_id = ri_id r, rw_custom_data = ri_id r, rw_ad_unit = ri_ad_unit r,
      rw_expires_at = ri_expires_at r,
      rw_status = (case outcome of
          Some s \<Rightarrow> s
        | None \<Rightarrow> if ri_expires_at r \<le> now then RewardExpired else RewardPending),
      rw_credits = REWARD_CREDITS\<rparr>"

section \<open>Cancel and status\<close>

definition update_intent :: "uuid \<Rightarrow> (reward_intent_row \<Rightarrow> reward_intent_row) \<Rightarrow> db \<Rightarrow> db" where
  "update_intent i f db =
     db\<lparr>advertising_reward_intent :=
        upd_where (\<lambda>r. ri_id r = i) f (advertising_reward_intent db)\<rparr>"

definition cancel_on :: "env \<Rightarrow> uuid \<Rightarrow> uuid \<Rightarrow> (db, reward_error, unit) op" where
  "cancel_on e u i db =
     (case find_intent db i of
        None \<Rightarrow> (Inl RewardNotFound, db)
      | Some r \<Rightarrow>
          if ri_user r \<noteq> u \<or> ri_completed_at r \<noteq> None then (Inl RewardNotFound, db)
          else if is_deleted db u then (Inl (RewardDatabase AccountUnavailable), db)
          else (Inr (), update_intent i (\<lambda>r. r\<lparr>ri_cancelled_at :=
                 Some (case ri_cancelled_at r of Some t \<Rightarrow> t | None \<Rightarrow> clk e 0)\<rparr>) db))"

definition reward_outcome :: "reward_intent_row \<Rightarrow> reward_status option" where
  "reward_outcome r =
     (if ri_cancelled_at r \<noteq> None then Some RewardCancelled
      else if ri_credited_at r \<noteq> None then Some RewardCredited
      else if ri_completed_at r \<noteq> None then Some RewardExpired
      else None)"

definition reward_status_of :: "env \<Rightarrow> uuid \<Rightarrow> uuid \<Rightarrow> db \<Rightarrow> reward_error + reward_intent" where
  "reward_status_of e u i db =
     (case find_intent db i of
        Some r \<Rightarrow>
          if ri_user r = u then Inr (map_intent r (reward_outcome r) (clk e 0))
          else Inl RewardNotFound
      | None \<Rightarrow> Inl RewardNotFound)"

section \<open>Create\<close>

definition midnight :: "date \<Rightarrow> instant" where
  "midnight d = d * days 1"

definition outstanding_intents :: "db \<Rightarrow> uuid \<Rightarrow> instant \<Rightarrow> reward_intent_row list" where
  "outstanding_intents db u now =
     rev (sort_key ri_created_at (filter (\<lambda>r. ri_user r = u \<and> ri_completed_at r = None \<and>
       ri_cancelled_at r = None \<and> ri_expires_at r + hours 24 > now \<and>
       ri_expires_at r \<ge> midnight (start_of_utc_week now)) (advertising_reward_intent db)))"

definition new_intent :: "env \<Rightarrow> uuid \<Rightarrow> string \<Rightarrow> reward_intent_row" where
  "new_intent e u unit =
     \<lparr>ri_id = uuid_generate_v4 e 0 0, ri_user = u, ri_ad_unit = unit, ri_created_at = clk e 1,
      ri_expires_at = clk e 1 + minutes 15, ri_completed_at = None, ri_credited_at = None,
      ri_cancelled_at = None, ri_transaction_hash = None\<rparr>"

definition insert_intent :: "reward_intent_row \<Rightarrow> (db, database_error, unit) op" where
  "insert_intent r db =
     (if is_deleted db (ri_user r) then (Inl AccountUnavailable, db)
      else if find_intent db (ri_id r) \<noteq> None then (Inl (Constraint Unique), db)
      else if user_account db (ri_user r) = None then (Inl (Constraint ForeignKey), db)
      else (Inr (), db\<lparr>advertising_reward_intent := advertising_reward_intent db @ [r]\<rparr>))"

definition create_on ::
  "env \<Rightarrow> uuid \<Rightarrow> string \<Rightarrow> legal_config \<Rightarrow> (db, reward_error, reward_intent) op" where
  "create_on e u unit legal =
     then_op (map_err RewardDatabase (lock_eligible_accounts [u] (Some legal)))
     (let now = clk e 0 in
      bind_op (map_err reward_error_from_store (lift_result (\<lambda>db. quota_on db u now))) (\<lambda>quota.
        if q_weekly_limit quota = None then err NotEligible
        else if q_advertising_balance quota \<ge> ADVERTISING_STOCK_LIMIT then err StockFull
        else bind_op (gets (\<lambda>db. outstanding_intents db u now)) (\<lambda>outstanding.
          case outstanding of
            r # _ \<Rightarrow>
              if ri_expires_at r > now
              then if ri_ad_unit r \<noteq> unit then err NotEligible
                   else ok (map_intent r None now)
              else err NotEligible
          | [] \<Rightarrow>
              then_op (map_err RewardDatabase (insert_intent (new_intent e u unit)))
                (ok (map_intent (new_intent e u unit) None now)))))"

definition reward_create ::
  "advertising_config \<Rightarrow> legal_config \<Rightarrow> env \<Rightarrow> uuid \<Rightarrow> reward_platform \<Rightarrow>
   (db, reward_error, reward_intent) op" where
  "reward_create cfg legal e u platform =
     (if \<not> ads_enabled cfg then err Disabled
      else transaction (create_on e u
        (case platform of Android \<Rightarrow> android_ad_unit cfg | Ios \<Rightarrow> ios_ad_unit cfg) legal))"

section \<open>Complete\<close>

definition last_segment :: "string \<Rightarrow> string" where
  "last_segment s = rev (takeWhile (\<lambda>c. c \<noteq> CHR ''/'') (rev s))"

definition transaction_hash :: "(string \<Rightarrow> string) \<Rightarrow> callback \<Rightarrow> string" where
  "transaction_hash digest cb = digest (map ascii_lower (cb_transaction_id cb))"

definition event_time :: "callback \<Rightarrow> instant option" where
  "event_time cb =
     (let t = cb_timestamp_ms cb * 1000 in if min_utc \<le> t \<and> t \<le> max_utc then Some t else None)"

text \<open>The time window of a callback: not before the intent (with five seconds of skew), not
  after its expiry, not in the future (five minutes of skew), not a day after the expiry.\<close>

definition in_window :: "reward_intent_row \<Rightarrow> instant \<Rightarrow> instant \<Rightarrow> bool" where
  "in_window r event now \<longleftrightarrow>
     \<not> event < ri_created_at r - seconds 5 \<and> \<not> event > ri_expires_at r \<and>
     \<not> event > now + minutes 5 \<and> \<not> now > ri_expires_at r + hours 24"

definition finish_intent ::
  "uuid \<Rightarrow> instant \<Rightarrow> string \<Rightarrow> bool \<Rightarrow> (db, reward_error, unit) op" where
  "finish_intent i now hash current_week db =
     (if \<exists>r \<in> set (advertising_reward_intent db). ri_id r \<noteq> i \<and> ri_transaction_hash r = Some hash
      then (Inl InvalidProof, db)
      else (Inr (), update_intent i (\<lambda>r. r\<lparr>ri_completed_at := Some now,
              ri_transaction_hash := Some hash,
              ri_credited_at := (if current_week then Some now else None)\<rparr>) db))"

definition credit_intent ::
  "env \<Rightarrow> callback \<Rightarrow> string \<Rightarrow> reward_intent_row \<Rightarrow> instant \<Rightarrow> (db, reward_error, unit) op" where
  "credit_intent e cb hash r event =
     (let now = clk e 0;
          current_week = (start_of_utc_week event = start_of_utc_week now)
      in then_op (finish_intent (ri_id r) now hash current_week)
           (if \<not> current_week then ok ()
            else bind_op (map_err RewardDatabase (grant_advertising_credit (ri_user r) now))
              (\<lambda>granted. if granted then ok () else err StockFull)))"

definition complete_on ::
  "(string \<Rightarrow> string) \<Rightarrow> env \<Rightarrow> callback \<Rightarrow> (db, reward_error, unit) op" where
  "complete_on digest e cb =
     bind_op (gets (\<lambda>db. find_intent db (cb_intent_id cb))) (\<lambda>row.
       case row of
         None \<Rightarrow> err RewardNotFound
       | Some r \<Rightarrow>
           then_op (map_err RewardDatabase (lock_eligible_accounts [ri_user r] None))
           (if ri_cancelled_at r \<noteq> None then err InvalidProof
            else if cb_ad_unit cb \<noteq> ri_ad_unit r \<and> cb_ad_unit cb \<noteq> last_segment (ri_ad_unit r)
            then err InvalidProof
            else let hash = transaction_hash digest cb in
              case ri_transaction_hash r of
                Some existing \<Rightarrow> if existing = hash then ok () else err InvalidProof
              | None \<Rightarrow>
                  (case event_time cb of
                     None \<Rightarrow> err InvalidProof
                   | Some event \<Rightarrow>
                       if in_window r event (clk e 0) then credit_intent e cb hash r event
                       else err InvalidProof)))"

definition reward_complete ::
  "(string \<Rightarrow> string) \<Rightarrow> advertising_config \<Rightarrow> env \<Rightarrow> callback \<Rightarrow> (db, reward_error, unit) op" where
  "reward_complete digest cfg e cb =
     (if \<not> ads_enabled cfg then err Disabled
      else if cb_reward_amount cb \<noteq> REWARD_CREDITS then err InvalidProof
      else if cb_reward_item cb \<noteq> ads_reward_item cfg then err InvalidProof
      else transaction (complete_on digest e cb))"

definition reward_cancel :: "env \<Rightarrow> uuid \<Rightarrow> uuid \<Rightarrow> (db, reward_error, unit) op" where
  "reward_cancel e u i = transaction (cancel_on e u i)"

end
