(* ===== verification/Match_Invariant.thy ===== *)
theory Match_Invariant
  imports Match_Maintenance Message_Proofs Rewards
begin

text \<open>
  The credit invariant and the life cycle across every operation of the match component: updates
  of many matches at once, creation, reveal, end, maintenance, advertising rewards and the two
  retention statements of \<^verbatim>\<open>src/privacy/maintenance.rs\<close> that touch the credit tables.
\<close>

section \<open>Updates of many matches\<close>

lemma find_map_key:
  "(\<And>x. x \<in> set xs \<Longrightarrow> k (g x) = k x) \<Longrightarrow>
   find (\<lambda>r. k r = a) (map g xs) = map_option g (find (\<lambda>r. k r = a) xs)"
  by (induction xs) auto

text \<open>A change of a match that starts no waiting period over and reopens no first period, and
  one that moves the match forward.\<close>

definition settles :: "match_row \<Rightarrow> match_row \<Rightarrow> bool" where
  "settles m m' \<longleftrightarrow>
     m_id m' = m_id m \<and> user1_id m' = user1_id m \<and> user2_id m' = user2_id m \<and>
     (m_status m' = Active \<longrightarrow> m_status m = Active) \<and>
     (m_status m' = AwaitingContinuation \<longrightarrow> m_status m = Active \<or>
        m_status m = AwaitingContinuation \<and> m_expires_at m' = m_expires_at m)"

definition forwards :: "match_row \<Rightarrow> match_row \<Rightarrow> bool" where
  "forwards m m' \<longleftrightarrow>
     m_id m' = m_id m \<and> user1_id m' = user1_id m \<and> user2_id m' = user2_id m \<and>
     status_reaches (m_status m) (m_status m')"

lemma settles_refl [simp]: "settles m m"
  by (simp add: settles_def)

lemma forwards_refl [simp]: "forwards m m"
  by (simp add: forwards_def)

lemma find_match_map:
  "(\<And>m. m \<in> set (match_init db) \<Longrightarrow> m_id (g m) = m_id m) \<Longrightarrow>
   find_match (db\<lparr>match_init := map g (match_init db)\<rparr>) j = map_option g (find_match db j)"
  by (simp add: find_match_def find_map_key)

lemma credit_inv_map_matches:
  assumes inv: "credit_inv t db" and g: "\<And>m. m \<in> set (match_init db) \<Longrightarrow> settles m (g m)"
  shows "credit_inv t (db\<lparr>match_init := map g (match_init db)\<rparr>)" (is "credit_inv t ?db")
proof (rule credit_inv_releases [OF inv])
  have look: "find_match ?db j = map_option g (find_match db j)" for j
    using g by (intro find_match_map) (simp add: settles_def)
  have holder: "\<exists>m. find_match db (r_match r) = Some m \<and> settles m (g m) \<and>
      m_status m \<noteq> Active \<and> participant m (r_user r)"
    if "r \<in> set (continuation_reservation db)" for r
    using inv that g by (fastforce simp: credit_inv_def keys_ok_def dest: find_matchD)
  show "releases t db ?db"
    using holder
    by (fastforce simp: releases_def live_reservation_def look settles_def del_where_def
        intro!: exI [of _ "\<lambda>_. False"])
  have "\<exists>m. find_match ?db (r_match r) = Some m \<and> m_status m \<noteq> Active \<and> participant m (r_user r)"
    if "r \<in> set (continuation_reservation db)" for r
    using holder [OF that] by (fastforce simp: look settles_def participant_def)
  moreover have "distinct (map m_id (match_init ?db))"
  proof -
    have "map m_id (map g (match_init db)) = map m_id (match_init db)"
      using g by (simp add: settles_def)
    then show ?thesis
      using inv by (simp add: credit_inv_def keys_ok_def del: map_map)
  qed
  moreover have "user1_id (g m) < user2_id (g m)" if "m \<in> set (match_init db)" for m
    using g [OF that] that inv by (simp add: settles_def credit_inv_def keys_ok_def)
  ultimately show "keys_ok ?db"
    using inv by (simp add: credit_inv_def keys_ok_def)
qed

lemma lifecycle_map_matches:
  assumes "\<And>m. m \<in> set (match_init db) \<Longrightarrow> forwards m (g m)"
  shows "lifecycle db (db\<lparr>match_init := map g (match_init db)\<rparr>)"
  unfolding lifecycle_def
proof
  fix j
  have "find_match (db\<lparr>match_init := map g (match_init db)\<rparr>) j = map_option g (find_match db j)"
    using assms by (intro find_match_map) (simp add: forwards_def)
  then show "rel_option (\<lambda>m m'. status_reaches (m_status m) (m_status m') \<and>
      user1_id m' = user1_id m \<and> user2_id m' = user2_id m) (find_match db j)
      (find_match (db\<lparr>match_init := map g (match_init db)\<rparr>) j)"
    using assms by (cases "find_match db j") (auto simp: forwards_def dest: find_matchD)
qed

text \<open>The three maintenance moves update rows that are due.\<close>

lemma due_matchesD:
  "m \<in> set (due_matches skip P limit db) \<Longrightarrow> m \<in> set (match_init db) \<and> P m \<and> \<not> skip (m_id m)"
  by (auto simp: due_matches_def dest!: set_order_limit_subset [THEN subsetD])

lemma due_matches_id:
  assumes "keys_ok db" "m \<in> set (match_init db)" "m_id m \<in> set (map m_id (due_matches skip P limit db))"
  shows "P m"
proof -
  obtain m' where m': "m' \<in> set (due_matches skip P limit db)" "m_id m' = m_id m"
    using assms(3) by auto
  then have "m' \<in> set (match_init db)" "P m'"
    by (auto dest: due_matchesD)
  moreover have "m' = m"
    using assms(1,2) m'(2) \<open>m' \<in> set (match_init db)\<close>
    by (auto simp: keys_ok_def distinct_map dest: inj_onD)
  ultimately show ?thesis
    by simp
qed

lemma move_due_map:
  "move_due skip P f now limit db =
     (Inr (length (due_matches skip P limit db)),
      db\<lparr>match_init := map (\<lambda>m. if m_id m \<in> set (map m_id (due_matches skip P limit db))
           then track_match_inactivity now m (f m) else m) (match_init db)\<rparr>)"
  by (simp add: move_due_def update_matches_def upd_where_def Let_def)

lemma move_due_credit_inv:
  assumes "\<And>m. P m \<Longrightarrow> settles m (f m) \<and> m_status (f m) \<noteq> Confirmed"
  shows "keeps (credit_inv t) (move_due skip P f now limit)"
proof (rule validI)
  fix db v db'
  assume inv: "credit_inv t db" and run: "move_due skip P f now limit db = (Inr v, db')"
  have "settles m (if m_id m \<in> set (map m_id (due_matches skip P limit db))
      then track_match_inactivity now m (f m) else m)" if "m \<in> set (match_init db)" for m
    using assms [of m] due_matches_id [OF _ that, of skip P limit] inv by (auto simp: credit_inv_def)
  then show "credit_inv t db'"
    using credit_inv_map_matches [OF inv] run by (auto simp: move_due_map)
qed

lemma move_due_lifecycle:
  assumes "\<And>m. P m \<Longrightarrow> forwards m (f m) \<and> m_status (f m) \<noteq> Confirmed"
    and "keys_ok db" "move_due skip P f now limit db = (r, db')"
  shows "lifecycle db db'"
proof -
  have "forwards m (if m_id m \<in> set (map m_id (due_matches skip P limit db))
      then track_match_inactivity now m (f m) else m)" if "m \<in> set (match_init db)" for m
    using assms(1) [of m] due_matches_id [OF assms(2) that, of skip P limit] by auto
  then show ?thesis
    using lifecycle_map_matches assms(3) by (auto simp: move_due_map)
qed

lemma settles_moves [simp]:
  "m_status m = Active \<Longrightarrow> settles m (open_window_row m)"
  "settles m (m\<lparr>m_status := Expired, purge_after := p\<rparr>)"
  "settles m (m\<lparr>m_status := Ended, purge_after := p\<rparr>)"
  by (simp_all add: settles_def)

lemma forwards_moves [simp]:
  "m_status m = Active \<Longrightarrow> forwards m (open_window_row m)"
  "m_status m = AwaitingContinuation \<Longrightarrow> forwards m (m\<lparr>m_status := Expired, purge_after := p\<rparr>)"
  "m_status m = Confirmed \<Longrightarrow> forwards m (m\<lparr>m_status := Ended, purge_after := p\<rparr>)"
  by (auto simp: forwards_def)

lemma windows_credit_inv:
  "keeps (credit_inv t) (open_continuation_windows skip now limit)"
  "keeps (credit_inv t) (expire_continuation_windows skip now purge limit)"
  "keeps (credit_inv t) (close_inactive_matches skip now limit)"
  unfolding open_continuation_windows_def expire_continuation_windows_def close_inactive_matches_def
  by (rule move_due_credit_inv; simp)+

lemma windows_lifecycle:
  assumes "keys_ok db"
  shows "open_continuation_windows skip now limit db = (r, db') \<Longrightarrow> lifecycle db db'"
    and "expire_continuation_windows skip now purge limit db = (r, db') \<Longrightarrow> lifecycle db db'"
    and "close_inactive_matches skip now limit db = (r, db') \<Longrightarrow> lifecycle db db'"
  unfolding open_continuation_windows_def expire_continuation_windows_def close_inactive_matches_def
  by (rule move_due_lifecycle [OF _ assms]; simp)+

section \<open>Maintenance\<close>

lemma notify_both_same_books: "keeps (same_books a) (notify_both e intent k m)"
  unfolding notify_both_def Let_def by (intro keeps_intros enqueue_same_books)

lemma notify_due_same_books: "keeps (same_books a) (notify_due e skip P intent k limit)"
  unfolding notify_due_def by (intro keeps_intros notify_both_same_books)

lemma erasure_same_books:
  "keeps (same_books a) (delete_expired_messages skip now limit)"
  "keeps (same_books a) (detach_expired_reports skip now limit)"
  "keeps (same_books a) (delete_expired_notifications skip now limit)"
  by (auto simp: valid_def delete_expired_messages_def detach_expired_reports_def
      delete_expired_notifications_def same_books_def Let_def)

lemma find_match_cascade:
  "find_match (cascade_delete_matches ids db) j = (if j \<in> set ids then None else find_match db j)"
proof -
  have "find (\<lambda>m. m_id m = j \<and> m_id m \<notin> set ids) rows =
      (if j \<in> set ids then None else find (\<lambda>m. m_id m = j) rows)" for rows :: "match_row list"
    by (induction rows) auto
  then show ?thesis
    by (simp add: find_match_def cascade_delete_matches_def find_del_where)
qed

lemma credit_inv_cascade:
  assumes inv: "credit_inv t db"
  shows "credit_inv t (cascade_delete_matches ids db)" (is "credit_inv t ?db")
proof (rule credit_inv_releases [OF inv])
  have res: "continuation_reservation ?db =
      del_where (\<lambda>r. r_match r \<in> set ids) (continuation_reservation db)"
    by (simp add: cascade_delete_matches_def)
  show "releases t db ?db"
    unfolding releases_def res
    by (auto simp: live_reservation_def find_match_cascade split: if_splits)
       (simp_all add: cascade_delete_matches_def)
  have "distinct (map m_id (match_init ?db))"
    using inv by (simp add: cascade_delete_matches_def credit_inv_def keys_ok_def distinct_map_del_where)
  moreover have "\<forall>m \<in> set (match_init ?db). user1_id m < user2_id m"
    using inv by (simp add: cascade_delete_matches_def credit_inv_def keys_ok_def)
  ultimately show "keys_ok ?db"
    using inv unfolding keys_ok_def res credit_inv_def
    by (auto simp: find_match_cascade distinct_map_del_where)
qed

lemma purge_credit_inv: "keeps (credit_inv t) (purge_expired_matches skip now limit)"
  by (rule validI) (auto simp: purge_expired_matches_def Let_def intro: credit_inv_cascade)

lemma run_batch_credit_inv: "keeps (credit_inv t) (run_batch e skip now limit)"
proof (cases "checked_add_signed now (days MATCH_PURGE_DAYS)")
  case None
  then show ?thesis
    by (simp add: run_batch_def keeps_err)
next
  case (Some purge)
  note books = notify_due_same_books erasure_same_books
  show ?thesis
    unfolding run_batch_def Some option.case enqueue_first_period_reminders_def enqueue_warnings_def
    by (intro keeps_intros windows_credit_inv purge_credit_inv
        books [THEN keeps_same_books, OF same_books_credit_inv])
qed

section \<open>Creation, reveal, end\<close>

lemma find_match_append:
  "find_match (db\<lparr>match_init := match_init db @ [m]\<rparr>) j =
     (case find_match db j of Some x \<Rightarrow> Some x | None \<Rightarrow> if m_id m = j then Some m else None)"
  by (simp add: find_match_def find_append split: option.split)

lemma credit_inv_append_match:
  assumes inv: "credit_inv t db" and new: "\<forall>x \<in> set (match_init db). m_id x \<noteq> m_id m"
    and lt: "user1_id m < user2_id m"
  shows "credit_inv t (db\<lparr>match_init := match_init db @ [m]\<rparr>)" (is "credit_inv t ?db")
proof (rule credit_inv_releases [OF inv])
  have old: "find_match ?db (r_match r) = find_match db (r_match r)"
    if "r \<in> set (continuation_reservation db)" for r
    using that inv by (auto simp: credit_inv_def keys_ok_def find_match_append split: option.splits)
  show "releases t db ?db"
    using old by (auto simp: releases_def live_reservation_def del_where_def
        intro!: exI [of _ "\<lambda>_. False"])
  show "keys_ok ?db"
    using inv new lt old by (auto simp: credit_inv_def keys_ok_def)
qed

lemma insert_match_Ok:
  assumes "insert_match e r db = (Inr n, db')"
  shows "n = 0 \<and> db' = db \<or>
     n = 1 \<and> db' = db\<lparr>match_init := match_init db @ [track_inserted (clk e 0) (match_row_of r)]\<rparr> \<and>
     live_account db (user1_id r) \<and> live_account db (user2_id r) \<and>
     \<not> blocked_pair db (user1_id r) (user2_id r) \<and> user1_id r < user2_id r \<and>
     (\<forall>m \<in> set (match_init db). m_id m \<noteq> m_id r \<and>
        \<not> (user1_id m = user1_id r \<and> user2_id m = user2_id r))"
  using assms by (auto simp: insert_match_def split: if_splits)

lemma track_inserted_simps [simp]:
  "m_id (track_inserted t (match_row_of r)) = m_id r"
  "user1_id (track_inserted t (match_row_of r)) = user1_id r"
  "user2_id (track_inserted t (match_row_of r)) = user2_id r"
  "m_status (track_inserted t (match_row_of r)) = m_status r"
  "m_status r \<noteq> Confirmed \<Longrightarrow> track_inserted t (match_row_of r) = match_row_of r"
  by (simp_all add: track_inserted_def match_row_of_def)

lemma insert_match_credit_inv: "keeps (credit_inv t) (insert_match e r)"
  by (rule validI) (auto dest!: insert_match_Ok intro!: credit_inv_append_match)

lemma insert_match_states_same_books: "keeps (same_books a) (insert_match_states i x y)"
  by (rule validI)
     (auto simp: insert_match_states_def same_books_def
       dest!: then_op_InrD require_live_match_same split: if_splits)

lemma announce_match_same_books: "keeps (same_books a) (announce_match e r)"
  unfolding announce_match_def by (intro keeps_intros enqueue_same_books)

lemma create_credit_inv: "keeps (credit_inv t) (create e r)"
  unfolding create_def create_body_def
  by (intro valid_transaction keeps_intros insert_match_credit_inv
      insert_match_states_same_books [THEN keeps_same_books, OF same_books_credit_inv]
      announce_match_same_books [THEN keeps_same_books, OF same_books_credit_inv])

lemma bump_reveal_credit_inv: "credit_inv t db \<Longrightarrow> credit_inv t (bump_reveal_version i db)"
  unfolding bump_reveal_version_def upd_where_def
  by (rule credit_inv_map_matches) (simp_all add: settles_def)

lemma set_revealed_same_books: "keeps (same_books a) (set_revealed i u b)"
  unfolding set_revealed_def by (intro keeps_intros update_match_state_same_books)

lemma announce_reveal_credit_inv: "keeps (credit_inv t) (announce_reveal e i rec)"
  unfolding announce_reveal_def
  by (intro keeps_intros bump_reveal_credit_inv
      enqueue_same_books [THEN keeps_same_books, OF same_books_credit_inv])

lemma record_reveal_credit_inv: "keeps (credit_inv t) (record_reveal e i u consent)"
proof -
  have "keeps (credit_inv t) (reveal_available e i u consent rec)" for rec
    unfolding reveal_available_def
    by (intro keeps_intros set_revealed_same_books [THEN keeps_same_books, OF same_books_credit_inv])
       (auto intro!: keeps_intros announce_reveal_credit_inv split: prod.splits)
  then show ?thesis
    unfolding record_reveal_def
    by (intro valid_transaction keeps_bind lock_available_match_credit_inv)
       (auto split: match_command_result.splits intro!: keeps_intros)
qed

lemma ended_row_simps [simp]:
  "m_id (ended_row t m) = m_id m" "user1_id (ended_row t m) = user1_id m"
  "user2_id (ended_row t m) = user2_id m" "m_status (ended_row t m) = Ended"
  by (simp_all add: ended_row_def)

lemma record_end_credit_inv: "keeps (credit_inv t) (record_end e i u)"
  unfolding record_end_def
proof (rule valid_transaction, rule validI)
  fix db v db'
  assume "credit_inv t db"
  moreover have "credit_inv t (delete_reservations i (update_match s i (ended_row s) db))"
    if "credit_inv t db" for s
    using that by (intro credit_inv_delete_reservations credit_inv_update_match) auto
  moreover assume "(case find_match db i of None \<Rightarrow> (Inr None, db)
       | Some m \<Rightarrow>
           if \<not> participant m u \<or> is_deleted db (user1_id m) \<or> is_deleted db (user2_id m)
           then (Inr None, db)
           else
             let changed = (m_status m \<noteq> Ended) in
             (Inr (Some \<lparr>me_participant_ids = (user1_id m, user2_id m), me_changed = changed\<rparr>),
              if changed
              then delete_reservations i (update_match (clk e 0) i (ended_row (clk e 0)) db)
              else db)) = (Inr v, db')"
  ultimately show "credit_inv t db'"
    by (auto simp: Let_def split: option.splits if_splits)
qed

section \<open>Advertising rewards\<close>

definition put_wallet :: "uuid \<Rightarrow> wallet \<Rightarrow> db \<Rightarrow> db" where
  "put_wallet u r db = db\<lparr>continuation_wallet := (continuation_wallet db)(u \<mapsto> r)\<rparr>"

lemma credit_inv_put_wallet:
  assumes inv: "credit_inv t db"
    and r: "0 \<le> advertising_credits r" "advertising_credits r \<le> ADVERTISING_STOCK_LIMIT"
      "num_days_from_monday (wallet_week r) = 0"
    and more: "balance_of db u (start_of_utc_week t) \<le> balance_of (put_wallet u r db) u (start_of_utc_week t)"
  shows "credit_inv t (put_wallet u r db)" (is "credit_inv t ?db")
proof -
  have frame: "used_of ?db = used_of db" "free_used_of ?db = free_used_of db" "find_match ?db = find_match db"
    "match_init ?db = match_init db" "continuation_reservation ?db = continuation_reservation db"
    by (simp_all add: put_wallet_def used_of_def free_used_of_def find_match_def fun_eq_iff)
  have held: "held ?db = held db"
    by (simp add: held_def reserved_count_def live_reservation_def frame fun_eq_iff)
  have "balance_of db v (start_of_utc_week t) \<le> balance_of ?db v (start_of_utc_week t)" for v
    using more by (cases "v = u") (simp_all add: put_wallet_def balance_of_def)
  then have "ads_covered t ?db"
    using inv by (auto simp: credit_inv_def ads_covered_def held intro: order_trans)
  moreover have "wallet_ok ?db"
    using inv r by (simp add: credit_inv_def wallet_ok_def put_wallet_def)
  ultimately show ?thesis
    using inv by (simp add: credit_inv_def keys_ok_def usage_ok_def free_bounded_def weeks_past_def
        frame held)
qed

lemma grant_Ok:
  assumes "grant_advertising_credit u now db = (Inr g, db')"
  shows "\<not> g \<and> db' = db \<or>
    g \<and> (\<exists>n. db' = put_wallet u \<lparr>advertising_credits = n, wallet_week = start_of_utc_week now\<rparr> db \<and>
       n = (if wallet_week (the (continuation_wallet db u)) = start_of_utc_week now \<and>
               continuation_wallet db u \<noteq> None
            then advertising_credits (the (continuation_wallet db u)) + 1 else 1) \<and>
       (continuation_wallet db u \<noteq> None \<longrightarrow> wallet_week (the (continuation_wallet db u)) = start_of_utc_week now \<longrightarrow>
          n \<le> ADVERTISING_STOCK_LIMIT))"
  using assms
  by (auto simp: grant_advertising_credit_def Let_def put_wallet_def split: option.splits if_splits)

lemma grant_credit_inv:
  "keeps (credit_inv now) (grant_advertising_credit u now)"
proof (rule validI)
  fix db g db'
  assume inv: "credit_inv now db" and run: "grant_advertising_credit u now db = (Inr g, db')"
  let ?week = "start_of_utc_week now"
  let ?same = "wallet_week (the (continuation_wallet db u)) = ?week \<and> continuation_wallet db u \<noteq> None"
  show "credit_inv now db'"
  proof (cases g)
    case False
    then show ?thesis
      using grant_Ok [OF run] inv by simp
  next
    case True
    then obtain n where db': "db' = put_wallet u \<lparr>advertising_credits = n, wallet_week = ?week\<rparr> db"
      and n: "n = (if ?same then advertising_credits (the (continuation_wallet db u)) + 1 else 1)"
        "?same \<longrightarrow> n \<le> ADVERTISING_STOCK_LIMIT"
      using grant_Ok [OF run] by auto
    have w: "0 \<le> advertising_credits (the (continuation_wallet db u))" if "continuation_wallet db u \<noteq> None"
      using inv that by (auto simp: credit_inv_def wallet_ok_def)
    have bal: "balance_of db u ?week = (if ?same then advertising_credits (the (continuation_wallet db u)) else 0)"
      by (auto simp: balance_of_def split: option.splits)
    show ?thesis
      unfolding db'
    proof (rule credit_inv_put_wallet [OF inv])
      show "0 \<le> advertising_credits \<lparr>advertising_credits = n, wallet_week = ?week\<rparr>"
        using n w by simp
      show "advertising_credits \<lparr>advertising_credits = n, wallet_week = ?week\<rparr> \<le> ADVERTISING_STOCK_LIMIT"
        using n by (cases ?same) (simp_all add: ADVERTISING_STOCK_LIMIT_def)
      show "balance_of db u ?week \<le>
          balance_of (put_wallet u \<lparr>advertising_credits = n, wallet_week = ?week\<rparr> db) u ?week"
        using n(1) w unfolding bal
        by (cases "continuation_wallet db u") (simp_all add: put_wallet_def balance_of_def)
    qed (simp add: start_of_utc_week_monday)
  qed
qed

lemma update_intent_same_books [simp]: "same_books a (update_intent i f db) \<longleftrightarrow> same_books a db"
  by (simp add: same_books_def update_intent_def)

lemma finish_intent_same_books: "keeps (same_books a) (finish_intent i now hash cur)"
  by (rule validI) (auto simp: finish_intent_def split: if_splits)

lemma credit_intent_credit_inv: "keeps (credit_inv (clk e 0)) (credit_intent e cb hash r event)"
  unfolding credit_intent_def Let_def
  by (intro keeps_intros grant_credit_inv
      finish_intent_same_books [THEN keeps_same_books, OF same_books_credit_inv])

lemma complete_on_credit_inv: "keeps (credit_inv (clk e 0)) (complete_on digest e cb)"
  unfolding complete_on_def Let_def
  by (intro keeps_bind keeps_gets)
     (auto split: option.splits
       intro!: keeps_intros keeps_lock_eligible_accounts credit_intent_credit_inv)

lemma reward_operations_credit_inv:
  "keeps (credit_inv (clk e 0)) (reward_complete digest cfg e cb)"
  "keeps (credit_inv t) (reward_create cfg legal e u platform)"
  "keeps (credit_inv t) (reward_cancel e u i)"
proof -
  have ins: "keeps (same_books a) (insert_intent r)" for a r
    by (rule validI) (auto simp: insert_intent_def same_books_def split: if_splits)
  have canc: "keeps (same_books a) (cancel_on e u i)" for a
    by (rule validI) (auto simp: cancel_on_def split: option.splits if_splits)
  have create: "keeps (credit_inv t) (create_on e u unit legal)" for unit
    unfolding create_on_def Let_def
    by (intro keeps_then keeps_bind keeps_map_err keeps_lock_eligible_accounts keeps_if keeps_intros)
       (auto split: list.splits intro!: keeps_intros
         ins [THEN keeps_same_books, OF same_books_credit_inv])
  show "keeps (credit_inv (clk e 0)) (reward_complete digest cfg e cb)"
    unfolding reward_complete_def by (intro keeps_intros valid_transaction complete_on_credit_inv)
  show "keeps (credit_inv t) (reward_create cfg legal e u platform)"
    unfolding reward_create_def by (intro keeps_intros valid_transaction create)
  show "keeps (credit_inv t) (reward_cancel e u i)"
    unfolding reward_cancel_def
    by (intro valid_transaction canc [THEN keeps_same_books, OF same_books_credit_inv])
qed

section \<open>Retention\<close>

text \<open>The two statements of the privacy retention job on the credit tables
  (\<^verbatim>\<open>src/privacy/maintenance.rs\<close>): reservations whose match no longer waits, and usage rows
  older than ninety days that no reservation refers to.\<close>

definition retention_reservations ::
  "(uuid \<Rightarrow> bool) \<Rightarrow> instant \<Rightarrow> nat \<Rightarrow> (db, database_error, nat) op" where
  "retention_reservations skip now limit db =
     (let deadline = (\<lambda>r. case find_match db (r_match r) of Some m \<Rightarrow> m_expires_at m | None \<Rightarrow> 0);
          doomed = order_limit (\<lambda>r. (deadline r, r_match r, r_user r)) limit
            (filter (\<lambda>r. (case find_match db (r_match r) of
                 Some m \<Rightarrow> m_status m \<noteq> AwaitingContinuation \<or> m_expires_at m \<le> now
               | None \<Rightarrow> False) \<and> \<not> skip (r_match r)) (continuation_reservation db));
          keys = map (\<lambda>r. (r_match r, r_user r)) doomed
      in (Inr (length doomed),
          db\<lparr>continuation_reservation :=
             del_where (\<lambda>r. (r_match r, r_user r) \<in> set keys) (continuation_reservation db)\<rparr>))"

text \<open>The order and limit pick which of the stale keys go first; \<open>picked\<close> stands for that choice
  among the keys of the table.\<close>

definition usage_stale :: "db \<Rightarrow> instant \<Rightarrow> uuid \<times> date \<Rightarrow> bool" where
  "usage_stale db now k \<longleftrightarrow>
     snd k < date_naive now - 90 \<and>
     \<not> (\<exists>r \<in> set (continuation_reservation db). r_user r = fst k \<and> r_week r = snd k)"

definition retention_usage :: "(uuid \<times> date) list \<Rightarrow> instant \<Rightarrow> db \<Rightarrow> db" where
  "retention_usage picked now db =
     db\<lparr>continuation_usage :=
        (\<lambda>k. if k \<in> set picked \<and> usage_stale db now k then None else continuation_usage db k)\<rparr>"

lemma retention_reservations_credit_inv:
  "keeps (credit_inv t) (retention_reservations skip now limit)"
  by (rule validI) (auto simp: retention_reservations_def Let_def intro: credit_inv_del_reservations)

lemma retention_usage_credit_inv:
  assumes inv: "credit_inv t db"
  shows "credit_inv t (retention_usage picked now db)" (is "credit_inv t ?db")
proof -
  have frame: "find_match ?db = find_match db" "balance_of ?db = balance_of db"
    "match_init ?db = match_init db" "continuation_reservation ?db = continuation_reservation db"
    "continuation_wallet ?db = continuation_wallet db"
    by (simp_all add: retention_usage_def find_match_def balance_of_def fun_eq_iff)
  have held: "held ?db = held db"
    by (simp add: held_def reserved_count_def live_reservation_def frame fun_eq_iff)
  have less: "used_of ?db u w = used_of db u w \<or> used_of ?db u w = 0"
    "free_used_of ?db u w = free_used_of db u w \<or> free_used_of ?db u w = 0" for u w
    by (simp_all add: retention_usage_def used_of_def free_used_of_def)
  have base: "0 \<le> used_of db u w" "used_of db u w \<le> FREE_WEEKLY_CONTINUATION_LIMIT"
      "0 \<le> free_used_of db u w" "free_used_of db u w + held db t u Free w \<le> FREE_WEEKLY_CREDITS"
    for u w
    using inv by (simp_all add: credit_inv_def usage_ok_def free_bounded_def)
  have "usage_ok ?db"
    unfolding usage_ok_def
    using less base by (metis FREE_WEEKLY_CONTINUATION_LIMIT_def order_refl zero_le_numeral)
  moreover have "free_used_of ?db u w + held db t u Free w \<le> FREE_WEEKLY_CREDITS" for u w
    using less(2) [of u w] base(3,4) [of u w] by auto
  ultimately show ?thesis
    using inv by (simp add: credit_inv_def keys_ok_def wallet_ok_def free_bounded_def
        ads_covered_def weeks_past_def frame held)
qed

end
