(* ===== verification/Account_Privacy.thy ===== *)
theory Account_Privacy
  imports Match_Invariant
begin

text \<open>
  What the privacy component does to the tables of the match component: blocking and unblocking a
  user (\<^verbatim>\<open>src/privacy/pg.rs\<close>, \<^verbatim>\<open>src/privacy/service.rs\<close>) and the erasure of an account by the SQL
  function \<^verbatim>\<open>fct_anonymize_user\<close> of \<^verbatim>\<open>db/001_schema_postgres.sql\<close>, with the triggers it fires.
\<close>

section \<open>Blocking\<close>

definition ENDED_MATCH_RETENTION_DAYS :: int where "ENDED_MATCH_RETENTION_DAYS = 30"

definition live_status :: "match_status \<Rightarrow> bool" where
  "live_status s \<longleftrightarrow> s \<in> {Active, AwaitingContinuation, Confirmed}"

definition block_target_exists :: "db \<Rightarrow> uuid \<Rightarrow> bool" where
  "block_target_exists db u =
     (case user_account db u of Some a \<Rightarrow> deleted_at a = None | None \<Rightarrow> False)"

text \<open>\<^verbatim>\<open>INSERT INTO user_block .. ON CONFLICT DO NOTHING\<close>: the live-account trigger, the check, the
  primary key and the foreign keys.\<close>

definition insert_block :: "uuid \<Rightarrow> uuid \<Rightarrow> (db, database_error, unit) op" where
  "insert_block a b =
     then_op (require_live_account [a, b])
       (\<lambda>db. if a = b then (Inl (Constraint Check), db)
              else if (a, b) \<in> set (user_block db) then (Inr (), db)
              else if user_account db a = None \<or> user_account db b = None
              then (Inl (Constraint ForeignKey), db)
              else (Inr (), db\<lparr>user_block := user_block db @ [(a, b)]\<rparr>))"

definition blocked_row :: "instant \<Rightarrow> match_row \<Rightarrow> match_row" where
  "blocked_row t m =
     m\<lparr>m_status := Ended, purge_after := Some (t + days ENDED_MATCH_RETENTION_DAYS)\<rparr>"

definition end_pair :: "instant \<Rightarrow> uuid \<Rightarrow> uuid \<Rightarrow> db \<Rightarrow> db" where
  "end_pair t a b db =
     db\<lparr>match_init := upd_where (\<lambda>m. user1_id m = min a b \<and> user2_id m = max a b \<and>
           live_status (m_status m))
        (\<lambda>m. track_match_inactivity t m (blocked_row t m)) (match_init db)\<rparr>"

definition block_on :: "env \<Rightarrow> uuid \<Rightarrow> uuid \<Rightarrow> (db, database_error, bool) op" where
  "block_on e a b =
     bind_op (gets (\<lambda>db. block_target_exists db b)) (\<lambda>found.
       if \<not> found then ok False
       else then_op (insert_block a b) (then_op (modify (end_pair (clk e 0) a b)) (ok True)))"

definition pg_block :: "env \<Rightarrow> uuid \<Rightarrow> uuid \<Rightarrow> (db, database_error, bool) op" where
  "pg_block e a b = transaction (block_on e a b)"

definition pg_unblock :: "uuid \<Rightarrow> uuid \<Rightarrow> (db, database_error, unit) op" where
  "pg_unblock a b = modify (\<lambda>db. db\<lparr>user_block := del_where (\<lambda>p. p = (a, b)) (user_block db)\<rparr>)"

datatype privacy_error = InvalidBlock | UserNotFound | PrivacyDatabase database_error

text \<open>A call of the service: its result, the database and the pairs told that their matches
  changed.\<close>

definition block_user ::
  "env \<Rightarrow> uuid \<Rightarrow> uuid \<Rightarrow> db \<Rightarrow> (privacy_error + unit) \<times> db \<times> (uuid \<times> uuid) list" where
  "block_user e a b db =
     (if a = b then (Inl InvalidBlock, db, [])
      else case pg_block e a b db of
        (Inl er, db') \<Rightarrow> (Inl (PrivacyDatabase er), db', [])
      | (Inr found, db') \<Rightarrow>
          if \<not> found then (Inl UserNotFound, db', []) else (Inr (), db', [(a, b)]))"

definition unblock_user ::
  "uuid \<Rightarrow> uuid \<Rightarrow> db \<Rightarrow> (privacy_error + unit) \<times> db \<times> (uuid \<times> uuid) list" where
  "unblock_user a b db =
     (case pg_unblock a b db of
        (Inl er, db') \<Rightarrow> (Inl (PrivacyDatabase er), db', [])
      | (Inr _, db') \<Rightarrow> (Inr (), db', [(a, b)]))"

section \<open>Erasure\<close>

text \<open>The text that replaces the content of an erased user's messages, as Unicode scalar
  values.\<close>

definition erased_content :: utext where
  "erased_content = [91, 77, 101, 115, 115, 97, 103, 101, 32, 115, 117, 112, 112, 114, 105, 109, 233, 93]"

definition erased_match :: "instant \<Rightarrow> match_row \<Rightarrow> match_row" where
  "erased_match t m =
     m\<lparr>m_status := Ended,
       purge_after := Some (case purge_after m of Some p \<Rightarrow> p | None \<Rightarrow> t + days 30)\<rparr>"

definition erased_account :: "instant \<Rightarrow> account \<Rightarrow> account" where
  "erased_account t a =
     a\<lparr>is_banned := False, discovery_paused := False,
       deleted_at := Some (case deleted_at a of Some d \<Rightarrow> d | None \<Rightarrow> t)\<rparr>"

text \<open>An invoice whose user is set to null can no longer be found by its user: it is dropped.\<close>

definition anonymize_user :: "instant \<Rightarrow> uuid \<Rightarrow> db \<Rightarrow> db" where
  "anonymize_user t u db =
     db\<lparr>match_init := map (\<lambda>m. if participant m u \<and> live_status (m_status m)
           then erased_match t m else m) (match_init db),
        chat_message := upd_where (\<lambda>c. msg_sender_id c = u)
          (\<lambda>c. c\<lparr>msg_content := erased_content\<rparr>) (chat_message db),
        device_token := del_where (\<lambda>d. dev_user d = u) (device_token db),
        user_notification_preference := (user_notification_preference db)(u := None),
        notification := del_where (\<lambda>n. n_user n = u) (notification db),
        notification_push_delivery := del_where (\<lambda>p.
          (\<exists>n \<in> set (notification db). n_id n = pd_notification p \<and> n_user n = u) \<or>
          (\<exists>d \<in> set (device_token db). dev_id d = pd_device p \<and> dev_user d = u))
          (notification_push_delivery db),
        user_block := del_where (\<lambda>(a, b). a = u \<or> b = u) (user_block db),
        user_subscription := (user_subscription db)(u := None),
        complimentary_premium_grant := (complimentary_premium_grant db)(u := None),
        billing_store_subscription := upd_where (\<lambda>s. ss_user s = Some u)
          (\<lambda>s. s\<lparr>ss_user := None\<rparr>) (billing_store_subscription db),
        continuation_reservation := del_where (\<lambda>r. r_user r = u \<or>
          (\<exists>m \<in> set (match_init db). m_id m = r_match r \<and> participant m u))
          (continuation_reservation db),
        advertising_reward_intent := del_where (\<lambda>r. ri_user r = u) (advertising_reward_intent db),
        continuation_wallet := (continuation_wallet db)(u := None),
        continuation_usage := (\<lambda>k. if fst k = u then None else continuation_usage db k),
        match_state := del_where (\<lambda>s. ms_user s = u) (match_state db),
        match_notification_preference :=
          (\<lambda>k. if snd k = u then None else match_notification_preference db k),
        user_consent := upd_where (\<lambda>c. con_user c = u)
          (\<lambda>c. c\<lparr>con_withdrawn_at := Some (case con_withdrawn_at c of Some w \<Rightarrow> w | None \<Rightarrow> t)\<rparr>)
          (user_consent db),
        user_account := (case user_account db u of
            Some a \<Rightarrow> (user_account db)(u \<mapsto> erased_account t a) | None \<Rightarrow> user_account db),
        refresh_token_family := del_where (\<lambda>f. ses_user f = u) (refresh_token_family db),
        billing_invoice := del_where (\<lambda>v. inv_user v = u) (billing_invoice db)\<rparr>"

section \<open>The credit books\<close>

lemma blocked_row_simps [simp]:
  "m_id (blocked_row t m) = m_id m" "user1_id (blocked_row t m) = user1_id m"
  "user2_id (blocked_row t m) = user2_id m" "m_status (blocked_row t m) = Ended"
  by (simp_all add: blocked_row_def)

lemma erased_match_simps [simp]:
  "m_id (erased_match t m) = m_id m" "user1_id (erased_match t m) = user1_id m"
  "user2_id (erased_match t m) = user2_id m" "m_status (erased_match t m) = Ended"
  by (simp_all add: erased_match_def)

lemma end_pair_credit_inv: "credit_inv t db \<Longrightarrow> credit_inv t (end_pair s a b db)"
  unfolding end_pair_def upd_where_def
  by (rule credit_inv_map_matches) (auto simp: settles_def)

lemma insert_block_same_books: "keeps (same_books x) (insert_block a b)"
  by (rule validI)
     (auto simp: insert_block_def same_books_def require_live_account_def
       dest!: then_op_InrD split: if_splits)

lemma block_on_credit_inv: "keeps (credit_inv t) (block_on e a b)"
  unfolding block_on_def
  by (intro keeps_intros end_pair_credit_inv
      keeps_same_books [OF insert_block_same_books same_books_credit_inv])

text \<open>Dropping every reservation, the wallet and the usage of one user.\<close>

definition close_books :: "uuid \<Rightarrow> db \<Rightarrow> db" where
  "close_books u db =
     db\<lparr>continuation_wallet := (continuation_wallet db)(u := None),
        continuation_usage := (\<lambda>k. if fst k = u then None else continuation_usage db k)\<rparr>"

lemma close_books_credit_inv:
  assumes inv: "credit_inv t db" and none: "\<forall>r \<in> set (continuation_reservation db). r_user r \<noteq> u"
  shows "credit_inv t (close_books u db)" (is "credit_inv t ?db")
proof -
  have frame: "find_match ?db = find_match db" "match_init ?db = match_init db"
    "continuation_reservation ?db = continuation_reservation db"
    by (simp_all add: close_books_def find_match_def fun_eq_iff)
  have held: "held ?db = held db"
    by (simp add: held_def reserved_count_def live_reservation_def frame fun_eq_iff)
  have zero: "held db t u s w = 0" for s w
    using none by (auto simp: held_def reserved_count_def rows_where_eq_0)
  have books: "used_of ?db v w = (if v = u then 0 else used_of db v w)"
    "free_used_of ?db v w = (if v = u then 0 else free_used_of db v w)"
    "balance_of ?db v w = (if v = u then 0 else balance_of db v w)" for v w
    by (simp_all add: close_books_def used_of_def free_used_of_def balance_of_def)
  show ?thesis
    using inv zero unfolding credit_inv_def keys_ok_def usage_ok_def free_bounded_def ads_covered_def
      weeks_past_def wallet_ok_def frame held books
    by (auto simp: match_constants close_books_def)
qed

lemma anonymize_user_credit_inv:
  assumes inv: "credit_inv t db"
  shows "credit_inv t (anonymize_user s u db)"
proof -
  let ?ending = "\<lambda>m. if participant m u \<and> live_status (m_status m) then erased_match s m else m"
  let ?gone = "\<lambda>r. r_user r = u \<or> (\<exists>m \<in> set (match_init db). m_id m = r_match r \<and> participant m u)"
  define a where "a = db\<lparr>match_init := map ?ending (match_init db)\<rparr>"
  define b where "b = a\<lparr>continuation_reservation := del_where ?gone (continuation_reservation a)\<rparr>"
  have "credit_inv t a"
    unfolding a_def by (rule credit_inv_map_matches [OF inv]) (auto simp: settles_def)
  then have "credit_inv t b"
    unfolding b_def by (rule credit_inv_del_reservations)
  then have "credit_inv t (close_books u b)"
    by (rule close_books_credit_inv) (simp add: b_def)
  then show ?thesis
    by (rule iffD2 [OF credit_inv_cong, rotated -1])
       (simp_all add: anonymize_user_def close_books_def a_def b_def cong: if_cong)
qed

end
