(* ===== verification/Shared_Text.thy ===== *)
theory Shared_Text
  imports Prelude
begin

text \<open>
  \<^verbatim>\<open>src/shared/text.rs\<close>: trimming with the white space of ECMAScript, the UTF-8 length of a text
  and the length \<^verbatim>\<open>validator.js\<close> counts.
\<close>

definition is_javascript_whitespace :: "nat \<Rightarrow> bool" where
  "is_javascript_whitespace c \<longleftrightarrow>
     (0x0009 \<le> c \<and> c \<le> 0x000D) \<or> c = 0x0020 \<or> c = 0x00A0 \<or> c = 0x1680 \<or>
     (0x2000 \<le> c \<and> c \<le> 0x200A) \<or> c = 0x2028 \<or> c = 0x2029 \<or> c = 0x202F \<or> c = 0x205F \<or>
     c = 0x3000 \<or> c = 0xFEFF"

definition javascript_trim :: "utext \<Rightarrow> utext" where
  "javascript_trim v =
     rev (dropWhile is_javascript_whitespace (rev (dropWhile is_javascript_whitespace v)))"

definition utf8_len :: "utext \<Rightarrow> nat" where
  "utf8_len v =
     sum_list (map (\<lambda>c. if c < 0x80 then 1 else if c < 0x800 then 2 else if c < 0x10000 then 3 else 4) v)"

definition is_variation_selector :: "nat \<Rightarrow> bool" where
  "is_variation_selector c \<longleftrightarrow> c = 0xFE0E \<or> c = 0xFE0F"

text \<open>The loop over the peekable iterator: a selector after an ordinary scalar is consumed with
  it.\<close>

fun validator_js_length :: "utext \<Rightarrow> nat" where
  "validator_js_length [] = 0"
| "validator_js_length [c] = 1"
| "validator_js_length (c # d # rest) =
     (if \<not> is_variation_selector c \<and> is_variation_selector d
      then 1 + validator_js_length rest
      else 1 + validator_js_length (d # rest))"

text \<open>\<^verbatim>\<open>str::to_ascii_lowercase\<close>.\<close>

definition to_ascii_lowercase :: "utext \<Rightarrow> utext" where
  "to_ascii_lowercase v = map (\<lambda>c. if 65 \<le> c \<and> c \<le> 90 then c + 32 else c) v"

section \<open>Trimming\<close>

lemma dropWhile_hd: "dropWhile P xs \<noteq> [] \<Longrightarrow> \<not> P (hd (dropWhile P xs))"
  by (rule hd_dropWhile)

lemma last_dropWhile: "dropWhile P xs \<noteq> [] \<Longrightarrow> last (dropWhile P xs) = last xs"
  by (induction xs) (auto split: if_splits)

text \<open>Trimming from the right keeps the first character.\<close>

lemma hd_rev_dropWhile_rev:
  "rev (dropWhile P (rev xs)) \<noteq> [] \<Longrightarrow> hd (rev (dropWhile P (rev xs))) = hd xs"
  by (simp add: hd_rev last_dropWhile last_rev)

lemma javascript_trim_ends:
  assumes "javascript_trim v \<noteq> []"
  shows "\<not> is_javascript_whitespace (hd (javascript_trim v))"
    and "\<not> is_javascript_whitespace (last (javascript_trim v))"
proof -
  let ?w = "dropWhile is_javascript_whitespace v"
  have ne: "rev (dropWhile is_javascript_whitespace (rev ?w)) \<noteq> []"
    using assms by (simp add: javascript_trim_def)
  then have "?w \<noteq> []"
    by (metis dropWhile.simps(1) rev.simps(1))
  then show "\<not> is_javascript_whitespace (hd (javascript_trim v))"
    using hd_rev_dropWhile_rev [OF ne] hd_dropWhile [of is_javascript_whitespace v]
    by (simp add: javascript_trim_def)
  show "\<not> is_javascript_whitespace (last (javascript_trim v))"
    using ne hd_dropWhile [of is_javascript_whitespace "rev ?w"]
    by (simp add: javascript_trim_def last_rev)
qed

lemma dropWhile_same: "xs = [] \<or> \<not> P (hd xs) \<Longrightarrow> dropWhile P xs = xs"
  by (cases xs) auto

lemma javascript_trim_idem: "javascript_trim (javascript_trim v) = javascript_trim v"
proof (cases "javascript_trim v = []")
  case True
  then show ?thesis
    unfolding True by (simp add: javascript_trim_def)
next
  case False
  let ?t = "javascript_trim v"
  have "dropWhile is_javascript_whitespace ?t = ?t"
    using javascript_trim_ends(1) [OF False] by (simp add: dropWhile_same)
  moreover have "dropWhile is_javascript_whitespace (rev ?t) = rev ?t"
    using javascript_trim_ends(2) [OF False] False by (simp add: dropWhile_same hd_rev)
  ultimately show ?thesis
    by (simp add: javascript_trim_def [of ?t])
qed

lemma length_javascript_trim: "length (javascript_trim v) \<le> length v"
proof -
  have "length (javascript_trim v) \<le> length (dropWhile is_javascript_whitespace v)"
    unfolding javascript_trim_def length_rev by (metis length_dropWhile_le length_rev)
  then show ?thesis
    using length_dropWhile_le order_trans by blast
qed

section \<open>Lengths\<close>

lemma validator_js_length_le: "validator_js_length v \<le> length v"
  by (induction v rule: validator_js_length.induct) auto

lemma validator_js_length_half: "length v \<le> 2 * validator_js_length v"
  by (induction v rule: validator_js_length.induct) auto

lemma utf8_len_bounds: "length v \<le> utf8_len v" "utf8_len v \<le> 4 * length v"
  by (induction v) (auto simp: utf8_len_def)

end
