(* ===== verification/Match_Service.thy ===== *)
theory Match_Service
  imports Match_Store Shared_Text
begin

text \<open>
  \<^verbatim>\<open>src/matches/service.rs\<close>: validation of requests, translation of store results into errors of
  the API, cursor pages and the events published to the participants.  A service call maps the
  database to a result, the database it leaves and the events it published, in order.
  \<^verbatim>\<open>Uuid::parse_str\<close> and \<^verbatim>\<open>Uuid::hyphenated\<close> of the \<^verbatim>\<open>uuid\<close> crate are the arguments
  \<open>parse_str\<close> and \<open>hyphenated\<close>; the renderer of instants is \<open>fmt\<close>.
\<close>

unbundle bit_operations_syntax

section \<open>Errors and events\<close>

datatype match_error =
  InvalidRequest | InvalidMessageRequest | InvalidIdempotencyKey | InvalidCursor
| MatchNotFound | MatchBlocked | CandidateNotFound | MatchInvalidState
| ContinuationNotAvailableYet | MatchExpired | QuotaReached | PlanChanged
| MessagingUnavailable | MessageNotFound | MessageIdempotencyConflict
| PhotoStorageUnavailable | MatchPhotoRequired | MatchDatabase database_error

fun match_error_from :: "match_store_error \<Rightarrow> match_error" where
  "match_error_from Blocked = MatchBlocked"
| "match_error_from ParticipantUnavailable = CandidateNotFound"
| "match_error_from ContinuationExpired = MatchExpired"
| "match_error_from PhotoRequired = MatchPhotoRequired"
| "match_error_from (Database e) = MatchDatabase e"

fun command_error :: "match_availability_failure \<Rightarrow> match_error" where
  "command_error NotFound = MatchNotFound"
| "command_error InvalidState = MatchInvalidState"
| "command_error AvailExpired = MatchExpired"

fun message_command_error :: "match_availability_failure \<Rightarrow> match_error" where
  "message_command_error NotFound = MatchNotFound"
| "message_command_error InvalidState = MessagingUnavailable"
| "message_command_error AvailExpired = MatchExpired"

datatype match_update = UpdPhotosRevealed bool | UpdMatchConfirmed bool | UpdEnded

datatype match_event =
  EvCreated public_match
| EvUpdated uuid "uuid \<times> uuid" match_update
| EvMessageCreated public_message "uuid \<times> uuid"
| EvMessagesRead uuid "uuid \<times> uuid" uuid uuid

type_synonym 'a service = "db \<Rightarrow> (match_error + 'a) \<times> db \<times> match_event list"

definition reject :: "match_error \<Rightarrow> 'a service" where
  "reject er db = (Inl er, db, [])"

text \<open>Calling the store: its error becomes an error of the API; otherwise the service goes on.\<close>

definition call_store ::
  "(db, match_store_error, 'a) op \<Rightarrow> ('a \<Rightarrow> 'b service) \<Rightarrow> 'b service" where
  "call_store m k db =
     (case m db of (Inl er, db') \<Rightarrow> (Inl (match_error_from er), db', []) | (Inr v, db') \<Rightarrow> k v db')"

section \<open>Creation\<close>

text \<open>\<open>new_id\<close> is \<^verbatim>\<open>Uuid::new_v4()\<close>; \<open>now\<close> and \<open>now'\<close> are the two readings of the service
  clock.\<close>

definition new_match_record :: "uuid \<Rightarrow> uuid \<Rightarrow> uuid \<Rightarrow> instant \<Rightarrow> match_record" where
  "new_match_record new_id first second now =
     \<lparr>m_id = new_id, user1_id = min first second, user2_id = max first second,
      m_status = Active, m_expires_at = now + hours MATCH_WINDOW_HOURS, purge_after = None,
      continuation_initiator_id = None, m_created_at = now, last_message_at = None\<rparr>"

definition create_from_mutual_like ::
  "(instant \<Rightarrow> string) \<Rightarrow> env \<Rightarrow> uuid \<Rightarrow> instant \<Rightarrow> instant \<Rightarrow> uuid \<Rightarrow> uuid \<Rightarrow> public_match service" where
  "create_from_mutual_like fmt e new_id now now' first second db =
     (if first = 0 \<or> second = 0 \<or> first = second then (Inl InvalidRequest, db, [])
      else
        let r = new_match_record new_id first second now in
        case create e r db of
          (Inr _, db') \<Rightarrow>
            let public = from_record_at fmt r now in (Inr public, db', [EvCreated public])
        | (Inl er, db') \<Rightarrow>
            if store_error_is_unique er
            then (case find_by_pair db' (user1_id r) (user2_id r) of
                    Some old \<Rightarrow> (Inr (from_record_at fmt old now'), db', [])
                  | None \<Rightarrow> (Inl (MatchDatabase QueryFailed), db', []))
            else (Inl (match_error_from er), db', []))"

section \<open>Commands\<close>

definition set_reveal ::
  "env \<Rightarrow> uuid \<Rightarrow> uuid \<Rightarrow> photo_reveal_consent \<Rightarrow> bool service" where
  "set_reveal e i u consent =
     call_store (record_reveal e i u consent) (\<lambda>res.
       case res of
         Unavailable reason \<Rightarrow> reject (command_error reason)
       | Available both \<Rightarrow> (\<lambda>db. (Inr both, db,
           case participant_ids db i u of
             Some ps \<Rightarrow> [EvUpdated i ps (UpdPhotosRevealed both)] | None \<Rightarrow> [])))"

definition reveal :: "env \<Rightarrow> uuid \<Rightarrow> uuid \<Rightarrow> bool service" where
  "reveal e i u = set_reveal e i u Granted"

definition withdraw_reveal :: "env \<Rightarrow> uuid \<Rightarrow> uuid \<Rightarrow> bool service" where
  "withdraw_reveal e i u = set_reveal e i u Withdrawn"

fun continuation_answer :: "continuation_result \<Rightarrow> match_error + bool" where
  "continuation_answer Cont_Confirmed = Inr True"
| "continuation_answer Cont_AlreadyConfirmed = Inr True"
| "continuation_answer Cont_Pending = Inr False"
| "continuation_answer Cont_AlreadyRecorded = Inr False"
| "continuation_answer Cont_NotAvailableYet = Inl ContinuationNotAvailableYet"
| "continuation_answer Cont_QuotaReached = Inl QuotaReached"
| "continuation_answer Cont_PlanChanged = Inl PlanChanged"
| "continuation_answer Cont_Expired = Inl MatchExpired"
| "continuation_answer Cont_NotFound = Inl MatchNotFound"
| "continuation_answer Cont_InvalidState = Inl MatchInvalidState"

definition continue_match ::
  "env \<Rightarrow> legal_config option \<Rightarrow> uuid \<Rightarrow> uuid \<Rightarrow> int \<Rightarrow> bool service" where
  "continue_match e legal i u credit_cost =
     (if \<not> (0 \<le> credit_cost \<and> credit_cost \<le> 1) then reject InvalidRequest
      else call_store (pg_record_continuation e i u legal credit_cost) (\<lambda>outcome db.
        (continuation_answer outcome, db,
         if outcome = Cont_Confirmed
         then (case participant_ids db i u of
                 Some ps \<Rightarrow> [EvUpdated i ps (UpdMatchConfirmed True)] | None \<Rightarrow> [])
         else [])))"

definition end_match :: "env \<Rightarrow> uuid \<Rightarrow> uuid \<Rightarrow> unit service" where
  "end_match e i u =
     call_store (record_end e i u) (\<lambda>outcome.
       case outcome of
         None \<Rightarrow> reject MatchNotFound
       | Some r \<Rightarrow> (\<lambda>db. (Inr (), db,
           if me_changed r then [EvUpdated i (me_participant_ids r) UpdEnded] else [])))"

definition continuation_quota_of :: "uuid \<Rightarrow> instant \<Rightarrow> continuation_quota service" where
  "continuation_quota_of u now db =
     (case quota_snapshot db u now of
        Inl er \<Rightarrow> (Inl (match_error_from er), db, []) | Inr q \<Rightarrow> (Inr q, db, []))"

section \<open>Listing\<close>

text \<open>A cursor of the request, already decoded; \<open>raw\<close> tells whether the request carried one.\<close>

definition page_request_ok :: "nat \<Rightarrow> nat \<Rightarrow> bool \<Rightarrow> bool" where
  "page_request_ok limit offset raw \<longleftrightarrow> 1 \<le> limit \<and> limit \<le> 100 \<and> \<not> (raw \<and> offset \<noteq> 0)"

definition catch_up :: "instant \<Rightarrow> match_record \<Rightarrow> match_record" where
  "catch_up now r =
     (let r = (if m_status r = Active \<and> m_expires_at r \<le> now
               then r\<lparr>m_status := AwaitingContinuation,
                      m_expires_at := m_expires_at r + hours MATCH_WINDOW_HOURS\<rparr> else r)
      in if m_status r = AwaitingContinuation \<and> m_expires_at r \<le> now
         then r\<lparr>m_status := Expired\<rparr> else r)"

definition row_cursor :: "'p user_match_row \<Rightarrow> instant \<times> uuid" where
  "row_cursor r = activity_key (um_record r)"

definition list_matches ::
  "(uuid \<rightharpoonup> 'p) \<Rightarrow> instant \<Rightarrow> instant \<Rightarrow> uuid \<Rightarrow> nat \<Rightarrow> nat \<Rightarrow> (instant \<times> uuid) option \<Rightarrow>
   ('p user_match_row list \<times> (instant \<times> uuid) option) service" where
  "list_matches profile stmt now u limit offset cur db =
     (if u = 0 \<or> \<not> page_request_ok limit offset (cur \<noteq> None) then (Inl InvalidRequest, db, [])
      else
        let rows = list_for_user profile db stmt u (limit + 1) offset cur in
        (Inr (map (\<lambda>r. r\<lparr>um_record := catch_up now (um_record r)\<rparr>) (take limit rows),
              next_cursor row_cursor limit rows), db, []))"

definition list_messages ::
  "(instant \<Rightarrow> string) \<Rightarrow> env \<Rightarrow> uuid \<Rightarrow> uuid \<Rightarrow> nat \<Rightarrow> nat \<Rightarrow> (instant \<times> uuid) option \<Rightarrow>
   (public_message list \<times> (instant \<times> uuid) option) service" where
  "list_messages fmt e i u limit offset cur =
     (if \<not> page_request_ok limit offset (cur \<noteq> None) then reject InvalidMessageRequest
      else call_store (messages_for_user e i u (limit + 1) offset cur) (\<lambda>res.
        case res of
          Unavailable reason \<Rightarrow> reject (message_command_error reason)
        | Available rows \<Rightarrow> (\<lambda>db.
            (Inr (map (public_message_from fmt) (take limit rows),
                  next_cursor message_key limit rows), db, []))))"

section \<open>Messages\<close>

definition uuid_version :: "uuid \<Rightarrow> uuid" where
  "uuid_version u = drop_bit 76 u AND 0xF"

definition uuid_variant_rfc4122 :: "uuid \<Rightarrow> bool" where
  "uuid_variant_rfc4122 u \<longleftrightarrow> drop_bit 62 u AND 0x3 = 0x2"

definition normalize_idempotency_key ::
  "(utext \<Rightarrow> uuid option) \<Rightarrow> (uuid \<Rightarrow> utext) \<Rightarrow> utext option \<Rightarrow> match_error + uuid" where
  "normalize_idempotency_key parse_str hyphenated input =
     (let normalized = to_ascii_lowercase (case input of Some v \<Rightarrow> javascript_trim v | None \<Rightarrow> []) in
      case parse_str normalized of
        None \<Rightarrow> Inl InvalidIdempotencyKey
      | Some parsed \<Rightarrow>
          if utf8_len normalized \<noteq> 36 \<or>
             list_ex (\<lambda>i. normalized ! i \<noteq> 45) [8, 13, 18, 23] \<or>
             hyphenated parsed \<noteq> normalized \<or>
             uuid_version parsed \<noteq> 4 \<or> \<not> uuid_variant_rfc4122 parsed
          then Inl InvalidIdempotencyKey
          else Inr parsed)"

definition send_message ::
  "(instant \<Rightarrow> string) \<Rightarrow> (utext \<Rightarrow> uuid option) \<Rightarrow> (uuid \<Rightarrow> utext) \<Rightarrow> env \<Rightarrow> uuid \<Rightarrow> uuid \<Rightarrow> uuid \<Rightarrow>
   utext \<Rightarrow> utext option \<Rightarrow> public_message service" where
  "send_message fmt parse_str hyphenated e mid i sender raw_content key_input =
     (let content = javascript_trim raw_content in
      if content = [] \<or> length content > 2000 then reject InvalidMessageRequest
      else case normalize_idempotency_key parse_str hyphenated key_input of
        Inl er \<Rightarrow> reject er
      | Inr k \<Rightarrow>
          call_store (create_message e mid i sender content k) (\<lambda>res.
            case res of
              MessageUnavailable reason \<Rightarrow> reject (message_command_error reason)
            | IdempotencyConflict \<Rightarrow> reject MessageIdempotencyConflict
            | MessageAvailable c \<Rightarrow> (\<lambda>db.
                let m = public_message_from fmt (mc_message c) in
                (Inr m, db,
                 if mc_created c then [EvMessageCreated m (mc_participant_ids c)] else []))))"

definition read_event :: "uuid \<Rightarrow> uuid \<Rightarrow> message_read \<Rightarrow> match_event" where
  "read_event i reader r =
     EvMessagesRead i (mrd_participant_ids r) reader (read_through_message_id r)"

definition service_mark_message_read :: "env \<Rightarrow> uuid \<Rightarrow> uuid \<Rightarrow> uuid \<Rightarrow> unit service" where
  "service_mark_message_read e i mid u =
     call_store (mark_message_read e i mid u) (\<lambda>res.
       case res of
         Unavailable reason \<Rightarrow> reject (message_command_error reason)
       | Available None \<Rightarrow> reject MessageNotFound
       | Available (Some r) \<Rightarrow> (\<lambda>db. (Inr (), db, [read_event i u r])))"

definition service_read_through :: "env \<Rightarrow> uuid \<Rightarrow> uuid \<Rightarrow> uuid \<Rightarrow> int service" where
  "service_read_through e i mid u =
     call_store (mark_messages_read_through e i mid u) (\<lambda>res.
       case res of
         Unavailable reason \<Rightarrow> reject (message_command_error reason)
       | Available None \<Rightarrow> reject MessageNotFound
       | Available (Some r) \<Rightarrow> (\<lambda>db.
           (Inr (updated_count r), db, if updated_count r > 0 then [read_event i u r] else [])))"

end
