(* ===== verification/Match_System.thy ===== *)
theory Match_System
  imports Account_Privacy Match_Service
begin

text \<open>
  The match component as a transition system: every request of the API and every batch of
  maintenance is one transaction on the database, and between two of them the rest of the
  program may change any other table.  The credit invariant holds in every reachable state, and
  every transaction moves each match forward along its life cycle.
\<close>

section \<open>Transactions of the component\<close>

datatype match_command =
  CreateMatch uuid uuid uuid instant
| Continue uuid uuid "legal_config option" int
| ListMessages uuid uuid nat nat "(instant \<times> uuid) option"
| SendMessage uuid uuid uuid utext uuid
| ReadMessage uuid uuid uuid
| ReadThrough uuid uuid uuid
| Reveal uuid uuid photo_reveal_consent
| EndMatch uuid uuid
| MaintenanceBatch "uuid \<Rightarrow> bool" instant nat
| CompleteReward "string \<Rightarrow> string" advertising_config callback
| RetainReservations "uuid \<Rightarrow> bool" instant nat
| RetainUsage "(uuid \<times> date) list" instant
| BlockUser uuid uuid
| UnblockUser uuid uuid
| EraseAccount uuid

fun exec_cmd :: "env \<Rightarrow> match_command \<Rightarrow> db \<Rightarrow> db" where
  "exec_cmd e (CreateMatch new_id first second now) db =
     snd (create e (new_match_record new_id first second now) db)"
| "exec_cmd e (Continue i u legal cost) db = snd (pg_record_continuation e i u legal cost db)"
| "exec_cmd e (ListMessages i u limit offset cur) db =
     snd (messages_for_user e i u limit offset cur db)"
| "exec_cmd e (SendMessage mid i u content k) db = snd (create_message e mid i u content k db)"
| "exec_cmd e (ReadMessage i mid u) db = snd (mark_message_read e i mid u db)"
| "exec_cmd e (ReadThrough i mid u) db = snd (mark_messages_read_through e i mid u db)"
| "exec_cmd e (Reveal i u consent) db = snd (record_reveal e i u consent db)"
| "exec_cmd e (EndMatch i u) db = snd (record_end e i u db)"
| "exec_cmd e (MaintenanceBatch skip now limit) db = snd (transaction (run_batch e skip now limit) db)"
| "exec_cmd e (CompleteReward digest cfg cb) db = snd (reward_complete digest cfg e cb db)"
| "exec_cmd e (RetainReservations skip now limit) db =
     snd (transaction (retention_reservations skip now limit) db)"
| "exec_cmd e (RetainUsage picked now) db = retention_usage picked now db"
| "exec_cmd e (BlockUser a b) db = snd (pg_block e a b db)"
| "exec_cmd e (UnblockUser a b) db = snd (pg_unblock a b db)"
| "exec_cmd e (EraseAccount u) db = anonymize_user (tx_now e) u db"

text \<open>What the rest of the program may do between two transactions: anything that leaves the
  matches, the reservations, the usage and the wallets alone (accounts are created or banned, plans
  change, photos are moderated).\<close>

definition elsewhere :: "db \<Rightarrow> db \<Rightarrow> bool" where
  "elsewhere a b \<longleftrightarrow>
     match_init b = match_init a \<and> continuation_reservation b = continuation_reservation a \<and>
     continuation_usage b = continuation_usage a \<and> continuation_wallet b = continuation_wallet a"

inductive reachable :: "instant \<Rightarrow> db \<Rightarrow> bool" where
  start: "match_init db = [] \<Longrightarrow> continuation_reservation db = [] \<Longrightarrow>
     continuation_usage db = Map.empty \<Longrightarrow> continuation_wallet db = Map.empty \<Longrightarrow> reachable t db"
| transact: "reachable t db \<Longrightarrow> clock_from t e \<Longrightarrow> (\<forall>k. clk e k \<le> t') \<Longrightarrow>
     reachable t' (exec_cmd e cmd db)"
| other: "reachable t db \<Longrightarrow> elsewhere db db' \<Longrightarrow> t \<le> t' \<Longrightarrow> reachable t' db'"

section \<open>The credit invariant\<close>

lemma snd_transaction:
  assumes "valid I m (\<lambda>_. J)" "I db" "J db"
  shows "J (snd (transaction m db))"
  using assms by (auto simp: transaction_def valid_def split: prod.splits sum.splits)

lemma snd_keeps_transaction: "keeps I (transaction m) \<Longrightarrow> I db \<Longrightarrow> I (snd (transaction m db))"
  by (auto simp: transaction_def valid_def split: prod.splits sum.splits)

lemma exec_cmd_credit_inv:
  assumes "clock_from t e" "credit_inv t db" "\<forall>k. clk e k \<le> t'"
  shows "credit_inv t' (exec_cmd e cmd db)"
proof -
  have le: "t \<le> clk e 0" "t \<le> clk e 1" "clk e 0 \<le> t'" "clk e 1 \<le> t'" "t \<le> t'"
    using assms clock_fromD [OF assms(1), of 0] clock_fromD [OF assms(1), of 1]
    by (auto intro: order_trans)
  have now: "credit_inv (clk e 0) db" "credit_inv (clk e 1) db"
    using credit_inv_later [OF assms(2)] le by auto
  have same: "credit_inv t' (exec_cmd e cmd db)" if "credit_inv t (exec_cmd e cmd db)"
    using credit_inv_later that le by blast
  show ?thesis
  proof (cases cmd)
    case (CreateMatch new_id first second now)
    show ?thesis
      unfolding CreateMatch exec_cmd.simps create_def
      by (rule credit_inv_later [OF snd_keeps_transaction [OF create_credit_inv [unfolded create_def] assms(2)] le(5)])
  next
    case (Continue i u legal cost)
    have "credit_inv (clk e 1) (exec_cmd e cmd db)"
      unfolding Continue exec_cmd.simps pg_record_continuation_def
      by (rule snd_transaction [OF record_continuation_credit_inv [OF assms(1)] assms(2) now(2)])
    then show ?thesis
      using credit_inv_later le by blast
  next
    case (ListMessages i u limit offset cur)
    show ?thesis
      unfolding ListMessages exec_cmd.simps messages_for_user_def
      by (rule credit_inv_later [OF snd_keeps_transaction [OF message_operations_credit_inv(2) [unfolded messages_for_user_def] assms(2)] le(5)])
  next
    case (SendMessage mid i u content k)
    show ?thesis
      unfolding SendMessage exec_cmd.simps create_message_def
      by (rule credit_inv_later [OF snd_keeps_transaction [OF message_operations_credit_inv(1) [unfolded create_message_def] assms(2)] le(5)])
  next
    case (ReadMessage i mid u)
    show ?thesis
      unfolding ReadMessage exec_cmd.simps mark_message_read_def
      by (rule credit_inv_later [OF snd_keeps_transaction [OF message_operations_credit_inv(3) [unfolded mark_message_read_def] assms(2)] le(5)])
  next
    case (ReadThrough i mid u)
    show ?thesis
      unfolding ReadThrough exec_cmd.simps mark_messages_read_through_def
      by (rule credit_inv_later [OF snd_keeps_transaction [OF message_operations_credit_inv(4) [unfolded mark_messages_read_through_def] assms(2)] le(5)])
  next
    case (Reveal i u consent)
    show ?thesis
      unfolding Reveal exec_cmd.simps record_reveal_def
      by (rule credit_inv_later [OF snd_keeps_transaction [OF record_reveal_credit_inv [unfolded record_reveal_def] assms(2)] le(5)])
  next
    case (EndMatch i u)
    show ?thesis
      unfolding EndMatch exec_cmd.simps record_end_def
      by (rule credit_inv_later [OF snd_keeps_transaction [OF record_end_credit_inv [unfolded record_end_def] assms(2)] le(5)])
  next
    case (MaintenanceBatch skip now limit)
    then show ?thesis
      using valid_transaction [OF run_batch_credit_inv] assms(2)
      by (intro same) (simp add: snd_keeps_transaction)
  next
    case (CompleteReward digest cfg cb)
    have "credit_inv (clk e 0) (exec_cmd e cmd db)"
      using valid_transaction [OF complete_on_credit_inv] now(1)
      by (simp add: CompleteReward reward_complete_def err_def snd_keeps_transaction)
    then show ?thesis
      using credit_inv_later le by blast
  next
    case (RetainReservations skip now limit)
    then show ?thesis
      using valid_transaction [OF retention_reservations_credit_inv] assms(2)
      by (intro same) (simp add: snd_keeps_transaction)
  next
    case (RetainUsage picked now)
    then show ?thesis
      using retention_usage_credit_inv assms(2) by (intro same) simp
  next
    case (BlockUser a b)
    show ?thesis
      unfolding BlockUser exec_cmd.simps pg_block_def
      by (rule credit_inv_later [OF transaction_keeps [OF block_on_credit_inv assms(2)] le(5)])
  next
    case (UnblockUser a b)
    then have "credit_inv t (exec_cmd e cmd db)"
      using assms(2) by (simp add: pg_unblock_def modify_def iffD2 [OF credit_inv_cong])
    then show ?thesis
      by (rule same)
  next
    case (EraseAccount u)
    then show ?thesis
      using anonymize_user_credit_inv assms(2) by (intro same) simp
  qed
qed

lemma reachable_credit_inv: "reachable t db \<Longrightarrow> credit_inv t db"
proof (induction rule: reachable.induct)
  case (start db t)
  then show ?case
    by (simp add: credit_inv_defs used_of_def free_used_of_def balance_of_def held_def
        reserved_count_def match_constants)
next
  case (transact t db e t' cmd)
  then show ?case
    by (intro exec_cmd_credit_inv)
next
  case (other t db db' t')
  then have "credit_inv t db'"
    using credit_inv_cong [of db' db] by (simp add: elsewhere_def)
  then show ?case
    using other credit_inv_later by blast
qed

end
