(* ===== verification/Match_Lifecycle.thy ===== *)
theory Match_Lifecycle
  imports Match_System
begin

text \<open>
  Every transaction of the match component moves each match forward along its life cycle: a
  request never revives or re-opens a match, only creation adds one, and only maintenance removes
  one, when its purge date has passed or when it is a confirmed match past its deadline.
\<close>

section \<open>The agreement\<close>

text \<open>The steps before the confirmation leave the matches as they are.\<close>

abbreviation on_matches :: "(match_row list \<Rightarrow> bool) \<Rightarrow> db \<Rightarrow> bool" where
  "on_matches P db \<equiv> P (match_init db)"

lemma same_books_on_matches: "same_books a b \<Longrightarrow> on_matches P a \<Longrightarrow> on_matches P b"
  by (simp add: same_books_def)

lemma clear_choice_on_matches: "keeps (on_matches P) (clear_choice t i u)"
  unfolding clear_choice_def
  by (intro keeps_intros keeps_same_books [OF set_continued_same_books same_books_on_matches])
     (simp_all add: delete_choice_def expire_choice_notification_def Let_def split: option.split)

lemma notify_waiting_on_matches: "keeps (on_matches P) (notify_waiting e i u a b)"
  by (rule keeps_same_books [OF notify_waiting_same_books same_books_on_matches])

lemma reserve_on_matches: "keeps (on_matches P) (reserve i u now)"
proof (rule validI)
  fix db v db'
  assume "on_matches P db" "reserve i u now db = (Inr v, db')"
  then show "on_matches P db'"
    unfolding reserve_def
    by (auto simp: lift_result_def ok_def map_err_def dest!: bind_op_InrD then_op_InrD
        insert_reservation_OkD(1) split: option.splits prod.splits sum.splits)
qed

lemma withdraw_on_matches: "keeps (on_matches P) (withdraw_and_wait e i user rec h)"
  unfolding withdraw_and_wait_def
  by (intro keeps_intros clear_choice_on_matches notify_waiting_on_matches)

lemma collect_charges_on_matches: "keeps (on_matches P) (collect_charges e i user rec now rs)"
  by (induction rs) (auto intro!: keeps_intros withdraw_on_matches simp: Let_def)

text \<open>What the choice relies on: the match is where \<open>a\<close> had it and still waits.\<close>

definition along :: "db \<Rightarrow> uuid \<Rightarrow> db \<Rightarrow> bool" where
  "along a i db \<longleftrightarrow> lifecycle a db \<and>
     (\<exists>m. find_match db i = Some m \<and> m_status m = AwaitingContinuation)"

lemma keeps_along: "(\<And>ms. keeps (on_matches (\<lambda>x. x = ms)) m) \<Longrightarrow> keeps (along a i) m"
  by (fastforce simp: valid_def along_def lifecycle_def find_match_def)

lemma settle_lifecycle: "valid (along a i) (settle e i u rec now) (\<lambda>_. lifecycle a)"
proof (rule validI)
  fix db v db'
  assume pre: "along a i db" and run: "settle e i u rec now db = (Inr v, db')"
  from run show "lifecycle a db'"
  proof (cases rule: settle_cases)
    case (alone u)
    show ?thesis
      using keeps_apply [OF keeps_along [OF notify_waiting_on_matches] alone(3) pre]
      by (simp add: along_def)
  next
    case withdrawn
    show ?thesis
      using keeps_apply [OF keeps_along [OF collect_charges_on_matches] withdrawn(3) pre]
      by (simp add: along_def)
  next
    case (charged cs)
    obtain m where m: "lifecycle a db" "find_match db i = Some m" "m_status m = AwaitingContinuation"
      using pre by (auto simp: along_def)
    have "lifecycle db (update_match (clk e 6) i confirmed_row db)"
      by (rule lifecycle_update_match) (use m in auto)
    moreover obtain "match_init db' = match_init (update_match (clk e 6) i confirmed_row db)"
      using charged(4) by (rule apply_charges_Ok)
    ultimately show ?thesis
      using lifecycle_trans [OF m(1)] lifecycle_same lifecycle_trans by blast
  qed
qed

lemma make_choice_lifecycle: "valid (along a i) (make_choice e i u rec cost now) (\<lambda>_. lifecycle a)"
proof -
  have stop: "valid (along a i) (ok v) (\<lambda>_. lifecycle a)" for v :: continuation_result
    by (rule valid_ok) (simp add: along_def)
  have cont: "keeps (along a i) (set_continued i u True)"
    by (intro keeps_along keeps_same_books [OF set_continued_same_books same_books_on_matches])
  have clear: "keeps (along a i) (clear_choice (clk e 2) i u)"
    by (intro keeps_along clear_choice_on_matches)
  have go: "valid (along a i) (reserve_and_settle e i u rec now) (\<lambda>_. lifecycle a)"
    unfolding reserve_and_settle_def
    by (intro valid_bind [OF keeps_along [OF reserve_on_matches]] valid_if valid_then [OF cont] settle_lifecycle stop)
  show ?thesis
    unfolding make_choice_def
    by (intro valid_bind [where R = "\<lambda>_. along a i"] keeps_lift_result keeps_gets valid_if
        valid_then [OF clear] stop)
       (auto split: option.splits intro!: go stop valid_then [OF clear])
qed

lemma decide_lifecycle:
  assumes "find_match db i = Some m" "rec = map_match_record m" "m_status m \<in> {Active, AwaitingContinuation, Confirmed}"
    and run: "decide e i u legal cost rec db = (Inr v, db')"
  shows "lifecycle db db'"
proof (cases "m_status m = AwaitingContinuation")
  case False
  then show ?thesis
    using assms by (auto simp: decide_def ok_def split: if_splits)
next
  case True
  then have pre: "along db i db"
    using assms by (simp add: along_def)
  have exp: "lifecycle db (expire_match now i db)" for now
    unfolding expire_match_def lifecycle_delete_reservations
    by (rule lifecycle_update_match) (use assms True in auto)
  have agreed: "lifecycle db db'" if "agree e i u rec cost now db = (Inr v, db')" for now
    using that exp validD [OF make_choice_lifecycle _ pre]
    by (auto simp: agree_def modify_def ok_def dest!: then_op_InrD split: if_splits)
  show ?thesis
    using run True assms(2) agreed keeps_apply [OF keeps_lock_eligible_accounts, where I = "\<lambda>x. x = db"]
    by (fastforce simp: decide_def gets_def ok_def map_err_def
        dest!: then_op_InrD split: if_splits prod.splits sum.splits)
qed

lemma gate_then_lifecycle:
  assumes "bind_op (lock_available_match e i u) f db = (Inr v, db')"
    and "\<And>reason db0. f (Unavailable reason) db0 = (Inr v, db') \<Longrightarrow> db' = db0"
    and "\<And>m db0. find_match db0 i = Some m \<Longrightarrow> m_status m \<in> {Active, AwaitingContinuation, Confirmed} \<Longrightarrow>
           f (Available (map_match_record m)) db0 = (Inr v, db') \<Longrightarrow> lifecycle db0 db'"
  shows "lifecycle db db'"
proof -
  obtain res db0 where gate: "lock_available_match e i u db = (Inr res, db0)"
    and rest: "f res db0 = (Inr v, db')"
    using assms(1) by (auto dest!: bind_op_InrD)
  have out: "gate_outcome (clk e 0) i u db res db0"
    using lock_available_match_outcome [OF gate] by simp
  then have "lifecycle db db0"
    by (rule gate_lifecycle)
  moreover have "lifecycle db0 db'"
  proof (cases res)
    case (Available rec)
    obtain m where "find_match db0 i = Some m" "rec = map_match_record m"
        "m_status m \<in> {Active, AwaitingContinuation, Confirmed}"
      using out unfolding Available by (rule gate_available)
    then show ?thesis
      using assms(3) rest Available by blast
  next
    case (Unavailable reason)
    then show ?thesis
      using assms(2) [of reason db0] rest by simp
  qed
  ultimately show ?thesis
    by (rule lifecycle_trans)
qed

lemma record_continuation_lifecycle:
  "record_continuation e i u legal cost db = (Inr v, db') \<Longrightarrow> lifecycle db db'"
  unfolding record_continuation_def
  by (erule gate_then_lifecycle) (auto simp: ok_def intro: decide_lifecycle)

section \<open>Messages, reveal, end\<close>

lemma gets_lifecycle: "gets f db = (Inr v, db') \<Longrightarrow> lifecycle db db'"
  by (simp add: gets_def)

lemma messages_for_user_lifecycle:
  "messages_for_user e i u limit offset cur db = (Inr v, db') \<Longrightarrow> lifecycle db db'"
  unfolding messages_for_user_def
  by (drule transaction_OkD, erule gate_then_lifecycle) (auto simp: ok_def dest: gets_lifecycle)

lemma mark_message_read_lifecycle:
  "mark_message_read e i mid u db = (Inr v, db') \<Longrightarrow> lifecycle db db'"
  unfolding mark_message_read_def
  by (drule transaction_OkD, erule gate_then_lifecycle)
     (auto simp: ok_def mark_one_read_def Let_def dest!: bind_op_InrD intro: lifecycle_same)

lemma mark_messages_read_through_lifecycle:
  "mark_messages_read_through e i mid u db = (Inr v, db') \<Longrightarrow> lifecycle db db'"
  unfolding mark_messages_read_through_def
  by (drule transaction_OkD, erule gate_then_lifecycle)
     (auto simp: ok_def mark_through_def dest!: bind_op_InrD intro!: lifecycle_same split: option.splits)

lemma announce_message_matches:
  "announce_message e rec m db = (r, db') \<Longrightarrow> match_init db' = match_init db"
  by (simp add: same_but_notificationsD [OF announce_message_frame])

lemma touch_match_lifecycle: "lifecycle db (touch_match t at i db)"
  unfolding touch_match_def by (rule lifecycle_update_match) simp_all

lemma send_available_lifecycle:
  assumes "send_available e rec mid i sender content k db = (Inr v, db')"
  shows "lifecycle db db'"
proof -
  let ?row = "new_message_row e mid i sender content k"
  have stored: "lifecycle db db'" if run: "store_message e rec ?row k db = (Inr v, db')"
  proof -
    obtain ins db1 where ins: "insert_message ?row db = (Inr ins, db1)"
      using run by (auto simp: store_message_def map_err_def dest!: bind_op_InrD
          split: prod.splits sum.splits)
    have one: "match_init db1 = match_init db"
      using insert_message_Ok [OF ins] by auto
    have "lifecycle db1 db'"
      using run ins touch_match_lifecycle [THEN lifecycle_trans, OF lifecycle_same]
      by (auto simp: store_message_def map_err_def gets_def modify_def ok_def
          dest!: then_op_InrD announce_message_matches
          split: prod.splits sum.splits option.splits)
    then show ?thesis
      using lifecycle_trans [OF lifecycle_same [OF one]] by blast
  qed
  then show ?thesis
    using assms by (auto simp: send_available_def gets_def ok_def split: if_splits option.splits)
qed

lemma create_message_lifecycle:
  "create_message e mid i sender content k db = (Inr v, db') \<Longrightarrow> lifecycle db db'"
  unfolding create_message_def
  by (drule transaction_OkD, erule gate_then_lifecycle)
     (auto simp: ok_def dest: send_available_lifecycle)

lemma set_revealed_matches: "set_revealed i u b db = (Inr v, db') \<Longrightarrow> match_init db' = match_init db"
  using keeps_apply [OF set_revealed_same_books, of i u b db v db' db] by (simp add: same_books_def)

lemma forwards_same_keys:
  "m_id m' = m_id m \<Longrightarrow> user1_id m' = user1_id m \<Longrightarrow> user2_id m' = user2_id m \<Longrightarrow>
   m_status m' = m_status m \<Longrightarrow> forwards m m'"
  by (simp add: forwards_def)

lemma bump_reveal_lifecycle: "lifecycle db (bump_reveal_version i db)"
  unfolding bump_reveal_version_def upd_where_def
  by (rule lifecycle_map_matches) (simp add: forwards_same_keys)

lemma announce_reveal_lifecycle:
  assumes "announce_reveal e i rec db = (Inr v, db')"
  shows "lifecycle db db'"
proof -
  have "match_init db' = match_init (bump_reveal_version i db)"
    using assms
    by (auto simp: announce_reveal_def modify_def gets_def map_err_def
        dest!: then_op_InrD bind_op_InrD enqueue_notification_frame same_but_notificationsD(1)
        split: prod.splits sum.splits)
  then show ?thesis
    using lifecycle_trans [OF bump_reveal_lifecycle lifecycle_same] by blast
qed

lemma reveal_available_lifecycle:
  assumes "reveal_available e i u consent rec db = (Inr v, db')"
  shows "lifecycle db db'"
proof -
  obtain upd now_rev db1 where one: "set_revealed i u (is_granted consent) db = (Inr (upd, now_rev), db1)"
    and rest: "db' = db1 \<or> (\<exists>x. announce_reveal e i rec db1 = (Inr x, db'))"
    using assms
    by (auto simp: reveal_available_def gets_def err_def ok_def map_err_def
        dest!: bind_op_InrD then_op_InrD split: if_splits prod.splits sum.splits)
  then show ?thesis
    using lifecycle_same [OF set_revealed_matches [OF one]] announce_reveal_lifecycle lifecycle_trans
    by blast
qed

lemma record_reveal_lifecycle: "record_reveal e i u consent db = (Inr v, db') \<Longrightarrow> lifecycle db db'"
  unfolding record_reveal_def
  by (drule transaction_OkD, erule gate_then_lifecycle)
     (auto simp: ok_def dest: reveal_available_lifecycle)

lemma status_reaches_end: "status_reaches s Ended"
  by (cases s) auto

lemma record_end_lifecycle: "record_end e i u db = (Inr v, db') \<Longrightarrow> lifecycle db db'"
  unfolding record_end_def
  by (drule transaction_OkD)
     (auto simp: Let_def split: option.splits if_splits
       intro!: lifecycle_update_match status_reaches_end)

section \<open>Maintenance\<close>

text \<open>What a batch at \<open>now\<close> may erase: a match past its purge date, or a confirmed match past its
  deadline, which the same batch closes first.\<close>

definition dead_at :: "instant \<Rightarrow> match_row \<Rightarrow> bool" where
  "dead_at now m \<longleftrightarrow> purge_due now m \<or> m_status m = Confirmed \<and> m_expires_at m \<le> now"

definition batch_moves :: "instant \<Rightarrow> match_row \<Rightarrow> match_row \<Rightarrow> bool" where
  "batch_moves now m m' \<longleftrightarrow> forwards m m' \<and> (dead_at now m' \<longrightarrow> dead_at now m)"

definition batch_at :: "instant \<Rightarrow> match_row option \<Rightarrow> match_row option \<Rightarrow> bool" where
  "batch_at now x y =
     (case y of
        Some m' \<Rightarrow> (\<exists>m. x = Some m \<and> batch_moves now m m')
      | None \<Rightarrow> (\<forall>m. x = Some m \<longrightarrow> dead_at now m))"

definition batch_lifecycle :: "instant \<Rightarrow> db \<Rightarrow> db \<Rightarrow> bool" where
  "batch_lifecycle now a b \<longleftrightarrow>
     distinct (map m_id (match_init b)) \<and>
     (\<forall>i. batch_at now (find_match a i) (find_match b i))"

lemma batch_moves_trans: "batch_moves now a b \<Longrightarrow> batch_moves now b c \<Longrightarrow> batch_moves now a c"
  by (auto simp: batch_moves_def forwards_def)

lemma batch_lifecycle_refl:
  "distinct (map m_id (match_init a)) \<Longrightarrow> batch_lifecycle now a a"
  by (simp add: batch_lifecycle_def batch_at_def batch_moves_def split: option.split)

lemma batch_lifecycle_same_books:
  "same_books b c \<Longrightarrow> batch_lifecycle now a b \<Longrightarrow> batch_lifecycle now a c"
  by (simp add: batch_lifecycle_def same_books_def find_match_def)

lemma batch_lifecycle_map:
  assumes "batch_lifecycle now a db"
    and "\<And>m. m \<in> set (match_init db) \<Longrightarrow> batch_moves now m (g m)"
  shows "batch_lifecycle now a (db\<lparr>match_init := map g (match_init db)\<rparr>)" (is "batch_lifecycle _ _ ?db")
proof -
  have ids: "m_id (g m) = m_id m" if "m \<in> set (match_init db)" for m
    using assms(2) [OF that] by (simp add: batch_moves_def forwards_def)
  have look: "find_match ?db i = map_option g (find_match db i)" for i
    by (rule find_match_map [OF ids])
  have keys: "map m_id (match_init ?db) = map m_id (match_init db)"
    using ids by simp
  have "distinct (map m_id (match_init ?db))"
    unfolding keys using assms(1) by (simp add: batch_lifecycle_def)
  moreover have "batch_at now (find_match a i) (find_match ?db i)" for i
  proof -
    have old: "batch_at now (find_match a i) (find_match db i)"
      using assms(1) unfolding batch_lifecycle_def by blast
    show ?thesis
    proof (cases "find_match db i")
      case None
      then show ?thesis
        using old unfolding look by simp
    next
      case (Some m)
      then have "batch_moves now m (g m)"
        using assms(2) find_matchD by blast
      then show ?thesis
        using old Some batch_moves_trans unfolding look by (fastforce simp: batch_at_def)
    qed
  qed
  ultimately show ?thesis
    by (simp add: batch_lifecycle_def)
qed

lemma due_matches_row:
  assumes "distinct (map m_id (match_init db))" "m \<in> set (match_init db)"
    "m_id m \<in> set (map m_id (due_matches skip P limit db))"
  shows "P m"
proof -
  obtain m' where m': "m' \<in> set (match_init db)" "P m'" "m_id m' = m_id m"
    using assms(3) by (auto dest: due_matchesD)
  then show ?thesis
    using assms(1,2) by (auto simp: distinct_map dest: inj_onD)
qed

lemma move_due_batch:
  assumes "\<And>m. P m \<Longrightarrow> batch_moves now m (f m) \<and> m_status (f m) \<noteq> Confirmed"
  shows "keeps (batch_lifecycle now a) (move_due skip P f now limit)"
proof (rule validI)
  fix db v db'
  assume inv: "batch_lifecycle now a db" and run: "move_due skip P f now limit db = (Inr v, db')"
  have "batch_moves now m (if m_id m \<in> set (map m_id (due_matches skip P limit db))
      then track_match_inactivity now m (f m) else m)" if "m \<in> set (match_init db)" for m
    using assms [of m] due_matches_row [OF _ that, of skip P limit] inv
    by (auto simp: batch_lifecycle_def batch_moves_def)
  then show "batch_lifecycle now a db'"
    using batch_lifecycle_map [OF inv] run by (auto simp: move_due_map)
qed

lemma windows_batch:
  assumes "now < purge"
  shows "keeps (batch_lifecycle now a) (open_continuation_windows skip now limit)"
    and "keeps (batch_lifecycle now a) (expire_continuation_windows skip now purge limit)"
    and "keeps (batch_lifecycle now a) (close_inactive_matches skip now limit)"
  unfolding open_continuation_windows_def expire_continuation_windows_def close_inactive_matches_def
  by (rule move_due_batch; use assms in \<open>auto simp: batch_moves_def dead_at_def purge_due_def\<close>)+

lemma purge_batch: "keeps (batch_lifecycle now a) (purge_expired_matches skip now limit)"
proof (rule validI)
  fix db v db'
  assume inv: "batch_lifecycle now a db" and run: "purge_expired_matches skip now limit db = (Inr v, db')"
  define ms where "ms = order_limit (\<lambda>m. (purge_after m, m_id m)) limit
    (filter (\<lambda>m. purge_due now m \<and> childless db m \<and> \<not> skip (m_id m)) (match_init db))"
  have db': "db' = cascade_delete_matches (map m_id ms) db"
    using run by (simp add: purge_expired_matches_def ms_def Let_def)
  have ms: "m \<in> set (match_init db) \<and> purge_due now m" if "m \<in> set ms" for m
    using that by (auto simp: ms_def dest!: set_order_limit_subset [THEN subsetD])
  have dead: "dead_at now m" if "find_match db i = Some m" "i \<in> m_id ` set ms" for i m
  proof -
    obtain m' where "m' \<in> set ms" "m_id m' = m_id m"
      using \<open>i \<in> m_id ` set ms\<close> find_matchD [OF \<open>find_match db i = Some m\<close>] by auto
    moreover from this have "m' = m"
      using ms inv find_matchD [OF \<open>find_match db i = Some m\<close>]
      by (auto simp: batch_lifecycle_def distinct_map dest: inj_onD)
    ultimately show ?thesis
      using ms by (simp add: dead_at_def)
  qed
  have "distinct (map m_id (match_init db'))"
    using inv by (simp add: db' cascade_delete_matches_def batch_lifecycle_def distinct_map_del_where)
  moreover have "batch_at now (find_match a i) (find_match db' i)" for i
  proof -
    have old: "batch_at now (find_match a i) (find_match db i)"
      using inv unfolding batch_lifecycle_def by blast
    then show ?thesis
      using dead [of i] unfolding db' find_match_cascade
      by (cases "find_match db i") (auto simp: batch_at_def batch_moves_def)
  qed
  ultimately show "batch_lifecycle now a db'"
    by (simp add: batch_lifecycle_def)
qed

lemma run_batch_lifecycle: "keeps (batch_lifecycle now a) (run_batch e skip now limit)"
proof (cases "checked_add_signed now (days MATCH_PURGE_DAYS)")
  case None
  then show ?thesis
    by (simp add: run_batch_def keeps_err)
next
  case (Some purge)
  then have "now < purge"
    by (auto simp: checked_add_signed_def match_constants time_simps split: if_splits)
  note windows = windows_batch [OF this]
  note books = notify_due_same_books erasure_same_books
  show ?thesis
    unfolding run_batch_def Some option.case enqueue_first_period_reminders_def enqueue_warnings_def
    by (intro keeps_intros windows purge_batch
        books [THEN keeps_same_books, OF batch_lifecycle_same_books])
qed

section \<open>Creation\<close>

lemma create_Ok:
  assumes "create e r db = (Inr v, db')"
  shows "match_init db' = match_init db @ [track_inserted (clk e 0) (match_row_of r)]"
    and "live_account db (user1_id r)" "live_account db (user2_id r)"
    and "\<not> blocked_pair db (user1_id r) (user2_id r)" "user1_id r < user2_id r"
    and "\<forall>m \<in> set (match_init db). m_id m \<noteq> m_id r \<and>
           \<not> (user1_id m = user1_id r \<and> user2_id m = user2_id r)"
proof -
  obtain n db1 where ins: "insert_match e r db = (Inr n, db1)" and n: "n = 1"
    and rest: "(then_op (map_err Database (insert_match_states (m_id r) (user1_id r) (user2_id r)))
       (announce_match e r)) db1 = (Inr v, db')"
    using assms
    by (auto simp: create_def create_body_def gets_def err_def map_err_def
        dest!: transaction_OkD bind_op_InrD split: if_splits prod.splits sum.splits)
  have kept: "keeps (same_books db1) (then_op
      (map_err Database (insert_match_states (m_id r) (user1_id r) (user2_id r))) (announce_match e r))"
    by (intro keeps_intros insert_match_states_same_books announce_match_same_books)
  have "match_init db' = match_init db1"
    using keeps_apply [OF kept rest] by (simp add: same_books_def)
  then show "match_init db' = match_init db @ [track_inserted (clk e 0) (match_row_of r)]"
    and "live_account db (user1_id r)" "live_account db (user2_id r)"
    and "\<not> blocked_pair db (user1_id r) (user2_id r)" "user1_id r < user2_id r"
    and "\<forall>m \<in> set (match_init db). m_id m \<noteq> m_id r \<and>
           \<not> (user1_id m = user1_id r \<and> user2_id m = user2_id r)"
    using insert_match_Ok [OF ins] n by auto
qed

text \<open>The three outcomes of a mutual like: refused, answered with the match the pair has, or created.\<close>

lemma mutual_like_cases:
  assumes "create_from_mutual_like fmt e i now now' a t db = (res, db', evs)"
  defines "r \<equiv> new_match_record i a t now"
  shows "(\<exists>er. res = Inl er \<and> db' = db \<and> evs = []) \<or>
    (\<exists>old. res = Inr (from_record_at fmt old now') \<and> find_by_pair db (user1_id r) (user2_id r) = Some old \<and>
       db' = db \<and> evs = []) \<or>
    (res = Inr (from_record_at fmt r now) \<and> create e r db = (Inr (), db') \<and>
       evs = [EvCreated (from_record_at fmt r now)])"
proof (cases "create e r db")
  case (Pair cr db1)
  have "db1 = db" if "cr = Inl er" for er
    using Pair that by (auto simp: create_def dest: transaction_rolls_back)
  then show ?thesis
    using assms(1) Pair
    by (auto simp: create_from_mutual_like_def r_def [symmetric] Let_def split: if_splits sum.splits option.splits)
qed

section \<open>Every transaction\<close>

fun creates :: "match_command \<Rightarrow> bool" where
  "creates (CreateMatch new_id first second now) = True"
| "creates _ = False"

fun erases :: "match_command \<Rightarrow> match_row \<Rightarrow> bool" where
  "erases (MaintenanceBatch skip now limit) m = dead_at now m"
| "erases _ m = False"

text \<open>One step of the life cycle under a command.\<close>

definition life_at :: "match_command \<Rightarrow> match_row option \<Rightarrow> match_row option \<Rightarrow> bool" where
  "life_at cmd x y =
     (case (x, y) of
        (Some m, Some m') \<Rightarrow> status_reaches (m_status m) (m_status m') \<and>
           user1_id m' = user1_id m \<and> user2_id m' = user2_id m
      | (Some m, None) \<Rightarrow> erases cmd m
      | (None, Some m') \<Rightarrow> creates cmd \<and> m_status m' = Active
      | (None, None) \<Rightarrow> True)"

definition life_step :: "match_command \<Rightarrow> db \<Rightarrow> db \<Rightarrow> bool" where
  "life_step cmd a b \<longleftrightarrow> (\<forall>i. life_at cmd (find_match a i) (find_match b i))"

lemma lifecycle_life_step: "lifecycle a b \<Longrightarrow> life_step cmd a b"
  unfolding lifecycle_def life_step_def
  by (erule all_forward) (auto simp: life_at_def elim!: option.rel_cases)

lemma batch_life_step: "batch_lifecycle now a b \<Longrightarrow> life_step (MaintenanceBatch skip now limit) a b"
  unfolding batch_lifecycle_def life_step_def
  by (elim conjE, erule all_forward)
     (auto simp: batch_at_def life_at_def batch_moves_def forwards_def split: option.splits)

lemma transaction_life:
  assumes "f = transaction m" and "\<And>v db'. f db = (Inr v, db') \<Longrightarrow> lifecycle db db'"
  shows "life_step cmd db (snd (f db))"
  using assms by (intro lifecycle_life_step) (auto simp: transaction_def split: prod.splits sum.splits)

lemma create_life_step:
  "life_step (CreateMatch new_id first second now) db
     (snd (create e (new_match_record new_id first second now) db))"
proof (cases "create e (new_match_record new_id first second now) db")
  case (Pair r db')
  let ?new = "new_match_record new_id first second now"
  show ?thesis
  proof (cases r)
    case (Inl er)
    then have "db' = db"
      using Pair by (auto simp: create_def transaction_def split: prod.splits sum.splits)
    then show ?thesis
      using Pair lifecycle_life_step by simp
  next
    case (Inr v)
    have "match_init db' = match_init db @ [track_inserted (clk e 0) (match_row_of ?new)]"
      using create_Ok(1) Pair Inr by simp
    then have "find_match db' j = find_match (db\<lparr>match_init := match_init db @
        [track_inserted (clk e 0) (match_row_of ?new)]\<rparr>) j" for j
      by (simp add: find_match_def)
    moreover have "m_status (track_inserted (clk e 0) (match_row_of ?new)) = Active"
      unfolding track_inserted_simps(4) by (simp add: new_match_record_def)
    ultimately show ?thesis
      using Pair
      by (simp add: life_step_def life_at_def find_match_append del: track_inserted_simps
          split: option.split)
  qed
qed

lemma complete_on_on_matches: "keeps (on_matches P) (complete_on digest e cb)"
proof -
  have fin: "keeps (on_matches P) (finish_intent i now hash cur)" for i now hash cur
    by (rule keeps_same_books [OF finish_intent_same_books same_books_on_matches])
  have grant: "keeps (on_matches P) (grant_advertising_credit u now)" for u now
    by (rule validI) (auto simp: grant_advertising_credit_def Let_def split: if_splits option.splits)
  have credit: "keeps (on_matches P) (credit_intent e cb hash r event)" for hash r event
    unfolding credit_intent_def Let_def by (intro keeps_intros fin grant)
  show ?thesis
    unfolding complete_on_def Let_def
    by (intro keeps_bind keeps_gets)
       (auto split: option.splits intro!: keeps_intros keeps_lock_eligible_accounts credit)
qed

lemma end_pair_lifecycle: "match_init db0 = match_init db \<Longrightarrow> lifecycle db (end_pair t a b db0)"
  unfolding end_pair_def upd_where_def
  by (rule lifecycle_trans [OF lifecycle_same lifecycle_map_matches])
     (simp_all add: forwards_def status_reaches_end)

lemma pg_block_lifecycle: "pg_block e a b db = (Inr v, db') \<Longrightarrow> lifecycle db db'"
  unfolding pg_block_def block_on_def
  by (drule transaction_OkD)
     (auto simp: gets_def ok_def modify_def insert_block_def require_live_account_def
       dest!: then_op_InrD split: if_splits
       intro!: end_pair_lifecycle)

lemma anonymize_user_lifecycle: "lifecycle db (anonymize_user t u db)"
proof -
  let ?ending = "\<lambda>m. if participant m u \<and> live_status (m_status m) then erased_match t m else m"
  have "lifecycle db (db\<lparr>match_init := map ?ending (match_init db)\<rparr>)"
    by (rule lifecycle_map_matches) (simp add: forwards_def status_reaches_end)
  then show ?thesis
    by (rule lifecycle_trans) (simp add: lifecycle_same anonymize_user_def)
qed

lemma exec_cmd_life_step:
  assumes "keys_ok db"
  shows "life_step cmd db (exec_cmd e cmd db)"
proof (cases cmd)
  case (CreateMatch new_id first second now)
  then show ?thesis
    using create_life_step by simp
next
  case (Continue i u legal cost)
  have "lifecycle db db'" if "pg_record_continuation e i u legal cost db = (Inr v, db')" for v db'
    using that record_continuation_lifecycle unfolding pg_record_continuation_def
    by (blast dest: transaction_OkD)
  then show ?thesis
    unfolding Continue exec_cmd.simps by (rule transaction_life [OF pg_record_continuation_def])
next
  case (ListMessages i u limit offset cur)
  show ?thesis
    unfolding ListMessages exec_cmd.simps
    by (rule transaction_life [OF messages_for_user_def messages_for_user_lifecycle])
next
  case (SendMessage mid i u content k)
  show ?thesis
    unfolding SendMessage exec_cmd.simps
    by (rule transaction_life [OF create_message_def create_message_lifecycle])
next
  case (ReadMessage i mid u)
  show ?thesis
    unfolding ReadMessage exec_cmd.simps
    by (rule transaction_life [OF mark_message_read_def mark_message_read_lifecycle])
next
  case (ReadThrough i mid u)
  show ?thesis
    unfolding ReadThrough exec_cmd.simps
    by (rule transaction_life [OF mark_messages_read_through_def mark_messages_read_through_lifecycle])
next
  case (Reveal i u consent)
  show ?thesis
    unfolding Reveal exec_cmd.simps
    by (rule transaction_life [OF record_reveal_def record_reveal_lifecycle])
next
  case (EndMatch i u)
  show ?thesis
    unfolding EndMatch exec_cmd.simps
    by (rule transaction_life [OF record_end_def record_end_lifecycle])
next
  case (MaintenanceBatch skip now limit)
  have "batch_lifecycle now db db"
    using assms by (intro batch_lifecycle_refl) (simp add: keys_ok_def)
  note kept = transaction_keeps [OF run_batch_lifecycle [of now db e skip limit] this]
  show ?thesis
    unfolding MaintenanceBatch exec_cmd.simps by (rule batch_life_step [OF kept])
next
  case (CompleteReward digest cfg cb)
  have "match_init (snd (reward_complete digest cfg e cb db)) = match_init db"
    using transaction_keeps [OF complete_on_on_matches [of "\<lambda>x. x = match_init db" digest e cb], of db]
    by (simp add: reward_complete_def err_def)
  then show ?thesis
    unfolding CompleteReward exec_cmd.simps by (intro lifecycle_life_step lifecycle_same)
next
  case (RetainReservations skip now limit)
  have "match_init (snd (transaction (retention_reservations skip now limit) db)) = match_init db"
    by (simp add: transaction_def retention_reservations_def Let_def)
  then show ?thesis
    unfolding RetainReservations exec_cmd.simps by (intro lifecycle_life_step lifecycle_same)
next
  case (RetainUsage picked now)
  have "match_init (retention_usage picked now db) = match_init db"
    by (simp add: retention_usage_def)
  then show ?thesis
    unfolding RetainUsage exec_cmd.simps by (intro lifecycle_life_step lifecycle_same)
next
  case (BlockUser a b)
  show ?thesis
    unfolding BlockUser exec_cmd.simps by (rule transaction_life [OF pg_block_def pg_block_lifecycle])
next
  case (UnblockUser a b)
  have "match_init (snd (pg_unblock a b db)) = match_init db"
    by (simp add: pg_unblock_def modify_def)
  then show ?thesis
    unfolding UnblockUser exec_cmd.simps by (intro lifecycle_life_step lifecycle_same)
next
  case (EraseAccount u)
  show ?thesis
    unfolding EraseAccount exec_cmd.simps by (intro lifecycle_life_step anonymize_user_lifecycle)
qed

end
