(* ===== verification/Match_Gate.thy ===== *)
theory Match_Gate
  imports Match_Access
begin

text \<open>
  The gate of \<^verbatim>\<open>src/matches/pg/access.rs\<close> against a timed view of a match.  A stored row stands for a
  state at every instant: an active match turns into one that waits for the two answers when its
  first deadline passes and expires a day later, a confirmed one ends at its deadline.  The rows
  are brought up to date lazily, by whichever request comes first; the view says what they stand
  for, whether or not they have been.
\<close>

section \<open>The state a row stands for\<close>

fun status_at :: "instant \<Rightarrow> match_row \<Rightarrow> match_status" where
  "status_at t m =
     (case m_status m of
        Active \<Rightarrow>
          if t < m_expires_at m then Active
          else if t < m_expires_at m + hours 24 then AwaitingContinuation else Expired
      | AwaitingContinuation \<Rightarrow> if t < m_expires_at m then AwaitingContinuation else Expired
      | Confirmed \<Rightarrow> if t < m_expires_at m then Confirmed else Ended
      | Expired \<Rightarrow> Expired
      | Ended \<Rightarrow> Ended)"

declare status_at.simps [simp del]

definition deadline_at :: "instant \<Rightarrow> match_row \<Rightarrow> instant" where
  "deadline_at t m =
     (if m_status m = Active \<and> m_expires_at m \<le> t then m_expires_at m + hours 24 else m_expires_at m)"

definition open_at :: "instant \<Rightarrow> match_row \<Rightarrow> bool" where
  "open_at t m \<longleftrightarrow> status_at t m \<in> {Active, AwaitingContinuation, Confirmed}"

text \<open>What can be seen of a match at \<open>t\<close>: its state, its deadline while it is open, its
  participants and its last message.\<close>

definition view_at :: "instant \<Rightarrow> match_row \<Rightarrow> match_status \<times> instant option \<times> uuid \<times> uuid \<times> instant option" where
  "view_at t m =
     (status_at t m, if open_at t m then Some (deadline_at t m) else None,
      user1_id m, user2_id m, last_message_at m)"

lemmas view_defs = view_at_def open_at_def deadline_at_def status_at.simps

lemma open_at_deadline: "open_at t m \<Longrightarrow> t < deadline_at t m"
  by (cases "m_status m") (auto simp: open_at_def deadline_at_def status_at.simps split: if_splits)

text \<open>The view moves along the life cycle as time passes.\<close>

lemma status_at_reaches: "m_status m = s \<Longrightarrow> status_reaches s (status_at t m)"
proof -
  have two: "status_reaches Active Expired"
    by (rule rtranclp_trans [of _ _ AwaitingContinuation]) auto
  show "m_status m = s \<Longrightarrow> status_reaches s (status_at t m)"
    by (cases s) (auto simp: status_at.simps two)
qed

section \<open>The rows the gate writes\<close>

text \<open>A row brought up to date at \<open>now\<close> is seen as before at every instant from \<open>now\<close> on.\<close>

lemma view_open_window:
  "m_status m = Active \<Longrightarrow> m_expires_at m \<le> now \<Longrightarrow> now \<le> t \<Longrightarrow> view_at t (open_window_row m) = view_at t m"
  by (auto simp: view_defs open_window_row_def)

lemma view_expired:
  assumes "status_at now m = Expired" "now \<le> t" "m_status m' = Expired"
    "user1_id m' = user1_id m" "user2_id m' = user2_id m" "last_message_at m' = last_message_at m"
  shows "view_at t m' = view_at t m"
proof -
  have "status_at t m = Expired"
    using assms(1,2) by (cases "m_status m") (auto simp: status_at.simps split: if_splits)
  then show ?thesis
    using assms(3-) by (simp add: view_at_def open_at_def status_at.simps)
qed

lemma view_ended:
  assumes "m_status m = Confirmed" "m_expires_at m \<le> t" "m_status m' = Ended"
    "user1_id m' = user1_id m" "user2_id m' = user2_id m" "last_message_at m' = last_message_at m"
  shows "view_at t m' = view_at t m"
  using assms by (simp add: view_at_def open_at_def status_at.simps)

abbreviation same_view :: "instant \<Rightarrow> db \<Rightarrow> db \<Rightarrow> bool" where
  "same_view t a b \<equiv> (\<forall>j. map_option (view_at t) (find_match b j) = map_option (view_at t) (find_match a j))"

lemma same_view_update:
  assumes "\<And>m. m_id (f m) = m_id m" "find_match db i = Some m"
    and "view_at t (track_match_inactivity now m (f m)) = view_at t m"
  shows "same_view t db (update_match now i f db)"
proof
  fix j
  show "map_option (view_at t) (find_match (update_match now i f db) j) = map_option (view_at t) (find_match db j)"
    using assms by (cases "j = i") (simp_all add: find_match_update_same find_match_update_other)
qed

lemma gate_same_view:
  assumes "gate_outcome now i u db res db'" "now \<le> t"
  shows "same_view t db db'"
  using assms(1)
proof (cases rule: gate_outcome.cases)
  case (gate_closed m)
  then show ?thesis
    unfolding gate_closed(2) close_confirmed_def
    by (intro same_view_update [where m = m] view_ended) (use assms(2) in \<open>auto dest: visible_matchD\<close>)
next
  case (gate_opened m)
  then show ?thesis
    unfolding gate_opened(2)
    by (intro same_view_update [where m = m])
       (use assms(2) view_open_window [of m now t] in \<open>auto dest: visible_matchD\<close>)
next
  case (gate_expired m)
  then show ?thesis
    unfolding gate_expired(2) expire_match_def find_match_delete_reservations
    by (intro same_view_update [where m = m] view_expired [of now])
       (use assms(2) in \<open>auto dest: visible_matchD simp: status_at.simps\<close>)
next
  case (gate_lapsed m)
  have find: "find_match db i = Some m"
    using gate_lapsed by (auto dest: visible_matchD)
  have "same_view t db (update_match now i open_window_row db)"
    by (rule same_view_update [OF _ find])
       (use gate_lapsed assms(2) view_open_window [of m now t] in \<open>auto simp: time_simps\<close>)
  moreover have "same_view t (update_match now i open_window_row db)
      (expire_match now i (update_match now i open_window_row db))"
    unfolding expire_match_def find_match_delete_reservations
    by (intro same_view_update [where m = "open_window_row m"] view_expired [of now])
       (use gate_lapsed assms(2) find in \<open>auto simp: find_match_update_same status_at.simps\<close>)
  ultimately show ?thesis
    unfolding gate_lapsed(2) by simp
qed auto

section \<open>The answer\<close>

text \<open>Who may enter a match, on the tables.\<close>

definition may_enter :: "db \<Rightarrow> match_row \<Rightarrow> uuid \<Rightarrow> bool" where
  "may_enter db m u \<longleftrightarrow>
     u \<in> {user1_id m, user2_id m} \<and>
     (user1_id m, user2_id m) \<notin> set (user_block db) \<and> (user2_id m, user1_id m) \<notin> set (user_block db) \<and>
     (\<forall>p \<in> {user1_id m, user2_id m}. \<forall>a. user_account db p = Some a \<longrightarrow> deleted_at a = None)"

lemma visible_match_may_enter:
  "visible_match db i u = Some m \<longleftrightarrow> find_match db i = Some m \<and> may_enter db m u"
  "visible_match db i u = None \<longleftrightarrow> (\<forall>m. find_match db i = Some m \<longrightarrow> \<not> may_enter db m u)"
  by (auto simp: visible_match_def may_enter_def participant_def blocked_pair_def is_deleted_def
      split: option.splits)

definition answer_at :: "instant \<Rightarrow> db \<Rightarrow> uuid \<Rightarrow> uuid \<Rightarrow> match_record match_command_result" where
  "answer_at now db i u =
     (case find_match db i of
        None \<Rightarrow> Unavailable NotFound
      | Some m \<Rightarrow>
          if \<not> may_enter db m u then Unavailable NotFound
          else if open_at now m
          then Available (map_match_record (m\<lparr>m_status := status_at now m, m_expires_at := deadline_at now m\<rparr>))
          else if m_status m \<in> {Expired, Ended} then Unavailable InvalidState
          else Unavailable AvailExpired)"

lemma gate_answer:
  assumes "gate_outcome now i u db res db'"
  shows "res = answer_at now db i u"
  using assms
proof (cases rule: gate_outcome.cases)
  case gate_missing
  then show ?thesis
    by (auto simp: visible_match_may_enter answer_at_def split: option.splits)
next
  case (gate_live m)
  then show ?thesis
    by (cases "m_status m")
       (auto simp: visible_match_may_enter answer_at_def view_defs map_match_record_def)
next
  case (gate_opened m)
  then show ?thesis
    by (auto simp: visible_match_may_enter answer_at_def view_defs open_window_row_def)
next
  case (gate_lapsed m)
  then show ?thesis
    by (auto simp: visible_match_may_enter answer_at_def view_defs time_simps)
qed (auto simp: visible_match_may_enter answer_at_def view_defs)

text \<open>What the lazy writes leave behind: a match that expired is kept thirty days, one that ended is
  due at once, and the reservations of an expired match are released, no others.\<close>

lemma gate_purge:
  assumes "gate_outcome now i u db res db'" "find_match db i = Some m" "find_match db' i = Some m'"
    "m_status m' \<noteq> m_status m"
  shows "purge_after m' =
    (if m_status m' = Expired then Some (now + days 30) else if m_status m' = Ended then Some now
     else purge_after m)"
  using assms
  by (cases rule: gate_outcome.cases)
     (auto simp: close_confirmed_def expire_match_def find_match_update_same match_constants
       open_window_row_def dest: visible_matchD)

lemma gate_reservations:
  assumes "gate_outcome now i u db res db'"
  shows "r \<in> set (continuation_reservation db') \<longleftrightarrow> r \<in> set (continuation_reservation db) \<and>
    \<not> (r_match r = i \<and> (\<exists>m. find_match db i = Some m \<and> may_enter db m u \<and>
          m_status m \<noteq> Expired \<and> status_at now m = Expired))"
  using assms
proof (cases rule: gate_outcome.cases)
  case (gate_lapsed m)
  then show ?thesis
    by (auto simp: visible_match_may_enter expire_match_def delete_reservations_def status_at.simps time_simps)
qed (auto simp: visible_match_may_enter close_confirmed_def expire_match_def delete_reservations_def
     status_at.simps split: if_splits match_status.splits)

end
