(* ===== verification/Samples.thy ===== *)
theory Samples
  imports Database
begin

text \<open>
  A small concrete database and a clock, for the instances of the theorems: two users (1 and 2),
  the two subscription plans, and one match (10) in a given state.
\<close>

definition sample_env :: "instant \<Rightarrow> env" where
  "sample_env t =
     \<lparr>tx_now = t, clk = (\<lambda>k. t + int (min k 20)), new_v4 = (\<lambda>k. 1000 + of_nat k),
      uuid_generate_v4 = (\<lambda>i j. 2000 + of_nat (100 * i + j)),
      sha256_hex = (\<lambda>ty s u. if u = 1 then ''first'' else ''second'')\<rparr>"

definition sample_account :: account where
  "sample_account =
     \<lparr>acc_role = ''user'', is_banned = False, deleted_at = None, discovery_paused = False,
      is_review_account = False, preferred_language = ''fr'', acc_created_at = 0\<rparr>"

definition sample_empty :: db where
  "sample_empty =
     \<lparr>user_account = [1 \<mapsto> sample_account, 2 \<mapsto> sample_account], user_consent = [],
      user_block = [], user_photo = [], approved_photo = [], user_report = [], match_init = [],
      match_state = [], chat_message = [], continuation_usage = Map.empty,
      continuation_wallet = Map.empty, continuation_reservation = [],
      advertising_reward_intent = [], subscription_plan = [''free'' \<mapsto> Some 2, ''premium'' \<mapsto> None],
      user_subscription = Map.empty, billing_store_subscription = [],
      complimentary_premium_grant = Map.empty, billing_invoice = [],
      data_subject_request = Map.empty, device_token = [], refresh_token_family = [],
      user_notification_preference = Map.empty, match_notification_preference = Map.empty,
      notification = [], notification_push_delivery = [], outbox_event = []\<rparr>"

definition sample_match :: "match_status \<Rightarrow> instant \<Rightarrow> match_row" where
  "sample_match s t =
     \<lparr>m_id = 10, user1_id = 1, user2_id = 2, m_status = s, m_expires_at = t, purge_after = None,
      continuation_initiator_id = None, m_created_at = 0, last_message_at = None,
      photo_reveal_version = 0\<rparr>"

definition sample_db :: "match_status \<Rightarrow> instant \<Rightarrow> db" where
  "sample_db s t =
     sample_empty\<lparr>match_init := [sample_match s t],
       match_state := [\<lparr>ms_match = 10, ms_user = 1, revealed = False, continued = False\<rparr>,
                       \<lparr>ms_match = 10, ms_user = 2, revealed = False, continued = False\<rparr>]\<rparr>"

text \<open>The first participant has already agreed, with a free credit of the week.\<close>

definition sample_agreed :: db where
  "sample_agreed =
     (sample_db AwaitingContinuation 1000)\<lparr>continuation_reservation :=
        [\<lparr>r_match = 10, r_user = 1, r_source = Free, r_week = - 3\<rparr>]\<rparr>"

lemma sample_clock [simp]: "s \<le> t \<Longrightarrow> clock_from s (sample_env t)"
  by (auto simp: clock_from_def sample_env_def mono_def)

lemmas sample_defs = sample_env_def sample_account_def sample_empty_def sample_match_def
  sample_db_def sample_agreed_def

end
