(* ===== verification/Match_Properties.thy ===== *)
theory Match_Properties
  imports Match_Lifecycle Match_Gate Continuation_Confirm Samples
begin

text \<open>
  The properties of the agreement to continue, of the credit books over every reachable state, of
  the life cycle and of the gate.
\<close>

section \<open>The agreement and its credits\<close>

lemma sample_agreed_credit_inv: "credit_inv 0 sample_agreed"
proof -
  have live: "live_reservation sample_agreed t \<lparr>r_match = 10, r_user = 1, r_source = Free, r_week = - 3\<rparr> =
      (t < 1000)" for t
    by (simp add: live_reservation_def find_match_def sample_defs)
  have res: "continuation_reservation sample_agreed =
      [\<lparr>r_match = 10, r_user = 1, r_source = Free, r_week = - 3\<rparr>]"
    "continuation_usage sample_agreed = Map.empty" "continuation_wallet sample_agreed = Map.empty"
    "match_init sample_agreed = [sample_match AwaitingContinuation 1000]"
    by (simp_all add: sample_agreed_def sample_db_def sample_empty_def)
  show ?thesis
    by (simp add: credit_inv_defs used_of_def free_used_of_def balance_of_def held_def
        reserved_count_def rows_where_def live res find_match_def sample_match_def participant_def
        match_constants start_of_utc_week_def date_naive_def num_days_from_monday_def time_simps)
qed

text \<open>\<^bold>\<open>C1.\<close> When the agreement of the second participant confirms a match, the match is confirmed
  with a fresh deadline of thirty days and no purge date, each participant has been charged exactly
  once, nobody else has been charged, and no reservation of the match is left.  The one who
  confirms is charged in the current week: nothing under an unlimited plan, otherwise a free credit
  when one of the week is left beside those other matches hold, otherwise an advertising credit.
  The other is charged from the source and the week of the reservation that was waiting before the
  request, or nothing when the plan is unlimited now; every charge counts one use of the current
  week.\<close>

theorem continuation_confirmed_charges_both:
  assumes "clock_from t e" "credit_inv t db"
    and "pg_record_continuation e i u legal cost db = (Inr Cont_Confirmed, db')"
  shows "(\<exists>m. find_match db' i = Some m \<and> m_status m = Confirmed \<and> purge_after m = None \<and>
            m_expires_at m = clk e 6 + days 30 \<and>
            charged_both db i u (clk e 1) (user1_id m) (user2_id m) db') \<and>
         (\<forall>r \<in> set (continuation_reservation db'). r_match r \<noteq> i)"
  using record_continuation_confirmed_state [OF assms(1,2)] assms(3)
  unfolding pg_record_continuation_def confirmed_state_def by (blast dest: transaction_OkD)

lemma sample_agreed_confirms:
  "fst (pg_record_continuation (sample_env 500) 10 2 None 1 sample_agreed) = Inr Cont_Confirmed"
  by code_simp

theorem continuation_confirmed_charges_both_witness:
  "\<exists>m. find_match (snd (pg_record_continuation (sample_env 500) 10 2 None 1 sample_agreed)) 10 = Some m \<and>
     m_status m = Confirmed \<and> purge_after m = None \<and> m_expires_at m = 506 + days 30 \<and>
     charged_both sample_agreed 10 2 501 (user1_id m) (user2_id m)
       (snd (pg_record_continuation (sample_env 500) 10 2 None 1 sample_agreed))"
  using continuation_confirmed_charges_both [of 0 "sample_env 500" sample_agreed 10 2 None 1
      "snd (pg_record_continuation (sample_env 500) 10 2 None 1 sample_agreed)"]
    sample_agreed_confirms sample_agreed_credit_inv
  by (simp add: prod_eq_iff) (simp add: sample_env_def)

text \<open>\<^bold>\<open>C2.\<close> In every state the program can reach, no user has more than five confirmed
  continuations in a week, free credits spent and held together never exceed the two of a week,
  a wallet holds between zero and three advertising credits, and the advertising credits held by
  pending agreements of the current week are in the wallet.\<close>

theorem credits_never_overspent:
  assumes "reachable t db"
  shows "used_of db u w \<le> FREE_WEEKLY_CONTINUATION_LIMIT \<and>
     0 \<le> free_used_of db u w \<and> free_used_of db u w + held db t u Free w \<le> FREE_WEEKLY_CREDITS \<and>
     0 \<le> balance_of db u w \<and> balance_of db u w \<le> ADVERTISING_STOCK_LIMIT \<and>
     held db t u Advertising (start_of_utc_week t) \<le> balance_of db u (start_of_utc_week t)"
proof -
  have inv: "credit_inv t db"
    using assms by (rule reachable_credit_inv)
  then have "balance_of db u w \<le> ADVERTISING_STOCK_LIMIT"
    by (auto simp: balance_of_def credit_inv_def wallet_ok_def match_constants split: option.splits)
  then show ?thesis
    using inv balance_nonneg
    by (simp add: credit_inv_def usage_ok_def free_bounded_def ads_covered_def)
qed

lemma sample_reachable:
  "reachable 25 (exec_cmd (sample_env 5) (CreateMatch 10 1 2 5) sample_empty)"
  by (rule reachable.transact [where t = 0], rule reachable.start)
     (simp_all add: sample_empty_def, simp add: sample_env_def)

theorem credits_never_overspent_witness:
  "free_used_of (exec_cmd (sample_env 5) (CreateMatch 10 1 2 5) sample_empty) 1 (- 3) +
     held (exec_cmd (sample_env 5) (CreateMatch 10 1 2 5) sample_empty) 25 1 Free (- 3) \<le> FREE_WEEKLY_CREDITS"
  using credits_never_overspent [OF sample_reachable] by blast

text \<open>\<^bold>\<open>C3.\<close> The agreement never fails with the internal error its last-resort branches raise (a wallet
  without the credit it should hold, a status outside the known ones): whatever the state the
  invariant allows, the error is another one, and the database is then left exactly as it was.\<close>

theorem continuation_never_query_failed:
  assumes "clock_from t e" "credit_inv t db"
    and "pg_record_continuation e i u legal cost db = (Inl er, db')"
  shows "er \<noteq> Database QueryFailed \<and> db' = db"
proof -
  obtain db1 where "record_continuation e i u legal cost db = (Inl er, db1)" "db' = db"
    using assms(3)
    by (auto simp: pg_record_continuation_def transaction_def split: prod.splits sum.splits)
  then show ?thesis
    using throwsD [OF record_continuation_throws [OF assms(1)]] assms(2)
    by (auto simp: not_query_failed_def)
qed

definition sample_banned :: db where
  "sample_banned =
     sample_agreed\<lparr>user_account := (user_account sample_agreed)(1 \<mapsto> sample_account\<lparr>is_banned := True\<rparr>)\<rparr>"

lemma sample_banned_fails:
  "fst (pg_record_continuation (sample_env 500) 10 2 None 1 sample_banned) =
     Inl (Database AccountUnavailable)"
  by code_simp

theorem continuation_never_query_failed_witness:
  "snd (pg_record_continuation (sample_env 500) 10 2 None 1 sample_banned) = sample_banned"
proof -
  have "credit_inv 0 sample_banned"
    using sample_agreed_credit_inv credit_inv_cong [of sample_banned sample_agreed 0]
    by (simp add: sample_banned_def)
  then show ?thesis
    using continuation_never_query_failed [of 0 "sample_env 500" sample_banned 10 2 None 1
        "Database AccountUnavailable"
        "snd (pg_record_continuation (sample_env 500) 10 2 None 1 sample_banned)"]
      sample_banned_fails
    by (simp add: prod_eq_iff)
qed

section \<open>Life cycle\<close>

text \<open>\<^bold>\<open>C4.\<close> A transaction of the component (a request or a batch of maintenance) keeps the
  participants of every match and moves its status only forward: active, then awaiting
  continuation, then confirmed or expired, then ended.  Only a creation adds a match, and it is
  active; only maintenance removes one, and only when its purge date has passed or it is a
  confirmed match past its deadline.\<close>

theorem transactions_follow_lifecycle:
  assumes "keys_ok db"
  shows "case (find_match db i, find_match (exec_cmd e cmd db) i) of
      (Some m, Some m') \<Rightarrow> status_reaches (m_status m) (m_status m') \<and>
         user1_id m' = user1_id m \<and> user2_id m' = user2_id m
    | (Some m, None) \<Rightarrow> (\<exists>skip now limit. cmd = MaintenanceBatch skip now limit \<and> dead_at now m)
    | (None, Some m') \<Rightarrow>
        (\<exists>new_id a b now. cmd = CreateMatch new_id a b now) \<and> m_status m' = Active
    | (None, None) \<Rightarrow> True"
proof -
  have "life_at cmd (find_match db i) (find_match (exec_cmd e cmd db) i)"
    using exec_cmd_life_step [OF assms] by (simp add: life_step_def)
  moreover have "erases cmd m \<Longrightarrow> \<exists>skip now limit. cmd = MaintenanceBatch skip now limit \<and> dead_at now m" for m
    by (cases cmd) simp_all
  moreover have "creates cmd \<Longrightarrow> \<exists>new_id a b now. cmd = CreateMatch new_id a b now"
    by (cases cmd) simp_all
  ultimately show ?thesis
    by (auto simp: life_at_def split: option.splits)
qed

theorem transactions_follow_lifecycle_witness:
  "case find_match (exec_cmd (sample_env 500) (Continue 10 2 None 1) sample_agreed) 10 of
     Some m' \<Rightarrow> status_reaches AwaitingContinuation (m_status m') | None \<Rightarrow> False"
proof -
  have "keys_ok sample_agreed"
    using sample_agreed_credit_inv by (simp add: credit_inv_def)
  moreover have "find_match sample_agreed 10 = Some (sample_match AwaitingContinuation 1000)"
    by (simp add: find_match_def sample_defs)
  ultimately show ?thesis
    using transactions_follow_lifecycle [where db = sample_agreed and i = 10 and e = "sample_env 500" and
        cmd = "Continue 10 2 None 1"]
    by (auto simp: sample_match_def split: option.splits)
qed

section \<open>One match per pair\<close>

definition pairs_unique :: "db \<Rightarrow> bool" where
  "pairs_unique db \<longleftrightarrow>
     (\<forall>m \<in> set (match_init db). \<forall>m' \<in> set (match_init db).
        user1_id m = user1_id m' \<and> user2_id m = user2_id m' \<longrightarrow> m_id m = m_id m')"

lemma pairs_uniqueD:
  "pairs_unique db \<Longrightarrow> m \<in> set (match_init db) \<Longrightarrow> m' \<in> set (match_init db) \<Longrightarrow>
   user1_id m = user1_id m' \<Longrightarrow> user2_id m = user2_id m' \<Longrightarrow> m_id m = m_id m'"
  unfolding pairs_unique_def by blast

lemma pairs_unique_cong: "match_init a = match_init b \<Longrightarrow> pairs_unique a \<longleftrightarrow> pairs_unique b"
  unfolding pairs_unique_def by (rule arg_cong2 [where f = Ball]) (simp_all only:)

lemma pairs_unique_append:
  assumes "pairs_unique db" "match_init db' = match_init db @ [m]"
    and "\<forall>x \<in> set (match_init db). \<not> (user1_id x = user1_id m \<and> user2_id x = user2_id m)"
  shows "pairs_unique db'"
  unfolding pairs_unique_def
proof (intro ballI impI)
  fix x y
  assume "x \<in> set (match_init db')" "y \<in> set (match_init db')"
    and same: "user1_id x = user1_id y \<and> user2_id x = user2_id y"
  then consider "x \<in> set (match_init db)" "y \<in> set (match_init db)" | "x = m" "y = m"
    | "x \<in> set (match_init db)" "y = m" | "x = m" "y \<in> set (match_init db)"
    using assms(2) by (metis (no_types) Un_iff empty_iff empty_set insert_iff list.simps(15) set_append)
  then show "m_id x = m_id y"
    using pairs_uniqueD [OF assms(1)] assms(3) same by cases metis+
qed

lemma find_match_in:
  "keys_ok db \<Longrightarrow> m \<in> set (match_init db) \<Longrightarrow> find_match db (m_id m) = Some m"
  unfolding find_match_def keys_ok_def by (blast intro: find_distinct_key)

text \<open>A row of the new state either was there with the same participants, or was just created.\<close>

lemma exec_cmd_pairs:
  assumes keys: "keys_ok db" and keys': "keys_ok (exec_cmd e cmd db)" and pairs: "pairs_unique db"
  shows "pairs_unique (exec_cmd e cmd db)" (is "pairs_unique ?db")
proof (cases "creates cmd")
  case True
  then obtain new_id a b now where cmd: "cmd = CreateMatch new_id a b now"
    by (cases cmd) simp_all
  show ?thesis
  proof (cases "create e (new_match_record new_id a b now) db")
    case (Pair r db')
    show ?thesis
    proof (cases r)
      case (Inl er)
      then have "db' = db"
        using Pair by (auto simp: create_def transaction_def split: prod.splits sum.splits)
      then show ?thesis
        using pairs Pair cmd by simp
    next
      case (Inr v)
      note ok = create_Ok [OF Pair [unfolded Inr]]
      have "pairs_unique db'"
        by (rule pairs_unique_append [OF pairs ok(1)]) (use ok(6) in simp)
      then show ?thesis
        using Pair unfolding cmd by simp
    qed
  qed
next
  case False
  have old: "\<exists>m0 \<in> set (match_init db). m_id m0 = m_id m \<and> user1_id m0 = user1_id m \<and> user2_id m0 = user2_id m"
    if "m \<in> set (match_init ?db)" for m
  proof -
    have "life_at cmd (find_match db (m_id m)) (Some m)"
      using exec_cmd_life_step [OF keys, of cmd e] find_match_in [OF keys' that]
      by (metis life_step_def)
    then show ?thesis
      using False by (auto simp: life_at_def dest: find_matchD split: option.splits)
  qed
  show ?thesis
    unfolding pairs_unique_def
  proof (intro ballI impI)
    fix m m'
    assume "m \<in> set (match_init ?db)" "m' \<in> set (match_init ?db)"
      and same: "user1_id m = user1_id m' \<and> user2_id m = user2_id m'"
    then obtain m0 m0' where "m0 \<in> set (match_init db)" "m_id m0 = m_id m" "user1_id m0 = user1_id m"
        "user2_id m0 = user2_id m" "m0' \<in> set (match_init db)" "m_id m0' = m_id m'"
        "user1_id m0' = user1_id m'" "user2_id m0' = user2_id m'"
      using old by meson
    then show "m_id m = m_id m'"
      using pairs_uniqueD [OF pairs, of m0 m0'] same by metis
  qed
qed

lemma reachable_pairs: "reachable t db \<Longrightarrow> pairs_unique db"
proof (induction rule: reachable.induct)
  case (transact t db e t' cmd)
  have "keys_ok db" "keys_ok (exec_cmd e cmd db)"
    using reachable_credit_inv [OF transact(1)]
      reachable_credit_inv [OF reachable.transact [OF transact(1-3)]]
    by (auto simp: credit_inv_def)
  then show ?case
    using exec_cmd_pairs transact.IH by blast
next
  case (start db t)
  then show ?case
    unfolding pairs_unique_def by simp
next
  case (other t db db' t')
  then show ?case
    using pairs_unique_cong [of db' db] by (simp add: elsewhere_def)
qed

text \<open>\<^bold>\<open>C5.\<close> In every state the program can reach two users have at most one match, the smaller
  identifier is the first participant, and match identifiers are unique: a mutual like seen twice,
  or from both sides, never makes a second conversation.\<close>

theorem one_match_per_pair:
  assumes "reachable t db" "m \<in> set (match_init db)" "m' \<in> set (match_init db)"
    and "{user1_id m, user2_id m} = {user1_id m', user2_id m'}"
  shows "m = m' \<and> user1_id m < user2_id m"
proof -
  have keys: "keys_ok db"
    using reachable_credit_inv [OF assms(1)] by (simp add: credit_inv_def)
  then have lt: "user1_id m < user2_id m" "user1_id m' < user2_id m'"
    using assms(2,3) by (auto simp: keys_ok_def)
  then have "user1_id m = user1_id m'" "user2_id m = user2_id m'"
    using assms(4) by (auto simp: doubleton_eq_iff)
  then have "m_id m = m_id m'"
    by (rule pairs_uniqueD [OF reachable_pairs [OF assms(1)] assms(2,3)])
  then show ?thesis
    using find_match_in [OF keys assms(2)] find_match_in [OF keys assms(3)] lt(1)
    by (metis option.inject)
qed

theorem one_match_per_pair_witness:
  "\<exists>m. match_init (exec_cmd (sample_env 5) (CreateMatch 10 1 2 5) sample_empty) = [m] \<and>
     user1_id m < user2_id m"
proof -
  have "map m_id (match_init (exec_cmd (sample_env 5) (CreateMatch 10 1 2 5) sample_empty)) = [10]"
    by code_simp
  then obtain m where m: "match_init (exec_cmd (sample_env 5) (CreateMatch 10 1 2 5) sample_empty) = [m]"
    by auto
  then show ?thesis
    using one_match_per_pair [OF sample_reachable, of m m] by auto
qed

section \<open>The gate\<close>

text \<open>\<^bold>\<open>C6.\<close> The gate every match command goes through answers from the state a match stands for at that
  instant, whatever row is stored.  It never fails.  A stranger, a pair with a block in either
  direction and a deleted account are answered that there is no match; otherwise a match that is
  open at the instant is handed out with its state and deadline of that instant (an overdue active
  match waits for the answers for a day from its first deadline), and one that is over is refused,
  as expired when its row had not been brought up to date, as invalid when it had.  The rows it
  brings up to date cannot be told from the old ones: at every later instant every match is seen in
  the same state, with the same deadline.  A match that the gate finds expired is kept thirty days
  and loses its reservations, one that it ends is due at once, and no other reservation goes.\<close>

theorem gate_answers_from_effective_state:
  assumes "lock_available_match e i u db = (r, db')"
  shows "r = Inr (answer_at (clk e 0) db i u) \<and>
    (\<forall>t j. clk e 0 \<le> t \<longrightarrow>
       map_option (view_at t) (find_match db' j) = map_option (view_at t) (find_match db j)) \<and>
    (\<forall>m m'. find_match db i = Some m \<and> find_match db' i = Some m' \<and> m_status m' \<noteq> m_status m \<longrightarrow>
       purge_after m' = (if m_status m' = Expired then Some (clk e 0 + days 30)
         else if m_status m' = Ended then Some (clk e 0) else purge_after m)) \<and>
    (\<forall>x. x \<in> set (continuation_reservation db') \<longleftrightarrow> x \<in> set (continuation_reservation db) \<and>
       \<not> (r_match x = i \<and> (\<exists>m. find_match db i = Some m \<and> may_enter db m u \<and>
             m_status m \<noteq> Expired \<and> status_at (clk e 0) m = Expired)))"
proof -
  obtain res where r: "r = Inr res" and gate: "gate_outcome (clk e 0) i u db res db'"
    using lock_available_match_outcome [OF assms] by blast
  show ?thesis
    unfolding r gate_answer [OF gate]
    using gate_same_view [OF gate] gate_purge [OF gate] gate_reservations [OF gate] by blast
qed

theorem gate_answers_from_effective_state_witness:
  "fst (lock_available_match (sample_env 1500) 10 1 (sample_db Active 1000)) =
     Inr (answer_at 1500 (sample_db Active 1000) 10 1) \<and>
   map_option (view_at 2000) (find_match (snd (lock_available_match (sample_env 1500) 10 1 (sample_db Active 1000))) 10) =
     map_option (view_at 2000) (find_match (sample_db Active 1000) 10)"
proof -
  have "clk (sample_env 1500) 0 = 1500"
    by (simp add: sample_env_def)
  then show ?thesis
    using gate_answers_from_effective_state [OF surjective_pairing, of "sample_env 1500" 10 1 "sample_db Active 1000"]
    by auto
qed

end
