(* ===== verification/Conversation_Proofs.thy ===== *)
theory Conversation_Proofs
  imports Match_Lifecycle
begin

text \<open>
  What a refusal of the gate means for the operations behind it, and why a conversation that is over
  stays over: the operations of \<^verbatim>\<open>src/matches/pg\<close> that read or write a conversation all answer with the
  refusal and leave the database as it was, and no later transaction reopens a closed match.
\<close>

section \<open>Refusals\<close>

text \<open>Every operation on the conversation is refused for \<open>u\<close> with the reason \<open>why\<close>, and leaves the
  database as it was.\<close>

definition conversation_refused ::
  "env \<Rightarrow> uuid \<Rightarrow> uuid \<Rightarrow> match_availability_failure \<Rightarrow> db \<Rightarrow> bool" where
  "conversation_refused e i u why db \<longleftrightarrow>
     (\<forall>mid content k. create_message e mid i u content k db = (Inr (MessageUnavailable why), db)) \<and>
     (\<forall>limit offset cur. messages_for_user e i u limit offset cur db = (Inr (Unavailable why), db)) \<and>
     (\<forall>mid. mark_message_read e i mid u db = (Inr (Unavailable why), db)) \<and>
     (\<forall>mid. mark_messages_read_through e i mid u db = (Inr (Unavailable why), db)) \<and>
     (\<forall>consent. record_reveal e i u consent db = (Inr (Unavailable why), db)) \<and>
     (\<forall>legal cost. pg_record_continuation e i u legal cost db = (Inr (unavailable_result why), db))"

lemma refused_by_gate:
  assumes "lock_available_match e i u db = (Inr (Unavailable why), db)"
  shows "conversation_refused e i u why db"
  unfolding conversation_refused_def create_message_def messages_for_user_def mark_message_read_def
    mark_messages_read_through_def record_reveal_def pg_record_continuation_def record_continuation_def
  by (simp add: transaction_def bind_op_def assms ok_def)

lemma hidden_match_refused:
  "visible_match db i u = None \<Longrightarrow> conversation_refused e i u NotFound db"
  by (rule refused_by_gate) (simp add: lock_available_match_def)

section \<open>Closed for good\<close>

definition closed_match :: "uuid \<Rightarrow> db \<Rightarrow> bool" where
  "closed_match i db \<longleftrightarrow> (\<forall>m. find_match db i = Some m \<longrightarrow> m_status m \<in> {Expired, Ended})"

lemma closed_match_refused:
  assumes "closed_match i db"
  shows "\<exists>why \<in> {NotFound, InvalidState}. conversation_refused e i u why db"
proof (cases "visible_match db i u")
  case None
  then show ?thesis
    using hidden_match_refused by blast
next
  case (Some m)
  then have "m_status m \<in> {Expired, Ended}"
    using assms by (auto simp: closed_match_def dest: visible_matchD)
  then have "lock_available_match e i u db = (Inr (Unavailable InvalidState), db)"
    using Some by (auto simp: lock_available_match_def)
  then show ?thesis
    using refused_by_gate by blast
qed

text \<open>The states that follow \<open>db\<close> by transactions of the component and by changes elsewhere, in
  which no new match takes the identifier \<open>i\<close>.\<close>

inductive afterwards :: "uuid \<Rightarrow> instant \<Rightarrow> db \<Rightarrow> instant \<Rightarrow> db \<Rightarrow> bool" for i t db where
  now: "afterwards i t db t db"
| transact: "afterwards i t db t1 db1 \<Longrightarrow> clock_from t1 e \<Longrightarrow> (\<forall>k. clk e k \<le> t2) \<Longrightarrow>
     (\<forall>a b s. cmd \<noteq> CreateMatch i a b s) \<Longrightarrow> afterwards i t db t2 (exec_cmd e cmd db1)"
| other: "afterwards i t db t1 db1 \<Longrightarrow> elsewhere db1 db2 \<Longrightarrow> t1 \<le> t2 \<Longrightarrow> afterwards i t db t2 db2"

lemma create_other_match:
  assumes "new_id \<noteq> i"
  shows "find_match (exec_cmd e (CreateMatch new_id a b s) db) i = find_match db i"
proof (cases "create e (new_match_record new_id a b s) db")
  case (Pair r db')
  show ?thesis
  proof (cases r)
    case (Inl er)
    then have "db' = db"
      using Pair by (auto simp: create_def transaction_def split: prod.splits sum.splits)
    then show ?thesis
      using Pair by simp
  next
    case (Inr v)
    have "m_id (track_inserted (clk e 0) (match_row_of (new_match_record new_id a b s))) \<noteq> i"
      using assms unfolding track_inserted_simps(1) by (simp add: new_match_record_def)
    then show ?thesis
      using create_Ok(1) [OF Pair [unfolded Inr]] Pair
      by (simp add: find_match_def find_append split: option.split)
  qed
qed

lemma exec_cmd_closed:
  assumes "keys_ok db" "closed_match i db" "\<forall>a b s. cmd \<noteq> CreateMatch i a b s"
  shows "closed_match i (exec_cmd e cmd db)"
proof (cases "creates cmd")
  case True
  then obtain j a b s where "cmd = CreateMatch j a b s"
    by (cases cmd) simp_all
  then show ?thesis
    using assms(2,3) create_other_match [of j i e a b s db] by (auto simp: closed_match_def)
next
  case False
  have "life_at cmd (find_match db i) (find_match (exec_cmd e cmd db) i)"
    using exec_cmd_life_step [OF assms(1)] by (simp add: life_step_def)
  then show ?thesis
    using False assms(2)
    by (auto simp: closed_match_def life_at_def split: option.splits)
qed

lemma afterwards_closed:
  assumes "afterwards i t db t' db'" "credit_inv t db" "closed_match i db"
  shows "closed_match i db' \<and> credit_inv t' db'"
  using assms(1)
proof (induction rule: afterwards.induct)
  case now
  then show ?case
    using assms(2,3) by blast
next
  case (transact t1 db1 e t2 cmd)
  then have "keys_ok db1"
    by (simp add: credit_inv_def)
  then show ?case
    using transact exec_cmd_closed exec_cmd_credit_inv by blast
next
  case (other t1 db1 db2 t2)
  then have "credit_inv t1 db2"
    using credit_inv_cong [of db2 db1] by (simp add: elsewhere_def)
  then show ?case
    using other credit_inv_later by (auto simp: closed_match_def elsewhere_def find_match_def)
qed

end
