(* ===== verification/Match_Listing.thy ===== *)
theory Match_Listing
  imports Match_Service
begin

text \<open>
  The list of matches (\<^verbatim>\<open>LIST_FOR_USER_SQL\<close> of \<^verbatim>\<open>src/matches/pg/matches.rs\<close>) reads the matches
  where the user is first and those where the user is second apart, cuts each, merges them and cuts
  again.  This equals one ordered query over all matches of the user, and so the list is a paged
  store.
\<close>

section \<open>Strictly ordered lists\<close>

lemma order_desc_unique:
  assumes "sorted_wrt (\<lambda>a b. key b < key a) xs" "distinct (map key ys)" "set xs = set ys"
  shows "xs = order_desc key ys"
proof -
  have strict: "sorted_wrt (<) (rev (map key zs))" if "sorted_wrt (\<lambda>a b. key b < key a) zs"
    for zs
    using that by (simp add: sorted_wrt_rev sorted_wrt_map)
  have d: "distinct xs" "distinct (order_desc key ys)" "sorted_wrt (\<lambda>a b. key b < key a) (order_desc key ys)"
    using strict [OF assms(1)] assms(2) sorted_wrt_order_desc [OF assms(2)]
    by (auto simp: strict_sorted_iff distinct_map order_desc_def)
  have inj: "inj_on key (set ys)"
    using assms(2) by (simp add: distinct_map)
  have "rev (map key xs) = rev (map key (order_desc key ys))"
    using strict [OF assms(1)] strict [OF d(3)] assms(3)
    by (intro strict_sorted_equal) simp_all
  then have "map key xs = map key (order_desc key ys)"
    by simp
  then show ?thesis
    using inj assms(3) by (intro map_inj_on [of key]) simp_all
qed

lemma order_desc_cong:
  "distinct (map key xs) \<Longrightarrow> distinct (map key ys) \<Longrightarrow> set xs = set ys \<Longrightarrow>
   order_desc key xs = order_desc key ys"
  using order_desc_unique [of key "order_desc key xs" ys] sorted_wrt_order_desc [of key xs] by simp

lemma filter_take: "\<exists>k \<le> n. filter P (take n xs) = take k (filter P xs)"
proof (induction xs arbitrary: n)
  case (Cons x xs)
  show ?case
  proof (cases n)
    case (Suc m)
    obtain k where "k \<le> m" "filter P (take m xs) = take k (filter P xs)"
      using Cons.IH by blast
    then show ?thesis
      using Suc by (cases "P x") (auto intro: exI [of _ "Suc k"] exI [of _ k])
  qed (simp add: exI [of _ 0])
qed (simp add: exI [of _ 0])

lemma in_take_filter:
  assumes "x \<in> set (take n xs)" "P x" "n \<le> m"
  shows "x \<in> set (take m (filter P xs))"
proof -
  obtain k where k: "k \<le> n" "filter P (take n xs) = take k (filter P xs)"
    using filter_take by blast
  have "x \<in> set (filter P (take n xs))"
    using assms by simp
  then show ?thesis
    using set_take_subset_set_take [of k m "filter P xs"] k assms(3) by auto
qed

lemma take_filter_superset:
  assumes "set (take n xs) \<subseteq> S"
  shows "take n (filter (\<lambda>x. x \<in> S) xs) = take n xs"
proof -
  have "filter (\<lambda>x. x \<in> S) xs = take n xs @ filter (\<lambda>x. x \<in> S) (drop n xs)"
    using assms by (metis (no_types, lifting) append_take_drop_id filter_True filter_append subsetD)
  then show ?thesis
    by (cases "n \<le> length xs") simp_all
qed

text \<open>Cutting the two halves before merging loses nothing of the first \<open>n\<close> rows.\<close>

lemma merge_halves:
  assumes dist: "distinct (map key (A @ B))" and le: "n \<le> m"
  shows "take n (order_desc key (take m (order_desc key A) @ take m (order_desc key B))) =
    take n (order_desc key (A @ B))" (is "take n (order_desc key ?X) = take n ?S")
proof -
  have sorted: "sorted_wrt (\<lambda>a b. key b < key a) ?S"
    by (rule sorted_wrt_order_desc [OF dist])
  have disj: "set A \<inter> set B = {}"
    using dist by (auto simp: distinct_map)
  have part: "filter (\<lambda>x. x \<in> set A) ?S = order_desc key A"
    "filter (\<lambda>x. x \<in> set B) ?S = order_desc key B"
    using disj by (auto simp: filter_order_desc filter_empty_conv intro!: arg_cong [of _ _ "order_desc key"])
  have near: "set (take n ?S) \<subseteq> set ?X"
  proof
    fix x
    assume x: "x \<in> set (take n ?S)"
    then have "x \<in> set A \<or> x \<in> set B"
      using in_set_takeD by fastforce
    then show "x \<in> set ?X"
      using in_take_filter [OF x _ le, of "\<lambda>x. x \<in> set A"] in_take_filter [OF x _ le, of "\<lambda>x. x \<in> set B"]
      unfolding part by auto
  qed
  have sub: "set ?X \<subseteq> set ?S"
    by (auto dest: in_set_takeD)
  have half: "distinct (map key (take m (order_desc key A)))" "distinct (map key (take m (order_desc key B)))"
    using dist by (auto simp: take_map [symmetric] distinct_map order_desc_def distinct_take intro: inj_on_subset)
  have "key ` set (take m (order_desc key A)) \<subseteq> key ` set A" "key ` set (take m (order_desc key B)) \<subseteq> key ` set B"
    by (auto dest: in_set_takeD)
  then have "distinct (map key ?X)"
    using half dist by (simp add: disjoint_iff subset_iff) blast
  then have "filter (\<lambda>x. x \<in> set ?X) ?S = order_desc key ?X"
    using sub sorted by (intro order_desc_unique) (auto simp: sorted_wrt_filter)
  then show ?thesis
    using take_filter_superset [OF near] by simp
qed

section \<open>The list of matches\<close>

definition user_matches :: "db \<Rightarrow> instant \<Rightarrow> uuid \<Rightarrow> match_row list" where
  "user_matches db now u = filter (listed_match db now u) (match_init db)"

lemma activity_key_distinct:
  "distinct (map m_id rows) \<Longrightarrow> distinct (map activity_key (filter P rows))"
  by (induction rows) (auto simp: activity_key_def)

lemma match_page_select:
  assumes keys: "keys_ok db"
  shows "match_page db now u limit offset cur =
     select_page activity_key (user_matches db now u) limit offset cur"
proof -
  let ?P = "\<lambda>m. listed_match db now u m \<and> before_cursor activity_key cur m"
  let ?A = "filter (\<lambda>m. user1_id m = u \<and> ?P m) (match_init db)"
  let ?B = "filter (\<lambda>m. user2_id m = u \<and> ?P m) (match_init db)"
  let ?n = "limit + offset"
  have ids: "distinct (map m_id (match_init db))" and lt: "\<forall>m \<in> set (match_init db). user1_id m < user2_id m"
    using keys by (auto simp: keys_ok_def)
  have dist: "distinct (map activity_key ?A)" "distinct (map activity_key ?B)"
    "distinct (map activity_key (filter ?P (match_init db)))"
    using activity_key_distinct [OF ids] by blast+
  have same: "m = m'" if "m \<in> set (match_init db)" "m' \<in> set (match_init db)"
    "activity_key m = activity_key m'" for m m'
    using that ids by (auto simp: activity_key_def distinct_map dest: inj_onD)
  have "distinct (map activity_key (?A @ ?B))"
    using dist lt same by fastforce
  note merged = merge_halves [OF this le_refl, of ?n]
  have both: "order_desc activity_key (?A @ ?B) = order_desc activity_key (filter ?P (match_init db))"
  proof (rule order_desc_cong)
    show "distinct (map activity_key (?A @ ?B))"
      by fact
    show "set (?A @ ?B) = set (filter ?P (match_init db))"
      by (auto simp: listed_match_def participant_def)
  qed (rule dist)
  have "match_page db now u limit offset cur =
      drop offset (take ?n (order_desc activity_key (take ?n (order_desc activity_key ?A) @
         take ?n (order_desc activity_key ?B))))"
    by (simp add: match_page_def Let_def take_drop add.commute)
  also have "\<dots> = drop offset (take ?n (order_desc activity_key (filter ?P (match_init db))))"
    unfolding merged both ..
  also have "\<dots> = select_page activity_key (user_matches db now u) limit offset cur"
    by (simp add: select_page_def user_matches_def take_drop add.commute conj_commute)
  finally show ?thesis .
qed

text \<open>The list as a paged store; a query is a database, the statement's clock and a user.\<close>

definition match_listing :: "db \<times> instant \<times> uuid \<Rightarrow> match_row list" where
  "match_listing = (\<lambda>(db, now, u). order_desc activity_key (user_matches db now u))"

definition match_fetch ::
  "db \<times> instant \<times> uuid \<Rightarrow> nat \<Rightarrow> (instant \<times> uuid) option \<Rightarrow> match_row list" where
  "match_fetch = (\<lambda>(db, now, u) n cur. match_page db now u n 0 cur)"

interpretation match_list: paged_store match_fetch match_listing activity_key "\<lambda>(db, now, u). keys_ok db"
proof
  fix q :: "db \<times> instant \<times> uuid" and n cur
  obtain db now u where q: "q = (db, now, u)"
    by (cases q)
  assume "case q of (db, now, u) \<Rightarrow> keys_ok db"
  then have keys: "keys_ok db"
    using q by simp
  show "match_fetch q n cur = take n (filter (before_cursor activity_key cur) (match_listing q))"
    by (simp add: q match_fetch_def match_listing_def match_page_select [OF keys] select_page_def
        filter_order_desc)
  have "distinct (map activity_key (user_matches db now u))"
    using keys unfolding user_matches_def by (intro activity_key_distinct) (simp add: keys_ok_def)
  then show "sorted_wrt (\<lambda>a b. activity_key b < activity_key a) (match_listing q)"
    by (simp add: q match_listing_def sorted_wrt_order_desc)
qed

end
