(* ===== verification/Conversation_Properties.thy ===== *)
theory Conversation_Properties
  imports Conversation_Proofs Match_Listing Samples
begin

text \<open>
  The properties of the conversations: sending, replaying, listing and reading messages, the list
  of matches, photo reveal, ending, blocking and the creation of a match.
\<close>

section \<open>Sending\<close>

text \<open>\<^bold>\<open>C7.\<close> A message is created only for a participant of an active or confirmed match that is not
  blocked; it is appended as it was sent, unread and stamped with the database clock, and the match
  carries that instant as its last activity; the deadline of a confirmed match becomes thirty days
  after it.\<close>

theorem message_created_in_live_match:
  assumes "create_message e mid i sender content k db = (Inr (MessageAvailable c), db')"
    and "mc_created c"
  shows "chat_message db' = chat_message db @
      [\<lparr>msg_id = mid, msg_match_id = i, msg_sender_id = sender, msg_content = content,
        msg_created_at = clk e 1, msg_read_at = None, idempotency_key = Some k\<rparr>] \<and>
    (\<exists>m. find_match db' i = Some m \<and> m_status m \<in> {Active, Confirmed} \<and> participant m sender \<and>
       \<not> blocked_pair db' (user1_id m) (user2_id m) \<and> last_message_at m = Some (clk e 1) \<and>
       (m_status m = Confirmed \<longrightarrow>
          map_option last_message_at (find_match db i) \<noteq> Some (Some (clk e 1)) \<longrightarrow>
          m_expires_at m = clk e 1 + days 30))"
proof -
  from assms show ?thesis
  proof (rule create_message_effect)
    fix m
    assume "chat_message db' = chat_message db @ [new_message_row e mid i sender content k]"
      "find_match db' i = Some m" "m_status m \<in> {Active, Confirmed}" "participant m sender"
      "\<not> blocked_pair db' (user1_id m) (user2_id m)" "last_message_at m = Some (clk e 1)"
      "m_status m = Confirmed \<Longrightarrow>
         map_option last_message_at (find_match db i) \<noteq> Some (Some (clk e 1)) \<Longrightarrow>
         m_expires_at m = clk e 1 + days 30"
    then show ?thesis
      unfolding new_message_row_def by blast
  qed
qed

definition sample_sent :: "(match_store_error + message_creation_result) \<times> db" where
  "sample_sent = create_message (sample_env 500) 77 10 1 [72, 105] 5 (sample_db Confirmed 1000)"

lemma sample_sent_created:
  "case fst sample_sent of Inr (MessageAvailable c) \<Rightarrow> mc_created c \<and> msg_id (mc_message c) = 77 | _ \<Rightarrow> False"
  by code_simp

lemma sample_sent_run:
  obtains c where "create_message (sample_env 500) 77 10 1 [72, 105] 5 (sample_db Confirmed 1000) =
      (Inr (MessageAvailable c), snd sample_sent)" "mc_created c"
  using sample_sent_created
  by (cases sample_sent) (auto simp: sample_sent_def split: sum.splits message_creation_result.splits)

theorem message_created_in_live_match_witness:
  "\<exists>m. find_match (snd sample_sent) 10 = Some m \<and> m_status m \<in> {Active, Confirmed} \<and> participant m 1"
proof -
  obtain c where run: "create_message (sample_env 500) 77 10 1 [72, 105] 5 (sample_db Confirmed 1000) =
      (Inr (MessageAvailable c), snd sample_sent)" "mc_created c"
    by (rule sample_sent_run)
  show ?thesis
    using message_created_in_live_match [OF run] by blast
qed

text \<open>A send either creates its message or leaves the messages alone.\<close>

lemma create_message_chat:
  assumes run: "create_message e mid i sender content k db = (Inr v, db')"
  shows "chat_message db' = chat_message db \<or>
    (\<forall>x \<in> set (chat_message db). \<not> has_key sender k x)"
  using run
proof (cases rule: create_message_gate)
  case (closed reason)
  then show ?thesis
    using gate_frame(1) [OF closed(2)] by simp
next
  case (available rec db0 m)
  let ?row = "new_message_row e mid i sender content k"
  have row: "msg_sender_id ?row = sender" "idempotency_key ?row = Some k"
    by (simp_all add: new_message_row_def)
  have chat: "chat_message db0 = chat_message db"
    by (rule gate_frame(1) [OF available(1)])
  show ?thesis
  proof (cases "\<exists>x \<in> set (chat_message db0). has_key sender k x")
    case True
    have "store_message e rec ?row k db0 = (Inr v, db') \<Longrightarrow> chat_message db' = chat_message db0"
      unfolding store_message_def
      using True row
      by (auto simp: map_err_def gets_def dest!: bind_op_InrD insert_message_Ok
          split: prod.splits sum.splits)
    then show ?thesis
      using available(10) chat
      by (auto simp: send_available_def gets_def ok_def split: if_splits option.splits)
  qed (use chat in auto)
qed

text \<open>A key that stands for a message is never answered for another match or another content.\<close>

lemma create_message_conflict:
  assumes "key_stands_for sender k i content c db"
    and "create_message e mid i' sender content' k db = (Inr v, db')" "i' \<noteq> i \<or> content' \<noteq> content"
  shows "v = IdempotencyConflict \<or> (\<exists>reason. v = MessageUnavailable reason)"
proof (cases v)
  case (MessageAvailable c')
  have "key_stands_for sender k i' content' c' db'"
    using create_message_key assms(2) MessageAvailable by blast
  moreover have "chat_message db' = chat_message db"
    using create_message_chat [OF assms(2)] assms(1)
    by (auto simp: key_stands_for_def dest: find_SomeD)
  ultimately show ?thesis
    using assms(1,3) by (auto simp: key_stands_for_def)
qed simp_all

text \<open>A send that answered with a message left the match open for messages; until its deadline the gate
  hands it out again as it is.\<close>

lemma create_message_open:
  assumes "create_message e mid i sender content k db = (Inr (MessageAvailable c), db')"
  obtains m where "find_match db' i = Some m" "visible_match db' i sender = Some m"
    "m_status m \<in> {Active, Confirmed}" "\<not> is_deleted db' (user1_id m)" "\<not> is_deleted db' (user2_id m)"
  using assms
proof (cases rule: create_message_gate)
  case (available rec db0 m0)
  have ne: "m_status m0 \<noteq> AwaitingContinuation"
    using available(3,10) by (auto simp: send_available_def ok_def split: if_splits)
  show ?thesis
  proof (cases "mc_created c")
    case True
    let ?m = "track_match_inactivity (clk e 2) m0 (m0\<lparr>last_message_at := Some (clk e 1)\<rparr>)"
    note sent = send_available_created [OF available(10) True]
    have find: "find_match db' i = Some ?m"
      using sent(3) available(2) find_match_touch [of "clk e 2" "clk e 1" i db0]
      by (simp add: message_stored_def find_match_def new_message_row_def)
    have "user_block db' = user_block db0" "user_account db' = user_account db0"
      using sent(3) by (simp_all add: message_stored_def same_books_def touch_match_def)
    then have same: "blocked_pair db' = blocked_pair db0" "is_deleted db' = is_deleted db0"
      by (simp_all add: blocked_pair_def is_deleted_def fun_eq_iff)
    show ?thesis
      by (rule that [of ?m])
         (use find same available ne in \<open>auto simp: visible_match_def participant_def\<close>)
  next
    case False
    then have "db' = db0"
      using available(10) ne available(3)
      by (auto simp: send_available_def gets_def ok_def dest!: store_message_parts split: option.splits)
         (auto simp: new_message_row_def)
    then show ?thesis
      using that [of m0] available ne by (auto simp: visible_match_def)
  qed
qed simp

text \<open>\<^bold>\<open>C8.\<close> A send is idempotent per key.  Once a send with a key has answered with a message, sending the
  same message again with that key before the deadline of the match answers with the same message,
  flagged as not created, and leaves the whole database as it was: nothing is stored, announced or
  prolonged.  A send with that key for another match or with another content never stores anything
  and is answered with a conflict, or with the refusal of the gate.\<close>

theorem message_replay_is_idempotent:
  assumes "create_message e mid i sender content k db = (Inr (MessageAvailable c), db1)"
    and "find_match db1 i = Some m" "clk e' 0 < m_expires_at m"
  shows "create_message e' mid' i sender content k db1 =
      (Inr (MessageAvailable (c\<lparr>mc_created := False\<rparr>)), db1) \<and>
    (\<forall>i' content' v db2. create_message e' mid' i' sender content' k db1 = (Inr v, db2) \<longrightarrow>
       chat_message db2 = chat_message db1 \<and>
       (i' \<noteq> i \<or> content' \<noteq> content \<longrightarrow> v = IdempotencyConflict \<or> (\<exists>reason. v = MessageUnavailable reason)))"
proof -
  have key: "key_stands_for sender k i content c db1"
    by (rule create_message_key [OF assms(1)])
  have found: "\<exists>x \<in> set (chat_message db1). has_key sender k x"
    using key by (auto simp: key_stands_for_def dest: find_SomeD)
  obtain m1 where "find_match db1 i = Some m1" "visible_match db1 i sender = Some m1"
    "m_status m1 \<in> {Active, Confirmed}" "\<not> is_deleted db1 (user1_id m1)" "\<not> is_deleted db1 (user2_id m1)"
    by (rule create_message_open [OF assms(1)])
  then have m: "visible_match db1 i sender = Some m" "m_status m \<in> {Active, Confirmed}"
    "\<not> is_deleted db1 (user1_id m)" "\<not> is_deleted db1 (user2_id m)"
    using assms(2) by simp_all
  have "lock_available_match e' i sender db1 = (Inr (Available (map_match_record m)), db1)"
    using m(1,2) assms(3) by (auto simp: lock_available_match_def)
  then have "create_message e' mid' i sender content k db1 =
      (Inr (MessageAvailable (c\<lparr>mc_created := False\<rparr>)), db1)"
    using send_available_replay [OF key assms(2) m(3,4)] m(2)
    by (auto simp: create_message_def transaction_def bind_op_def)
  then show ?thesis
    using create_message_chat found create_message_conflict [OF key] by blast
qed

lemma sample_sent_deadline:
  "case find_match (snd sample_sent) 10 of Some m \<Rightarrow> 600 < m_expires_at m | None \<Rightarrow> False"
  by code_simp

theorem message_replay_is_idempotent_witness:
  "\<exists>c. create_message (sample_env 600) 78 10 1 [72, 105] 5 (snd sample_sent) =
     (Inr (MessageAvailable c), snd sample_sent) \<and> \<not> mc_created c"
proof -
  obtain c where run: "create_message (sample_env 500) 77 10 1 [72, 105] 5 (sample_db Confirmed 1000) =
      (Inr (MessageAvailable c), snd sample_sent)" "mc_created c"
    by (rule sample_sent_run)
  obtain m where m: "find_match (snd sample_sent) 10 = Some m" "clk (sample_env 600) 0 < m_expires_at m"
    using sample_sent_deadline by (auto simp: sample_env_def split: option.splits)
  show ?thesis
    using message_replay_is_idempotent [OF run(1) m, of 78] by auto
qed

section \<open>Listing\<close>

text \<open>\<^bold>\<open>C9.\<close> Following the cursors of the message list from the first page visits every message of
  the match exactly once, newest first, whatever the page size; one page more than there are
  messages is always enough.\<close>

theorem message_pages_complete:
  assumes "distinct (map msg_id (chat_message db))" "0 < limit"
    and "length (filter (\<lambda>m. msg_match_id m = i) (chat_message db)) < fuel"
  shows "walk_pages (message_fetch (db, i)) message_key fuel limit None =
    map map_message_record
      (order_desc message_key (filter (\<lambda>m. msg_match_id m = i) (chat_message db)))"
proof -
  have "length (message_listing (db, i)) < fuel"
    using assms(3) by (simp add: message_listing_def)
  then have "walk_pages (message_fetch (db, i)) message_key fuel limit None = message_listing (db, i)"
    using assms(1,2) by (intro messages.walk_all) (simp_all add: message_ids_distinct_def)
  then show ?thesis
    by (simp add: message_listing_def)
qed

definition sample_chat :: db where
  "sample_chat = (sample_db Confirmed 1000)\<lparr>chat_message :=
     map (\<lambda>(j, t). \<lparr>msg_id = j, msg_match_id = 10, msg_sender_id = 2, msg_content = [72],
        msg_created_at = t, msg_read_at = None, idempotency_key = None\<rparr>) [(1, 5), (2, 7), (3, 6)]\<rparr>"

theorem message_pages_complete_witness:
  "map msg_id (walk_pages (message_fetch (sample_chat, 10)) message_key 4 2 None) = [2, 3, 1]"
proof -
  have "map msg_id (order_desc message_key (filter (\<lambda>m. msg_match_id m = 10) (chat_message sample_chat))) =
      [2, 3, 1]"
    by code_simp
  then show ?thesis
    using message_pages_complete [of sample_chat 2 10 4]
    by (simp add: sample_chat_def comp_def)
qed

text \<open>The page the service answers is the page of that walk: at most \<open>limit\<close> messages, the
  newest ones older than the cursor, in order, and a next cursor exactly when there are more.\<close>

lemma list_messages_page:
  assumes "list_messages fmt e i u limit 0 cur db = (Inr (items, next), db', evs)"
  shows "items = map (public_message_from fmt)
      (fst (cursor_page (message_fetch (db', i)) message_key limit cur)) \<and>
    next = snd (cursor_page (message_fetch (db', i)) message_key limit cur) \<and>
    length items \<le> limit \<and> chat_message db' = chat_message db \<and> evs = []"
proof -
  obtain rows where run: "messages_for_user e i u (limit + 1) 0 cur db = (Inr (Available rows), db')"
    and out: "items = map (public_message_from fmt) (take limit rows)"
      "next = next_cursor message_key limit rows" "evs = []"
    using assms
    by (auto simp: list_messages_def call_store_def reject_def
        split: if_splits prod.splits sum.splits match_command_result.splits)
  obtain rec where gate: "lock_available_match e i u db = (Inr (Available rec), db')"
    and rows: "rows = select_messages db' i (limit + 1) 0 cur"
    using run
    by (auto simp: messages_for_user_def gets_def ok_def dest!: transaction_OkD bind_op_InrD
        split: match_command_result.splits)
  have "chat_message db' = chat_message db"
    by (rule gate_frame(1) [OF gate])
  then show ?thesis
    using out rows by (simp add: cursor_page_def message_fetch_def Let_def)
qed

text \<open>\<^bold>\<open>C11.\<close> The list of matches, read as two halves that are cut and merged, equals one ordered query
  over all matches the user may see: not ended, not overdue, with a live account on the other side
  and no block between them.\<close>

theorem match_page_equals_reference:
  assumes "keys_ok db"
  shows "match_page db now u limit offset cur =
    take limit (drop offset (order_desc activity_key
      (filter (before_cursor activity_key cur) (filter (listed_match db now u) (match_init db)))))"
  using match_page_select [OF assms] by (simp add: select_page_def user_matches_def)

lemma sample_chat_keys: "keys_ok sample_chat"
  by (simp add: keys_ok_def sample_chat_def sample_defs)

theorem match_page_equals_reference_witness:
  "map m_id (match_page sample_chat 500 2 20 0 None) = [10]"
proof -
  have "map m_id (take 20 (drop 0 (order_desc activity_key
      (filter (before_cursor activity_key None) (filter (listed_match sample_chat 500 2)
        (match_init sample_chat)))))) = [10]"
    by code_simp
  then show ?thesis
    using match_page_equals_reference [OF sample_chat_keys] by simp
qed

text \<open>\<^bold>\<open>C12.\<close> Following the cursors of the match list visits every match the user may see exactly
  once, the most recently active first.\<close>

theorem match_pages_complete:
  assumes "keys_ok db" "0 < limit" "length (filter (listed_match db now u) (match_init db)) < fuel"
  shows "walk_pages (match_fetch (db, now, u)) activity_key fuel limit None =
    order_desc activity_key (filter (listed_match db now u) (match_init db))"
proof -
  have "length (match_listing (db, now, u)) < fuel"
    using assms(3) by (simp add: match_listing_def user_matches_def)
  then have "walk_pages (match_fetch (db, now, u)) activity_key fuel limit None = match_listing (db, now, u)"
    using assms(1,2) by (intro match_list.walk_all) simp_all
  then show ?thesis
    by (simp add: match_listing_def user_matches_def)
qed

theorem match_pages_complete_witness:
  "map m_id (walk_pages (match_fetch (sample_chat, 500, 1)) activity_key 2 1 None) = [10]"
proof -
  have "map m_id (order_desc activity_key (filter (listed_match sample_chat 500 1) (match_init sample_chat))) = [10]"
    and "length (filter (listed_match sample_chat 500 1) (match_init sample_chat)) < 2"
    by code_simp+
  then show ?thesis
    using match_pages_complete [OF sample_chat_keys, of 1 500 1 2] by simp
qed

section \<open>Reading\<close>

text \<open>\<^bold>\<open>C13.\<close> Reading through a message marks exactly the unread messages of the other participant up
  to that message, with the database clock, reports their number, and leaves every other message
  alone; doing it again reports zero.\<close>

theorem read_through_marks_exactly:
  assumes "mark_messages_read_through e i mid u db = (Inr (Available (Some r)), db')"
  shows "\<exists>b \<in> set (chat_message db). msg_id b = mid \<and> msg_match_id b = i \<and>
    chat_message db' = map (\<lambda>m. if msg_match_id m = i \<and> msg_sender_id m \<noteq> u \<and>
            msg_read_at m = None \<and> message_key m \<le> message_key b
          then m\<lparr>msg_read_at := Some (clk e 1)\<rparr> else m) (chat_message db) \<and>
    updated_count r = int (length (filter (unread_through b i u) (chat_message db))) \<and>
    filter (unread_through b i u) (chat_message db') = []"
  using assms
proof (rule mark_messages_read_through_Ok)
  fix db0 n rec
  assume gate: "lock_available_match e i u db = (Inr (Available rec), db0)"
    and mark: "mark_through (clk e 1) mid i u db0 = (Inr (Some n), db')" "updated_count r = int n"
  have chat: "chat_message db0 = chat_message db"
    by (rule gate_frame(1) [OF gate])
  from mark(1) show ?thesis
  proof (rule mark_through_spec)
    fix b
    assume b: "b \<in> set (chat_message db0)" "msg_id b = mid" "msg_match_id b = i"
      "n = rows_where (unread_through b i u) (chat_message db0)"
      "chat_message db' = upd_where (unread_through b i u) (\<lambda>m. m\<lparr>msg_read_at := Some (clk e 1)\<rparr>)
        (chat_message db0)"
    have "filter (unread_through b i u) (chat_message db') = []"
      using unread_through_done [of b i u "clk e 1" "chat_message db0"]
      by (simp add: b(5) rows_where_def)
    then show ?thesis
      by (intro bexI [of _ b])
         (use b mark(2) chat in \<open>simp_all add: upd_where_def unread_through_def rows_where_def\<close>)
  qed
qed

definition sample_read :: "(match_store_error + message_read option match_command_result) \<times> db" where
  "sample_read = mark_messages_read_through (sample_env 500) 10 3 1 sample_chat"

lemma sample_read_counts:
  "case fst sample_read of Inr (Available (Some r)) \<Rightarrow> updated_count r = 2 | _ \<Rightarrow> False"
  by code_simp

theorem read_through_marks_exactly_witness:
  "\<exists>b \<in> set (chat_message sample_chat). msg_id b = 3 \<and>
     filter (unread_through b 10 1) (chat_message (snd sample_read)) = []"
proof -
  obtain r where "mark_messages_read_through (sample_env 500) 10 3 1 sample_chat =
      (Inr (Available (Some r)), snd sample_read)"
    using sample_read_counts
    by (cases sample_read) (auto simp: sample_read_def split: sum.splits match_command_result.splits option.splits)
  then show ?thesis
    using read_through_marks_exactly by blast
qed

section \<open>Photo reveal\<close>

lemma set_revealed_Ok:
  assumes "set_revealed i u b db = (Inr (updated, both), db')"
  shows "match_state db' = upd_where (is_state_of i u) (\<lambda>s. s\<lparr>revealed := b\<rparr>) (match_state db)"
    and "updated = list_ex (is_state_of i u) (match_state db')"
    and "both \<longleftrightarrow> updated \<and> all_revealed i (match_state db')"
    and "match_init db' = match_init db"
proof -
  have none: "\<not> list_ex (is_state_of i u) rows \<Longrightarrow>
      upd_where (is_state_of i u) (\<lambda>s. s\<lparr>revealed := b\<rparr>) rows = rows" for rows
    by (induction rows) auto
  show "match_state db' = upd_where (is_state_of i u) (\<lambda>s. s\<lparr>revealed := b\<rparr>) (match_state db)"
    "updated = list_ex (is_state_of i u) (match_state db')"
    "both \<longleftrightarrow> updated \<and> all_revealed i (match_state db')" "match_init db' = match_init db"
    using assms none
    by (auto simp: set_revealed_def update_match_state_def gets_def modify_def
        dest!: then_op_InrD require_live_match_same split: if_splits)
qed

lemma revealed_updated:
  "s \<in> set (upd_where (is_state_of i u) (\<lambda>s. s\<lparr>revealed := b\<rparr>) rows) \<Longrightarrow> is_state_of i u s \<Longrightarrow>
   revealed s = b"
proof -
  assume "s \<in> set (upd_where (is_state_of i u) (\<lambda>s. s\<lparr>revealed := b\<rparr>) rows)" and here: "is_state_of i u s"
  then obtain s0 where s0: "s = (if is_state_of i u s0 then s0\<lparr>revealed := b\<rparr> else s0)"
    unfolding set_upd_where by blast
  show "revealed s = b"
    using s0 here by (cases "is_state_of i u s0") simp_all
qed

lemma announce_reveal_Ok:
  assumes "announce_reveal e i rec db = (Inr v, db')"
  shows "match_state db' = match_state db \<and> match_init db' = match_init (bump_reveal_version i db)"
proof -
  have enq: "match_state b = match_state a \<and> match_init b = match_init a"
    if "map_err Database (enqueue_notification e k t u src intent) a = (Inr x, b)" for a b k t u src intent x
    using that same_but_notificationsD [of a b]
    by (auto simp: map_err_def dest!: enqueue_notification_frame split: prod.splits sum.splits)
  have "match_state (bump_reveal_version i db) = match_state db"
    by (simp add: bump_reveal_version_def)
  then show ?thesis
    using assms by (auto simp: announce_reveal_def modify_def gets_def dest!: then_op_InrD bind_op_InrD enq)
qed

lemma gate_reveal_frame:
  assumes "lock_available_match e i u db = (Inr (Available rec), db')"
  shows "user_photo db' = user_photo db" "approved_photo db' = approved_photo db"
    and "map_option photo_reveal_version (find_match db' i) = map_option photo_reveal_version (find_match db i)"
proof -
  have "db' = db \<or> db' = update_match (clk e 0) i open_window_row db"
    using lock_available_match_outcome [OF assms] by (auto elim!: gate_outcome.cases)
  then show "user_photo db' = user_photo db" "approved_photo db' = approved_photo db"
    and "map_option photo_reveal_version (find_match db' i) = map_option photo_reveal_version (find_match db i)"
    by (auto simp: find_match_update_same option.map_comp comp_def)
       (simp_all add: update_match_def open_window_row_def)
qed

text \<open>A consent that is withdrawn hides the photos, and the counter moves with each new reveal.\<close>

lemma withdrawal_hides:
  assumes "list_ex (is_state_of i u) (upd_where (is_state_of i u) (\<lambda>s. s\<lparr>revealed := False\<rparr>) states)"
  shows "\<not> all_revealed i (upd_where (is_state_of i u) (\<lambda>s. s\<lparr>revealed := False\<rparr>) states)"
proof -
  obtain s where s: "s \<in> set (upd_where (is_state_of i u) (\<lambda>s. s\<lparr>revealed := False\<rparr>) states)" "is_state_of i u s"
    using assms by (auto simp: list_ex_iff)
  then have "\<not> revealed s"
    using revealed_updated [of s i u False states] by simp
  then show ?thesis
    using s by (auto simp: all_revealed_def Let_def list_all_iff is_state_of_def)
qed

lemma reveal_counted:
  assumes "if shown then \<exists>x. announce_reveal e i rec db1 = (Inr x, db') else db' = db1"
    and "find_match db1 i = Some m1"
  shows "\<exists>m. find_match db' i = Some m \<and> user1_id m = user1_id m1 \<and> user2_id m = user2_id m1 \<and>
    photo_reveal_version m = photo_reveal_version m1 + (if shown then 1 else 0)"
proof (cases shown)
  case True
  then have "match_init db' = match_init (bump_reveal_version i db1)"
    using assms(1) announce_reveal_Ok [of e i rec db1] by auto
  then have "find_match db' i = Some (m1\<lparr>photo_reveal_version := photo_reveal_version m1 + 1\<rparr>)"
    using assms(2) by (simp add: find_match_def bump_reveal_version_def find_upd_where_same)
  then show ?thesis
    using True by simp
next
  case False
  then show ?thesis
    using assms by simp
qed

text \<open>\<^bold>\<open>C14.\<close> A reveal command sets the caller's own consent and nobody else's.  It answers that the
  photos are revealed exactly when both participants consent; a grant is accepted only when both
  have an approved photo that is ready, and a withdrawal always hides the photos again.  The reveal
  counter of the match goes up by one exactly when the photos become visible, so the two
  participants are told once per reveal.\<close>

theorem reveal_needs_both_consents:
  assumes "record_reveal e i u consent db = (Inr (Available both), db')"
  shows "\<exists>m0 m. find_match db i = Some m0 \<and> find_match db' i = Some m \<and> participant m u \<and>
    match_state db' =
      upd_where (is_state_of i u) (\<lambda>s. s\<lparr>revealed := is_granted consent\<rparr>) (match_state db) \<and>
    (both \<longleftrightarrow> all_revealed i (match_state db')) \<and>
    (consent = Granted \<longrightarrow> participants_photos_ready db (user1_id m) (user2_id m)) \<and>
    (consent = Withdrawn \<longrightarrow> \<not> both) \<and>
    photo_reveal_version m = photo_reveal_version m0 +
      (if both \<and> \<not> all_revealed i (match_state db) then 1 else 0)"
proof -
  obtain rec db0 where gate: "lock_available_match e i u db = (Inr (Available rec), db0)"
    and rest: "reveal_available e i u consent rec db0 = (Inr (Available both), db')"
    using assms
    by (auto simp: record_reveal_def ok_def dest!: transaction_OkD bind_op_InrD
        split: match_command_result.splits)
  have "gate_outcome (clk e 0) i u db (Available rec) db0"
    using lock_available_match_outcome [OF gate] by simp
  then obtain m1 where m1: "find_match db0 i = Some m1" "rec = map_match_record m1" "participant m1 u"
    by (rule gate_available)
  note frame = gate_reveal_frame [OF gate] gate_frame(2) [OF gate]
  obtain updated db1 where set: "set_revealed i u (is_granted consent) db0 = (Inr (updated, both), db1)"
    and upd: updated
    and photos: "is_granted consent \<longrightarrow> participants_photos_ready db0 (user1_id rec) (user2_id rec)"
    and fin: "if both \<and> \<not> all_revealed i (match_state db0)
       then \<exists>x. announce_reveal e i rec db1 = (Inr x, db') else db' = db1"
    using rest
    by (auto simp: reveal_available_def gets_def err_def ok_def map_err_def
        dest!: bind_op_InrD then_op_InrD split: if_splits prod.splits sum.splits)
  note set' = set_revealed_Ok [OF set]
  have state: "match_state db' = match_state db1"
    using fin announce_reveal_Ok by (auto split: if_splits)
  have withdrawn: "\<not> all_revealed i (match_state db1)" if "consent = Withdrawn"
    using withdrawal_hides [of i u "match_state db0"] set'(1,2) upd that by (simp add: is_granted_def)
  let ?shown = "both \<and> \<not> all_revealed i (match_state db0)"
  have find1: "find_match db1 i = Some m1"
    using set'(4) m1(1) by (simp add: find_match_def)
  obtain m where m: "find_match db' i = Some m" "user1_id m = user1_id m1" "user2_id m = user2_id m1"
    "photo_reveal_version m = photo_reveal_version m1 + (if ?shown then 1 else 0)"
    using reveal_counted [OF fin find1] by blast
  obtain m0 where m0: "find_match db i = Some m0" "photo_reveal_version m0 = photo_reveal_version m1"
    using frame(3) m1(1) by (cases "find_match db i") auto
  have ready: "participants_photos_ready db0 = participants_photos_ready db"
    using frame(1,2) by (simp add: participants_photos_ready_def fun_eq_iff)
  show ?thesis
    using m0 m m1 photos ready set' state upd withdrawn frame(4)
    by (auto simp: participant_def is_granted_def)
qed

definition sample_photos :: db where
  "sample_photos = (sample_db Confirmed 1000)\<lparr>
     user_photo := [\<lparr>ph_id = 31, ph_user = 1, ph_ready = True\<rparr>, \<lparr>ph_id = 32, ph_user = 2, ph_ready = True\<rparr>],
     approved_photo := [31, 32],
     match_state := [\<lparr>ms_match = 10, ms_user = 1, revealed = True, continued = True\<rparr>,
                     \<lparr>ms_match = 10, ms_user = 2, revealed = False, continued = True\<rparr>]\<rparr>"

lemma sample_reveals:
  "fst (record_reveal (sample_env 500) 10 2 Granted sample_photos) = Inr (Available True)"
  by code_simp

theorem reveal_needs_both_consents_witness:
  "\<exists>m. find_match (snd (record_reveal (sample_env 500) 10 2 Granted sample_photos)) 10 = Some m \<and>
     participants_photos_ready sample_photos (user1_id m) (user2_id m)"
  using reveal_needs_both_consents [of "sample_env 500" 10 2 Granted sample_photos True
      "snd (record_reveal (sample_env 500) 10 2 Granted sample_photos)"] sample_reveals
  by (auto simp: prod_eq_iff)

section \<open>Ending and blocking\<close>

lemma record_end_Some:
  assumes "record_end e i u db = (Inr (Some r), db')"
  obtains m0 where "find_match db i = Some m0" "participant m0 u" "\<not> is_deleted db (user1_id m0)"
    "\<not> is_deleted db (user2_id m0)" "me_changed r = (m_status m0 \<noteq> Ended)"
    "me_participant_ids r = (user1_id m0, user2_id m0)"
    "db' = (if me_changed r
        then delete_reservations i (update_match (clk e 0) i (ended_row (clk e 0)) db) else db)"
    "find_match db' i = Some (if me_changed r then ended_row (clk e 0) m0 else m0)"
proof -
  obtain m0 where m0: "find_match db i = Some m0" "participant m0 u" "\<not> is_deleted db (user1_id m0)"
      "\<not> is_deleted db (user2_id m0)" "me_changed r = (m_status m0 \<noteq> Ended)"
      "me_participant_ids r = (user1_id m0, user2_id m0)"
    and db': "db' = (if me_changed r
        then delete_reservations i (update_match (clk e 0) i (ended_row (clk e 0)) db) else db)"
    using assms
    by (auto simp: record_end_def Let_def dest!: transaction_OkD split: option.splits if_splits)
  moreover have "find_match db' i = Some (if me_changed r then ended_row (clk e 0) m0 else m0)"
    using m0(1) db' by (auto simp: find_match_update_same)
  ultimately show ?thesis
    by (rule that)
qed

text \<open>\<^bold>\<open>C15.\<close> Ending a match of which the caller is a participant leaves it ended, with a purge date,
  and releases its reservations; it reports a change exactly when the match was not ended before,
  and ending it again changes nothing.  From then on the conversation is over for everybody: after
  any later transactions of the component and any changes elsewhere, every attempt to send, list or
  read messages, to reveal photos or to continue is refused and leaves the database as it was.  (No
  new match may take the identifier; they are random.)\<close>

theorem end_match_is_final:
  assumes "record_end e i u db = (Inr (Some r), db')" "credit_inv t db" "clock_from t e"
    and "\<forall>k. clk e k \<le> t'"
  shows "(\<exists>m0 m. find_match db i = Some m0 \<and> find_match db' i = Some m \<and> m_status m = Ended \<and>
       participant m u \<and> (me_changed r \<longleftrightarrow> m_status m0 \<noteq> Ended) \<and>
       (me_changed r \<longrightarrow> purge_after m \<noteq> None \<and>
          (\<forall>x \<in> set (continuation_reservation db'). r_match x \<noteq> i))) \<and>
     record_end e' i u db' = (Inr (Some (r\<lparr>me_changed := False\<rparr>)), db') \<and>
     (\<forall>t'' db'' v. afterwards i t' db' t'' db'' \<longrightarrow>
        (\<exists>why \<in> {NotFound, InvalidState}. conversation_refused e' i v why db''))"
  using assms(1)
proof (rule record_end_Some)
  fix m0
  assume m0: "find_match db i = Some m0" "participant m0 u" "\<not> is_deleted db (user1_id m0)"
      "\<not> is_deleted db (user2_id m0)" "me_changed r = (m_status m0 \<noteq> Ended)"
      "me_participant_ids r = (user1_id m0, user2_id m0)"
    and db': "db' = (if me_changed r
        then delete_reservations i (update_match (clk e 0) i (ended_row (clk e 0)) db) else db)"
    and find: "find_match db' i = Some (if me_changed r then ended_row (clk e 0) m0 else m0)"
  have acc: "is_deleted db' = is_deleted db"
    using db' by (auto simp: is_deleted_def delete_reservations_def update_match_def fun_eq_iff)
  have again: "record_end e' i u db' = (Inr (Some (r\<lparr>me_changed := False\<rparr>)), db')"
    using find m0 acc by (cases r) (simp add: record_end_def Let_def participant_def transaction_def)
  have "credit_inv t' db'"
    using exec_cmd_credit_inv [OF assms(3,2,4), of "EndMatch i u"] assms(1) by simp
  moreover have "closed_match i db'"
    using find m0(5) by (auto simp: closed_match_def ended_row_def)
  ultimately have "\<forall>t'' db'' v. afterwards i t' db' t'' db'' \<longrightarrow>
      (\<exists>why \<in> {NotFound, InvalidState}. conversation_refused e' i v why db'')"
    using afterwards_closed closed_match_refused by blast
  moreover have "\<forall>x \<in> set (continuation_reservation db'). r_match x \<noteq> i" if "me_changed r"
    using db' that by (simp add: delete_reservations_def)
  ultimately show ?thesis
    using again find m0 by (auto simp: participant_def ended_row_def)
qed

lemma sample_confirmed_credit_inv: "credit_inv 0 (sample_db Confirmed 1000)"
  by (simp add: credit_inv_defs used_of_def free_used_of_def balance_of_def held_def sample_defs
      reserved_count_def match_constants participant_def)

theorem end_match_is_final_witness:
  "\<exists>why. conversation_refused (sample_env 600) 10 2 why
     (snd (record_end (sample_env 500) 10 1 (sample_db Confirmed 1000)))"
proof -
  obtain r where r: "record_end (sample_env 500) 10 1 (sample_db Confirmed 1000) =
      (Inr (Some r), snd (record_end (sample_env 500) 10 1 (sample_db Confirmed 1000)))"
    by (simp add: record_end_def transaction_def find_match_def participant_def is_deleted_def Let_def sample_defs)
  have clocks: "clock_from 0 (sample_env 500)" "\<forall>k. clk (sample_env 500) k \<le> 520"
    by simp (simp add: sample_env_def)
  show ?thesis
    using end_match_is_final [OF r sample_confirmed_credit_inv clocks, of "sample_env 600"] afterwards.now
    by blast
qed

lemma insert_block_Ok:
  assumes "insert_block a b db = (Inr x, db')"
  shows "a \<noteq> b" "(a, b) \<in> set (user_block db')" "match_init db' = match_init db"
  using assms
  by (auto simp: insert_block_def require_live_account_def dest!: then_op_InrD split: if_splits)

text \<open>\<^bold>\<open>C16.\<close> After a user has blocked another, no match between them is live, and every attempt of
  anybody to send, list or read messages of such a match, to reveal photos or to continue it is
  answered as if the match did not exist and leaves the database as it was.  Lifting the block does
  not bring the conversation back: after any later transactions and changes elsewhere, all of them
  are still refused.\<close>

theorem block_closes_conversation:
  assumes "credit_inv t db" "clock_from t e" "\<forall>k. clk e k \<le> t'" "pg_block e a b db = (Inr True, db')"
    and "find_match db' i = Some m" "{user1_id m, user2_id m} = {a, b}"
  shows "m_status m \<in> {Expired, Ended} \<and> conversation_refused e' i u NotFound db' \<and>
    (\<forall>t'' db'' v. afterwards i t' db' t'' db'' \<longrightarrow>
        (\<exists>why \<in> {NotFound, InvalidState}. conversation_refused e' i v why db''))"
proof -
  obtain x db1 where ins: "insert_block a b db = (Inr x, db1)" and db': "db' = end_pair (clk e 0) a b db1"
    using assms(4)
    by (auto simp: pg_block_def block_on_def gets_def ok_def modify_def
        dest!: transaction_OkD then_op_InrD split: if_splits)
  note one = insert_block_Ok(3,2,1) [OF ins]
  have m: "m \<in> set (match_init db')" "m_id m = i"
    using find_matchD [OF assms(5)] by auto
  obtain m0 where m0: "m0 \<in> set (match_init db)"
    "m = (if user1_id m0 = min a b \<and> user2_id m0 = max a b \<and> live_status (m_status m0)
          then track_match_inactivity (clk e 0) m0 (blocked_row (clk e 0) m0) else m0)"
    using m(1) one(1) unfolding db' end_pair_def by (auto simp: set_upd_where)
  have users: "user1_id m0 = user1_id m" "user2_id m0 = user2_id m"
    using m0(2) by simp_all
  have "user1_id m < user2_id m"
    using assms(1) m0(1) users by (auto simp: credit_inv_def keys_ok_def)
  then have pair: "user1_id m0 = min a b" "user2_id m0 = max a b"
    using assms(6) users by (auto simp: doubleton_eq_iff min_def max_def)
  have dead: "m_status m \<in> {Expired, Ended}"
    using m0(2) pair by (cases "m_status m0") (simp_all add: live_status_def)
  have "blocked_pair db' (user1_id m) (user2_id m)"
    using one(2) assms(6) by (auto simp: blocked_pair_def db' end_pair_def doubleton_eq_iff)
  then have "visible_match db' i u = None"
    using assms(5) by (simp add: visible_match_def)
  then have hidden: "conversation_refused e' i u NotFound db'"
    by (rule hidden_match_refused)
  have "credit_inv t' db'"
    using exec_cmd_credit_inv [OF assms(2,1,3), of "BlockUser a b"] assms(4) by simp
  moreover have "closed_match i db'"
    using dead assms(5) by (simp add: closed_match_def)
  ultimately have "\<forall>t'' db'' v. afterwards i t' db' t'' db'' \<longrightarrow>
      (\<exists>why \<in> {NotFound, InvalidState}. conversation_refused e' i v why db'')"
    using afterwards_closed closed_match_refused by blast
  then show ?thesis
    using dead hidden by blast
qed

lemma sample_block:
  "fst (pg_block (sample_env 500) 2 1 (sample_db Confirmed 1000)) = Inr True"
  "map m_id (match_init (snd (pg_block (sample_env 500) 2 1 (sample_db Confirmed 1000)))) = [10]"
  "map user1_id (match_init (snd (pg_block (sample_env 500) 2 1 (sample_db Confirmed 1000)))) = [1]"
  "map user2_id (match_init (snd (pg_block (sample_env 500) 2 1 (sample_db Confirmed 1000)))) = [2]"
  by code_simp+

theorem block_closes_conversation_witness:
  "conversation_refused (sample_env 600) 10 1 NotFound
     (snd (pg_block (sample_env 500) 2 1 (sample_db Confirmed 1000)))"
proof -
  let ?db = "snd (pg_block (sample_env 500) 2 1 (sample_db Confirmed 1000))"
  obtain m where m: "match_init ?db = [m]" "m_id m = 10" "user1_id m = 1" "user2_id m = 2"
    using sample_block(2-4) by auto
  have clocks: "clock_from 0 (sample_env 500)" "\<forall>k. clk (sample_env 500) k \<le> 520"
    by simp (simp add: sample_env_def)
  have run: "pg_block (sample_env 500) 2 1 (sample_db Confirmed 1000) = (Inr True, ?db)"
    using sample_block(1) by (simp add: prod_eq_iff)
  show ?thesis
    using block_closes_conversation [OF sample_confirmed_credit_inv clocks run, of 10 m "sample_env 600" 1] m
    by (simp add: find_match_def insert_commute)
qed

section \<open>Creation\<close>

lemma existing_pair:
  assumes "find_by_pair db (min a b) (max a b) = Some old"
  shows "\<exists>m \<in> set (match_init db). {user1_id m, user2_id m} = {a, b} \<and>
    pub_id (from_record_at fmt old now) = m_id m \<and> pub_status (from_record_at fmt old now) = m_status m"
proof -
  obtain m where "m \<in> set (match_init db)" "user1_id m = min a b" "user2_id m = max a b"
    "old = map_match_record m"
    using assms by (auto simp: find_by_pair_def dest: find_SomeD)
  then show ?thesis
    by (intro bexI [of _ m]) (auto simp: from_record_at_def min_def max_def)
qed

lemma created_pair:
  assumes "create e (new_match_record i a b now) db = (Inr v, db')"
  shows "live_account db a" "live_account db b" "\<not> blocked_pair db a b"
    "\<forall>m \<in> set (match_init db). {user1_id m, user2_id m} \<noteq> {a, b} \<or> user2_id m < user1_id m"
    "length (match_init db') = length (match_init db) + 1"
proof -
  note ok = create_Ok [OF assms]
  show "live_account db a" "live_account db b"
    using ok(2,3) by (auto simp: new_match_record_def min_def max_def split: if_splits)
  show "\<not> blocked_pair db a b"
    using ok(4) by (auto simp: new_match_record_def blocked_pair_def min_def max_def split: if_splits)
  show "length (match_init db') = length (match_init db) + 1"
    using ok(1) by simp
  show "\<forall>m \<in> set (match_init db). {user1_id m, user2_id m} \<noteq> {a, b} \<or> user2_id m < user1_id m"
  proof (intro ballI, rule ccontr)
    fix m
    assume m: "m \<in> set (match_init db)" "\<not> ({user1_id m, user2_id m} \<noteq> {a, b} \<or> user2_id m < user1_id m)"
    then have "user1_id m = min a b" "user2_id m = max a b"
      by (auto simp: doubleton_eq_iff min_def max_def)
    then show False
      using ok(6) m(1) by (simp add: new_match_record_def)
  qed
qed

lemma created_answer:
  assumes "create e (new_match_record i a b now) db = (Inr v, db')"
  shows "\<exists>m \<in> set (match_init db'). {user1_id m, user2_id m} = {a, b} \<and>
      pub_id (from_record_at fmt (new_match_record i a b now) now) = m_id m \<and>
      pub_status (from_record_at fmt (new_match_record i a b now) now) = m_status m"
    and "pub_status (from_record_at fmt (new_match_record i a b now) now) = Active"
proof -
  let ?r = "new_match_record i a b now"
  let ?m = "track_inserted (clk e 0) (match_row_of ?r)"
  have users: "{user1_id ?r, user2_id ?r} = {a, b}" "m_status ?r = Active"
    by (auto simp: new_match_record_def min_def max_def)
  have "?m \<in> set (match_init db')" "{user1_id ?m, user2_id ?m} = {a, b}"
    "pub_id (from_record_at fmt ?r now) = m_id ?m" "pub_status (from_record_at fmt ?r now) = m_status ?m"
    unfolding track_inserted_simps(1-4) create_Ok(1) [OF assms] using users
    by (simp_all add: from_record_at_def)
  then show "\<exists>m \<in> set (match_init db'). {user1_id m, user2_id m} = {a, b} \<and>
      pub_id (from_record_at fmt ?r now) = m_id m \<and> pub_status (from_record_at fmt ?r now) = m_status m"
    by blast
  show "pub_status (from_record_at fmt ?r now) = Active"
    using users(2) by (simp add: from_record_at_def)
qed

lemma created_row:
  assumes "create e (new_match_record i a b now) db = (Inr v, db')"
  shows "\<exists>m. match_init db' = match_init db @ [m] \<and> m_id m = i \<and> user1_id m = min a b \<and>
    user2_id m = max a b \<and> m_status m = Active \<and> m_created_at m = now \<and>
    m_expires_at m = now + hours 24 \<and> purge_after m = None \<and> last_message_at m = None"
  using create_Ok(1) [OF assms]
  by (simp add: track_inserted_def match_row_of_def new_match_record_def MATCH_WINDOW_HOURS_def)

text \<open>\<^bold>\<open>C17.\<close> A mutual like that succeeds leaves a match of exactly these two users and answers with
  it.  When it creates the match, both accounts were neither deleted nor banned, nobody had blocked the
  other and they had no match before; exactly one match is added, under the new identifier, active
  and with a deadline twenty-four hours after the reading of the clock, and the creation is
  published once.  When the pair already had a match it is answered instead, and nothing
  changes.\<close>

theorem mutual_like_creates_once:
  assumes "create_from_mutual_like fmt e new_id now now' first second db = (Inr p, db', evs)"
  shows "(\<exists>m \<in> set (match_init db'). {user1_id m, user2_id m} = {first, second} \<and> pub_id p = m_id m \<and>
       pub_status p = m_status m) \<and>
    (if evs = [] then db' = db
     else evs = [EvCreated p] \<and> live_account db first \<and> live_account db second \<and>
       \<not> blocked_pair db first second \<and>
       (\<forall>m \<in> set (match_init db). {user1_id m, user2_id m} \<noteq> {first, second} \<or> user2_id m < user1_id m) \<and>
       pub_status p = Active \<and>
       (\<exists>m. match_init db' = match_init db @ [m] \<and> m_id m = new_id \<and>
          user1_id m = min first second \<and> user2_id m = max first second \<and> m_status m = Active \<and>
          m_created_at m = now \<and> m_expires_at m = now + hours 24 \<and> purge_after m = None \<and>
          last_message_at m = None))"
proof -
  let ?r = "new_match_record new_id first second now"
  consider (existing) old where "p = from_record_at fmt old now'" "db' = db" "evs = []"
      "find_by_pair db (min first second) (max first second) = Some old"
    | (created) "p = from_record_at fmt ?r now" "create e ?r db = (Inr (), db')" "evs = [EvCreated p]"
    using mutual_like_cases [OF assms] by (auto simp: new_match_record_def)
  then show ?thesis
  proof cases
    case existing
    then show ?thesis
      using existing_pair [OF existing(4), of fmt now'] by simp
  next
    case created
    note new = created_pair [OF created(2)] created_answer [OF created(2), of fmt]
      created_row [OF created(2)]
    show ?thesis
      using new created(1,3) by simp
  qed
qed

lemma sample_creates:
  "case create_from_mutual_like (\<lambda>t. []) (sample_env 5) 10 5 6 2 1 sample_empty of
     (Inr p, db', evs) \<Rightarrow> length evs = 1 \<and> pub_id p = 10 | _ \<Rightarrow> False"
  by code_simp

theorem mutual_like_creates_once_witness:
  "\<exists>p db' evs. create_from_mutual_like (\<lambda>t. []) (sample_env 5) 10 5 6 2 1 sample_empty = (Inr p, db', evs) \<and>
     evs = [EvCreated p] \<and> pub_status p = Active"
  using sample_creates mutual_like_creates_once [of "\<lambda>t. []" "sample_env 5" 10 5 6 2 1 sample_empty]
  by (fastforce split: prod.splits sum.splits if_splits)

end
