(* ===== verification/Maintenance_Properties.thy ===== *)
theory Maintenance_Properties
  imports Match_Lifecycle Samples
begin

text \<open>
  The properties of match maintenance, of the advertising rewards and of the notifications the
  match operations enqueue.
\<close>

section \<open>Maintenance\<close>

text \<open>A move that reports fewer rows than its limit has moved every row it may lock.\<close>

lemma move_due_all:
  assumes ids: "distinct (map m_id (match_init db))"
    and run: "move_due skip P f now limit db = (Inr n, db')" "n < limit"
    and m: "m' \<in> set (match_init db')"
  shows "(\<exists>m \<in> set (match_init db). P m \<and> m' = track_match_inactivity now m (f m)) \<or>
    (m' \<in> set (match_init db) \<and> (P m' \<longrightarrow> skip (m_id m')))"
proof -
  let ?due = "due_matches skip P limit db"
  have "length (filter (\<lambda>m. P m \<and> \<not> skip (m_id m)) (match_init db)) < limit"
    using run by (auto simp: move_due_def Let_def due_matches_def)
  then have due: "set ?due = {m \<in> set (match_init db). P m \<and> \<not> skip (m_id m)}"
    by (simp add: due_matches_def order_limit_def)
  have db': "match_init db' = map (\<lambda>m. if m_id m \<in> set (map m_id ?due)
      then track_match_inactivity now m (f m) else m) (match_init db)"
    using run by (auto simp: move_due_map)
  obtain m0 where m0: "m0 \<in> set (match_init db)" "m' = (if m_id m0 \<in> set (map m_id ?due)
      then track_match_inactivity now m0 (f m0) else m0)"
    using m unfolding db' by auto
  show ?thesis
  proof (cases "m_id m0 \<in> set (map m_id ?due)")
    case True
    then have "P m0"
      using due_matches_row [OF ids m0(1)] by blast
    then show ?thesis
      using m0 True by auto
  next
    case False
    then have "P m0 \<longrightarrow> skip (m_id m0)"
      using due m0(1) by auto
    then show ?thesis
      using m0 False by auto
  qed
qed

text \<open>No match that no other transaction holds is overdue in one of the given states.\<close>

definition none_overdue :: "(uuid \<Rightarrow> bool) \<Rightarrow> instant \<Rightarrow> match_status set \<Rightarrow> db \<Rightarrow> bool" where
  "none_overdue skip now S db \<longleftrightarrow>
     distinct (map m_id (match_init db)) \<and>
     (\<forall>m \<in> set (match_init db). m_status m \<in> S \<longrightarrow> m_expires_at m \<le> now \<longrightarrow> skip (m_id m))"

lemma none_overdue_move:
  assumes "none_overdue skip now S db"
    and run: "move_due skip (\<lambda>m. m_status m = s \<and> m_expires_at m \<le> now) f now limit db = (Inr n, db')" "n < limit"
    and f: "\<And>m. m_status m = s \<Longrightarrow> m_id (f m) = m_id m \<and> m_status (f m) \<notin> insert s S \<and> m_status (f m) \<noteq> Confirmed"
  shows "none_overdue skip now (insert s S) db'"
proof -
  let ?P = "\<lambda>m. m_status m = s \<and> m_expires_at m \<le> now"
  have ids: "distinct (map m_id (match_init db))"
    using assms(1) by (simp add: none_overdue_def)
  have "map m_id (match_init db') = map m_id (match_init db)"
    using run f due_matches_row [OF ids, of _ skip ?P limit] by (auto simp: move_due_map)
  moreover have "skip (m_id m')"
    if "m' \<in> set (match_init db')" "m_status m' \<in> insert s S" "m_expires_at m' \<le> now" for m'
    using move_due_all [OF ids run that(1)] that f assms(1) unfolding none_overdue_def by force
  ultimately show ?thesis
    using ids by (simp add: none_overdue_def)
qed

lemma none_overdue_same_books: "same_books a b \<Longrightarrow> none_overdue skip now S a \<Longrightarrow> none_overdue skip now S b"
  by (simp add: none_overdue_def same_books_def)

lemma none_overdue_books:
  assumes "\<And>a. keeps (same_books a) m"
  shows "keeps (none_overdue skip now S) m"
  by (rule validI) (metis assms keeps_apply none_overdue_same_books same_books_refl)

lemma none_overdue_purge: "keeps (none_overdue skip now S) (purge_expired_matches sk t limit)"
  by (rule validI)
     (auto simp: purge_expired_matches_def Let_def cascade_delete_matches_def none_overdue_def
       distinct_map_del_where)

lemma run_batch_steps:
  assumes "run_batch e skip now limit db = (Inr b, db')"
  obtains purge d1 d2 d3 d4 d5 d6 d7 d8 where
    "enqueue_first_period_reminders e skip now 0 limit db = (Inr (mb_reminded b), d1)"
    "open_continuation_windows skip now limit d1 = (Inr (mb_opened b), d2)"
    "expire_continuation_windows skip now purge limit d2 = (Inr (mb_expired b), d3)"
    "enqueue_warnings e skip now (mb_reminded b) limit d3 = (Inr (mb_warned b), d4)"
    "close_inactive_matches skip now limit d4 = (Inr (mb_closed_inactive b), d5)"
    "delete_expired_messages skip now limit d5 = (Inr (mb_deleted_messages b), d6)"
    "detach_expired_reports skip now limit d6 = (Inr (mb_detached_reports b), d7)"
    "delete_expired_notifications skip now limit d7 = (Inr (mb_deleted_notifications b), d8)"
    "purge_expired_matches skip now limit d8 = (Inr (mb_purged b), db')"
  using assms
  by (auto simp: run_batch_def err_def ok_def dest!: bind_op_InrD split: option.splits)

lemma run_batch_none_overdue:
  assumes "run_batch e skip now limit db = (Inr b, db')" "keys_ok db" "\<not> is_full b limit"
  shows "none_overdue skip now {Confirmed, AwaitingContinuation, Active} db'"
  using assms(1)
proof (rule run_batch_steps)
  fix purge d1 d2 d3 d4 d5 d6 d7 d8
  assume run: "enqueue_first_period_reminders e skip now 0 limit db = (Inr (mb_reminded b), d1)"
    "open_continuation_windows skip now limit d1 = (Inr (mb_opened b), d2)"
    "expire_continuation_windows skip now purge limit d2 = (Inr (mb_expired b), d3)"
    "enqueue_warnings e skip now (mb_reminded b) limit d3 = (Inr (mb_warned b), d4)"
    "close_inactive_matches skip now limit d4 = (Inr (mb_closed_inactive b), d5)"
    "delete_expired_messages skip now limit d5 = (Inr (mb_deleted_messages b), d6)"
    "detach_expired_reports skip now limit d6 = (Inr (mb_detached_reports b), d7)"
    "delete_expired_notifications skip now limit d7 = (Inr (mb_deleted_notifications b), d8)"
    "purge_expired_matches skip now limit d8 = (Inr (mb_purged b), db')"
  have few: "mb_opened b < limit" "mb_expired b < limit" "mb_closed_inactive b < limit"
    using assms(3) by (auto simp: is_full_def)
  have "none_overdue skip now {} db"
    using assms(2) by (simp add: none_overdue_def keys_ok_def)
  then have "none_overdue skip now {} d1"
    using keeps_apply [OF none_overdue_books [OF notify_due_same_books]]
      run(1) [unfolded enqueue_first_period_reminders_def] by blast
  then have "none_overdue skip now {Active} d2"
    using run(2) [unfolded open_continuation_windows_def] few(1) by (rule none_overdue_move) simp
  then have "none_overdue skip now {AwaitingContinuation, Active} d3"
    using run(3) [unfolded expire_continuation_windows_def] few(2) by (rule none_overdue_move) simp
  then have "none_overdue skip now {AwaitingContinuation, Active} d4"
    using keeps_apply [OF none_overdue_books [OF notify_due_same_books]]
      run(4) [unfolded enqueue_warnings_def] by blast
  then have "none_overdue skip now {Confirmed, AwaitingContinuation, Active} d5"
    using run(5) [unfolded close_inactive_matches_def] few(3) by (rule none_overdue_move) simp
  then have "none_overdue skip now {Confirmed, AwaitingContinuation, Active} d8"
    using keeps_apply [OF none_overdue_books [OF erasure_same_books(1)] run(6)]
      keeps_apply [OF none_overdue_books [OF erasure_same_books(2)] run(7)]
      keeps_apply [OF none_overdue_books [OF erasure_same_books(3)] run(8)] by blast
  then show ?thesis
    using keeps_apply [OF none_overdue_purge run(9)] by blast
qed

lemma none_overdueD:
  "none_overdue skip now {Confirmed, AwaitingContinuation, Active} db \<Longrightarrow> m \<in> set (match_init db) \<Longrightarrow>
   m_expires_at m \<le> now \<Longrightarrow> \<not> skip (m_id m) \<Longrightarrow> m_status m \<in> {Expired, Ended}"
  by (cases "m_status m") (auto simp: none_overdue_def)

text \<open>\<^bold>\<open>C18.\<close> A batch that does not fill its limit leaves nothing overdue: afterwards no match is
  active, waiting or confirmed past its deadline, except those another transaction holds.\<close>

theorem batch_leaves_nothing_overdue:
  assumes "run_batch e skip now limit db = (Inr b, db')" "keys_ok db" "\<not> is_full b limit"
    and "m \<in> set (match_init db')" "m_expires_at m \<le> now" "\<not> skip (m_id m)"
  shows "m_status m \<in> {Expired, Ended}"
  using run_batch_none_overdue [OF assms(1-3)] assms(4-6) by (rule none_overdueD)

definition sample_batch :: "(database_error + maintenance_batch) \<times> db" where
  "sample_batch = run_batch (sample_env 2000) (\<lambda>_. False) 2000 5 (sample_db Active 1000)"

lemma sample_batch_runs:
  "case sample_batch of (Inr b, db') \<Rightarrow> \<not> is_full b 5 \<and> map m_id (match_init db') = [10] | _ \<Rightarrow> False"
  by code_simp

theorem batch_leaves_nothing_overdue_witness:
  "\<exists>b db'. sample_batch = (Inr b, db') \<and>
     (\<forall>m \<in> set (match_init db'). m_expires_at m \<le> 2000 \<longrightarrow> m_status m \<in> {Expired, Ended})"
proof -
  have keys: "keys_ok (sample_db Active 1000)"
    by (simp add: keys_ok_def sample_defs)
  obtain b db' where run: "sample_batch = (Inr b, db')" "\<not> is_full b 5"
    using sample_batch_runs by (auto split: prod.splits sum.splits)
  show ?thesis
    using batch_leaves_nothing_overdue [OF run(1) [unfolded sample_batch_def] keys run(2)] run(1) by auto
qed

section \<open>Bounds\<close>

definition child_keys_ok :: "db \<Rightarrow> bool" where
  "child_keys_ok db \<longleftrightarrow>
     distinct (map msg_id (chat_message db)) \<and> distinct (map rep_id (user_report db)) \<and>
     distinct (map n_id (notification db))"

lemma enqueue_child_keys: "keeps child_keys_ok (enqueue_notification e k t u src i)"
  by (rule validI)
     (auto simp: enqueue_notification_def Let_def child_keys_ok_def new_notification_def split: if_splits,
      blast)

lemma notify_due_child_keys: "keeps child_keys_ok (notify_due e skip P intent k limit)"
  unfolding notify_due_def notify_both_def Let_def by (intro keeps_intros enqueue_child_keys)

lemma move_due_child_keys: "keeps child_keys_ok (move_due skip P f now limit)"
  by (rule validI) (auto simp: move_due_map child_keys_ok_def)

lemma erasure_child_keys:
  "keeps child_keys_ok (delete_expired_messages skip now limit)"
  "keeps child_keys_ok (detach_expired_reports skip now limit)"
  by (rule validI, auto simp: delete_expired_messages_def detach_expired_reports_def Let_def
      child_keys_ok_def distinct_map_del_where map_upd_where)+

lemma erasure_count:
  assumes "child_keys_ok db"
  shows "delete_expired_messages skip now limit db = (Inr n, db') \<Longrightarrow> n \<le> limit"
    and "detach_expired_reports skip now limit db = (Inr n, db') \<Longrightarrow> n \<le> limit"
    and "delete_expired_notifications skip now limit db = (Inr n, db') \<Longrightarrow> n \<le> limit"
  using assms
  by (auto simp: delete_expired_messages_def detach_expired_reports_def delete_expired_notifications_def
      Let_def child_keys_ok_def intro!: order_trans [OF rows_where_key_in length_doomed_children])

text \<open>A batch is bounded: each of its nine statements touches at most \<open>limit\<close> rows.\<close>

lemma batch_is_bounded:
  assumes "run_batch e skip now limit db = (Inr b, db')" "child_keys_ok db"
  shows "list_all (\<lambda>count. count \<le> limit)
    [mb_opened b, mb_reminded b, mb_expired b, mb_warned b, mb_closed_inactive b,
     mb_deleted_messages b, mb_deleted_notifications b, mb_detached_reports b, mb_purged b]"
  using assms(1)
proof (rule run_batch_steps)
  fix purge d1 d2 d3 d4 d5 d6 d7 d8
  assume run: "enqueue_first_period_reminders e skip now 0 limit db = (Inr (mb_reminded b), d1)"
    "open_continuation_windows skip now limit d1 = (Inr (mb_opened b), d2)"
    "expire_continuation_windows skip now purge limit d2 = (Inr (mb_expired b), d3)"
    "enqueue_warnings e skip now (mb_reminded b) limit d3 = (Inr (mb_warned b), d4)"
    "close_inactive_matches skip now limit d4 = (Inr (mb_closed_inactive b), d5)"
    "delete_expired_messages skip now limit d5 = (Inr (mb_deleted_messages b), d6)"
    "detach_expired_reports skip now limit d6 = (Inr (mb_detached_reports b), d7)"
    "delete_expired_notifications skip now limit d7 = (Inr (mb_deleted_notifications b), d8)"
    "purge_expired_matches skip now limit d8 = (Inr (mb_purged b), db')"
  note moves = open_continuation_windows_def expire_continuation_windows_def close_inactive_matches_def
  note enqs = enqueue_first_period_reminders_def enqueue_warnings_def
  have "child_keys_ok d1"
    using keeps_apply [OF notify_due_child_keys] run(1) assms(2) unfolding enqs by blast
  then have "child_keys_ok d3"
    using keeps_apply [OF move_due_child_keys] run(2,3) unfolding moves by blast
  then have "child_keys_ok d4"
    using keeps_apply [OF notify_due_child_keys] run(4) unfolding enqs by blast
  then have d5: "child_keys_ok d5"
    using keeps_apply [OF move_due_child_keys] run(5) unfolding moves by blast
  then have d6: "child_keys_ok d6"
    by (rule keeps_apply [OF erasure_child_keys(1) run(6)])
  then have d7: "child_keys_ok d7"
    by (rule keeps_apply [OF erasure_child_keys(2) run(7)])
  have "mb_purged b \<le> limit"
    using run(9) by (auto simp: purge_expired_matches_def Let_def)
  then show ?thesis
    using erasure_count(1) [OF d5 run(6)] erasure_count(2) [OF d6 run(7)] erasure_count(3) [OF d7 run(8)]
      move_due_count run(2,3,5) notify_due_count run(1,4)
    unfolding moves enqs by auto
qed

section \<open>A run of batches\<close>

text \<open>A run either stops at the first batch that does not fill its limit, or uses all its batches.
  What the last batch could not do is only what other transactions held.\<close>

lemma run_batches_outcome:
  assumes "run_batches es skips now limit n k totals db = (Inr r, db')" "credit_inv t db"
    and "mr_batches totals + n \<le> u32_max"
  shows "credit_inv t db' \<and>
    (mr_batches r = mr_batches totals + n \<or>
     (\<exists>j < n. mr_batches r = mr_batches totals + Suc j \<and> \<not> mr_work_remaining r)) \<and>
    (n > 0 \<longrightarrow> \<not> mr_work_remaining r \<longrightarrow>
     none_overdue (skips (k + (mr_batches r - mr_batches totals) - 1)) now
       {Confirmed, AwaitingContinuation, Active} db')"
  using assms
proof (induction n arbitrary: k totals db)
  case 0
  then show ?case
    by (simp add: ok_def)
next
  case (Suc n)
  obtain batch db1 where one: "transaction (run_batch (es k) (skips k) now limit) db = (Inr batch, db1)"
    and rest: "(let totals = (merge_batch totals batch)
             \<lparr>mr_batches := saturating_add_u32 (mr_batches totals) 1,
              mr_work_remaining := is_full batch limit\<rparr>
       in if \<not> mr_work_remaining totals then ok totals
          else run_batches es skips now limit n (Suc k) totals) db1 = (Inr r, db')"
    using Suc.prems(1) by (auto dest!: bind_op_InrD)
  have step: "saturating_add_u32 (mr_batches totals) (Suc 0) = Suc (mr_batches totals)"
    using Suc.prems(3) by (simp add: saturating_add_u32_def)
  have inv: "credit_inv t db1"
    using keeps_apply [OF run_batch_credit_inv transaction_OkD [OF one]] Suc.prems(2) by blast
  have keys: "keys_ok db"
    using Suc.prems(2) by (simp add: credit_inv_def)
  show ?case
  proof (cases "is_full batch limit")
    case True
    have "run_batches es skips now limit n (Suc k) ((merge_batch totals batch)
        \<lparr>mr_batches := Suc (mr_batches totals), mr_work_remaining := True\<rparr>) db1 = (Inr r, db')"
      using rest True by (simp add: Let_def step)
    from Suc.IH [OF this inv] Suc.prems(3) \<open>run_batches _ _ _ _ _ _ _ db1 = _\<close> show ?thesis
      by (cases n) (auto simp: ok_def Suc_diff_Suc)
  next
    case False
    then have "db' = db1" "mr_batches r = mr_batches totals + 1" "\<not> mr_work_remaining r"
      using rest step by (auto simp: Let_def ok_def)
    moreover have "none_overdue (skips k) now {Confirmed, AwaitingContinuation, Active} db1"
      using run_batch_none_overdue [OF transaction_OkD [OF one] keys False] .
    ultimately show ?thesis
      using inv by auto
  qed
qed

text \<open>\<^bold>\<open>C20.\<close> A run of the job under the leader lock commits at most \<open>max_batches\<close> batches and keeps
  the credit invariant.  When it reports that no work remains, every match past its deadline is
  expired or ended, but for those its last batch (number \<open>mr_batches r - 1\<close>, counted from zero) found
  locked by other transactions; when it uses fewer batches than it may, it reports exactly that.\<close>

theorem leader_run_finishes:
  assumes "run_as_leader acquired unlock es skips now batch_size max_batches db = (Inr (Some r), db')"
    and "credit_inv t db" "0 < max_batches" "max_batches \<le> u32_max"
  shows "acquired \<and> credit_inv t db' \<and> 0 < mr_batches r \<and> mr_batches r \<le> max_batches \<and>
    (mr_batches r < max_batches \<longrightarrow> \<not> mr_work_remaining r) \<and>
    (\<not> mr_work_remaining r \<longrightarrow> (\<forall>m \<in> set (match_init db').
       m_expires_at m \<le> now \<longrightarrow> \<not> skips (mr_batches r - 1) (m_id m) \<longrightarrow> m_status m \<in> {Expired, Ended}))"
proof -
  have run: "acquired" "run_batches es skips now batch_size max_batches 0 empty_result db = (Inr r, db')"
    using assms(1) by (auto simp: run_as_leader_def run_locked_def split: if_splits prod.splits sum.splits bool.splits)
  have "mr_batches empty_result + max_batches \<le> u32_max"
    using assms(4) by (simp add: empty_result_def)
  note out = run_batches_outcome [OF run(2) assms(2) this]
  have count: "0 < mr_batches r" "mr_batches r \<le> max_batches"
      "mr_batches r < max_batches \<longrightarrow> \<not> mr_work_remaining r"
    using out assms(3) by (auto simp: empty_result_def)
  have "none_overdue (skips (mr_batches r - 1)) now {Confirmed, AwaitingContinuation, Active} db'"
    if "\<not> mr_work_remaining r"
    using out that assms(3) by (simp add: empty_result_def)
  then have "\<forall>m \<in> set (match_init db'). m_expires_at m \<le> now \<longrightarrow> \<not> skips (mr_batches r - 1) (m_id m) \<longrightarrow>
      m_status m \<in> {Expired, Ended}" if "\<not> mr_work_remaining r"
    using that none_overdueD by meson
  then show ?thesis
    using count run(1) out by blast
qed

theorem leader_run_finishes_witness:
  "\<exists>r db'. run_as_leader True (Inr True) (\<lambda>_. sample_env 2000) (\<lambda>_ _. False) 2000 5 3 (sample_db Active 1000) =
     (Inr (Some r), db') \<and> \<not> mr_work_remaining r \<and> mr_batches r \<le> 3 \<and>
     (\<forall>m \<in> set (match_init db'). m_expires_at m \<le> 2000 \<longrightarrow> m_status m \<in> {Expired, Ended})"
proof -
  let ?run = "run_as_leader True (Inr True) (\<lambda>_. sample_env 2000) (\<lambda>_ _. False) 2000 5 3 (sample_db Active 1000)"
  obtain b d where batch: "run_batch (sample_env 2000) (\<lambda>_. False) 2000 5 (sample_db Active 1000) = (Inr b, d)"
      "\<not> is_full b 5"
    using sample_batch_runs unfolding sample_batch_def by (auto split: prod.splits sum.splits)
  then obtain r db' where run: "?run = (Inr (Some r), db')" "\<not> mr_work_remaining r"
    by (auto simp: run_as_leader_def run_locked_def numeral_3_eq_3 bind_op_def Let_def ok_def)
  have "credit_inv 0 (sample_db Active 1000)"
    by (simp add: credit_inv_defs used_of_def free_used_of_def balance_of_def held_def
        reserved_count_def rows_where_def find_match_def sample_defs ADVERTISING_STOCK_LIMIT_def
        FREE_WEEKLY_CREDITS_def FREE_WEEKLY_CONTINUATION_LIMIT_def)
  from leader_run_finishes [OF run(1) this] run(2) show ?thesis
    unfolding run by (auto simp: u32_max_def)
qed

end
