(* ===== verification/Reward_Properties.thy ===== *)
theory Reward_Properties
  imports Match_Invariant Samples
begin

text \<open>
  The properties of the advertising rewards and of the notifications the operations enqueue: a
  signed proof is consumed exactly once and grants exactly one credit of its week; a notification
  is stored once per type, source and recipient, with one push job per device.
\<close>

section \<open>A completed reward\<close>

lemma lock_eligible_accounts_state: "lock_eligible_accounts us legal db = (r, db') \<Longrightarrow> db' = db"
  by (auto simp: lock_eligible_accounts_def split: if_splits)

lemma lock_eligible_accounts_cong:
  "user_account db' = user_account db \<Longrightarrow>
   lock_eligible_accounts us None db = (Inr v, db) \<Longrightarrow> lock_eligible_accounts us None db' = (Inr v, db')"
  by (auto simp: lock_eligible_accounts_def account_eligible_def split: if_splits option.splits)

definition proof_accepted :: "callback \<Rightarrow> reward_intent_row \<Rightarrow> bool" where
  "proof_accepted cb r \<longleftrightarrow>
     ri_cancelled_at r = None \<and>
     (cb_ad_unit cb = ri_ad_unit r \<or> cb_ad_unit cb = last_segment (ri_ad_unit r))"

lemma complete_on_Ok:
  assumes "complete_on digest e cb db = (Inr v, db')"
  obtains r where "find_intent db (cb_intent_id cb) = Some r"
    "lock_eligible_accounts [ri_user r] None db = (Inr (), db)" "proof_accepted cb r"
    "ri_transaction_hash r = Some (transaction_hash digest cb) \<and> db' = db \<or>
     ri_transaction_hash r = None \<and> (\<exists>event. event_time cb = Some event \<and> in_window r event (clk e 0) \<and>
       credit_intent e cb (transaction_hash digest cb) r event db = (Inr (), db'))"
proof -
  obtain r where r: "find_intent db (cb_intent_id cb) = Some r"
    using assms by (auto simp: complete_on_def op_defs split: option.splits)
  have "lock_eligible_accounts [ri_user r] None db = (Inr (), db)"
    using assms r
    by (auto simp: complete_on_def op_defs map_err_def dest: lock_eligible_accounts_state
        split: prod.splits sum.splits)
  moreover from this assms r have
    "proof_accepted cb r \<and>
     (ri_transaction_hash r = Some (transaction_hash digest cb) \<and> db' = db \<or>
      ri_transaction_hash r = None \<and> (\<exists>event. event_time cb = Some event \<and> in_window r event (clk e 0) \<and>
       credit_intent e cb (transaction_hash digest cb) r event db = (Inr (), db')))"
    by (auto simp: complete_on_def op_defs map_err_def proof_accepted_def Let_def
        split: if_splits option.splits)
  ultimately show ?thesis
    using r that by blast
qed

lemma credit_intent_Ok:
  assumes "credit_intent e cb hash r event db = (Inr v, db')"
  obtains db1 where "finish_intent (ri_id r) (clk e 0) hash
      (start_of_utc_week event = start_of_utc_week (clk e 0)) db = (Inr (), db1)"
    "if start_of_utc_week event = start_of_utc_week (clk e 0)
     then grant_advertising_credit (ri_user r) (clk e 0) db1 = (Inr True, db') else db' = db1"
  using assms
  by (auto simp: credit_intent_def Let_def ok_def err_def map_err_def dest!: then_op_InrD bind_op_InrD
      split: if_splits prod.splits sum.splits)

lemma finish_intent_Ok:
  "finish_intent i now hash cur db = (Inr v, db') \<Longrightarrow>
   db' = update_intent i (\<lambda>r. r\<lparr>ri_completed_at := Some now, ri_transaction_hash := Some hash,
      ri_credited_at := (if cur then Some now else None)\<rparr>) db"
  by (auto simp: finish_intent_def split: if_splits)

lemma find_intent_id: "find_intent db i = Some r \<Longrightarrow> ri_id r = i"
  by (auto simp: find_intent_def dest: find_SomeD)

lemma find_intent_update:
  "(\<And>r. ri_id (f r) = ri_id r) \<Longrightarrow>
   find_intent (update_intent i f db) j = map_option (if i = j then f else id) (find_intent db j)"
  by (cases "find_intent db j")
     (auto simp: find_intent_def update_intent_def find_upd_where dest: find_SomeD)

lemma grant_frame:
  "grant_advertising_credit u now db = (Inr g, db') \<Longrightarrow>
   user_account db' = user_account db \<and> advertising_reward_intent db' = advertising_reward_intent db"
  by (auto simp: grant_advertising_credit_def Let_def split: option.splits if_splits)

text \<open>What a successful callback leaves behind: the accounts untouched and the intent closed with
  the hash of the proof.\<close>

lemma complete_on_stored:
  assumes "complete_on digest e cb db = (Inr v, db')"
  shows "\<exists>r. find_intent db' (cb_intent_id cb) = Some r \<and> proof_accepted cb r \<and>
    ri_transaction_hash r = Some (transaction_hash digest cb) \<and>
    lock_eligible_accounts [ri_user r] None db' = (Inr (), db')"
  using assms
proof (rule complete_on_Ok)
  fix r
  assume r: "find_intent db (cb_intent_id cb) = Some r"
    "lock_eligible_accounts [ri_user r] None db = (Inr (), db)" "proof_accepted cb r"
    and "ri_transaction_hash r = Some (transaction_hash digest cb) \<and> db' = db \<or>
     ri_transaction_hash r = None \<and> (\<exists>event. event_time cb = Some event \<and> in_window r event (clk e 0) \<and>
       credit_intent e cb (transaction_hash digest cb) r event db = (Inr (), db'))"
  then consider "ri_transaction_hash r = Some (transaction_hash digest cb)" "db' = db"
    | event where "credit_intent e cb (transaction_hash digest cb) r event db = (Inr (), db')"
    by blast
  then show ?thesis
  proof cases
    case 1
    then show ?thesis
      using r by blast
  next
    case 2
    then obtain db1 where db1: "finish_intent (ri_id r) (clk e 0) (transaction_hash digest cb)
        (start_of_utc_week event = start_of_utc_week (clk e 0)) db = (Inr (), db1)"
      and db': "if start_of_utc_week event = start_of_utc_week (clk e 0)
        then grant_advertising_credit (ri_user r) (clk e 0) db1 = (Inr True, db') else db' = db1"
      by (rule credit_intent_Ok)
    have same: "user_account db' = user_account db" "find_intent db' = find_intent db1"
      using db' grant_frame [of "ri_user r" "clk e 0" db1 True db'] finish_intent_Ok [OF db1]
      by (auto simp: find_intent_def [abs_def] update_intent_def split: if_splits)
    show ?thesis
      using r find_intent_id [OF r(1)] lock_eligible_accounts_cong [OF same(1) r(2)]
      by (simp add: same(2) finish_intent_Ok [OF db1] find_intent_update proof_accepted_def)
  qed
qed

lemma complete_on_replay:
  assumes "find_intent db (cb_intent_id cb) = Some r" "proof_accepted cb r"
    "ri_transaction_hash r = Some (transaction_hash digest cb)"
    "lock_eligible_accounts [ri_user r] None db = (Inr (), db)"
  shows "complete_on digest e cb db = (Inr (), db)"
  using assms by (simp add: complete_on_def op_defs map_err_def proof_accepted_def Let_def)

text \<open>\<^bold>\<open>C21.\<close> A reward proof is consumed exactly once: when a callback has been accepted, the same
  callback arriving again, at any later time, is accepted and changes nothing.\<close>

theorem reward_callback_is_idempotent:
  assumes "reward_complete digest cfg e cb db = (Inr (), db')"
  shows "reward_complete digest cfg e' cb db' = (Inr (), db')"
proof -
  have run: "complete_on digest e cb db = (Inr (), db')"
    using assms by (auto simp: reward_complete_def err_def dest: transaction_OkD split: if_splits)
  have "complete_on digest e' cb db' = (Inr (), db')"
    using complete_on_stored [OF run] complete_on_replay by blast
  then show ?thesis
    using assms by (auto simp: reward_complete_def err_def split: if_splits)
qed

definition sample_intent :: reward_intent_row where
  "sample_intent =
     \<lparr>ri_id = 30, ri_user = 1, ri_ad_unit = ''app/unit'', ri_created_at = 100, ri_expires_at = 5000,
      ri_completed_at = None, ri_credited_at = None, ri_cancelled_at = None,
      ri_transaction_hash = None\<rparr>"

definition sample_ads :: db where
  "sample_ads = sample_empty\<lparr>advertising_reward_intent := [sample_intent]\<rparr>"

definition sample_callback :: callback where
  "sample_callback =
     \<lparr>cb_intent_id = 30, cb_ad_unit = ''unit'', cb_transaction_id = ''AB'', cb_timestamp_ms = 1,
      cb_reward_amount = 1, cb_reward_item = ''credit''\<rparr>"

definition sample_ads_config :: advertising_config where
  "sample_ads_config =
     \<lparr>ads_enabled = True, android_ad_unit = ''app/unit'', ios_ad_unit = ''app/ios'',
      ads_reward_item = ''credit''\<rparr>"

definition sample_rewarded :: "(reward_error + unit) \<times> db" where
  "sample_rewarded = reward_complete id sample_ads_config (sample_env 2000) sample_callback sample_ads"

lemma sample_rewarded_runs:
  "case sample_rewarded of (Inr (), db') \<Rightarrow> balance_of db' 1 (- 3) = 1 | _ \<Rightarrow> False"
  by code_simp

theorem reward_callback_is_idempotent_witness:
  "\<exists>db'. sample_rewarded = (Inr (), db') \<and>
     reward_complete id sample_ads_config (sample_env 9000) sample_callback db' = (Inr (), db')"
proof -
  obtain db' where run: "sample_rewarded = (Inr (), db')"
    using sample_rewarded_runs by (auto split: prod.splits sum.splits)
  then show ?thesis
    using reward_callback_is_idempotent [OF run [unfolded sample_rewarded_def]] by blast
qed

section \<open>One credit\<close>

lemma grant_True:
  assumes "grant_advertising_credit u now db = (Inr True, db')"
  shows "balance_of db' u (start_of_utc_week now) = balance_of db u (start_of_utc_week now) + 1"
    and "balance_of db u (start_of_utc_week now) < ADVERTISING_STOCK_LIMIT"
    and "v \<noteq> u \<Longrightarrow> continuation_wallet db' v = continuation_wallet db v"
  using assms
  by (auto simp: grant_advertising_credit_def Let_def balance_of_def ADVERTISING_STOCK_LIMIT_def
      split: option.splits if_splits)

text \<open>\<^bold>\<open>C22.\<close> An accepted callback for an intent that was still open closes it and, when the
  advertisement was watched in the current week, adds exactly one advertising credit of that week to
  its owner, within the stock limit; a proof of an earlier week grants nothing.  The wallet of every
  other user is unchanged.\<close>

theorem reward_grants_one_credit:
  assumes "reward_complete digest cfg e cb db = (Inr (), db')"
    and "find_intent db (cb_intent_id cb) = Some r" "ri_transaction_hash r = None"
    and "event_time cb = Some event"
  defines "week \<equiv> start_of_utc_week (clk e 0)"
  shows "(\<exists>r'. find_intent db' (cb_intent_id cb) = Some r' \<and> ri_completed_at r' = Some (clk e 0) \<and>
      (ri_credited_at r' \<noteq> None \<longleftrightarrow> start_of_utc_week event = week)) \<and>
    (if start_of_utc_week event = week
     then balance_of db' (ri_user r) week = balance_of db (ri_user r) week + 1 \<and>
       balance_of db' (ri_user r) week \<le> ADVERTISING_STOCK_LIMIT
     else continuation_wallet db' = continuation_wallet db) \<and>
    (\<forall>v. v \<noteq> ri_user r \<longrightarrow> continuation_wallet db' v = continuation_wallet db v)"
proof -
  have "complete_on digest e cb db = (Inr (), db')"
    using assms(1) by (auto simp: reward_complete_def err_def dest: transaction_OkD split: if_splits)
  then have "credit_intent e cb (transaction_hash digest cb) r event db = (Inr (), db')"
    by (rule complete_on_Ok) (use assms in auto)
  then obtain db1 where db1: "finish_intent (ri_id r) (clk e 0) (transaction_hash digest cb)
      (start_of_utc_week event = week) db = (Inr (), db1)"
    and db': "if start_of_utc_week event = week
      then grant_advertising_credit (ri_user r) (clk e 0) db1 = (Inr True, db') else db' = db1"
    unfolding week_def by (rule credit_intent_Ok)
  note stored = finish_intent_Ok [OF db1]
  have wallet: "continuation_wallet db1 = continuation_wallet db" "balance_of db1 = balance_of db"
    by (simp_all add: stored update_intent_def balance_of_def [abs_def])
  have "find_intent db' = find_intent db1"
    using db' grant_frame [of "ri_user r" "clk e 0" db1 True db']
    by (auto simp: find_intent_def [abs_def] split: if_splits)
  then have "\<exists>r'. find_intent db' (cb_intent_id cb) = Some r' \<and> ri_completed_at r' = Some (clk e 0) \<and>
      (ri_credited_at r' \<noteq> None \<longleftrightarrow> start_of_utc_week event = week)"
    using assms(2) find_intent_id [OF assms(2)] by (simp add: stored find_intent_update)
  then show ?thesis
    using db' grant_True [of "ri_user r" "clk e 0" db1 db'] unfolding week_def [symmetric]
    by (auto simp: wallet)
qed

theorem reward_grants_one_credit_witness:
  "\<exists>db'. sample_rewarded = (Inr (), db') \<and> balance_of db' 1 (- 3) = balance_of sample_ads 1 (- 3) + 1"
proof -
  obtain db' where run: "sample_rewarded = (Inr (), db')"
    using sample_rewarded_runs by (auto split: prod.splits sum.splits)
  have "find_intent sample_ads (cb_intent_id sample_callback) = Some sample_intent"
    "ri_transaction_hash sample_intent = None" "event_time sample_callback = Some 1000"
    by (simp_all add: find_intent_def sample_ads_def sample_callback_def sample_intent_def event_time_def
        min_utc_def max_utc_def time_simps)
  from reward_grants_one_credit [OF run [unfolded sample_rewarded_def] this] show ?thesis
    using run
    by (auto simp: sample_intent_def sample_env_def start_of_utc_week_eq date_naive_def time_simps)
qed

section \<open>No proof serves twice\<close>

text \<open>The unique index on the hash of the transaction.\<close>

definition proofs_unique :: "db \<Rightarrow> bool" where
  "proofs_unique db \<longleftrightarrow>
     (\<forall>r \<in> set (advertising_reward_intent db). \<forall>r' \<in> set (advertising_reward_intent db).
        ri_transaction_hash r \<noteq> None \<and> ri_transaction_hash r = ri_transaction_hash r' \<longrightarrow> ri_id r = ri_id r')"

lemma proofs_uniqueD:
  assumes "proofs_unique db" "find_intent db i = Some r" "find_intent db j = Some r'"
    and "ri_transaction_hash r = Some h" "ri_transaction_hash r' = Some h"
  shows "i = j"
proof -
  have "r \<in> set (advertising_reward_intent db)" "r' \<in> set (advertising_reward_intent db)"
    "ri_id r = i" "ri_id r' = j"
    using assms(2,3) by (auto simp: find_intent_def dest: find_SomeD)
  then show ?thesis
    using assms(1,4,5) unfolding proofs_unique_def by (metis option.distinct(1))
qed

lemma finish_intent_proofs:
  assumes "finish_intent i now hash cur db = (Inr v, db')" "proofs_unique db"
  shows "proofs_unique db'"
proof -
  have fresh: "\<forall>r \<in> set (advertising_reward_intent db). ri_id r \<noteq> i \<longrightarrow> ri_transaction_hash r \<noteq> Some hash"
    using assms(1) by (auto simp: finish_intent_def split: if_splits)
  have rows: "ri_id x = i \<and> ri_transaction_hash x = Some hash \<or>
      ri_id x \<noteq> i \<and> x \<in> set (advertising_reward_intent db)"
    if "x \<in> set (advertising_reward_intent db')" for x
    using that unfolding finish_intent_Ok [OF assms(1)] by (auto simp: update_intent_def set_upd_where)
  show ?thesis
    unfolding proofs_unique_def
  proof (intro ballI impI)
    fix x y
    assume x: "x \<in> set (advertising_reward_intent db')" and y: "y \<in> set (advertising_reward_intent db')"
      and same: "ri_transaction_hash x \<noteq> None \<and> ri_transaction_hash x = ri_transaction_hash y"
    have old: "ri_id x = ri_id y"
      if "x \<in> set (advertising_reward_intent db)" "y \<in> set (advertising_reward_intent db)"
      using assms(2) same that unfolding proofs_unique_def by blast
    from rows [OF x] rows [OF y] show "ri_id x = ri_id y"
      by (elim disjE conjE) (use old fresh same in simp_all)
  qed
qed

lemma complete_on_proofs:
  assumes "complete_on digest e cb db = (Inr v, db')" "proofs_unique db"
  shows "proofs_unique db'"
  using assms(1)
proof (rule complete_on_Ok)
  fix r
  assume "ri_transaction_hash r = Some (transaction_hash digest cb) \<and> db' = db \<or>
     ri_transaction_hash r = None \<and> (\<exists>event. event_time cb = Some event \<and> in_window r event (clk e 0) \<and>
       credit_intent e cb (transaction_hash digest cb) r event db = (Inr (), db'))"
  then consider "db' = db"
    | event where "credit_intent e cb (transaction_hash digest cb) r event db = (Inr (), db')"
    by blast
  then show ?thesis
  proof cases
    case 1
    then show ?thesis
      using assms(2) by simp
  next
    case 2
    then obtain db1 where db1: "finish_intent (ri_id r) (clk e 0) (transaction_hash digest cb)
        (start_of_utc_week event = start_of_utc_week (clk e 0)) db = (Inr (), db1)"
      and db': "if start_of_utc_week event = start_of_utc_week (clk e 0)
        then grant_advertising_credit (ri_user r) (clk e 0) db1 = (Inr True, db') else db' = db1"
      by (rule credit_intent_Ok)
    have "advertising_reward_intent db' = advertising_reward_intent db1"
      using db' grant_frame [of "ri_user r" "clk e 0" db1 True db'] by (auto split: if_splits)
    then show ?thesis
      using finish_intent_proofs [OF db1 assms(2)] by (simp add: proofs_unique_def)
  qed
qed

lemma complete_on_other_intent:
  assumes "complete_on digest e cb db = (Inr v, db')" "j \<noteq> cb_intent_id cb"
  shows "find_intent db' j = find_intent db j"
  using assms(1)
proof (rule complete_on_Ok)
  fix r
  assume r: "find_intent db (cb_intent_id cb) = Some r"
    and "ri_transaction_hash r = Some (transaction_hash digest cb) \<and> db' = db \<or>
     ri_transaction_hash r = None \<and> (\<exists>event. event_time cb = Some event \<and> in_window r event (clk e 0) \<and>
       credit_intent e cb (transaction_hash digest cb) r event db = (Inr (), db'))"
  then show ?thesis
  proof (elim disjE conjE exE, goal_cases)
    case (2 event)
    from 2(5) show ?case
    proof (rule credit_intent_Ok)
      fix db1
      assume db1: "finish_intent (ri_id r) (clk e 0) (transaction_hash digest cb)
          (start_of_utc_week event = start_of_utc_week (clk e 0)) db = (Inr (), db1)"
        and db': "if start_of_utc_week event = start_of_utc_week (clk e 0)
          then grant_advertising_credit (ri_user r) (clk e 0) db1 = (Inr True, db') else db' = db1"
      have "find_intent db' = find_intent db1"
        using db' grant_frame [of "ri_user r" "clk e 0" db1 True db']
        by (auto simp: find_intent_def [abs_def] split: if_splits)
      then show ?thesis
        using assms(2) find_intent_id [OF r]
        by (simp add: finish_intent_Ok [OF db1] find_intent_update option.map_id)
    qed
  qed simp
qed

lemma reward_complete_refused:
  assumes "\<And>db2. complete_on digest e cb db \<noteq> (Inr (), db2)"
  shows "\<exists>er. reward_complete digest cfg e cb db = (Inl er, db)"
  using assms
  by (cases "complete_on digest e cb db"; cases "fst (complete_on digest e cb db)")
     (auto simp: reward_complete_def err_def transaction_def split: sum.splits)

text \<open>\<^bold>\<open>C23.\<close> A transaction of the advertising network serves one intent only, and an intent is served by
  one transaction only.  Once a proof has been accepted, and as long as the intent it completed is
  stored, presenting its transaction, in any letter case, for any other intent (open, completed or
  unknown) is refused, and so is presenting another transaction for the completed intent; neither
  changes anything.  The hashes stored stay unique.\<close>

theorem reward_proof_not_reusable:
  assumes "reward_complete digest cfg e cb db = (Inr (), db')" "proofs_unique db"
  shows "proofs_unique db' \<and>
    (\<forall>db2 cfg' e' cb'. proofs_unique db2 \<and>
         find_intent db2 (cb_intent_id cb) = find_intent db' (cb_intent_id cb) \<and>
         (if cb_intent_id cb' = cb_intent_id cb
          then transaction_hash digest cb' \<noteq> transaction_hash digest cb
          else map ascii_lower (cb_transaction_id cb') = map ascii_lower (cb_transaction_id cb)) \<longrightarrow>
       (\<exists>er. reward_complete digest cfg' e' cb' db2 = (Inl er, db2)))"
proof -
  have run: "complete_on digest e cb db = (Inr (), db')"
    using assms(1) by (auto simp: reward_complete_def err_def dest: transaction_OkD split: if_splits)
  obtain q where q: "find_intent db' (cb_intent_id cb) = Some q"
    "ri_transaction_hash q = Some (transaction_hash digest cb)"
    using complete_on_stored [OF run] by blast
  have "complete_on digest e' cb' db2 \<noteq> (Inr (), db3)"
    if u: "proofs_unique db2" and stored: "find_intent db2 (cb_intent_id cb) = Some q"
      and c: "if cb_intent_id cb' = cb_intent_id cb
          then transaction_hash digest cb' \<noteq> transaction_hash digest cb
          else map ascii_lower (cb_transaction_id cb') = map ascii_lower (cb_transaction_id cb)"
    for db2 e' cb' db3
  proof
    assume run': "complete_on digest e' cb' db2 = (Inr (), db3)"
    obtain r where r: "find_intent db3 (cb_intent_id cb') = Some r"
      "ri_transaction_hash r = Some (transaction_hash digest cb')"
      using complete_on_stored [OF run'] by blast
    have u3: "proofs_unique db3"
      by (rule complete_on_proofs [OF run' u])
    show False
    proof (cases "cb_intent_id cb' = cb_intent_id cb")
      case True
      from run' show False
        by (rule complete_on_Ok) (use True stored q(2) c in auto)
    next
      case False
      have "find_intent db3 (cb_intent_id cb) = Some q"
        using complete_on_other_intent [OF run' False [symmetric]] stored by simp
      then show False
        using proofs_uniqueD [OF u3 _ r(1) q(2), of "cb_intent_id cb"] r(2) c False
        by (simp add: transaction_hash_def)
    qed
  qed
  then show ?thesis
    using complete_on_proofs [OF run assms(2)] reward_complete_refused q(1) by metis
qed

definition sample_two_ads :: db where
  "sample_two_ads = sample_ads\<lparr>advertising_reward_intent := [sample_intent, sample_intent\<lparr>ri_id := 31\<rparr>]\<rparr>"

definition sample_first_ad :: "(reward_error + unit) \<times> db" where
  "sample_first_ad = reward_complete id sample_ads_config (sample_env 2000) sample_callback sample_two_ads"

lemma sample_two_rewarded: "case sample_first_ad of (Inr _, db') \<Rightarrow> True | _ \<Rightarrow> False"
  by code_simp

theorem reward_proof_not_reusable_witness:
  "\<exists>db' er. sample_first_ad = (Inr (), db') \<and>
     reward_complete id sample_ads_config (sample_env 2500)
       (sample_callback\<lparr>cb_intent_id := 31, cb_transaction_id := ''ab''\<rparr>) db' = (Inl er, db')"
proof -
  obtain db' where run: "sample_first_ad = (Inr (), db')"
    using sample_two_rewarded by (cases sample_first_ad) (auto split: sum.splits)
  let ?cb = "sample_callback\<lparr>cb_intent_id := 31, cb_transaction_id := ''ab''\<rparr>"
  have lower: "map ascii_lower (cb_transaction_id ?cb) = map ascii_lower (cb_transaction_id sample_callback)"
    by code_simp
  have ids: "cb_intent_id ?cb \<noteq> cb_intent_id sample_callback"
    by (simp add: sample_callback_def)
  have "proofs_unique sample_two_ads"
    by (simp add: proofs_unique_def sample_two_ads_def sample_ads_def sample_intent_def)
  from reward_proof_not_reusable [OF run [unfolded sample_first_ad_def] this] lower ids show ?thesis
    using run by (metis (no_types, lifting))
qed

section \<open>Notifications\<close>

text \<open>The table of notifications holds one row per identifier and per de-duplication key.\<close>

definition notifications_unique :: "db \<Rightarrow> bool" where
  "notifications_unique db \<longleftrightarrow>
     distinct (map n_id (notification db)) \<and> distinct (map n_deduplication_key (notification db))"

text \<open>What an event means to its recipient, read off the tables: whether it is still true, which match it
  is about, whether its category is switched off, and which devices are to be told.\<close>

fun still_true :: "db \<Rightarrow> instant \<Rightarrow> uuid \<Rightarrow> notification_intent \<Rightarrow> bool" where
  "still_true db t u (BillingPaymentFailed invoice) =
     (\<exists>v \<in> set (billing_invoice db). inv_id v = invoice \<and> inv_user v = u \<and> inv_status v = ''open'' \<and>
        0 < inv_amount_remaining v)"
| "still_true db t u (DataRequestReplied request status) =
     (\<exists>q reply. data_subject_request db request = Some q \<and> dr_user q = u \<and> dr_status q = status \<and>
        status \<in> {''in_progress'', ''completed'', ''rejected''} \<and> dr_response q = Some reply \<and>
        \<not> set reply \<subseteq> {32})"
| "still_true db t u (NewSession s) =
     ((\<exists>f \<in> set (refresh_token_family db). ses_id f = s \<and> ses_user f = u \<and> ses_revoked_at f = None \<and>
         t < ses_expires_at f) \<and>
      (\<exists>d \<in> set (device_token db). dev_user d = u \<and> dev_session d \<noteq> Some s \<and>
         (\<forall>s'. dev_session d = Some s' \<longrightarrow> (\<exists>f \<in> set (refresh_token_family db). ses_id f = s' \<and>
            ses_revoked_at f = None \<and> t < ses_expires_at f))))"
| "still_true db t u _ = True"

fun about_match :: "notification_intent \<Rightarrow> uuid option" where
  "about_match (NewMatch m) = Some m"
| "about_match (NewMessage m _ _) = Some m"
| "about_match (MatchExpiring m _) = Some m"
| "about_match (ContinuationRequested m _) = Some m"
| "about_match (ConversationContinued m) = Some m"
| "about_match (PhotosRevealed m _) = Some m"
| "about_match (FirstPeriodEnding m _) = Some m"
| "about_match _ = None"

fun switched_off :: "notification_preference \<Rightarrow> notification_intent \<Rightarrow> bool" where
  "switched_off p (NewMatch _) \<longleftrightarrow> \<not> pref_new_matches p"
| "switched_off p (NewMessage _ _ _) \<longleftrightarrow> \<not> pref_messages p"
| "switched_off p (MatchExpiring _ _) \<longleftrightarrow> \<not> pref_reminders p"
| "switched_off p (FirstPeriodEnding _ _) \<longleftrightarrow> \<not> pref_reminders p"
| "switched_off p (ContinuationRequested _ _) \<longleftrightarrow> \<not> pref_continuations p"
| "switched_off p (ConversationContinued _) \<longleftrightarrow> \<not> pref_continuations p"
| "switched_off p (PhotosRevealed _ _) \<longleftrightarrow> \<not> pref_photos p"
| "switched_off p (DataRequestReplied _ _) \<longleftrightarrow> \<not> pref_account_security p"
| "switched_off p (NewSession _) \<longleftrightarrow> \<not> pref_account_security p"
| "switched_off p (BillingPaymentFailed _) \<longleftrightarrow> \<not> pref_account_security p"

definition tells_device :: "db \<Rightarrow> instant \<Rightarrow> uuid \<Rightarrow> notification_intent \<Rightarrow> device_row \<Rightarrow> bool" where
  "tells_device db t u i d \<longleftrightarrow>
     dev_user d = u \<and>
     (\<forall>s. dev_session d = Some s \<longrightarrow> i \<noteq> NewSession s \<and>
        (\<exists>f \<in> set (refresh_token_family db). ses_id f = s \<and> ses_revoked_at f = None \<and> t < ses_expires_at f)) \<and>
     (\<forall>p. user_notification_preference db u = Some p \<longrightarrow> \<not> switched_off p i) \<and>
     (\<forall>m r. about_match i = Some m \<and> match_notification_preference db (m, u) = Some r \<and> muted r \<longrightarrow>
        (\<exists>until. muted_until r = Some until \<and> until \<le> t))"

lemma still_true_eligible: "notification_eligible db t u i \<longleftrightarrow> still_true db t u i"
proof (cases i)
  case (NewSession s)
  have "device_session_live db t d \<longleftrightarrow> (\<forall>s'. dev_session d = Some s' \<longrightarrow>
      (\<exists>f \<in> set (refresh_token_family db). ses_id f = s' \<and> ses_revoked_at f = None \<and> t < ses_expires_at f))" for d
    by (auto simp: device_session_live_def session_live_def split: option.splits)
  then show ?thesis
    by (simp add: NewSession notification_eligible_def match_notification_types_def
        billing_notification_eligible_def)
next
  case (DataRequestReplied r st)
  have "(\<exists>c \<in> set reply. c \<noteq> 32) \<longleftrightarrow> \<not> set reply \<subseteq> {32}" for reply :: "utext"
    by auto
  then show ?thesis
    by (auto simp: DataRequestReplied notification_eligible_def match_notification_types_def
        billing_notification_eligible_def split: option.splits)
next
  case (BillingPaymentFailed ref)
  then show ?thesis
    by (auto simp: notification_eligible_def match_notification_types_def billing_notification_eligible_def)
qed (simp_all add: notification_eligible_def match_notification_types_def)

lemma preferences_tell:
  "push_preferences_eligible db t u i \<longleftrightarrow>
     (\<forall>p. user_notification_preference db u = Some p \<longrightarrow> \<not> switched_off p i) \<and>
     (\<forall>m r. about_match i = Some m \<and> match_notification_preference db (m, u) = Some r \<and> muted r \<longrightarrow>
        (\<exists>until. muted_until r = Some until \<and> until \<le> t))"
proof -
  have "preference_allows p (kind i) \<longleftrightarrow> \<not> switched_off p i" for p
    by (cases i) simp_all
  moreover have "payload_match (payload i) = map_option JUuid (about_match i)"
    by (cases i) (simp_all add: payload_match_def)
  ultimately show ?thesis
    by (auto simp: push_preferences_eligible_def mute_active_def not_less split: option.splits)
qed

lemma push_targets_told: "push_targets db t u i = filter (tells_device db t u i) (device_token db)"
proof -
  have "(case excluded_session_id i of None \<Rightarrow> True | Some s \<Rightarrow> dev_session d \<noteq> Some s) \<longleftrightarrow>
      (\<forall>s. dev_session d = Some s \<longrightarrow> i \<noteq> NewSession s)" for d
    by (cases i) auto
  moreover have "device_session_live db t d \<longleftrightarrow> (\<forall>s. dev_session d = Some s \<longrightarrow>
      (\<exists>f \<in> set (refresh_token_family db). ses_id f = s \<and> ses_revoked_at f = None \<and> t < ses_expires_at f))" for d
    by (auto simp: device_session_live_def session_live_def split: option.splits)
  ultimately show ?thesis
    unfolding push_targets_def tells_device_def preferences_tell by (intro filter_cong) auto
qed

text \<open>The effect of an enqueue that succeeds, over these readings of the tables.\<close>

lemma enqueue_effect:
  assumes "enqueue_notification e k t u src i db = (Inr (), db')"
  shows "if live_account db u \<and> still_true db t u i \<and>
       sha256_hex e (kind i) src u \<notin> set (map n_deduplication_key (notification db))
     then \<exists>jobs ds. db' = db\<lparr>notification := notification db @
             [new_notification e t (prepare_notification e k u src i) u i],
           outbox_event := outbox_event db @ jobs,
           notification_push_delivery := notification_push_delivery db @ ds\<rparr> \<and>
         new_v4 e k \<notin> set (map n_id (notification db)) \<and> billing_context_ok i \<and>
         map pd_device ds = map dev_id (filter (tells_device db t u i) (device_token db)) \<and>
         map ob_aggregate_id jobs = map pd_id ds \<and>
         (\<forall>d \<in> set ds. pd_notification d = new_v4 e k) \<and>
         (\<forall>j \<in> set jobs. ob_type j = ''notification.push'' \<and> ob_status j = OS_Pending \<and> ob_attempts j = 0)
     else db' = db"
proof (cases "live_account db u \<and> still_true db t u i \<and>
       sha256_hex e (kind i) src u \<notin> set (map n_deduplication_key (notification db))")
  case True
  let ?p = "prepare_notification e k u src i"
  let ?ds = "push_targets db t u i"
  have new: "db' = db\<lparr>notification := notification db @ [new_notification e t ?p u i],
      outbox_event := outbox_event db @ push_jobs e k (length ?ds),
      notification_push_delivery := notification_push_delivery db @
        push_deliveries e k (notification_id ?p) ?ds\<rparr>"
    "new_v4 e k \<notin> set (map n_id (notification db))" "billing_context_ok i"
    using assms True
    by (auto simp: enqueue_notification_def Let_def image_iff prepare_notification_def still_true_eligible
        split: if_splits)
  have "map pd_device (push_deliveries e k nid ds) = map dev_id ds" for nid ds
    by (simp add: push_deliveries_def comp_def case_prod_beta flip: map_map [of dev_id snd, unfolded comp_def])
  moreover have "map pd_id (push_deliveries e k nid ds) = map (uuid_generate_v4 e k) [0..<length ds]" for nid ds
    by (simp add: push_deliveries_def comp_def case_prod_beta
        flip: map_map [of "uuid_generate_v4 e k" fst, unfolded comp_def])
  moreover have "map ob_aggregate_id (push_jobs e k n) = map (uuid_generate_v4 e k) [0..<n]" for n
    by (simp add: push_jobs_def push_job_def outbox_defaults_def comp_def)
  moreover have "\<forall>j \<in> set (push_jobs e k n). ob_type j = ''notification.push'' \<and> ob_status j = OS_Pending \<and>
      ob_attempts j = 0" for n
    by (auto simp: push_jobs_def push_job_def outbox_defaults_def)
  moreover have "\<forall>d \<in> set (push_deliveries e k (notification_id ?p) ds). pd_notification d = new_v4 e k" for ds
    by (auto simp: push_deliveries_def prepare_notification_def)
  ultimately show ?thesis
    unfolding if_P [OF True] push_targets_told [symmetric]
    by (intro exI [of _ "push_jobs e k (length ?ds)"] exI [of _ "push_deliveries e k (notification_id ?p) ?ds"])
       (use new in simp)
next
  case False
  then have "db' = db"
    using assms
    by (auto simp: enqueue_notification_def Let_def prepare_notification_def still_true_eligible split: if_splits)
  then show ?thesis
    unfolding if_not_P [OF False] .
qed

text \<open>\<^bold>\<open>C24.\<close> Enqueuing a notification stores it once and tells the right devices.  Nothing is stored for an
  account that is gone, for an event the tables no longer bear out (an invoice that is paid, a
  request answered otherwise, a session that is over), or for an event already stored under the same
  key.  Otherwise the inbox gains one unread row of the recipient, kept ninety days for a match, a
  message or a failed payment, until its deadline for a reminder, and one day otherwise; and the
  outbox gains one pending push job, with its delivery, for exactly the devices of
  the recipient that are signed in, are not the new session itself, and whose owner has neither
  switched off the category nor muted the match at that instant.  The keys stay unique, and
  enqueuing the event again under the same key, at any time, stores nothing.\<close>

theorem enqueue_stores_once:
  assumes "enqueue_notification e k t u src i db = (Inr (), db')" "notifications_unique db"
  shows "notifications_unique db' \<and>
    (if (\<exists>a. user_account db u = Some a \<and> deleted_at a = None \<and> \<not> is_banned a) \<and> still_true db t u i \<and>
        sha256_hex e (kind i) src u \<notin> set (map n_deduplication_key (notification db))
     then \<exists>n jobs ds. notification db' = notification db @ [n] \<and> n_user n = u \<and> n_type n = kind i \<and>
         n_payload n = payload i \<and> n_read_at n = None \<and>
         n_deduplication_key n = sha256_hex e (kind i) src u \<and>
         n_expires_at n = (case i of MatchExpiring _ x \<Rightarrow> x | FirstPeriodEnding _ x \<Rightarrow> x
           | NewMatch _ \<Rightarrow> t + days 90 | NewMessage _ _ _ \<Rightarrow> t + days 90
           | BillingPaymentFailed _ \<Rightarrow> t + days 90 | _ \<Rightarrow> t + days 1) \<and>
         outbox_event db' = outbox_event db @ jobs \<and>
         notification_push_delivery db' = notification_push_delivery db @ ds \<and>
         map pd_device ds = map dev_id (filter (tells_device db t u i) (device_token db)) \<and>
         map ob_aggregate_id jobs = map pd_id ds \<and> (\<forall>d \<in> set ds. pd_notification d = n_id n) \<and>
         (\<forall>j \<in> set jobs. ob_type j = ''notification.push'' \<and> ob_status j = OS_Pending \<and> ob_attempts j = 0) \<and>
         (\<forall>e' k' t' src'. sha256_hex e' (kind i) src' u = sha256_hex e (kind i) src u \<longrightarrow>
            enqueue_notification e' k' t' u src' i db' = (Inr (), db'))
     else db' = db)"
proof -
  have live: "live_account db u \<longleftrightarrow> (\<exists>a. user_account db u = Some a \<and> deleted_at a = None \<and> \<not> is_banned a)"
    by (auto simp: live_account_def split: option.splits)
  let ?n = "new_notification e t (prepare_notification e k u src i) u i"
  have n: "n_user ?n = u" "n_type ?n = kind i" "n_payload ?n = payload i" "n_read_at ?n = None"
    "n_deduplication_key ?n = sha256_hex e (kind i) src u" "n_id ?n = new_v4 e k"
    by (simp_all add: new_notification_def prepare_notification_def)
  have kept: "n_expires_at ?n = (case i of MatchExpiring _ x \<Rightarrow> x | FirstPeriodEnding _ x \<Rightarrow> x
      | NewMatch _ \<Rightarrow> t + days 90 | NewMessage _ _ _ \<Rightarrow> t + days 90
      | BillingPaymentFailed _ \<Rightarrow> t + days 90 | _ \<Rightarrow> t + days 1)"
    by (cases i) (simp_all add: new_notification_def retention_seconds_def Let_def time_simps)
  show ?thesis
  proof (cases "live_account db u \<and> still_true db t u i \<and>
      sha256_hex e (kind i) src u \<notin> set (map n_deduplication_key (notification db))")
    case True
    then obtain jobs ds where db': "db' = db\<lparr>notification := notification db @ [?n],
          outbox_event := outbox_event db @ jobs,
          notification_push_delivery := notification_push_delivery db @ ds\<rparr>"
      and fresh: "new_v4 e k \<notin> set (map n_id (notification db))" and ctx: "billing_context_ok i"
      and told: "map pd_device ds = map dev_id (filter (tells_device db t u i) (device_token db))"
        "map ob_aggregate_id jobs = map pd_id ds" "\<forall>d \<in> set ds. pd_notification d = new_v4 e k"
        "\<forall>j \<in> set jobs. ob_type j = ''notification.push'' \<and> ob_status j = OS_Pending \<and> ob_attempts j = 0"
      using enqueue_effect [OF assms(1)] unfolding if_P [OF True] by blast
    have "notifications_unique db'"
      using True fresh assms(2) n by (simp add: db' notifications_unique_def)
    moreover have "enqueue_notification e' k' t' u src' i db' = (Inr (), db')"
      if "sha256_hex e' (kind i) src' u = sha256_hex e (kind i) src u" for e' k' t' src'
      using that ctx n(5)
      by (simp add: enqueue_notification_def Let_def prepare_notification_def db')
    ultimately show ?thesis
      unfolding live [symmetric] if_P [OF True]
      by (intro conjI exI [of _ ?n] exI [of _ jobs] exI [of _ ds]) (simp_all add: n kept told db')
  next
    case False
    have "db' = db"
      using enqueue_effect [OF assms(1)] unfolding if_not_P [OF False] .
    then show ?thesis
      unfolding live [symmetric] if_not_P [OF False] using assms(2) by simp
  qed
qed

definition sample_notified :: "(database_error + unit) \<times> db" where
  "sample_notified =
     enqueue_notification (sample_env 500) 0 500 1 (SUuid 10) (NewMatch 10) (sample_db Active 1000)"

lemma sample_notified_runs:
  "case sample_notified of (Inr _, db') \<Rightarrow> length (notification db') = 1 | _ \<Rightarrow> False"
  by code_simp

theorem enqueue_stores_once_witness:
  "\<exists>db'. sample_notified = (Inr (), db') \<and> notifications_unique db' \<and> length (notification db') = 1"
proof -
  obtain db' where run: "sample_notified = (Inr (), db')" "length (notification db') = 1"
    using sample_notified_runs by (auto split: prod.splits sum.splits)
  have "notifications_unique (sample_db Active 1000)"
    by (simp add: notifications_unique_def sample_defs)
  then show ?thesis
    using enqueue_stores_once [OF run(1) [unfolded sample_notified_def]] run by blast
qed

end
