(* ===== verification/Outbox.thy ===== *)
theory Outbox
  imports Database Notifications
begin

text \<open>
  \<^verbatim>\<open>src/outbox/pg.rs\<close>: the table of durable events and the statements on it.  The state of an
  operation is the table \<^verbatim>\<open>outbox_event\<close>; \<open>on_outbox\<close> runs it on the database.  Every statement
  checks the constraints of the table (\<^verbatim>\<open>db/001_schema_postgres.sql\<close>) on the rows it writes.
\<close>

section \<open>Constraints\<close>

definition name_start :: "char \<Rightarrow> bool" where
  "name_start c \<longleftrightarrow> (let n = (of_char c :: int) in 97 \<le> n \<and> n \<le> 122)"

definition name_part :: "char \<Rightarrow> bool" where
  "name_part c \<longleftrightarrow>
     name_start c \<or> (let n = (of_char c :: int) in (48 \<le> n \<and> n \<le> 57) \<or> n = 95)"

text \<open>\<^verbatim>\<open>[a-z][a-z0-9_]*\<close>, dotted names of two parts or more, and error codes of at most 64
  characters.\<close>

definition name_ok :: "string \<Rightarrow> bool" where
  "name_ok s \<longleftrightarrow> (case s of [] \<Rightarrow> False | c # cs \<Rightarrow> name_start c \<and> list_all name_part cs)"

fun dot_parts :: "string \<Rightarrow> string list" where
  "dot_parts [] = [[]]"
| "dot_parts (c # cs) =
     (if c = CHR ''.'' then [] # dot_parts cs
      else case dot_parts cs of [] \<Rightarrow> [[c]] | p # ps \<Rightarrow> (c # p) # ps)"

definition event_type_ok :: "string \<Rightarrow> bool" where
  "event_type_ok s \<longleftrightarrow> 2 \<le> length (dot_parts s) \<and> list_all name_ok (dot_parts s)"

definition error_code_ok :: "string option \<Rightarrow> bool" where
  "error_code_ok c \<longleftrightarrow> (case c of None \<Rightarrow> True | Some s \<Rightarrow> name_ok s \<and> length s \<le> 64)"

definition OUTBOX_ATTEMPTS_CHECK :: nat where "OUTBOX_ATTEMPTS_CHECK = 100"

definition completion_ok :: "outbox_row \<Rightarrow> bool" where
  "completion_ok r \<longleftrightarrow> (ob_status r = OS_Completed \<longleftrightarrow> ob_processed_at r \<noteq> None)"

definition dead_letter_ok :: "outbox_row \<Rightarrow> bool" where
  "dead_letter_ok r \<longleftrightarrow>
     (ob_status r \<in> {OS_DeadLetter, OS_Discarded} \<longleftrightarrow> ob_dead_lettered_at r \<noteq> None)"

definition lock_ok :: "outbox_row \<Rightarrow> bool" where
  "lock_ok r \<longleftrightarrow>
     (if ob_status r = OS_Processing then ob_locked_at r \<noteq> None \<and> ob_locked_by r \<noteq> None
      else ob_locked_at r = None \<and> ob_locked_by r = None)"

definition resolution_ok :: "outbox_row \<Rightarrow> bool" where
  "resolution_ok r \<longleftrightarrow>
     (if ob_status r = OS_Discarded
      then ob_resolved_at r \<noteq> None \<and>
        (case ob_resolution_reason r of None \<Rightarrow> False | Some s \<Rightarrow> 3 \<le> length s \<and> length s \<le> 500)
      else ob_resolved_at r = None \<and> ob_resolved_by r = None \<and> ob_resolution_reason r = None)"

definition outbox_row_ok :: "outbox_row \<Rightarrow> bool" where
  "outbox_row_ok r \<longleftrightarrow>
     completion_ok r \<and> dead_letter_ok r \<and> lock_ok r \<and> resolution_ok r \<and>
     ob_attempts r \<le> OUTBOX_ATTEMPTS_CHECK \<and> event_type_ok (ob_type r) \<and>
     error_code_ok (ob_last_error_code r)"

lemmas outbox_row_defs = outbox_row_ok_def completion_ok_def dead_letter_ok_def lock_ok_def
  resolution_ok_def

text \<open>The table: its two keys and the constraints on each row.\<close>

definition outbox_key :: "outbox_row \<Rightarrow> string \<times> uuid" where
  "outbox_key r = (ob_type r, ob_aggregate_id r)"

definition outbox_ok :: "outbox_row list \<Rightarrow> bool" where
  "outbox_ok rows \<longleftrightarrow>
     distinct (map ob_id rows) \<and> distinct (map outbox_key rows) \<and> list_all outbox_row_ok rows"

text \<open>\<^verbatim>\<open>UPDATE outbox_event SET f WHERE P\<close>: a row that breaks a constraint fails the statement.\<close>

definition update_rows ::
  "(outbox_row \<Rightarrow> bool) \<Rightarrow> (outbox_row \<Rightarrow> outbox_row) \<Rightarrow> (outbox_row list, database_error, nat) op" where
  "update_rows P f rows =
     (if list_all (\<lambda>r. P r \<longrightarrow> outbox_row_ok (f r)) rows
      then (Inr (rows_where P rows), upd_where P f rows)
      else (Inl (Constraint Check), rows))"

section \<open>Enqueue\<close>

definition event_row :: "instant \<Rightarrow> uuid \<Rightarrow> new_outbox_event \<Rightarrow> outbox_row" where
  "event_row now new_id ev =
     outbox_defaults now new_id (event_type_as_str (new_type ev)) (new_aggregate_id ev) (new_payload ev)"

definition enqueue ::
  "instant \<Rightarrow> uuid \<Rightarrow> new_outbox_event \<Rightarrow> (outbox_row list, database_error, bool) op" where
  "enqueue now new_id ev rows =
     (let r = event_row now new_id ev in
      if \<not> outbox_row_ok r then (Inl (Constraint Check), rows)
      else if outbox_key r \<in> set (map outbox_key rows) then (Inr False, rows)
      else if new_id \<in> set (map ob_id rows) then (Inl (Constraint Unique), rows)
      else (Inr True, rows @ [r]))"

definition requeued_row :: "instant \<Rightarrow> outbox_row \<Rightarrow> outbox_row" where
  "requeued_row t r =
     r\<lparr>ob_status := OS_Pending, ob_attempts := 0, ob_available_at := t, ob_locked_at := None,
       ob_locked_by := None, ob_last_error_code := None, ob_processed_at := None,
       ob_dead_lettered_at := None, ob_resolved_at := None, ob_resolved_by := None,
       ob_resolution_reason := None\<rparr>"

definition requeue ::
  "instant \<Rightarrow> instant \<Rightarrow> uuid \<Rightarrow> new_outbox_event \<Rightarrow> (outbox_row list, database_error, unit) op" where
  "requeue now t new_id ev rows =
     (let r = event_row now new_id ev in
      if \<not> outbox_row_ok r then (Inl (Constraint Check), rows)
      else if outbox_key r \<in> set (map outbox_key rows)
      then then_op (update_rows (\<lambda>x. outbox_key x = outbox_key r) (requeued_row t)) (ok ()) rows
      else if new_id \<in> set (map ob_id rows) then (Inl (Constraint Unique), rows)
      else (Inr (), rows @ [r]))"

section \<open>Claims\<close>

text \<open>An event is due when it waits and its time has come, or when its claim is stale.\<close>

definition due_event :: "claim_window \<Rightarrow> outbox_row \<Rightarrow> bool" where
  "due_event w r \<longleftrightarrow>
     ob_status r = OS_Pending \<and> ob_available_at r \<le> cw_now w \<or>
     ob_status r = OS_Processing \<and>
       (case ob_locked_at r of Some t \<Rightarrow> t \<le> cw_stale_before w | None \<Rightarrow> False)"

definition claim_key :: "outbox_row \<Rightarrow> instant \<times> instant \<times> uuid" where
  "claim_key r = (ob_available_at r, ob_created_at r, ob_id r)"

text \<open>\<open>skip\<close> tells the rows another transaction has locked.\<close>

definition claim_candidates ::
  "(uuid \<Rightarrow> bool) \<Rightarrow> claim_window \<Rightarrow> nat \<Rightarrow> outbox_row list \<Rightarrow> uuid list" where
  "claim_candidates skip w limit rows =
     map ob_id (order_limit claim_key limit (filter (\<lambda>r. due_event w r \<and> \<not> skip (ob_id r)) rows))"

definition claimed_row :: "uuid \<Rightarrow> instant \<Rightarrow> outbox_row \<Rightarrow> outbox_row" where
  "claimed_row worker now r =
     r\<lparr>ob_status := OS_Processing, ob_attempts := ob_attempts r + 1, ob_locked_at := Some now,
       ob_locked_by := Some worker\<rparr>"

text \<open>The payload of a stored row is an object, its status one of the five and its attempts not
  negative (constraints of the table), so no row fails to map.\<close>

definition map_claimed_row :: "outbox_row \<Rightarrow> outbox_event" where
  "map_claimed_row r =
     \<lparr>ev_id = ob_id r, ev_type = event_type_parse (ob_type r), ev_aggregate_id = ob_aggregate_id r,
      ev_payload = ob_payload r, ev_status = ob_status r, ev_attempts = ob_attempts r\<rparr>"

definition claim_batch ::
  "(uuid \<Rightarrow> bool) \<Rightarrow> uuid \<Rightarrow> claim_window \<Rightarrow> nat \<Rightarrow> (outbox_row list, database_error, outbox_event list) op"
  where
  "claim_batch skip worker w limit =
     bind_op (gets (claim_candidates skip w limit)) (\<lambda>ids.
     then_op (update_rows (\<lambda>r. ob_id r \<in> set ids) (claimed_row worker (cw_now w)))
       (gets (\<lambda>rows. map map_claimed_row (filter (\<lambda>r. ob_id r \<in> set ids) rows))))"

definition owned :: "uuid \<Rightarrow> uuid \<Rightarrow> outbox_row \<Rightarrow> bool" where
  "owned i worker r \<longleftrightarrow>
     ob_id r = i \<and> ob_status r = OS_Processing \<and> ob_locked_by r = Some worker"

definition renew_claim :: "instant \<Rightarrow> uuid \<Rightarrow> uuid \<Rightarrow> (outbox_row list, database_error, bool) op" where
  "renew_claim t i worker =
     bind_op (update_rows (owned i worker) (\<lambda>r. r\<lparr>ob_locked_at := Some t\<rparr>)) (\<lambda>n. ok (n = 1))"

definition completed_row :: "instant \<Rightarrow> outbox_row \<Rightarrow> outbox_row" where
  "completed_row t r =
     r\<lparr>ob_status := OS_Completed, ob_processed_at := Some t, ob_locked_at := None,
       ob_locked_by := None, ob_last_error_code := None, ob_dead_lettered_at := None\<rparr>"

definition complete :: "uuid \<Rightarrow> uuid \<Rightarrow> instant \<Rightarrow> (outbox_row list, database_error, bool) op" where
  "complete i worker processed_at =
     bind_op (update_rows (owned i worker) (completed_row processed_at)) (\<lambda>n. ok (n = 1))"

definition i16_max :: nat where "i16_max = 32767"

text \<open>\<^verbatim>\<open>i16::try_from\<close> of an unsigned number.\<close>

definition exceeds_i16 :: "nat \<Rightarrow> bool" where
  "exceeds_i16 n \<longleftrightarrow> n > i16_max"

lemma exceeds_i16_code [code]: "exceeds_i16 n \<longleftrightarrow> int n > 32767"
  by (auto simp: exceeds_i16_def i16_max_def)

definition rescheduled_row :: "instant \<Rightarrow> instant \<Rightarrow> string \<Rightarrow> nat \<Rightarrow> outbox_row \<Rightarrow> outbox_row" where
  "rescheduled_row t available_at code max_attempts r =
     (let dead = ob_attempts r \<ge> max_attempts in
      r\<lparr>ob_status := (if dead then OS_DeadLetter else OS_Pending), ob_available_at := available_at,
        ob_locked_at := None, ob_locked_by := None, ob_last_error_code := Some code,
        ob_dead_lettered_at := (if dead then Some t else None)\<rparr>)"

fun retry_of_status :: "outbox_status option \<Rightarrow> database_error + retry_result" where
  "retry_of_status (Some OS_Pending) = Inr RetryPending"
| "retry_of_status (Some OS_DeadLetter) = Inr RetryDeadLetter"
| "retry_of_status None = Inr RetryNotOwned"
| "retry_of_status _ = Inl QueryFailed"

text \<open>\<^verbatim>\<open>RETURNING status\<close> reads the updated row; \<open>t\<close> is \<^verbatim>\<open>clock_timestamp()\<close>.\<close>

definition reschedule ::
  "instant \<Rightarrow> uuid \<Rightarrow> uuid \<Rightarrow> instant \<Rightarrow> string \<Rightarrow> nat \<Rightarrow> (outbox_row list, database_error, retry_result) op"
  where
  "reschedule t i worker available_at code max_attempts =
     (if exceeds_i16 max_attempts then err QueryFailed
      else
        bind_op (gets (find (owned i worker))) (\<lambda>mine.
        then_op (update_rows (owned i worker) (rescheduled_row t available_at code max_attempts))
          (lift_result (\<lambda>_. retry_of_status
             (map_option (\<lambda>r. ob_status (rescheduled_row t available_at code max_attempts r)) mine)))))"

section \<open>Purge\<close>

definition cleanup_key :: "(outbox_row \<Rightarrow> instant option) \<Rightarrow> outbox_row \<Rightarrow> instant \<times> uuid" where
  "cleanup_key at r = ((case at r of Some t \<Rightarrow> t | None \<Rightarrow> 0), ob_id r)"

definition resolved_by_time ::
  "outbox_status \<Rightarrow> (outbox_row \<Rightarrow> instant option) \<Rightarrow> instant \<Rightarrow> outbox_row \<Rightarrow> bool" where
  "resolved_by_time s at before r \<longleftrightarrow>
     ob_status r = s \<and> (case at r of Some t \<Rightarrow> t \<le> before | None \<Rightarrow> False)"

definition purge_candidates :: "instant \<Rightarrow> nat \<Rightarrow> outbox_row list \<Rightarrow> uuid list" where
  "purge_candidates before limit rows =
     (let side = (\<lambda>s at. map (cleanup_key at)
            (order_limit (cleanup_key at) limit (filter (resolved_by_time s at before) rows)))
      in map snd (take limit (sort (side OS_Completed ob_processed_at @ side OS_Discarded ob_resolved_at))))"

definition purge_resolved :: "instant \<Rightarrow> nat \<Rightarrow> (outbox_row list, database_error, nat) op" where
  "purge_resolved before limit rows =
     (let ids = purge_candidates before limit rows
      in (Inr (rows_where (\<lambda>r. ob_id r \<in> set ids) rows), del_where (\<lambda>r. ob_id r \<in> set ids) rows))"

section \<open>On the database\<close>

definition on_outbox :: "(outbox_row list, 'e, 'a) op \<Rightarrow> ('x db_scheme, 'e, 'a) op" where
  "on_outbox m db =
     (case m (outbox_event db) of (r, rows) \<Rightarrow> (r, db\<lparr>outbox_event := rows\<rparr>))"

end
