(* ===== verification/Outbox_Proofs.thy ===== *)
theory Outbox_Proofs
  imports Outbox
begin

text \<open>
  Lemmas about the outbox table: every statement keeps its constraints and keys, claims belong to
  one worker, and the purge takes only events that were resolved in time.
\<close>

section \<open>Updates\<close>

lemma update_rows_Ok:
  "update_rows P f rows = (Inr n, rows') \<Longrightarrow> n = rows_where P rows \<and> rows' = upd_where P f rows"
  by (auto simp: update_rows_def split: if_splits)

lemma update_rows_state:
  "snd (update_rows P f rows) = (if list_all (\<lambda>r. P r \<longrightarrow> outbox_row_ok (f r)) rows
     then upd_where P f rows else rows)"
  by (simp add: update_rows_def)

lemma update_rows_keeps:
  assumes "\<And>r. ob_id (f r) = ob_id r" "\<And>r. outbox_key (f r) = outbox_key r" "outbox_ok rows"
  shows "outbox_ok (snd (update_rows P f rows))"
  using assms by (auto simp: update_rows_state outbox_ok_def map_upd_where list_all_iff set_upd_where)

text \<open>An update that touches no row changes nothing and cannot fail.\<close>

lemma update_rows_none:
  "(\<And>r. r \<in> set rows \<Longrightarrow> \<not> P r) \<Longrightarrow> update_rows P f rows = (Inr 0, rows)"
  by (auto simp: update_rows_def list_all_iff rows_where_eq_0 upd_where_def intro!: map_idI)

lemma snd_bind_ok [simp]: "snd (bind_op m (\<lambda>x. ok (g x)) s) = snd (m s)"
  by (auto simp: bind_op_def ok_def split: prod.splits sum.splits)

lemma snd_then_lift [simp]: "snd (then_op m (lift_result g) s) = snd (m s)"
  by (auto simp: then_op_def bind_op_def lift_result_def split: prod.splits sum.splits)

lemma snd_then_gets [simp]: "snd (then_op m (gets g) s) = snd (m s)"
  by (auto simp: then_op_def bind_op_def gets_def split: prod.splits sum.splits)

lemma snd_then_ok [simp]: "snd (then_op m (ok v) s) = snd (m s)"
  by (auto simp: then_op_def bind_op_def ok_def split: prod.splits sum.splits)

lemma bind_gets [simp]: "bind_op (gets g) f s = f (g s) s"
  by (simp add: bind_op_def gets_def)

lemma row_update_keys [simp]:
  "ob_id (requeued_row t r) = ob_id r" "outbox_key (requeued_row t r) = outbox_key r"
  "ob_id (claimed_row w t r) = ob_id r" "outbox_key (claimed_row w t r) = outbox_key r"
  "ob_id (completed_row t r) = ob_id r" "outbox_key (completed_row t r) = outbox_key r"
  "ob_id (rescheduled_row t a c m r) = ob_id r" "outbox_key (rescheduled_row t a c m r) = outbox_key r"
  by (simp_all add: requeued_row_def claimed_row_def completed_row_def rescheduled_row_def
      outbox_key_def Let_def)

lemma outbox_ok_append:
  "outbox_ok rows \<Longrightarrow> outbox_row_ok r \<Longrightarrow> ob_id r \<notin> set (map ob_id rows) \<Longrightarrow>
   outbox_key r \<notin> set (map outbox_key rows) \<Longrightarrow> outbox_ok (rows @ [r])"
  by (auto simp: outbox_ok_def)

lemma outbox_ok_filter: "outbox_ok rows \<Longrightarrow> outbox_ok (filter P rows)"
  by (auto simp: outbox_ok_def distinct_map_filter list_all_iff)

section \<open>The invariant of the table\<close>

lemma ob_id_event_row [simp]: "ob_id (event_row now i ev) = i"
  by (simp add: event_row_def outbox_defaults_def)

lemma enqueue_outbox_ok: "outbox_ok rows \<Longrightarrow> outbox_ok (snd (enqueue now i ev rows))"
  by (auto simp: enqueue_def Let_def intro!: outbox_ok_append)

lemma requeue_outbox_ok: "outbox_ok rows \<Longrightarrow> outbox_ok (snd (requeue now t i ev rows))"
  by (auto simp: requeue_def Let_def intro!: outbox_ok_append update_rows_keeps)

lemma claim_outbox_ok: "outbox_ok rows \<Longrightarrow> outbox_ok (snd (claim_batch skip w win limit rows))"
  by (auto simp: claim_batch_def intro!: update_rows_keeps)

lemma renew_outbox_ok: "outbox_ok rows \<Longrightarrow> outbox_ok (snd (renew_claim t i w rows))"
  by (auto simp: renew_claim_def outbox_key_def intro!: update_rows_keeps)

lemma complete_outbox_ok: "outbox_ok rows \<Longrightarrow> outbox_ok (snd (complete i w t rows))"
  by (auto simp: complete_def intro!: update_rows_keeps)

lemma reschedule_outbox_ok: "outbox_ok rows \<Longrightarrow> outbox_ok (snd (reschedule t i w a c m rows))"
  by (auto simp: reschedule_def exceeds_i16_def err_def intro!: update_rows_keeps)

lemma purge_outbox_ok: "outbox_ok rows \<Longrightarrow> outbox_ok (snd (purge_resolved before limit rows))"
  by (auto simp: purge_resolved_def Let_def del_where_def intro: outbox_ok_filter)

lemmas outbox_ok_intros = enqueue_outbox_ok requeue_outbox_ok claim_outbox_ok renew_outbox_ok
  complete_outbox_ok reschedule_outbox_ok purge_outbox_ok

section \<open>Ownership\<close>

text \<open>The worker that holds the claim of an event.\<close>

definition event_at :: "outbox_row list \<Rightarrow> uuid \<Rightarrow> outbox_row option" where
  "event_at rows i = find (\<lambda>r. ob_id r = i) rows"

definition owner :: "outbox_row list \<Rightarrow> uuid \<Rightarrow> uuid option" where
  "owner rows i =
     (case event_at rows i of
        Some r \<Rightarrow> if ob_status r = OS_Processing then ob_locked_by r else None
      | None \<Rightarrow> None)"

lemma event_atD: "event_at rows i = Some r \<Longrightarrow> r \<in> set rows \<and> ob_id r = i"
  by (auto simp: event_at_def dest: find_SomeD)

lemma event_at_row: "outbox_ok rows \<Longrightarrow> r \<in> set rows \<Longrightarrow> event_at rows (ob_id r) = Some r"
  by (auto simp: event_at_def outbox_ok_def intro: find_distinct_key)

lemma outbox_id_inj:
  "outbox_ok rows \<Longrightarrow> a \<in> set rows \<Longrightarrow> b \<in> set rows \<Longrightarrow> ob_id a = ob_id b \<Longrightarrow> a = b"
  by (metis event_at_row option.inject)

lemma event_at_update:
  "(\<And>r. ob_id (f r) = ob_id r) \<Longrightarrow>
   event_at (upd_where P f rows) i = map_option (\<lambda>r. if P r then f r else r) (event_at rows i)"
  by (simp add: event_at_def find_upd_where)

lemma event_at_del:
  "event_at (del_where (\<lambda>r. ob_id r \<in> S) rows) i = (if i \<in> S then None else event_at rows i)"
  unfolding event_at_def find_del_where by (induction rows) auto

lemma owned_owner:
  assumes "outbox_ok rows"
  shows "owner rows i = Some w \<longleftrightarrow> (\<exists>r \<in> set rows. owned i w r)"
proof
  assume "owner rows i = Some w"
  then show "\<exists>r \<in> set rows. owned i w r"
    by (auto simp: owner_def owned_def dest: event_atD split: option.splits if_splits)
next
  assume "\<exists>r \<in> set rows. owned i w r"
  then show "owner rows i = Some w"
    using event_at_row [OF assms] by (auto simp: owner_def owned_def)
qed

lemma owned_count:
  assumes "outbox_ok rows"
  shows "rows_where (owned i w) rows = (if owner rows i = Some w then 1 else 0)"
proof (cases "owner rows i = Some w")
  case True
  then obtain r where "r \<in> set rows" "owned i w r"
    using owned_owner [OF assms] by blast
  then have "rows_where (owned i w) rows \<noteq> 0"
    by (auto simp: rows_where_eq_0)
  moreover have "rows_where (owned i w) rows \<le> rows_where (\<lambda>r. ob_id r = i) rows"
    by (rule rows_where_mono) (simp add: owned_def)
  moreover have "rows_where (\<lambda>r. ob_id r = i) rows \<le> 1"
    using assms by (intro rows_where_distinct_key) (simp add: outbox_ok_def)
  ultimately show ?thesis
    using True by simp
next
  case False
  then show ?thesis
    using owned_owner [OF assms] by (simp add: rows_where_eq_0)
qed

lemma not_owned:
  "outbox_ok rows \<Longrightarrow> owner rows i \<noteq> Some w \<Longrightarrow> r \<in> set rows \<Longrightarrow> \<not> owned i w r"
  using owned_owner by blast

lemma event_at_owned:
  assumes "outbox_ok rows" "\<And>r. ob_id (f r) = ob_id r"
  shows "event_at (upd_where (owned i w) f rows) j =
    (if j = i \<and> owner rows i = Some w then map_option f (event_at rows i) else event_at rows j)"
proof -
  have "owned i w r \<longleftrightarrow> j = i \<and> owner rows i = Some w" if "event_at rows j = Some r" for r
    using event_atD [OF that] that not_owned [OF assms(1)] by (auto simp: owned_def owner_def split: if_splits)
  then show ?thesis
    unfolding event_at_update [OF assms(2)] by (cases "event_at rows j") auto
qed

lemma update_owned:
  assumes "outbox_ok rows" "\<And>r. outbox_row_ok r \<Longrightarrow> owned i w r \<Longrightarrow> outbox_row_ok (f r)"
  shows "update_rows (owned i w) f rows =
    (Inr (if owner rows i = Some w then 1 else 0), upd_where (owned i w) f rows)"
  using assms by (simp add: update_rows_def owned_count list_all_iff outbox_ok_def)

lemma upd_where_not_owned:
  "outbox_ok rows \<Longrightarrow> owner rows i \<noteq> Some w \<Longrightarrow> upd_where (owned i w) f rows = rows"
  by (auto simp: upd_where_def not_owned intro!: map_idI)

lemma renew_claim_result:
  "outbox_ok rows \<Longrightarrow>
   renew_claim t i w rows =
     (Inr (owner rows i = Some w), upd_where (owned i w) (\<lambda>r. r\<lparr>ob_locked_at := Some t\<rparr>) rows)"
  unfolding renew_claim_def bind_op_def
  by (subst update_owned) (auto simp: ok_def outbox_row_defs owned_def)

lemma complete_result:
  "outbox_ok rows \<Longrightarrow>
   complete i w t rows = (Inr (owner rows i = Some w), upd_where (owned i w) (completed_row t) rows)"
  unfolding complete_def bind_op_def
  by (subst update_owned) (auto simp: ok_def outbox_row_defs owned_def completed_row_def error_code_ok_def)

text \<open>The result of a retry: the event waits again, or is given up once it has had its attempts.\<close>

definition retry_verdict :: "nat \<Rightarrow> outbox_row option \<Rightarrow> retry_result" where
  "retry_verdict m r =
     (case r of None \<Rightarrow> RetryNotOwned
      | Some r \<Rightarrow> if ob_attempts r \<ge> m then RetryDeadLetter else RetryPending)"

lemma retry_of_status_verdict:
  "retry_of_status (map_option (\<lambda>r. ob_status (rescheduled_row t a c m r)) x) = Inr (retry_verdict m x)"
  by (cases x) (simp_all add: rescheduled_row_def Let_def retry_verdict_def)

lemma find_owned: "find (owned i w) rows = None \<longleftrightarrow> (\<forall>r \<in> set rows. \<not> owned i w r)"
  by (induction rows) auto

lemma find_owned_at:
  assumes "outbox_ok rows"
  shows "find (owned i w) rows = (if owner rows i = Some w then event_at rows i else None)"
proof (cases "find (owned i w) rows")
  case None
  then show ?thesis
    using owned_owner [OF assms] by (auto simp: find_owned)
next
  case (Some r)
  then have r: "r \<in> set rows" "owned i w r"
    by (auto dest: find_SomeD)
  then have "owner rows i = Some w"
    using owned_owner [OF assms] by blast
  moreover have "event_at rows i = Some r"
    using event_at_row [OF assms r(1)] r(2) by (simp add: owned_def)
  ultimately show ?thesis
    using Some by simp
qed

lemma reschedule_result:
  assumes "outbox_ok rows" "m \<le> i16_max" "error_code_ok (Some code)"
  shows "reschedule t i w a code m rows =
    (Inr (retry_verdict m (if owner rows i = Some w then event_at rows i else None)),
     upd_where (owned i w) (rescheduled_row t a code m) rows)"
proof -
  have "update_rows (owned i w) (rescheduled_row t a code m) rows =
    (Inr (if owner rows i = Some w then 1 else 0), upd_where (owned i w) (rescheduled_row t a code m) rows)"
    using assms by (intro update_owned) (auto simp: outbox_row_defs owned_def rescheduled_row_def Let_def)
  then show ?thesis
    using assms(2)
    by (simp add: reschedule_def exceeds_i16_def find_owned_at [OF assms(1)] op_defs retry_of_status_verdict)
qed

section \<open>Claiming\<close>

lemma claim_candidatesD:
  "i \<in> set (claim_candidates skip w limit rows) \<Longrightarrow>
   \<exists>r \<in> set rows. ob_id r = i \<and> due_event w r \<and> \<not> skip i"
  unfolding claim_candidates_def
  by (fastforce dest: set_order_limit_subset [THEN subsetD])

lemma claim_batch_Ok:
  assumes "claim_batch skip worker w limit rows = (Inr evs, rows')"
  defines "ids \<equiv> claim_candidates skip w limit rows"
  shows "rows' = upd_where (\<lambda>r. ob_id r \<in> set ids) (claimed_row worker (cw_now w)) rows"
    and "evs = map map_claimed_row (filter (\<lambda>r. ob_id r \<in> set ids) rows')"
  using assms(1) unfolding claim_batch_def ids_def
  by (auto simp: gets_def dest!: then_op_InrD update_rows_Ok)

lemma claim_batch_ids:
  assumes "claim_batch skip worker w limit rows = (Inr evs, rows')"
  shows "map ev_id evs = filter (\<lambda>i. i \<in> set (claim_candidates skip w limit rows)) (map ob_id rows)"
proof -
  have "map ob_id rows' = map ob_id rows"
    by (simp add: claim_batch_Ok(1) [OF assms] map_upd_where)
  moreover have "map ev_id evs = filter (\<lambda>i. i \<in> set (claim_candidates skip w limit rows)) (map ob_id rows')"
    unfolding claim_batch_Ok(2) [OF assms] by (simp add: map_claimed_row_def filter_map comp_def)
  ultimately show ?thesis
    by simp
qed

lemma set_claim_ids:
  assumes "claim_batch skip worker w limit rows = (Inr evs, rows')"
  shows "set (map ev_id evs) = set (claim_candidates skip w limit rows)"
  using claim_candidatesD [of _ skip w limit rows] by (auto simp: claim_batch_ids [OF assms])

lemma claim_batch_length:
  assumes "claim_batch skip worker w limit rows = (Inr evs, rows')" "outbox_ok rows"
  shows "length evs \<le> limit" "distinct (map ev_id evs)"
proof -
  show d: "distinct (map ev_id evs)"
    using assms(2) by (simp add: claim_batch_ids [OF assms(1)] outbox_ok_def)
  have "length (map ev_id evs) = card (set (claim_candidates skip w limit rows))"
    using distinct_card [OF d] set_claim_ids [OF assms(1)] by simp
  also have "\<dots> \<le> length (claim_candidates skip w limit rows)"
    by (rule card_length)
  also have "\<dots> \<le> limit"
    by (simp add: claim_candidates_def)
  finally show "length evs \<le> limit"
    by simp
qed

lemma claim_batch_event_at:
  assumes "claim_batch skip worker w limit rows = (Inr evs, rows')"
  shows "event_at rows' i = map_option (\<lambda>r. if i \<in> set (map ev_id evs)
    then claimed_row worker (cw_now w) r else r) (event_at rows i)"
  unfolding set_claim_ids [OF assms] claim_batch_Ok(1) [OF assms]
  by (cases "event_at rows i") (auto simp: event_at_update dest: event_atD)

lemma claim_batch_owner:
  assumes "claim_batch skip worker w limit rows = (Inr evs, rows')" "outbox_ok rows"
  shows "owner rows' i = (if i \<in> set (map ev_id evs) then Some worker else owner rows i)"
proof -
  have "event_at rows i \<noteq> None" if "i \<in> set (map ev_id evs)"
    using that event_at_row [OF assms(2)] claim_candidatesD
    unfolding set_claim_ids [OF assms(1)] by fastforce
  then show ?thesis
    unfolding owner_def claim_batch_event_at [OF assms(1)]
    by (auto simp: claimed_row_def split: option.splits)
qed

section \<open>Purging\<close>

definition resolved_before :: "instant \<Rightarrow> outbox_row \<Rightarrow> bool" where
  "resolved_before before r \<longleftrightarrow>
     resolved_by_time OS_Completed ob_processed_at before r \<or>
     resolved_by_time OS_Discarded ob_resolved_at before r"

lemma rows_where_key_eq:
  assumes "distinct (map k rows)" "distinct ids" "set ids \<subseteq> k ` set rows"
  shows "rows_where (\<lambda>r. k r \<in> set ids) rows = length ids"
proof -
  have "rows_where (\<lambda>r. k r \<in> set ids) rows = length (filter (\<lambda>x. x \<in> set ids) (map k rows))"
    by (simp add: rows_where_def filter_map comp_def)
  also have "\<dots> = card (set (filter (\<lambda>x. x \<in> set ids) (map k rows)))"
    using distinct_card [OF distinct_filter [OF assms(1), of "\<lambda>x. x \<in> set ids"]] by (rule sym)
  also have "set (filter (\<lambda>x. x \<in> set ids) (map k rows)) = set ids"
    using assms(3) by auto
  finally show ?thesis
    using assms(2) by (simp add: distinct_card)
qed

text \<open>The identifiers of the two halves of the union.\<close>

definition purge_side ::
  "instant \<Rightarrow> nat \<Rightarrow> outbox_row list \<Rightarrow> outbox_status \<Rightarrow> (outbox_row \<Rightarrow> instant option) \<Rightarrow> outbox_row list" where
  "purge_side before limit rows s at =
     order_limit (cleanup_key at) limit (filter (resolved_by_time s at before) rows)"

lemma purge_side_ids:
  "outbox_ok rows \<Longrightarrow> distinct (map ob_id (purge_side before limit rows s at))"
  by (auto simp: purge_side_def outbox_ok_def distinct_map_filter intro!: distinct_order_limit)

lemma purge_sideD:
  "r \<in> set (purge_side before limit rows s at) \<Longrightarrow> r \<in> set rows \<and> resolved_by_time s at before r"
  unfolding purge_side_def by (drule subsetD [OF set_order_limit_subset]) simp

lemma purge_candidates_sides:
  "purge_candidates before limit rows =
     map snd (take limit (sort (map (cleanup_key ob_processed_at) (purge_side before limit rows OS_Completed ob_processed_at) @
       map (cleanup_key ob_resolved_at) (purge_side before limit rows OS_Discarded ob_resolved_at))))"
  by (simp add: purge_candidates_def purge_side_def Let_def)

lemma snd_cleanup_key [simp]: "snd (cleanup_key at r) = ob_id r" "snd \<circ> cleanup_key at = ob_id"
  by (auto simp: cleanup_key_def)

lemma purge_candidates_distinct:
  assumes "outbox_ok rows"
  shows "distinct (purge_candidates before limit rows)"
proof -
  let ?A = "purge_side before limit rows OS_Completed ob_processed_at"
    and ?B = "purge_side before limit rows OS_Discarded ob_resolved_at"
  have "ob_id a \<noteq> ob_id b" if "a \<in> set ?A" "b \<in> set ?B" for a b
  proof
    assume "ob_id a = ob_id b"
    moreover have "a \<in> set rows" "b \<in> set rows" "ob_status a \<noteq> ob_status b"
      using that by (auto simp: resolved_by_time_def dest!: purge_sideD)
    ultimately show False
      using outbox_id_inj [OF assms] by blast
  qed
  then have "distinct (map snd (map (cleanup_key ob_processed_at) ?A @ map (cleanup_key ob_resolved_at) ?B))"
    using purge_side_ids [OF assms] by auto
  then have "distinct (map snd (sort (map (cleanup_key ob_processed_at) ?A @ map (cleanup_key ob_resolved_at) ?B)))"
    by (simp only: distinct_map distinct_sort set_sort)
  then show ?thesis
    unfolding purge_candidates_sides take_map [symmetric] by (rule distinct_take)
qed

lemma purge_candidates_resolved:
  "set (purge_candidates before limit rows) \<subseteq> ob_id ` {r \<in> set rows. resolved_before before r}"
proof
  fix i
  assume "i \<in> set (purge_candidates before limit rows)"
  then obtain x where x: "i = snd x"
    "x \<in> cleanup_key ob_processed_at ` set (purge_side before limit rows OS_Completed ob_processed_at) \<union>
       cleanup_key ob_resolved_at ` set (purge_side before limit rows OS_Discarded ob_resolved_at)"
    by (auto simp: purge_candidates_sides dest!: in_set_takeD)
  then show "i \<in> ob_id ` {r \<in> set rows. resolved_before before r}"
    by (auto simp: resolved_before_def dest!: purge_sideD)
qed

lemma purge_side_all:
  "length (purge_side before limit rows s at) < limit \<Longrightarrow>
   set (purge_side before limit rows s at) = {r \<in> set rows. resolved_by_time s at before r}"
  by (auto simp: purge_side_def order_limit_def)

text \<open>A purge deletes only events resolved in time, and all of them when it stays below its limit.\<close>

lemma purge_resolved_Ok:
  assumes "outbox_ok rows" "purge_resolved before limit rows = (Inr k, rows')"
  shows "set rows' \<subseteq> set rows" "\<And>r. r \<in> set rows \<Longrightarrow> \<not> resolved_before before r \<Longrightarrow> r \<in> set rows'"
    and "k < limit \<Longrightarrow> r \<in> set rows' \<Longrightarrow> \<not> resolved_before before r"
proof -
  let ?ids = "purge_candidates before limit rows"
  let ?A = "purge_side before limit rows OS_Completed ob_processed_at"
    and ?B = "purge_side before limit rows OS_Discarded ob_resolved_at"
  have rows': "rows' = del_where (\<lambda>r. ob_id r \<in> set ?ids) rows"
    and k: "k = rows_where (\<lambda>r. ob_id r \<in> set ?ids) rows"
    using assms(2) by (auto simp: purge_resolved_def Let_def)
  show "set rows' \<subseteq> set rows"
    by (auto simp: rows')
  show "r \<in> set rows'" if row: "r \<in> set rows" and open_row: "\<not> resolved_before before r" for r
  proof -
    have "ob_id r \<notin> set ?ids"
    proof
      assume "ob_id r \<in> set ?ids"
      then obtain q where "q \<in> set rows" "resolved_before before q" "ob_id q = ob_id r"
        using purge_candidates_resolved by fastforce
      then show False
        using outbox_id_inj [OF assms(1)] row open_row by blast
    qed
    then show ?thesis
      using row by (simp add: rows')
  qed
  assume few: "k < limit" and r: "r \<in> set rows'"
  have "k = length ?ids"
    unfolding k
  proof (rule rows_where_key_eq)
    show "set ?ids \<subseteq> ob_id ` set rows"
      using purge_candidates_resolved by blast
  qed (use purge_candidates_distinct [OF assms(1)] assms(1) in \<open>simp_all add: outbox_ok_def\<close>)
  then have "length ?A + length ?B < limit"
    using few by (simp add: purge_candidates_sides)
  then have "set ?ids = ob_id ` (set ?A \<union> set ?B)" "length ?A < limit" "length ?B < limit"
    by (auto simp: purge_candidates_sides image_Un image_image)
  then have "ob_id q \<in> set ?ids" if "q \<in> set rows" "resolved_before before q" for q
    using that purge_side_all [of before limit rows] by (auto simp: resolved_before_def)
  then show "\<not> resolved_before before r"
    using r by (auto simp: rows')
qed

end
