(* ===== verification/Outbox_Worker.thy ===== *)
theory Outbox_Worker
  imports Outbox_Proofs
begin

text \<open>
  \<^verbatim>\<open>src/outbox/worker.rs\<close>: the worker that claims due events, runs their handlers and records the
  outcome.  The store the worker calls (\<^verbatim>\<open>trait OutboxStore\<close>) is a record of operations on a state
  \<open>'s\<close>; the handlers are operations on the same state, so that what they write, and what other
  workers write meanwhile, is part of the model.  Durations are counted in microseconds.  The
  handlers of a batch run concurrently in the program; here they run one after the other.
\<close>

section \<open>Configuration\<close>

definition OUTBOX_LOCK_TIMEOUT :: duration where "OUTBOX_LOCK_TIMEOUT = seconds (5 * 60)"
definition OUTBOX_POLL_INTERVAL :: duration where "OUTBOX_POLL_INTERVAL = seconds 1"
definition OUTBOX_COMPLETED_RETENTION :: duration where
  "OUTBOX_COMPLETED_RETENTION = seconds (7 * 24 * 60 * 60)"
definition OUTBOX_PURGE_INTERVAL :: duration where "OUTBOX_PURGE_INTERVAL = seconds (60 * 60)"
definition OUTBOX_STATUS_INTERVAL :: duration where "OUTBOX_STATUS_INTERVAL = seconds 60"
definition OUTBOX_BATCH_SIZE :: nat where "OUTBOX_BATCH_SIZE = 50"
definition OUTBOX_HANDLER_CONCURRENCY :: nat where "OUTBOX_HANDLER_CONCURRENCY = 5"
definition OUTBOX_MAX_ATTEMPTS :: nat where "OUTBOX_MAX_ATTEMPTS = 10"
definition OUTBOX_MAX_RETRY_DELAY :: duration where "OUTBOX_MAX_RETRY_DELAY = seconds 60"

record worker_config =
  batch_size :: nat
  handler_concurrency :: nat
  lock_timeout :: duration
  max_attempts :: nat
  max_retry_delay :: duration
  poll_interval :: duration
  resolved_retention :: duration
  purge_interval :: duration
  purge_batch_size :: nat
  purge_max_batches :: nat
  status_interval :: duration

definition from_workloads :: "nat \<Rightarrow> nat \<Rightarrow> worker_config" where
  "from_workloads outbox_purge_batch_size outbox_purge_max_batches =
     \<lparr>batch_size = OUTBOX_BATCH_SIZE, handler_concurrency = OUTBOX_HANDLER_CONCURRENCY,
      lock_timeout = OUTBOX_LOCK_TIMEOUT, max_attempts = OUTBOX_MAX_ATTEMPTS,
      max_retry_delay = OUTBOX_MAX_RETRY_DELAY, poll_interval = OUTBOX_POLL_INTERVAL,
      resolved_retention = OUTBOX_COMPLETED_RETENTION, purge_interval = OUTBOX_PURGE_INTERVAL,
      purge_batch_size = outbox_purge_batch_size, purge_max_batches = outbox_purge_max_batches,
      status_interval = OUTBOX_STATUS_INTERVAL\<rparr>"

section \<open>The store and the handlers\<close>

record 's outbox_store =
  st_claim_batch :: "uuid \<Rightarrow> claim_window \<Rightarrow> nat \<Rightarrow> ('s, database_error, outbox_event list) op"
  st_renew_claim :: "instant \<Rightarrow> uuid \<Rightarrow> uuid \<Rightarrow> ('s, database_error, bool) op"
  st_complete :: "uuid \<Rightarrow> uuid \<Rightarrow> instant \<Rightarrow> ('s, database_error, bool) op"
  st_reschedule ::
    "instant \<Rightarrow> uuid \<Rightarrow> uuid \<Rightarrow> instant \<Rightarrow> string \<Rightarrow> nat \<Rightarrow> ('s, database_error, retry_result) op"
  st_purge_resolved :: "instant \<Rightarrow> nat \<Rightarrow> ('s, database_error, nat) op"

definition pg_store :: "(uuid \<Rightarrow> bool) \<Rightarrow> outbox_row list outbox_store" where
  "pg_store skip =
     \<lparr>st_claim_batch = claim_batch skip, st_renew_claim = renew_claim, st_complete = complete,
      st_reschedule = reschedule, st_purge_resolved = purge_resolved\<rparr>"

type_synonym 's handler = "outbox_event \<Rightarrow> uuid \<Rightarrow> ('s, dispatch_failure, dispatch_outcome) op"

record 's event_dispatcher =
  photo_delete :: "'s handler"
  notification_push :: "'s handler"
  account_erase :: "'s handler"
  billing_subscription :: "'s handler"
  billing_customer :: "'s handler"
  store_billing :: "'s handler option"
  mobile_otp :: "'s handler option"

definition dispatch :: "'s event_dispatcher \<Rightarrow> 's handler" where
  "dispatch d ev worker =
     (case ev_type ev of
        MobileOtpSend \<Rightarrow>
          (case mobile_otp d of
             Some h \<Rightarrow> h ev worker | None \<Rightarrow> err (df_transient ''otp_handler_unavailable''))
      | PhotoDelete \<Rightarrow> photo_delete d ev worker
      | NotificationPush \<Rightarrow> notification_push d ev worker
      | AccountErase \<Rightarrow> account_erase d ev worker
      | BillingSubscriptionReconcile \<Rightarrow> billing_subscription d ev worker
      | BillingCustomerReconcile \<Rightarrow> billing_customer d ev worker
      | Unsupported _ \<Rightarrow> err (df_transient ''handler_failed'')
      | _ \<Rightarrow>
          (case store_billing d of
             Some h \<Rightarrow> h ev worker | None \<Rightarrow> err (df_transient ''store_handler_unavailable'')))"

section \<open>Time\<close>

definition i64_max :: int where "i64_max = 2 ^ 63 - 1"

text \<open>\<^verbatim>\<open>1_u64.checked_shl(exponent)\<close> with an exponent of at most 63 never overflows.\<close>

definition retry_delay :: "nat \<Rightarrow> duration \<Rightarrow> duration" where
  "retry_delay attempts maximum =
     (let exponent = min (attempts - 1) 63 in min (seconds (2 ^ exponent)) maximum)"

definition from_std :: "duration \<Rightarrow> database_error + duration" where
  "from_std d = (if d div 1000 > i64_max then Inl QueryFailed else Inr d)"

definition subtract_duration :: "instant \<Rightarrow> duration \<Rightarrow> database_error + instant" where
  "subtract_duration v d =
     (case from_std d of
        Inl e \<Rightarrow> Inl e
      | Inr delta \<Rightarrow> (case checked_sub_signed v delta of None \<Rightarrow> Inl QueryFailed | Some t \<Rightarrow> Inr t))"

definition elapsed_at_least :: "instant \<Rightarrow> instant \<Rightarrow> duration \<Rightarrow> database_error + bool" where
  "elapsed_at_least earlier later d =
     (case from_std d of Inl e \<Rightarrow> Inl e | Inr delta \<Rightarrow> Inr (later - earlier \<ge> delta))"

section \<open>One event\<close>

datatype process_result = Completed | Deferred | Retried | DeadLettered | NoChange

text \<open>An instant out of range makes \<^verbatim>\<open>Utc::now() + delta\<close> panic.\<close>

datatype worker_error = WorkerDatabase database_error | WorkerPanic

definition handler_failed :: dispatch_failure where
  "handler_failed = df_transient ''handler_failed''"

text \<open>The readings of the clock: 0 the renewal, 1 the completion, 2 the time of the retry, 3 the
  dead letter.\<close>

definition attempt_event ::
  "'s outbox_store \<Rightarrow> (nat \<Rightarrow> instant) \<Rightarrow> 's handler \<Rightarrow> outbox_event \<Rightarrow> uuid \<Rightarrow>
   ('s, dispatch_failure, process_result) op" where
  "attempt_event st tick handle ev worker =
     bind_op (map_err (\<lambda>_. handler_failed) (st_renew_claim st (tick 0) (ev_id ev) worker)) (\<lambda>renewed.
       if \<not> renewed then ok NoChange
       else bind_op (handle ev worker) (\<lambda>outcome.
         case outcome of
           DO_Deferred \<Rightarrow> ok Deferred
         | DO_Completed \<Rightarrow>
             bind_op (map_err (\<lambda>_. handler_failed) (st_complete st (ev_id ev) worker (tick 1)))
               (\<lambda>completed. ok (if completed then Completed else NoChange))))"

fun retried :: "retry_result \<Rightarrow> process_result" where
  "retried RetryPending = Retried"
| "retried RetryNotOwned = NoChange"
| "retried RetryDeadLetter = DeadLettered"

definition retry_event ::
  "'s outbox_store \<Rightarrow> (nat \<Rightarrow> instant) \<Rightarrow> outbox_event \<Rightarrow> uuid \<Rightarrow> nat \<Rightarrow> duration \<Rightarrow> dispatch_failure \<Rightarrow>
   ('s, worker_error, process_result) op" where
  "retry_event st tick ev worker attempts maximum failure =
     (let millis = retry_delay (ev_attempts ev) maximum div 1000 in
      if millis > i64_max then err (WorkerDatabase QueryFailed)
      else case checked_add_signed (tick 2) (millis * 1000) of
        None \<Rightarrow> err WorkerPanic
      | Some retry_at \<Rightarrow>
          bind_op (map_err WorkerDatabase (st_reschedule st (tick 3) (ev_id ev) worker retry_at
              (df_code failure) (if df_permanent failure then 1 else attempts)))
            (\<lambda>retry. ok (retried retry)))"

definition process_event ::
  "'s outbox_store \<Rightarrow> (nat \<Rightarrow> instant) \<Rightarrow> 's handler \<Rightarrow> outbox_event \<Rightarrow> uuid \<Rightarrow> nat \<Rightarrow> duration \<Rightarrow>
   ('s, worker_error, process_result) op" where
  "process_event st tick handle ev worker attempts maximum s =
     (case attempt_event st tick handle ev worker s of
        (Inr result, s') \<Rightarrow> (Inr result, s')
      | (Inl failure, s') \<Rightarrow> retry_event st tick ev worker attempts maximum failure s')"

section \<open>A pass of the worker\<close>

text \<open>The events of a batch; an error of one does not stop the others, a panic does.\<close>

fun process_all ::
  "'s outbox_store \<Rightarrow> (nat \<Rightarrow> nat \<Rightarrow> instant) \<Rightarrow> 's handler \<Rightarrow> uuid \<Rightarrow> worker_config \<Rightarrow> nat \<Rightarrow>
   outbox_event list \<Rightarrow> 's \<Rightarrow> (worker_error + process_result) list \<times> 's" where
  "process_all st ticks handle worker cfg k [] s = ([], s)"
| "process_all st ticks handle worker cfg k (ev # evs) s =
     (case process_event st (ticks k) handle ev worker (max_attempts cfg) (max_retry_delay cfg) s of
        (Inl WorkerPanic, s') \<Rightarrow> ([Inl WorkerPanic], s')
      | (r, s') \<Rightarrow>
          (case process_all st ticks handle worker cfg (Suc k) evs s' of (rs, s'') \<Rightarrow> (r # rs, s'')))"

fun tally :: "process_result \<Rightarrow> outbox_worker_result \<Rightarrow> outbox_worker_result" where
  "tally Completed r = r\<lparr>wr_completed := wr_completed r + 1\<rparr>"
| "tally Deferred r = r\<lparr>wr_deferred := wr_deferred r + 1\<rparr>"
| "tally Retried r = r\<lparr>wr_retried := wr_retried r + 1\<rparr>"
| "tally DeadLettered r = r\<lparr>wr_dead_lettered := wr_dead_lettered r + 1\<rparr>"
| "tally NoChange r = r"

text \<open>The first error in order is the answer of the pass.\<close>

fun tally_all ::
  "(worker_error + process_result) list \<Rightarrow> outbox_worker_result \<Rightarrow> worker_error + outbox_worker_result" where
  "tally_all [] r = Inr r"
| "tally_all (Inr p # rest) r = tally_all rest (tally p r)"
| "tally_all (Inl e # rest) r = Inl e"

text \<open>\<^verbatim>\<open>while batches < purge_max_batches\<close>: \<open>n\<close> counts the batches left.\<close>

fun purge_loop ::
  "'s outbox_store \<Rightarrow> instant \<Rightarrow> nat \<Rightarrow> nat \<Rightarrow> nat \<Rightarrow> nat \<Rightarrow> nat \<Rightarrow> ('s, database_error, purge_result) op" where
  "purge_loop st before bsize 0 purged batches last_size =
     ok \<lparr>pr_purged = purged, pr_batches = batches, pr_work_remaining = last_size \<ge> bsize\<rparr>"
| "purge_loop st before bsize (Suc n) purged batches last_size =
     bind_op (st_purge_resolved st before bsize) (\<lambda>k.
       let purged = saturating_add_u64 purged k; batches = batches + 1 in
       if k < bsize then ok \<lparr>pr_purged = purged, pr_batches = batches, pr_work_remaining = False\<rparr>
       else purge_loop st before bsize n purged batches k)"

definition worker_purge ::
  "'s outbox_store \<Rightarrow> worker_config \<Rightarrow> instant \<Rightarrow> ('s, database_error, purge_result) op" where
  "worker_purge st cfg before =
     purge_loop st before (purge_batch_size cfg) (purge_max_batches cfg) 0 0 0"

text \<open>\<^verbatim>\<open>u32::try_from\<close> of a length.\<close>

definition exceeds_u32 :: "nat \<Rightarrow> bool" where
  "exceeds_u32 n \<longleftrightarrow> n > u32_max"

lemma exceeds_u32_code [code]: "exceeds_u32 n \<longleftrightarrow> int n > 4294967295"
  by (auto simp: exceeds_u32_def u32_max_def)

lemma saturating_add_u64_code [code]:
  "saturating_add_u64 a b = nat (min (int a + int b) 18446744073709551615)"
  by (simp add: saturating_add_u64_def u64_max_def min_def nat_add_distrib)

record outbox_worker =
  ow_config :: worker_config
  ow_worker_id :: uuid
  ow_last_purge_at :: "instant option"
  ow_last_status_at :: "instant option"

definition purge_is_due :: "outbox_worker \<Rightarrow> instant \<Rightarrow> database_error + bool" where
  "purge_is_due w now =
     (case ow_last_purge_at w of
        None \<Rightarrow> Inr True
      | Some previous \<Rightarrow> elapsed_at_least previous now (purge_interval (ow_config w)))"

definition claimed_result :: "worker_config \<Rightarrow> nat \<Rightarrow> outbox_worker_result" where
  "claimed_result cfg n =
     \<lparr>wr_claimed = n, wr_completed = 0, wr_deferred = 0, wr_retried = 0, wr_dead_lettered = 0,
      wr_purged = 0, wr_purge_batches = 0, wr_work_remaining = (n = batch_size cfg)\<rparr>"

definition purge_step ::
  "'s outbox_store \<Rightarrow> outbox_worker \<Rightarrow> instant \<Rightarrow> outbox_worker_result \<Rightarrow> 's \<Rightarrow>
   (worker_error + outbox_worker_result) \<times> outbox_worker \<times> 's" where
  "purge_step st w now r s =
     (case purge_is_due w now of
        Inl e \<Rightarrow> (Inl (WorkerDatabase e), w, s)
      | Inr False \<Rightarrow> (Inr r, w, s)
      | Inr True \<Rightarrow>
          (case subtract_duration now (resolved_retention (ow_config w)) of
             Inl e \<Rightarrow> (Inl (WorkerDatabase e), w, s)
           | Inr cutoff \<Rightarrow>
               (case worker_purge st (ow_config w) cutoff s of
                  (Inl e, s') \<Rightarrow> (Inl (WorkerDatabase e), w, s')
                | (Inr p, s') \<Rightarrow>
                    (Inr (r\<lparr>wr_purged := pr_purged p, wr_purge_batches := pr_batches p,
                        wr_work_remaining := wr_work_remaining r \<or> pr_work_remaining p\<rparr>),
                     w\<lparr>ow_last_purge_at := Some now\<rparr>, s'))))"

definition run_once ::
  "'s outbox_store \<Rightarrow> (nat \<Rightarrow> nat \<Rightarrow> instant) \<Rightarrow> 's handler \<Rightarrow> instant \<Rightarrow> outbox_worker \<Rightarrow> 's \<Rightarrow>
   (worker_error + outbox_worker_result) \<times> outbox_worker \<times> 's" where
  "run_once st ticks handle now w s =
     (let cfg = ow_config w; worker = ow_worker_id w in
      case subtract_duration now (lock_timeout cfg) of
        Inl e \<Rightarrow> (Inl (WorkerDatabase e), w, s)
      | Inr stale_before \<Rightarrow>
          (case st_claim_batch st worker \<lparr>cw_now = now, cw_stale_before = stale_before\<rparr>
              (batch_size cfg) s of
             (Inl e, s') \<Rightarrow> (Inl (WorkerDatabase e), w, s')
           | (Inr events, s') \<Rightarrow>
               if exceeds_u32 (length events) then (Inl (WorkerDatabase QueryFailed), w, s')
               else
                 (case process_all st ticks handle worker cfg 0 events s' of
                    (outcomes, s'') \<Rightarrow>
                      (case tally_all outcomes (claimed_result cfg (length events)) of
                         Inl e \<Rightarrow> (Inl e, w, s'')
                       | Inr r \<Rightarrow> purge_step st w now r s''))))"

section \<open>The contract of the store\<close>

text \<open>How an event is left by each result, and what the worker relies on: a claim makes the worker the holder of the events it returns;
  only the holder can renew, complete or reschedule; whoever lost the claim changes nothing.\<close>

definition settled :: "outbox_status option \<Rightarrow> uuid option \<Rightarrow> process_result \<Rightarrow> bool" where
  "settled status who r \<longleftrightarrow>
     (case r of
        Completed \<Rightarrow> status = Some OS_Completed \<and> who = None
      | Retried \<Rightarrow> status = Some OS_Pending \<and> who = None
      | DeadLettered \<Rightarrow> status = Some OS_DeadLetter \<and> who = None
      | _ \<Rightarrow> True)"

locale event_store =
  fixes st :: "'s outbox_store"
    and inv :: "'s \<Rightarrow> bool"
    and holder :: "'s \<Rightarrow> uuid \<Rightarrow> uuid option"
    and status_of :: "'s \<Rightarrow> uuid \<Rightarrow> outbox_status option"
  assumes claim: "inv s \<Longrightarrow> st_claim_batch st w win n s = (rc, s') \<Longrightarrow> inv s' \<and>
      (case rc of Inl e \<Rightarrow> s' = s
       | Inr evs \<Rightarrow> length evs \<le> n \<and> distinct (map ev_id evs) \<and>
           (\<forall>i. holder s' i = (if i \<in> set (map ev_id evs) then Some w else holder s i)))"
    and renew: "inv s \<Longrightarrow> st_renew_claim st t i w s = (rb, s') \<Longrightarrow> inv s' \<and>
      rb = Inr (holder s i = Some w) \<and> holder s' = holder s \<and> (holder s i \<noteq> Some w \<longrightarrow> s' = s)"
    and complete: "inv s \<Longrightarrow> st_complete st i w t s = (rb, s') \<Longrightarrow> inv s' \<and>
      rb = Inr (holder s i = Some w) \<and>
      (if holder s i = Some w then status_of s' i = Some OS_Completed \<and> holder s' = (holder s)(i := None)
       else s' = s)"
    and reschedule: "inv s \<Longrightarrow> st_reschedule st t i w a c m s = (rr, s') \<Longrightarrow> inv s' \<and>
      (holder s i \<noteq> Some w \<longrightarrow> s' = s) \<and>
      (case rr of
         Inl e \<Rightarrow> s' = s
       | Inr RetryNotOwned \<Rightarrow> holder s i \<noteq> Some w
       | Inr RetryPending \<Rightarrow> holder s i = Some w \<and> status_of s' i = Some OS_Pending \<and>
           holder s' = (holder s)(i := None)
       | Inr RetryDeadLetter \<Rightarrow> holder s i = Some w \<and> status_of s' i = Some OS_DeadLetter \<and>
           holder s' = (holder s)(i := None))"
    and purge: "inv s \<Longrightarrow> st_purge_resolved st b n s = (rp, s') \<Longrightarrow> inv s' \<and>
      (case rp of Inl e \<Rightarrow> s' = s | Inr k \<Rightarrow> k \<le> n \<and> holder s' = holder s)"
begin

text \<open>A worker whose claim has passed to another does not run the handler and changes nothing.\<close>

lemma lost_claim:
  assumes "inv s" "holder s (ev_id ev) \<noteq> Some w"
  shows "process_event st tick handle ev w a m s = (Inr NoChange, s)"
proof -
  obtain r s' where "st_renew_claim st (tick 0) (ev_id ev) w s = (r, s')"
    by (rule prod.exhaust)
  moreover from renew [OF assms(1) this] assms(2) have "r = Inr False" "s' = s"
    by auto
  ultimately show ?thesis
    by (simp add: process_event_def attempt_event_def bind_op_def map_err_def ok_def)
qed

lemma retry_event_result:
  assumes "inv s" "retry_event st tick ev w a m f s = (r, s')"
  shows "inv s' \<and> (\<forall>p. r = Inr p \<longrightarrow> settled (status_of s' (ev_id ev)) (holder s' (ev_id ev)) p \<and> p \<noteq> Completed \<and> p \<noteq> Deferred)"
proof (cases "checked_add_signed (tick 2) (retry_delay (ev_attempts ev) m div 1000 * 1000)")
  case None
  then show ?thesis
    using assms by (auto simp: retry_event_def Let_def err_def split: if_splits)
next
  case (Some at)
  obtain x s1 where run: "st_reschedule st (tick 3) (ev_id ev) w at (df_code f)
      (if df_permanent f then 1 else a) s = (x, s1)"
    by (rule prod.exhaust)
  note law = reschedule [OF assms(1) run]
  show ?thesis
  proof (cases x)
    case (Inl e)
    then show ?thesis
      using assms law run Some
      by (auto simp: retry_event_def Let_def err_def bind_op_def map_err_def split: if_splits)
  next
    case (Inr v)
    then show ?thesis
      using assms law run Some
      by (cases v)
         (auto simp: retry_event_def Let_def err_def bind_op_def map_err_def ok_def settled_def split: if_splits)
  qed
qed

lemma attempt_event_result:
  assumes "inv s" and handler: "\<And>s. inv s \<Longrightarrow> inv (snd (handle ev w s))"
    and run: "attempt_event st tick handle ev w s = (r, s')"
  shows "inv s' \<and> (\<forall>p. r = Inr p \<longrightarrow> settled (status_of s' (ev_id ev)) (holder s' (ev_id ev)) p \<and> p \<noteq> Retried \<and> p \<noteq> DeadLettered)"
proof -
  obtain x s1 where x: "st_renew_claim st (tick 0) (ev_id ev) w s = (x, s1)"
    by (rule prod.exhaust)
  note renewed = renew [OF assms(1) x]
  obtain y s2 where y: "handle ev w s1 = (y, s2)"
    by (rule prod.exhaust)
  have s2: "inv s2"
    using handler [of s1] renewed y by simp
  obtain z s3 where z: "st_complete st (ev_id ev) w (tick 1) s2 = (z, s3)"
    by (rule prod.exhaust)
  note completed = complete [OF s2 z]
  show ?thesis
    using run renewed completed x y z s2
    by (auto simp: attempt_event_def bind_op_def map_err_def ok_def settled_def
        split: if_splits sum.splits dispatch_outcome.splits)
qed

lemma process_event_result:
  assumes "inv s" "\<And>s. inv s \<Longrightarrow> inv (snd (handle ev w s))"
    and "process_event st tick handle ev w a m s = (r, s')"
  shows "inv s'" "r = Inr p \<Longrightarrow> settled (status_of s' (ev_id ev)) (holder s' (ev_id ev)) p"
proof -
  obtain x s1 where x: "attempt_event st tick handle ev w s = (x, s1)"
    by (rule prod.exhaust)
  note tried = attempt_event_result [OF assms(1,2) x]
  have "inv s' \<and> (\<forall>p. r = Inr p \<longrightarrow> settled (status_of s' (ev_id ev)) (holder s' (ev_id ev)) p)"
  proof (cases x)
    case (Inl f)
    then have "retry_event st tick ev w a m f s1 = (r, s')"
      using assms(3) x by (simp add: process_event_def)
    then show ?thesis
      using retry_event_result tried by blast
  next
    case (Inr p)
    then show ?thesis
      using assms(3) x tried by (auto simp: process_event_def)
  qed
  then show "inv s'" "r = Inr p \<Longrightarrow> settled (status_of s' (ev_id ev)) (holder s' (ev_id ev)) p"
    by auto
qed

lemma process_all_result:
  assumes "\<And>ev s. inv s \<Longrightarrow> inv (snd (handle ev w s))"
  shows "inv s \<Longrightarrow> process_all st ticks handle w cfg k evs s = (rs, s') \<Longrightarrow>
    inv s' \<and> length rs \<le> length evs"
proof (induction evs arbitrary: k s rs)
  case (Cons ev evs)
  obtain r s1 where r: "process_event st (ticks k) handle ev w (max_attempts cfg) (max_retry_delay cfg) s = (r, s1)"
    by (rule prod.exhaust)
  have s1: "inv s1"
    using process_event_result(1) [OF Cons.prems(1) assms r] .
  obtain rs1 s2 where "process_all st ticks handle w cfg (Suc k) evs s1 = (rs1, s2)"
    by (rule prod.exhaust)
  then show ?case
    using Cons.IH [OF s1] Cons.prems(2) r s1
    by (auto split: sum.splits worker_error.splits)
qed simp

lemma purge_loop_result:
  "inv s \<Longrightarrow> purge_loop st before bsize n purged batches prev s = (r, s') \<Longrightarrow>
   inv s' \<and> (\<forall>p. r = Inr p \<longrightarrow> pr_batches p \<le> batches + n \<and> pr_purged p \<le> purged + n * bsize)"
proof (induction n arbitrary: s purged batches prev)
  case 0
  then show ?case
    by (auto simp: ok_def)
next
  case (Suc n)
  obtain x s1 where x: "st_purge_resolved st before bsize s = (x, s1)"
    by (rule prod.exhaust)
  note law = purge [OF Suc.prems(1) x]
  show ?case
  proof (cases x)
    case (Inl e)
    then show ?thesis
      using Suc.prems x law by (auto simp: bind_op_def)
  next
    case (Inr k)
    have sat: "saturating_add_u64 purged k \<le> purged + bsize"
      using law Inr by (auto intro: order_trans [OF saturating_add_u64_bounds(2)])
    show ?thesis
    proof (cases "k < bsize")
      case True
      then show ?thesis
        using Suc.prems x law Inr sat by (auto simp: bind_op_def ok_def Let_def)
    next
      case False
      then have "purge_loop st before bsize n (saturating_add_u64 purged k) (batches + 1) k s1 = (r, s')"
        using Suc.prems x Inr by (simp add: bind_op_def Let_def)
      from Suc.IH [OF _ this] law Inr sat show ?thesis
        by fastforce
    qed
  qed
qed

end

lemma tally_counts:
  "wr_completed (tally p r) + wr_deferred (tally p r) + wr_retried (tally p r) + wr_dead_lettered (tally p r) \<le>
     Suc (wr_completed r + wr_deferred r + wr_retried r + wr_dead_lettered r)"
  "wr_claimed (tally p r) = wr_claimed r" "wr_purged (tally p r) = wr_purged r"
  "wr_purge_batches (tally p r) = wr_purge_batches r"
  by (cases p; simp)+

lemma tally_all_counts:
  "tally_all rs r0 = Inr r \<Longrightarrow>
   wr_completed r + wr_deferred r + wr_retried r + wr_dead_lettered r \<le>
     wr_completed r0 + wr_deferred r0 + wr_retried r0 + wr_dead_lettered r0 + length rs \<and>
   wr_claimed r = wr_claimed r0 \<and> wr_purge_batches r = wr_purge_batches r0"
proof (induction rs r0 rule: tally_all.induct)
  case (2 p rest r0)
  then show ?case
    using tally_counts [of p r0] by fastforce
qed simp_all

section \<open>The contract holds on PostgreSQL\<close>

lemma owner_update:
  assumes "outbox_ok rows" "\<And>r. ob_id (f r) = ob_id r"
  shows "owner (upd_where (owned i w) f rows) j =
    (if j = i \<and> owner rows i = Some w
     then (case event_at rows i of Some r \<Rightarrow> if ob_status (f r) = OS_Processing then ob_locked_by (f r) else None
           | None \<Rightarrow> None)
     else owner rows j)"
  by (auto simp: owner_def event_at_owned [OF assms] split: option.splits)

lemma owner_row:
  "owner rows i = Some w \<Longrightarrow> \<exists>r. event_at rows i = Some r \<and> ob_status r = OS_Processing \<and> ob_locked_by r = Some w"
  by (auto simp: owner_def split: option.splits if_splits)

lemma claim_batch_error: "claim_batch skip w win n rows = (Inl e, rows') \<Longrightarrow> rows' = rows"
  by (auto simp: claim_batch_def update_rows_def then_op_def bind_op_def gets_def split: if_splits)

lemma purge_candidates_ids:
  "i \<in> set (purge_candidates before limit rows) \<Longrightarrow>
   \<exists>r \<in> set rows. ob_id r = i \<and>
     (resolved_by_time OS_Completed ob_processed_at before r \<or>
      resolved_by_time OS_Discarded ob_resolved_at before r)"
  unfolding purge_candidates_def Let_def
  by (fastforce simp: cleanup_key_def dest!: in_set_takeD set_order_limit_subset [THEN subsetD])

lemma purge_owner:
  assumes "outbox_ok rows" "purge_resolved before limit rows = (Inr k, rows')"
  shows "k \<le> limit" "owner rows' = owner rows"
proof -
  let ?ids = "purge_candidates before limit rows"
  have rows': "rows' = del_where (\<lambda>r. ob_id r \<in> set ?ids) rows" "k = rows_where (\<lambda>r. ob_id r \<in> set ?ids) rows"
    using assms(2) by (auto simp: purge_resolved_def Let_def)
  have "length ?ids \<le> limit"
    by (simp add: purge_candidates_def Let_def)
  then show "k \<le> limit"
    using rows_where_key_in [of ob_id rows ?ids] assms(1) rows'(2) by (simp add: outbox_ok_def)
  have gone: "ob_status r \<noteq> OS_Processing" if at: "event_at rows i = Some r" and picked: "i \<in> set ?ids" for i r
  proof -
    obtain q where "q \<in> set rows" "ob_id q = i" "ob_status q \<in> {OS_Completed, OS_Discarded}"
      using purge_candidates_ids [OF picked] by (auto simp: resolved_by_time_def)
    then show ?thesis
      using event_at_row [OF assms(1), of q] at by auto
  qed
  have "event_at rows' i = (if i \<in> set ?ids then None else event_at rows i)" for i
    unfolding rows'(1) by (rule event_at_del)
  then show "owner rows' = owner rows"
    using gone by (auto simp: owner_def fun_eq_iff split: option.splits)
qed

lemma reschedule_contract:
  assumes ok: "outbox_ok s" and run: "reschedule t i w a c m s = (rr, s')"
  shows "(owner s i \<noteq> Some w \<longrightarrow> s' = s) \<and>
    (case rr of
       Inl e \<Rightarrow> s' = s
     | Inr RetryNotOwned \<Rightarrow> owner s i \<noteq> Some w
     | Inr RetryPending \<Rightarrow> owner s i = Some w \<and> map_option ob_status (event_at s' i) = Some OS_Pending \<and>
         owner s' = (owner s)(i := None)
     | Inr RetryDeadLetter \<Rightarrow> owner s i = Some w \<and>
         map_option ob_status (event_at s' i) = Some OS_DeadLetter \<and> owner s' = (owner s)(i := None))"
proof (cases "m \<le> i16_max \<and> error_code_ok (Some c)")
  case True
  then show ?thesis
    using reschedule_result [OF ok, of m c t i w a] run owner_row [of s i w]
    by (auto simp: upd_where_not_owned owner_update event_at_owned ok retry_verdict_def
        rescheduled_row_def Let_def fun_eq_iff)
next
  case False
  show ?thesis
  proof (cases "m \<le> i16_max \<and> owner s i = Some w")
    case True
    then have "\<not> list_all (\<lambda>r. owned i w r \<longrightarrow> outbox_row_ok (rescheduled_row t a c m r)) s"
      using False owned_owner [OF ok] by (fastforce simp: list_all_iff outbox_row_ok_def rescheduled_row_def Let_def)
    then show ?thesis
      using run True by (auto simp: reschedule_def exceeds_i16_def update_rows_def op_defs)
  next
    case other: False
    have none: "\<not> owned i w r" if "m \<le> i16_max" "r \<in> set s" for r
      using other that not_owned [OF ok] by blast
    show ?thesis
    proof (cases "m \<le> i16_max")
      case True
      then have "update_rows (owned i w) f s = (Inr 0, s)" "find (owned i w) s = None" for f
        using none update_rows_none by (auto simp: find_owned)
      then show ?thesis
        using run True other by (auto simp: reschedule_def exceeds_i16_def op_defs)
    next
      case False
      then show ?thesis
        using run by (auto simp: reschedule_def exceeds_i16_def err_def)
    qed
  qed
qed

interpretation pg_outbox: event_store "pg_store skip" outbox_ok owner
  "\<lambda>rows i. map_option ob_status (event_at rows i)" for skip
proof
  fix s :: "outbox_row list" and s' w win n rc
  assume ok: "outbox_ok s" and run: "st_claim_batch (pg_store skip) w win n s = (rc, s')"
  have "outbox_ok s'"
    using claim_outbox_ok [OF ok, of skip w win n] run by (simp add: pg_store_def)
  then show "outbox_ok s' \<and> (case rc of Inl e \<Rightarrow> s' = s
      | Inr evs \<Rightarrow> length evs \<le> n \<and> distinct (map ev_id evs) \<and>
          (\<forall>i. owner s' i = (if i \<in> set (map ev_id evs) then Some w else owner s i)))"
    using run ok claim_batch_error claim_batch_length claim_batch_owner
    by (auto simp: pg_store_def split: sum.splits)
next
  fix s :: "outbox_row list" and s' t i w rb
  assume ok: "outbox_ok s" and run: "st_renew_claim (pg_store skip) t i w s = (rb, s')"
  have "outbox_ok s'"
    using renew_outbox_ok [OF ok, of t i w] run by (simp add: pg_store_def)
  then show "outbox_ok s' \<and> rb = Inr (owner s i = Some w) \<and> owner s' = owner s \<and>
      (owner s i \<noteq> Some w \<longrightarrow> s' = s)"
    using run ok owner_row [of s i w]
    by (auto simp: pg_store_def renew_claim_result upd_where_not_owned owner_update fun_eq_iff)
next
  fix s :: "outbox_row list" and s' t i w rb
  assume ok: "outbox_ok s" and run: "st_complete (pg_store skip) i w t s = (rb, s')"
  have "outbox_ok s'"
    using complete_outbox_ok [OF ok, of i w t] run by (simp add: pg_store_def)
  then show "outbox_ok s' \<and> rb = Inr (owner s i = Some w) \<and>
      (if owner s i = Some w
       then map_option ob_status (event_at s' i) = Some OS_Completed \<and> owner s' = (owner s)(i := None)
       else s' = s)"
    using run ok owner_row [of s i w]
    by (auto simp: pg_store_def complete_result upd_where_not_owned owner_update event_at_owned
        completed_row_def fun_eq_iff)
next
  fix s :: "outbox_row list" and s' t i w a c m rr
  assume ok: "outbox_ok s" and run: "st_reschedule (pg_store skip) t i w a c m s = (rr, s')"
  have "outbox_ok s'"
    using reschedule_outbox_ok [OF ok, of t i w a c m] run by (simp add: pg_store_def)
  moreover have "(owner s i \<noteq> Some w \<longrightarrow> s' = s) \<and>
      (case rr of
         Inl e \<Rightarrow> s' = s
       | Inr RetryNotOwned \<Rightarrow> owner s i \<noteq> Some w
       | Inr RetryPending \<Rightarrow> owner s i = Some w \<and> map_option ob_status (event_at s' i) = Some OS_Pending \<and>
           owner s' = (owner s)(i := None)
       | Inr RetryDeadLetter \<Rightarrow> owner s i = Some w \<and>
           map_option ob_status (event_at s' i) = Some OS_DeadLetter \<and> owner s' = (owner s)(i := None))"
    using reschedule_contract [OF ok] run by (simp add: pg_store_def)
  ultimately show "outbox_ok s' \<and> (owner s i \<noteq> Some w \<longrightarrow> s' = s) \<and>
      (case rr of
         Inl e \<Rightarrow> s' = s
       | Inr RetryNotOwned \<Rightarrow> owner s i \<noteq> Some w
       | Inr RetryPending \<Rightarrow> owner s i = Some w \<and> map_option ob_status (event_at s' i) = Some OS_Pending \<and>
           owner s' = (owner s)(i := None)
       | Inr RetryDeadLetter \<Rightarrow> owner s i = Some w \<and>
           map_option ob_status (event_at s' i) = Some OS_DeadLetter \<and> owner s' = (owner s)(i := None))"
    by blast
next
  fix s :: "outbox_row list" and s' b n rp
  assume ok: "outbox_ok s" and run: "st_purge_resolved (pg_store skip) b n s = (rp, s')"
  have "outbox_ok s'"
    using purge_outbox_ok [OF ok, of b n] run by (simp add: pg_store_def)
  moreover obtain k where "rp = Inr k"
    using run by (auto simp: pg_store_def purge_resolved_def Let_def)
  ultimately show "outbox_ok s' \<and> (case rp of Inl e \<Rightarrow> s' = s | Inr k \<Rightarrow> k \<le> n \<and> owner s' = owner s)"
    using purge_owner [OF ok, of b n k s'] run by (simp add: pg_store_def)
qed

end
