(* ===== verification/Outbox_Claims.thy ===== *)
theory Outbox_Claims
  imports Outbox_Proofs
begin

text \<open>
  The life of a claim: the statements of \<^verbatim>\<open>src/outbox/pg.rs\<close> run in any order by any worker, and what
  keeps an event in the hands of the worker that claimed it until its lock times out.
\<close>

section \<open>Statements in sequence\<close>

text \<open>The statements of \<^verbatim>\<open>src/outbox/pg.rs\<close> as the steps of its clients.\<close>

datatype outbox_stmt =
  Enqueue instant uuid new_outbox_event
| Requeue instant instant uuid new_outbox_event
| Claim "uuid \<Rightarrow> bool" uuid claim_window nat
| Renew instant uuid uuid
| Complete uuid uuid instant
| Reschedule instant uuid uuid instant string nat
| Purge instant nat

fun exec_stmt :: "outbox_stmt \<Rightarrow> outbox_row list \<Rightarrow> outbox_row list" where
  "exec_stmt (Enqueue now new_id ev) rows = snd (enqueue now new_id ev rows)"
| "exec_stmt (Requeue now t new_id ev) rows = snd (requeue now t new_id ev rows)"
| "exec_stmt (Claim skip worker win limit) rows = snd (claim_batch skip worker win limit rows)"
| "exec_stmt (Renew t i worker) rows = snd (renew_claim t i worker rows)"
| "exec_stmt (Complete i worker t) rows = snd (complete i worker t rows)"
| "exec_stmt (Reschedule t i worker available_at code m) rows =
     snd (reschedule t i worker available_at code m rows)"
| "exec_stmt (Purge before limit) rows = snd (purge_resolved before limit rows)"

text \<open>The statements that may come between the claim of \<open>r\<close> by \<open>w\<close> at \<open>t0\<close> and its timeout: claims for
  which the lock is not stale yet, whoever makes them; renewals that do not turn the clock back;
  completions and retries of other events or by other workers; anything but a requeue of this very
  event.\<close>

fun leaves_claim :: "instant \<Rightarrow> uuid \<Rightarrow> outbox_row \<Rightarrow> outbox_stmt \<Rightarrow> bool" where
  "leaves_claim t0 w r (Claim _ _ win _) \<longleftrightarrow> cw_stale_before win < t0"
| "leaves_claim t0 w r (Renew t i w') \<longleftrightarrow> t0 \<le> t \<or> (i, w') \<noteq> (ob_id r, w)"
| "leaves_claim t0 w r (Complete i w' _) \<longleftrightarrow> (i, w') \<noteq> (ob_id r, w)"
| "leaves_claim t0 w r (Reschedule _ i w' _ _ _) \<longleftrightarrow> (i, w') \<noteq> (ob_id r, w)"
| "leaves_claim t0 w r (Requeue _ _ _ ev) \<longleftrightarrow>
     (event_type_as_str (new_type ev), new_aggregate_id ev) \<noteq> (ob_type r, ob_aggregate_id r)"
| "leaves_claim t0 w r (Enqueue _ _ _) \<longleftrightarrow> True"
| "leaves_claim t0 w r (Purge _ _) \<longleftrightarrow> True"

text \<open>The claim as long as it lasts.\<close>

definition holds_claim :: "instant \<Rightarrow> uuid \<Rightarrow> outbox_row \<Rightarrow> outbox_row list \<Rightarrow> bool" where
  "holds_claim t0 w r rows \<longleftrightarrow> outbox_ok rows \<and>
     (\<exists>x. event_at rows (ob_id r) = Some x \<and> ob_status x = OS_Processing \<and> ob_locked_by x = Some w \<and>
        (\<exists>t \<ge> t0. ob_locked_at x = Some t) \<and> outbox_key x = outbox_key r)"

lemma holds_claim_owner: "holds_claim t0 w r rows \<Longrightarrow> owner rows (ob_id r) = Some w"
  by (auto simp: holds_claim_def owner_def)

lemma holds_claim_not_due:
  assumes "holds_claim t0 w r rows" "cw_stale_before win < t0"
  shows "ob_id r \<notin> set (claim_candidates skip win n rows)"
proof
  assume "ob_id r \<in> set (claim_candidates skip win n rows)"
  then obtain y where y: "y \<in> set rows" "ob_id y = ob_id r" "due_event win y"
    using claim_candidatesD by blast
  then have "event_at rows (ob_id r) = Some y"
    using assms(1) event_at_row [of rows y] by (simp add: holds_claim_def)
  then show False
    using assms y(3) by (auto simp: holds_claim_def due_event_def)
qed

lemma holds_claim_same:
  "holds_claim t0 w r rows \<Longrightarrow> outbox_ok rows' \<Longrightarrow> event_at rows' (ob_id r) = event_at rows (ob_id r) \<Longrightarrow>
   holds_claim t0 w r rows'"
  by (simp add: holds_claim_def)

lemma event_at_append: "event_at rows i = Some x \<Longrightarrow> event_at (rows @ tail) i = Some x"
  by (simp add: event_at_def find_append)

section \<open>Every statement\<close>

lemma holds_claim_row:
  assumes "holds_claim t0 w r rows"
  obtains x where "event_at rows (ob_id r) = Some x" "x \<in> set rows" "ob_id x = ob_id r"
    "ob_status x = OS_Processing" "ob_locked_by x = Some w" "outbox_key x = outbox_key r"
  using assms by (auto simp: holds_claim_def dest: event_atD)

lemma holds_claim_owned:
  assumes "holds_claim t0 w r rows" "(i, w') \<noteq> (ob_id r, w)" "event_at rows (ob_id r) = Some x"
  shows "\<not> owned i w' x"
  using assms event_atD [OF assms(3)] by (auto simp: owned_def holds_claim_def)

lemma outbox_key_event_row [simp]:
  "outbox_key (event_row now i ev) = (event_type_as_str (new_type ev), new_aggregate_id ev)"
  by (simp add: outbox_key_def event_row_def outbox_defaults_def)

lemma holds_claim_renew:
  assumes "holds_claim t0 w r rows" "t0 \<le> t \<or> (i, w') \<noteq> (ob_id r, w)"
  shows "holds_claim t0 w r (snd (renew_claim t i w' rows))"
proof (cases "(i, w') = (ob_id r, w)")
  case True
  obtain x where x: "event_at rows (ob_id r) = Some x" "ob_status x = OS_Processing"
    "ob_locked_by x = Some w" "outbox_key x = outbox_key r"
    by (rule holds_claim_row [OF assms(1)])
  have ok: "outbox_ok rows" "outbox_ok (snd (renew_claim t i w' rows))"
    using assms(1) renew_outbox_ok by (auto simp: holds_claim_def)
  have "event_at (snd (renew_claim t i w' rows)) (ob_id r) = Some (x\<lparr>ob_locked_at := Some t\<rparr>)"
    using True x(1) holds_claim_owner [OF assms(1)]
    by (simp add: renew_claim_result [OF ok(1)] event_at_owned [OF ok(1)])
  then show ?thesis
    using ok(2) x assms(2) True by (auto simp: holds_claim_def outbox_key_def)
next
  case False
  obtain x where x: "event_at rows (ob_id r) = Some x"
    by (rule holds_claim_row [OF assms(1)])
  have ok: "outbox_ok rows"
    using assms(1) by (simp add: holds_claim_def)
  have "event_at (snd (renew_claim t i w' rows)) (ob_id r) = event_at rows (ob_id r)"
    using x holds_claim_owned [OF assms(1) False x]
    by (simp add: renew_claim_def update_rows_state event_at_update)
  then show ?thesis
    by (rule holds_claim_same [OF assms(1) renew_outbox_ok [OF ok]])
qed

lemma holds_claim_purge:
  assumes "holds_claim t0 w r rows"
  shows "holds_claim t0 w r (snd (purge_resolved before limit rows))"
proof -
  obtain x where x: "event_at rows (ob_id r) = Some x" "x \<in> set rows" "ob_id x = ob_id r"
    "ob_status x = OS_Processing"
    by (rule holds_claim_row [OF assms])
  have ok: "outbox_ok rows"
    using assms by (simp add: holds_claim_def)
  have "ob_id r \<notin> set (purge_candidates before limit rows)"
  proof
    assume "ob_id r \<in> set (purge_candidates before limit rows)"
    then obtain y where y: "y \<in> set rows" "ob_id r = ob_id y" "resolved_before before y"
      using purge_candidates_resolved by blast
    then have "y = x"
      using outbox_id_inj [OF ok y(1) x(2)] x(3) by simp
    then show False
      using y(3) x(4) by (simp add: resolved_before_def resolved_by_time_def)
  qed
  then have "event_at (snd (purge_resolved before limit rows)) (ob_id r) = event_at rows (ob_id r)"
    by (simp add: purge_resolved_def Let_def event_at_del)
  then show ?thesis
    by (rule holds_claim_same [OF assms purge_outbox_ok [OF ok]])
qed

lemma holds_claim_exec:
  assumes hold: "holds_claim t0 w r rows" and leaves: "leaves_claim t0 w r s"
  shows "holds_claim t0 w r (exec_stmt s rows)"
proof -
  have ok: "outbox_ok rows"
    using hold by (simp add: holds_claim_def)
  obtain x where x: "event_at rows (ob_id r) = Some x" "x \<in> set rows" "ob_id x = ob_id r"
    "ob_status x = OS_Processing" "ob_locked_by x = Some w" "outbox_key x = outbox_key r"
    by (rule holds_claim_row [OF hold])
  show ?thesis
  proof (cases s)
    case (Enqueue now new_id ev)
    have "event_at (snd (enqueue now new_id ev rows)) (ob_id r) = event_at rows (ob_id r)"
      using x(1) by (simp add: enqueue_def Let_def event_at_append)
    then show ?thesis
      unfolding Enqueue exec_stmt.simps
      by (rule holds_claim_same [OF hold enqueue_outbox_ok [OF ok]])
  next
    case (Requeue now t new_id ev)
    have "outbox_key x \<noteq> (event_type_as_str (new_type ev), new_aggregate_id ev)"
      using x(6) leaves unfolding Requeue by (auto simp: outbox_key_def)
    then have "event_at (snd (requeue now t new_id ev rows)) (ob_id r) = event_at rows (ob_id r)"
      using x(1) by (simp add: requeue_def Let_def event_at_append update_rows_state event_at_update)
    then show ?thesis
      unfolding Requeue exec_stmt.simps
      by (rule holds_claim_same [OF hold requeue_outbox_ok [OF ok]])
  next
    case (Claim skip w' win limit)
    have "ob_id r \<notin> set (claim_candidates skip win limit rows)"
      using holds_claim_not_due [OF hold] leaves Claim by simp
    then have "event_at (snd (claim_batch skip w' win limit rows)) (ob_id r) = event_at rows (ob_id r)"
      using x(1,3) by (simp add: claim_batch_def update_rows_state event_at_update)
    then show ?thesis
      unfolding Claim exec_stmt.simps
      by (rule holds_claim_same [OF hold claim_outbox_ok [OF ok]])
  next
    case (Renew t i w')
    then show ?thesis
      using holds_claim_renew [OF hold, of t i w'] leaves by simp
  next
    case (Complete i w' t)
    have "event_at (snd (complete i w' t rows)) (ob_id r) = event_at rows (ob_id r)"
      using x(1) holds_claim_owned [OF hold _ x(1), of i w'] leaves unfolding Complete
      by (simp add: complete_def update_rows_state event_at_update)
    then show ?thesis
      unfolding Complete exec_stmt.simps
      by (rule holds_claim_same [OF hold complete_outbox_ok [OF ok]])
  next
    case (Reschedule t i w' a c m)
    have "event_at (snd (reschedule t i w' a c m rows)) (ob_id r) = event_at rows (ob_id r)"
      using x(1) holds_claim_owned [OF hold _ x(1), of i w'] leaves unfolding Reschedule
      by (simp add: reschedule_def err_def update_rows_state event_at_update)
    then show ?thesis
      unfolding Reschedule exec_stmt.simps
      by (rule holds_claim_same [OF hold reschedule_outbox_ok [OF ok]])
  next
    case (Purge before limit)
    then show ?thesis
      using holds_claim_purge [OF hold] by simp
  qed
qed

lemma holds_claim_fold:
  "holds_claim t0 w r rows \<Longrightarrow> list_all (leaves_claim t0 w r) ss \<Longrightarrow>
   holds_claim t0 w r (fold exec_stmt ss rows)"
  by (induction ss arbitrary: rows) (auto intro: holds_claim_exec)

section \<open>From a claim on\<close>

lemma claimed_holds:
  assumes "outbox_ok rows" "claim_batch skip w win n rows = (Inr evs, rows')" "i \<in> set (map ev_id evs)"
  obtains r where "r \<in> set rows" "ob_id r = i" "due_event win r" "holds_claim (cw_now win) w r rows'"
proof -
  obtain r where r: "r \<in> set rows" "ob_id r = i" "due_event win r"
    using claim_candidatesD [of i skip win n rows] assms(3) set_claim_ids [OF assms(2)] by auto
  have "outbox_ok rows'"
    using claim_outbox_ok [OF assms(1), of skip w win n] assms(2) by simp
  moreover have "event_at rows' i = Some (claimed_row w (cw_now win) r)"
    using event_at_row [OF assms(1) r(1)] assms(3) r(2) by (simp add: claim_batch_event_at [OF assms(2)])
  ultimately have "holds_claim (cw_now win) w r rows'"
    using r(2) by (simp add: holds_claim_def claimed_row_def outbox_key_def)
  with r show ?thesis
    by (rule that)
qed

lemma holds_claim_unclaimed:
  "holds_claim t0 w r rows \<Longrightarrow> cw_stale_before win < t0 \<Longrightarrow>
   claim_batch skip w' win m rows = (Inr evs, rows') \<Longrightarrow> ob_id r \<notin> set (map ev_id evs)"
  using holds_claim_not_due set_claim_ids by metis

lemma requeue_releases:
  assumes "holds_claim t0 w r rows" "requeue now t new_id ev rows = (Inr (), rows')"
    and "(event_type_as_str (new_type ev), new_aggregate_id ev) = (ob_type r, ob_aggregate_id r)"
  shows "owner rows' (ob_id r) = None \<and> map_option ob_status (event_at rows' (ob_id r)) = Some OS_Pending"
proof -
  obtain x where x: "event_at rows (ob_id r) = Some x" "x \<in> set rows" "outbox_key x = outbox_key r"
    by (rule holds_claim_row [OF assms(1)])
  have key: "outbox_key (event_row now new_id ev) = outbox_key x"
    using assms(3) x(3) outbox_key_def [of r] by simp
  then have "outbox_key (event_row now new_id ev) \<in> outbox_key ` set rows"
    using x(2) by (metis imageI)
  then have "rows' = upd_where (\<lambda>y. outbox_key y = outbox_key (event_row now new_id ev)) (requeued_row t) rows"
    using assms(2) by (auto simp: requeue_def Let_def ok_def dest!: then_op_InrD update_rows_Ok split: if_splits)
  then have "event_at rows' (ob_id r) = Some (requeued_row t x)"
    using x(1) key by (simp add: event_at_update)
  then show ?thesis
    by (simp add: owner_def requeued_row_def)
qed

end
