(* ===== verification/Outbox_Properties.thy ===== *)
theory Outbox_Properties
  imports Outbox_Worker Outbox_Claims Samples
begin

text \<open>
  The properties of the outbox: the table stays valid, claims are exclusive, a worker that lost a
  claim is harmless, every event is settled as reported, the purge is complete and bounded.
\<close>

section \<open>The table\<close>

lemma push_job_ok: "outbox_row_ok (push_job e i)"
proof -
  have "event_type_ok ''notification.push''"
    by code_simp
  then show ?thesis
    by (simp add: push_job_def outbox_defaults_def outbox_row_defs error_code_ok_def)
qed

lemma enqueue_notification_outbox_ok:
  assumes "outbox_ok (outbox_event db)"
  shows "outbox_ok (outbox_event (snd (enqueue_notification e k t u src i db)))"
proof -
  have "outbox_ok (rows @ push_jobs e k n)" if "outbox_ok rows" "outbox_keys_free (push_jobs e k n) rows" for rows n
    using that push_job_ok
    by (auto simp: outbox_ok_def outbox_keys_free_def outbox_key_def [abs_def] push_jobs_def list_all_iff)
  then show ?thesis
    using assms by (auto simp: enqueue_notification_def Let_def)
qed

text \<open>A statement that succeeds and leaves a valid table.\<close>

definition runs_ok :: "(outbox_row list, database_error, 'a) op \<Rightarrow> outbox_row list \<Rightarrow> bool" where
  "runs_ok m rows = (case m rows of (Inr _, rows') \<Rightarrow> outbox_ok rows' | (Inl _, _) \<Rightarrow> False)"

lemma event_row_ok:
  assumes "\<forall>v. new_type ev \<noteq> Unsupported v"
  shows "outbox_row_ok (event_row now i ev)"
proof -
  have "event_type_ok ''identity.otp.send''" "event_type_ok ''photo.delete''"
    "event_type_ok ''notification.push''" "event_type_ok ''account.erase''"
    "event_type_ok ''billing.subscription.reconcile''" "event_type_ok ''billing.customer.reconcile''"
    "event_type_ok ''billing.store.notification''" "event_type_ok ''billing.store.reconcile''"
    "event_type_ok ''billing.store.acknowledge''"
    by code_simp+
  then have "event_type_ok (event_type_as_str (new_type ev))"
    using assms by (cases "new_type ev") simp_all
  then show ?thesis
    by (simp add: event_row_def outbox_defaults_def outbox_row_defs error_code_ok_def)
qed

lemma requeued_row_ok: "outbox_row_ok r \<Longrightarrow> outbox_row_ok (requeued_row t r)"
  by (simp add: requeued_row_def outbox_row_defs error_code_ok_def)

lemma requeue_runs:
  assumes "outbox_ok rows" "\<forall>v. new_type ev \<noteq> Unsupported v" "i \<notin> set (map ob_id rows)"
  shows "\<exists>rows'. requeue now t i ev rows = (Inr (), rows')"
proof -
  have "list_all (\<lambda>r. outbox_key r = outbox_key (event_row now i ev) \<longrightarrow> outbox_row_ok (requeued_row t r)) rows"
    using assms(1) requeued_row_ok by (auto simp: outbox_ok_def list_all_iff)
  then show ?thesis
    using event_row_ok [OF assms(2)] assms(3)
    by (auto simp: requeue_def Let_def update_rows_def then_op_def bind_op_def ok_def)
qed

lemma claimed_row_ok:
  assumes "outbox_row_ok r" "due_event win r"
  shows "outbox_row_ok (claimed_row w t r) \<longleftrightarrow> ob_attempts r < 100"
  using assms
  by (auto simp: due_event_def claimed_row_def outbox_row_defs OUTBOX_ATTEMPTS_CHECK_def)

lemma claim_batch_runs:
  assumes "outbox_ok rows"
  shows "runs_ok (claim_batch skip w win n) rows \<longleftrightarrow>
    (\<forall>r \<in> set rows. ob_id r \<in> set (claim_candidates skip win n rows) \<longrightarrow> ob_attempts r < 100)"
proof -
  let ?ids = "set (claim_candidates skip win n rows)"
  have due: "due_event win r" if "r \<in> set rows" "ob_id r \<in> ?ids" for r
    using claim_candidatesD [OF that(2)] outbox_id_inj [OF assms that(1)] by metis
  have "outbox_row_ok (claimed_row w (cw_now win) r) \<longleftrightarrow> ob_attempts r < 100"
    if "r \<in> set rows" "ob_id r \<in> ?ids" for r
    using claimed_row_ok [OF _ due [OF that]] assms that(1) by (simp add: outbox_ok_def list_all_iff)
  then have "list_all (\<lambda>r. ob_id r \<in> ?ids \<longrightarrow> outbox_row_ok (claimed_row w (cw_now win) r)) rows \<longleftrightarrow>
      (\<forall>r \<in> set rows. ob_id r \<in> ?ids \<longrightarrow> ob_attempts r < 100)"
    unfolding list_all_iff by blast
  moreover have "runs_ok (claim_batch skip w win n) rows \<longleftrightarrow>
      list_all (\<lambda>r. ob_id r \<in> ?ids \<longrightarrow> outbox_row_ok (claimed_row w (cw_now win) r)) rows"
    using claim_outbox_ok [OF assms, of skip w win n]
    by (auto simp: runs_ok_def claim_batch_def gets_def then_op_def bind_op_def update_rows_def)
  ultimately show ?thesis
    by simp
qed

text \<open>\<^bold>\<open>C25.\<close> On a valid table (unique identifiers and \<^verbatim>\<open>(event_type, aggregate_id)\<close> keys, a lock exactly on
  the events being processed, the dates that belong to each status, at most a hundred attempts) no
  statement of the outbox ever breaks a constraint, and each leaves a valid table: renewing,
  completing and purging always succeed, rescheduling succeeds for every error code and limit the
  columns can hold, enqueuing and requeuing succeed for every event type of the program under a
  fresh identifier.  A claim succeeds exactly when none of the events it picks has used its hundred
  attempts.  The push jobs of a notification satisfy the constraints too.\<close>

theorem outbox_statements_keep_constraints:
  assumes "outbox_ok rows"
  shows "runs_ok (renew_claim t i w) rows \<and> runs_ok (complete i w t) rows \<and>
    runs_ok (purge_resolved before n) rows \<and>
    (m \<le> 32767 \<and> error_code_ok (Some c) \<longrightarrow> runs_ok (reschedule t i w a c m) rows) \<and>
    ((\<forall>v. new_type ev \<noteq> Unsupported v) \<and> i \<notin> set (map ob_id rows) \<longrightarrow>
       runs_ok (enqueue now i ev) rows \<and> runs_ok (requeue now t i ev) rows) \<and>
    (runs_ok (claim_batch skip w win n) rows \<longleftrightarrow>
       (\<forall>r \<in> set rows. ob_id r \<in> set (claim_candidates skip win n rows) \<longrightarrow> ob_attempts r < 100)) \<and>
    (outbox_event db = rows \<longrightarrow> outbox_ok (outbox_event (snd (enqueue_notification e k t u src x db))))"
proof (intro conjI impI, goal_cases)
  case 1
  show ?case
    using renew_outbox_ok [OF assms, of t i w] by (simp add: runs_ok_def renew_claim_result [OF assms])
next
  case 2
  show ?case
    using complete_outbox_ok [OF assms, of i w t] by (simp add: runs_ok_def complete_result [OF assms])
next
  case 3
  show ?case
    using purge_outbox_ok [OF assms, of before n] by (simp add: runs_ok_def purge_resolved_def Let_def)
next
  case 4
  then have "m \<le> i16_max"
    by (simp add: i16_max_def)
  then show ?case
    using 4 reschedule_outbox_ok [OF assms, of t i w a c m]
    by (simp add: runs_ok_def reschedule_result [OF assms])
next
  case 5
  then show ?case
    using event_row_ok [of ev now i] enqueue_outbox_ok [OF assms, of now i ev]
    by (auto simp: runs_ok_def enqueue_def Let_def)
next
  case 6
  then show ?case
    using requeue_runs [OF assms, of ev i now t] requeue_outbox_ok [OF assms, of now t i ev]
    by (auto simp: runs_ok_def)
next
  case 7
  show ?case
    by (rule claim_batch_runs [OF assms])
next
  case 8
  then show ?case
    using enqueue_notification_outbox_ok assms by blast
qed

definition sample_event :: outbox_row where
  "sample_event = outbox_defaults 100 40 ''photo.delete'' 50 []"

definition sample_outbox :: "outbox_row list" where
  "sample_outbox = [sample_event, sample_event\<lparr>ob_id := 41, ob_aggregate_id := 51\<rparr>]"

lemma sample_outbox_ok: "outbox_ok sample_outbox"
  by code_simp

theorem outbox_statements_keep_constraints_witness:
  "runs_ok (claim_batch (\<lambda>_. False) 7 \<lparr>cw_now = 200, cw_stale_before = 0\<rparr> 5) sample_outbox \<and>
   runs_ok (requeue 300 301 42 \<lparr>new_type = PhotoDelete, new_aggregate_id = 50, new_payload = []\<rparr>) sample_outbox"
proof -
  have "\<forall>r \<in> set sample_outbox. ob_attempts r < 100" "42 \<notin> set (map ob_id sample_outbox)"
    by (simp_all add: sample_outbox_def sample_event_def outbox_defaults_def)
  then show ?thesis
    using outbox_statements_keep_constraints [OF sample_outbox_ok, where i = 42 and
        ev = "\<lparr>new_type = PhotoDelete, new_aggregate_id = 50, new_payload = []\<rparr>" and now = 300 and t = 301 and
        skip = "\<lambda>_. False" and w = 7 and win = "\<lparr>cw_now = 200, cw_stale_before = 0\<rparr>" and n = 5]
    by simp
qed

section \<open>Claims\<close>






text \<open>\<^bold>\<open>C27.\<close> A worker that lost its claim is harmless: it neither runs the handler of the event nor
  changes the table, whatever the handler would do.\<close>

theorem lost_claim_is_harmless:
  assumes "outbox_ok rows" "owner rows (ev_id ev) \<noteq> Some w"
  shows "process_event (pg_store skip) tick handle ev w a m rows = (Inr NoChange, rows)"
  using assms by (rule pg_outbox.lost_claim)

theorem lost_claim_is_harmless_witness:
  "process_event (pg_store (\<lambda>_. False)) (\<lambda>_. 300) (\<lambda>_ _ rows. (Inr DO_Completed, []))
     (map_claimed_row sample_event) 7 10 60 sample_outbox = (Inr NoChange, sample_outbox)"
  by (rule lost_claim_is_harmless [OF sample_outbox_ok]) code_simp

text \<open>\<^bold>\<open>C28.\<close> An event is settled as reported: after a pass over it that answers completed, retried or
  dead-lettered, the event has that status and nobody holds it; the table stays valid provided the
  handler keeps it valid.\<close>

theorem event_settled_as_reported:
  assumes "outbox_ok rows" "\<And>s. outbox_ok s \<Longrightarrow> outbox_ok (snd (handle ev w s))"
    and "process_event (pg_store skip) tick handle ev w a m rows = (Inr p, rows')"
  shows "outbox_ok rows' \<and>
    settled (map_option ob_status (event_at rows' (ev_id ev))) (owner rows' (ev_id ev)) p"
  using pg_outbox.process_event_result [OF assms] by blast

definition sample_claimed :: "outbox_row list" where
  "sample_claimed = [claimed_row 7 200 sample_event]"

lemma sample_claimed_ok: "outbox_ok sample_claimed"
  by code_simp

definition sample_processed :: "(worker_error + process_result) \<times> outbox_row list" where
  "sample_processed =
     process_event (pg_store (\<lambda>_. False)) (\<lambda>_. 300) (\<lambda>_ _ rows. (Inl handler_failed, rows))
       (map_claimed_row sample_event) 7 10 (seconds 60) sample_claimed"

lemma sample_processed_runs: "fst sample_processed = Inr Retried"
  by code_simp

theorem event_settled_as_reported_witness:
  "\<exists>rows'. sample_processed = (Inr Retried, rows') \<and>
     map_option ob_status (event_at rows' 40) = Some OS_Pending \<and> owner rows' 40 = None"
proof -
  obtain rows' where run: "sample_processed = (Inr Retried, rows')"
    using sample_processed_runs by (metis prod.collapse)
  from event_settled_as_reported [OF sample_claimed_ok _ run [unfolded sample_processed_def]] show ?thesis
    using run by (auto simp: settled_def map_claimed_row_def sample_event_def outbox_defaults_def)
qed

section \<open>Retries\<close>

text \<open>The delay before a retry doubles with each attempt, from one second, never decreases
  and never exceeds the configured maximum; with the maximum of the program it is one minute from
  the seventh attempt on.\<close>

lemma retry_delay_backoff:
  assumes "0 \<le> maximum"
  shows "0 \<le> retry_delay a maximum \<and> retry_delay a maximum \<le> maximum \<and>
    retry_delay a maximum \<le> retry_delay (a + k) maximum \<and>
    (a < 64 \<longrightarrow> retry_delay (Suc a) maximum = min (seconds (2 ^ a)) maximum) \<and>
    (7 \<le> a \<longrightarrow> retry_delay a OUTBOX_MAX_RETRY_DELAY = OUTBOX_MAX_RETRY_DELAY)"
proof -
  have mono: "(2::int) ^ min (a - 1) 63 \<le> 2 ^ min (a + k - 1) 63"
    by (rule power_increasing) auto
  have "(2::int) ^ 6 \<le> 2 ^ min (a - 1) 63" if "7 \<le> a"
    using that by (intro power_increasing) auto
  then have "seconds 60 \<le> seconds (2 ^ min (a - 1) 63)" if "7 \<le> a"
    using that by (simp add: seconds_def)
  then have top: "7 \<le> a \<longrightarrow> retry_delay a OUTBOX_MAX_RETRY_DELAY = OUTBOX_MAX_RETRY_DELAY"
    by (simp add: retry_delay_def Let_def OUTBOX_MAX_RETRY_DELAY_def)
  have "retry_delay a maximum \<le> retry_delay (a + k) maximum"
    unfolding retry_delay_def Let_def by (rule min.mono) (use mono in \<open>simp_all add: seconds_def\<close>)
  moreover have "0 \<le> retry_delay a maximum" "retry_delay a maximum \<le> maximum"
    using assms by (simp_all add: retry_delay_def Let_def seconds_def)
  moreover have "a < 64 \<longrightarrow> retry_delay (Suc a) maximum = min (seconds (2 ^ a)) maximum"
    by (simp add: retry_delay_def)
  ultimately show ?thesis
    using top by blast
qed

section \<open>A pass\<close>

lemma worker_purge_bounded:
  assumes "outbox_ok rows" "worker_purge (pg_store skip) cfg before rows = (r, rows')"
  shows "outbox_ok rows'" "r = Inr p \<Longrightarrow> pr_batches p \<le> purge_max_batches cfg"
    "r = Inr p \<Longrightarrow> pr_purged p \<le> purge_max_batches cfg * purge_batch_size cfg"
  using pg_outbox.purge_loop_result [OF assms(1) assms(2) [unfolded worker_purge_def]] by auto

lemma purge_step_result:
  assumes "purge_step (pg_store skip) w now r rows = (Inr r', w', rows')" "outbox_ok rows"
  shows "outbox_ok rows' \<and> ow_config w' = ow_config w \<and> ow_worker_id w' = ow_worker_id w \<and>
    wr_claimed r' = wr_claimed r \<and> wr_completed r' = wr_completed r \<and> wr_deferred r' = wr_deferred r \<and>
    wr_retried r' = wr_retried r \<and> wr_dead_lettered r' = wr_dead_lettered r \<and>
    wr_purge_batches r' \<le> max (wr_purge_batches r) (purge_max_batches (ow_config w))"
proof -
  show ?thesis
  proof (cases "purge_is_due w now = Inr True")
    case False
    then have "r' = r" "w' = w" "rows' = rows"
      using assms(1) by (auto simp: purge_step_def split: sum.splits bool.splits)
    then show ?thesis
      using assms(2) by simp
  next
    case True
    then obtain cutoff where cut: "subtract_duration now (resolved_retention (ow_config w)) = Inr cutoff"
      using assms(1) by (cases "subtract_duration now (resolved_retention (ow_config w))") (simp_all add: purge_step_def)
    obtain x s where x: "worker_purge (pg_store skip) (ow_config w) cutoff rows = (x, s)"
      by (rule prod.exhaust)
    show ?thesis
      using assms(1) True cut x worker_purge_bounded [OF assms(2) x]
      by (cases x) (auto simp: purge_step_def)
  qed
qed

text \<open>\<^bold>\<open>C30.\<close> A pass of the worker is bounded and its report adds up: it claims at most
  \<open>batch_size\<close> events, reports no more outcomes than claims, purges in at most
  \<open>purge_max_batches\<close> statements and leaves a valid table, provided the handlers do.\<close>

theorem worker_pass_is_bounded:
  assumes "run_once (pg_store skip) ticks handle now w rows = (Inr r, w', rows')" "outbox_ok rows"
    and handlers: "\<And>ev s. outbox_ok s \<Longrightarrow> outbox_ok (snd (handle ev (ow_worker_id w) s))"
  shows "outbox_ok rows' \<and> ow_config w' = ow_config w \<and> ow_worker_id w' = ow_worker_id w \<and>
    wr_claimed r \<le> batch_size (ow_config w) \<and>
    wr_completed r + wr_deferred r + wr_retried r + wr_dead_lettered r \<le> wr_claimed r \<and>
    wr_purge_batches r \<le> purge_max_batches (ow_config w)"
proof -
  let ?cfg = "ow_config w" and ?me = "ow_worker_id w"
  obtain stale evs s1 outs s2 r0 where
    claim: "st_claim_batch (pg_store skip) ?me \<lparr>cw_now = now, cw_stale_before = stale\<rparr> (batch_size ?cfg) rows = (Inr evs, s1)"
    and all: "process_all (pg_store skip) ticks handle ?me ?cfg 0 evs s1 = (outs, s2)"
    and tally: "tally_all outs (claimed_result ?cfg (length evs)) = Inr r0"
    and purge: "purge_step (pg_store skip) w now r0 s2 = (Inr r, w', rows')"
    using assms(1) by (auto simp: run_once_def Let_def split: sum.splits prod.splits if_splits)
  have s1: "outbox_ok s1" "length evs \<le> batch_size ?cfg"
    using pg_outbox.claim [OF assms(2) claim] by auto
  have s2: "outbox_ok s2 \<and> length outs \<le> length evs"
    by (rule pg_outbox.process_all_result [OF handlers s1(1) all])
  show ?thesis
    using purge_step_result [OF purge] s2 tally_all_counts [OF tally] s1(2)
    by (auto simp: claimed_result_def)
qed

definition sample_worker :: outbox_worker where
  "sample_worker =
     \<lparr>ow_config = from_workloads 100 10, ow_worker_id = 7, ow_last_purge_at = None,
      ow_last_status_at = None\<rparr>"

definition sample_pass :: "(worker_error + outbox_worker_result) \<times> outbox_worker \<times> outbox_row list" where
  "sample_pass =
     run_once (pg_store (\<lambda>_. False)) (\<lambda>_ _. 300) (\<lambda>_ _ rows. (Inr DO_Completed, rows)) 200 sample_worker
       sample_outbox"

lemma sample_pass_runs: "case fst sample_pass of Inr r \<Rightarrow> wr_completed r = 2 | Inl _ \<Rightarrow> False"
  by code_simp

theorem worker_pass_is_bounded_witness:
  "\<exists>r. fst sample_pass = Inr r \<and> wr_completed r = 2 \<and> wr_completed r \<le> wr_claimed r \<and> wr_claimed r \<le> 50"
proof -
  obtain r where r: "fst sample_pass = Inr r" "wr_completed r = 2"
    using sample_pass_runs by (cases "fst sample_pass") auto
  then have "run_once (pg_store (\<lambda>_. False)) (\<lambda>_ _. 300) (\<lambda>_ _ rows. (Inr DO_Completed, rows)) 200
      sample_worker sample_outbox = (Inr r, fst (snd sample_pass), snd (snd sample_pass))"
    by (metis prod.collapse sample_pass_def)
  from worker_pass_is_bounded [OF this sample_outbox_ok] show ?thesis
    using r by (auto simp: sample_worker_def from_workloads_def OUTBOX_BATCH_SIZE_def)
qed

section \<open>The purge\<close>

lemma purge_loop_complete:
  assumes "purge_loop (pg_store skip) before bsize n purged batches prev rows = (Inr p, rows')" "outbox_ok rows"
    and "0 < n \<or> bsize \<le> prev"
  shows "set rows' \<subseteq> set rows \<and> (\<forall>r \<in> set rows. \<not> resolved_before before r \<longrightarrow> r \<in> set rows') \<and>
    (\<not> pr_work_remaining p \<longrightarrow> (\<forall>r \<in> set rows'. \<not> resolved_before before r))"
  using assms
proof (induction n arbitrary: rows purged batches prev)
  case 0
  then show ?case
    by (auto simp: ok_def)
next
  case (Suc n)
  obtain k rows1 where one: "purge_resolved before bsize rows = (Inr k, rows1)"
    by (auto simp: purge_resolved_def Let_def)
  note del = purge_resolved_Ok [OF Suc.prems(2) one]
  have ok1: "outbox_ok rows1"
    using purge_outbox_ok [OF Suc.prems(2), of before bsize] one by simp
  show ?case
  proof (cases "k < bsize")
    case True
    then have "rows' = rows1"
      using Suc.prems(1) one by (simp add: pg_store_def bind_op_def ok_def Let_def)
    then show ?thesis
      using del True by blast
  next
    case False
    then have "purge_loop (pg_store skip) before bsize n (saturating_add_u64 purged k) (batches + 1) k rows1 = (Inr p, rows')"
      using Suc.prems(1) one by (simp add: pg_store_def bind_op_def Let_def)
    from Suc.IH [OF this ok1] False del(1,2) show ?thesis
      by fastforce
  qed
qed

text \<open>\<^bold>\<open>C31.\<close> The purge of the worker deletes only events completed or discarded before the cutoff,
  ends within its number of batches, and when it reports that no work remains, no such event is
  left.\<close>

theorem purge_is_complete:
  assumes "worker_purge (pg_store skip) cfg before rows = (Inr p, rows')" "outbox_ok rows"
    and "0 < purge_max_batches cfg"
  shows "set rows' \<subseteq> set rows \<and> (\<forall>r \<in> set rows. \<not> resolved_before before r \<longrightarrow> r \<in> set rows') \<and>
    (\<not> pr_work_remaining p \<longrightarrow> (\<forall>r \<in> set rows'. \<not> resolved_before before r)) \<and>
    pr_batches p \<le> purge_max_batches cfg \<and>
    pr_purged p \<le> purge_max_batches cfg * purge_batch_size cfg"
  using purge_loop_complete [OF assms(1) [unfolded worker_purge_def] assms(2)] assms(3)
    worker_purge_bounded [OF assms(2,1)] by blast

definition sample_resolved :: "outbox_row list" where
  "sample_resolved = [sample_event, completed_row 150 (sample_event\<lparr>ob_id := 41, ob_aggregate_id := 51\<rparr>)]"

lemma sample_resolved_ok: "outbox_ok sample_resolved"
  by code_simp

lemma sample_purge_runs:
  "case worker_purge (pg_store (\<lambda>_. False)) (from_workloads 2 3) 200 sample_resolved of
     (Inr p, rows) \<Rightarrow> \<not> pr_work_remaining p \<and> pr_purged p = 1 | (Inl _, _) \<Rightarrow> False"
  by code_simp

theorem purge_is_complete_witness:
  "\<exists>p rows'. worker_purge (pg_store (\<lambda>_. False)) (from_workloads 2 3) 200 sample_resolved = (Inr p, rows') \<and>
     pr_purged p = 1 \<and> (\<forall>r \<in> set rows'. \<not> resolved_before 200 r)"
proof -
  obtain x rows' where x: "worker_purge (pg_store (\<lambda>_. False)) (from_workloads 2 3) 200 sample_resolved = (x, rows')"
    by (rule prod.exhaust)
  then obtain p where p: "x = Inr p" "\<not> pr_work_remaining p" "pr_purged p = 1"
    using sample_purge_runs by (cases x) simp_all
  have "0 < purge_max_batches (from_workloads 2 3)"
    by (simp add: from_workloads_def)
  from purge_is_complete [OF x [unfolded p(1)] sample_resolved_ok this] show ?thesis
    using x p by blast
qed

section \<open>Abandoned claims\<close>

text \<open>\<^bold>\<open>C32.\<close> A claim counts an attempt but never gives an event up: only a handler that returns an
  error does.  An event whose workers die before they report therefore reaches the hundred attempts
  the table allows, and from then on every claim that meets it fails as a whole and claims nothing,
  for all events.\<close>

theorem abandoned_event_blocks_claims:
  assumes "r \<in> set rows" "ob_attempts r = OUTBOX_ATTEMPTS_CHECK"
    and "ob_id r \<in> set (claim_candidates skip win n rows)"
  shows "claim_batch skip w win n rows = (Inl (Constraint Check), rows)"
proof -
  let ?ids = "set (claim_candidates skip win n rows)"
  have "\<not> outbox_row_ok (claimed_row w (cw_now win) r)"
    using assms(2) by (simp add: outbox_row_ok_def claimed_row_def)
  then have "update_rows (\<lambda>r. ob_id r \<in> ?ids) (claimed_row w (cw_now win)) rows = (Inl (Constraint Check), rows)"
    using assms(1,3) by (auto simp: update_rows_def list_all_iff)
  then show ?thesis
    by (simp add: claim_batch_def then_op_def bind_op_def gets_def)
qed

text \<open>The state is reached: a hundred claims, ten minutes apart, none of them reported.\<close>

definition crash_window :: "nat \<Rightarrow> claim_window" where
  "crash_window k = \<lparr>cw_now = int k * seconds 600, cw_stale_before = int k * seconds 600 - OUTBOX_LOCK_TIMEOUT\<rparr>"

fun crashes :: "nat \<Rightarrow> outbox_row list" where
  "crashes 0 = [sample_event]"
| "crashes (Suc k) = snd (claim_batch (\<lambda>_. False) 7 (crash_window (Suc k)) OUTBOX_BATCH_SIZE (crashes k))"

lemma claim_single:
  assumes "due_event win r" "outbox_row_ok (claimed_row w (cw_now win) r)" "0 < n"
  shows "snd (claim_batch (\<lambda>_. False) w win n [r]) = [claimed_row w (cw_now win) r]"
  using assms by (simp add: claim_batch_def claim_candidates_def order_limit_def update_rows_def)

lemma crashes_attempts:
  assumes "0 < k" "k \<le> OUTBOX_ATTEMPTS_CHECK"
  shows "crashes k = [sample_event\<lparr>ob_status := OS_Processing, ob_attempts := k,
     ob_locked_at := Some (int k * seconds 600), ob_locked_by := Some 7\<rparr>]"
  using assms
proof (induction k)
  case (Suc k)
  have fine: "event_type_ok (ob_type sample_event)" "error_code_ok (ob_last_error_code sample_event)"
    by code_simp+
  show ?case
  proof (cases k)
    case 0
    have "due_event (crash_window 1) sample_event"
      by code_simp
    then show ?thesis
      using 0 claim_single [of "crash_window 1" sample_event 7 OUTBOX_BATCH_SIZE] fine Suc.prems
      by (simp add: claimed_row_def crash_window_def outbox_row_defs sample_event_def outbox_defaults_def
          OUTBOX_BATCH_SIZE_def)
  next
    case (Suc j)
    let ?r = "sample_event\<lparr>ob_status := OS_Processing, ob_attempts := k,
       ob_locked_at := Some (int k * seconds 600), ob_locked_by := Some 7\<rparr>"
    have "crashes k = [?r]"
      using Suc.IH Suc Suc.prems by simp
    moreover have "due_event (crash_window (Suc k)) ?r"
      by (simp add: due_event_def crash_window_def OUTBOX_LOCK_TIMEOUT_def seconds_def)
    moreover have "outbox_row_ok (claimed_row 7 (cw_now (crash_window (Suc k))) ?r)"
      using fine Suc.prems
      by (simp add: claimed_row_def outbox_row_defs sample_event_def outbox_defaults_def)
    ultimately show ?thesis
      using claim_single [of "crash_window (Suc k)" ?r 7 OUTBOX_BATCH_SIZE]
      by (simp add: claimed_row_def crash_window_def OUTBOX_BATCH_SIZE_def)
  qed
qed simp

theorem abandoned_event_blocks_claims_witness:
  "claim_batch (\<lambda>_. False) 7 (crash_window 101) OUTBOX_BATCH_SIZE
     (crashes 100 @ [sample_event\<lparr>ob_id := 41, ob_aggregate_id := 51\<rparr>]) =
   (Inl (Constraint Check), crashes 100 @ [sample_event\<lparr>ob_id := 41, ob_aggregate_id := 51\<rparr>])"
proof -
  have at: "crashes 100 = [sample_event\<lparr>ob_status := OS_Processing, ob_attempts := 100,
     ob_locked_at := Some (100 * seconds 600), ob_locked_by := Some 7\<rparr>]"
    using crashes_attempts [of 100] by (simp add: OUTBOX_ATTEMPTS_CHECK_def)
  show ?thesis
    unfolding at
    by (rule abandoned_event_blocks_claims [where r = "sample_event\<lparr>ob_status := OS_Processing, ob_attempts := 100,
          ob_locked_at := Some (100 * seconds 600), ob_locked_by := Some 7\<rparr>"])
       (simp_all add: OUTBOX_ATTEMPTS_CHECK_def claim_candidates_def order_limit_def due_event_def
         crash_window_def OUTBOX_LOCK_TIMEOUT_def OUTBOX_BATCH_SIZE_def seconds_def sample_event_def
         outbox_defaults_def)
qed

end
