(* ===== verification/Discovery_Domain.thy ===== *)
theory Discovery_Domain
  imports Complex_Main Database
begin

text \<open>
  \<^verbatim>\<open>src/discovery/domain.rs\<close>, the preferences of \<^verbatim>\<open>src/profiles/domain.rs\<close>, and what they need of
  the language and of PostgreSQL: the value of an \<^verbatim>\<open>f64\<close>, calendar dates, the number of full years
  between two dates (\<^verbatim>\<open>age\<close>) and the subtraction of years from a date.

  An \<^verbatim>\<open>f64\<close> is its 64 bits; \<open>f64_value\<close> is the number it stands for.  Sums and quotients of such
  numbers are exact here, while the program rounds them to the nearest double.
\<close>

section \<open>Floating-point numbers\<close>

type_synonym f64 = "64 word"

definition f64_exponent :: "f64 \<Rightarrow> nat" where
  "f64_exponent b = nat (uint (take_bit 11 (drop_bit 52 b)))"

definition f64_mantissa :: "f64 \<Rightarrow> int" where
  "f64_mantissa b = uint (take_bit 52 b)"

definition is_finite :: "f64 \<Rightarrow> bool" where
  "is_finite b \<longleftrightarrow> f64_exponent b \<noteq> 2047"

definition f64_value :: "f64 \<Rightarrow> rat" where
  "f64_value b =
     (let magnitude =
            (if f64_exponent b = 0 then of_int (f64_mantissa b) / 2 ^ 1074
             else of_int (2 ^ 52 + f64_mantissa b) * 2 ^ f64_exponent b / 2 ^ 1075)
      in if bit b 63 then - magnitude else magnitude)"

section \<open>Dates\<close>

text \<open>Year, month and day, compared in this order.\<close>

type_synonym ymd = "int \<times> int \<times> int"

definition is_leap_year :: "int \<Rightarrow> bool" where
  "is_leap_year y \<longleftrightarrow> 4 dvd y \<and> (\<not> 100 dvd y \<or> 400 dvd y)"

definition days_in_month :: "int \<Rightarrow> int \<Rightarrow> int" where
  "days_in_month y m =
     (if m = 2 then if is_leap_year y then 29 else 28 else if m \<in> {4, 6, 9, 11} then 30 else 31)"

fun valid_date :: "ymd \<Rightarrow> bool" where
  "valid_date (y, m, d) \<longleftrightarrow> 1 \<le> m \<and> m \<le> 12 \<and> 1 \<le> d \<and> d \<le> days_in_month y m"

text \<open>\<^verbatim>\<open>(date - make_interval(years => n))::date\<close>: a 29 February becomes the 28th in a common
  year.\<close>

fun minus_years :: "ymd \<Rightarrow> int \<Rightarrow> ymd" where
  "minus_years (y, m, d) n = (y - n, m, min d (days_in_month (y - n) m))"

text \<open>\<^verbatim>\<open>date_part('year', age(current_date, birthdate))\<close>.\<close>

fun full_years :: "ymd \<Rightarrow> ymd \<Rightarrow> int" where
  "full_years (y, m, d) (y', m', d') = y - y' - (if (m, d) < (m', d') then 1 else 0)"

definition age_years :: "ymd \<Rightarrow> ymd \<Rightarrow> int" where
  "age_years today birth =
     (if birth \<le> today then full_years today birth else - full_years birth today)"

section \<open>Preferences\<close>

datatype sex = Male | Female | Other

fun sex_as_str :: "sex \<Rightarrow> string" where
  "sex_as_str Male = ''male''"
| "sex_as_str Female = ''female''"
| "sex_as_str Other = ''other''"

definition sex_parse :: "string \<Rightarrow> sex option" where
  "sex_parse s =
     (if s = ''male'' then Some Male else if s = ''female'' then Some Female
      else if s = ''other'' then Some Other else None)"

datatype looking_for = LookMale | LookFemale | LookBoth | LookOther

fun looking_for_as_str :: "looking_for \<Rightarrow> string" where
  "looking_for_as_str LookMale = ''male''"
| "looking_for_as_str LookFemale = ''female''"
| "looking_for_as_str LookBoth = ''both''"
| "looking_for_as_str LookOther = ''other''"

definition looking_for_parse :: "string \<Rightarrow> looking_for option" where
  "looking_for_parse s =
     (if s = ''male'' then Some LookMale else if s = ''female'' then Some LookFemale
      else if s = ''both'' then Some LookBoth else if s = ''other'' then Some LookOther else None)"

text \<open>\<^verbatim>\<open>looking_for = sex OR (looking_for = 'both' AND sex IN ('male', 'female'))\<close>.\<close>

definition accepts :: "looking_for \<Rightarrow> sex \<Rightarrow> bool" where
  "accepts l s \<longleftrightarrow>
     looking_for_as_str l = sex_as_str s \<or>
     looking_for_as_str l = ''both'' \<and> sex_as_str s \<in> {''male'', ''female''}"

section \<open>The feed and swipes\<close>

definition SWIPE_RETENTION_DAYS :: int where "SWIPE_RETENTION_DAYS = 30"

datatype swipe_decision = Like | Pass

fun decision_as_str :: "swipe_decision \<Rightarrow> string" where
  "decision_as_str Like = ''like''"
| "decision_as_str Pass = ''pass''"

definition decision_parse :: "string \<Rightarrow> swipe_decision option" where
  "decision_parse s =
     (if s = ''like'' then Some Like else if s = ''pass'' then Some Pass else None)"

record discovery_cursor =
  dc_distance_km :: f64
  dc_id :: uuid

record feed_profile_answer =
  fa_question_id :: uuid
  fa_code :: string
  fa_question :: utext
  fa_answer :: utext
  fa_position :: int

record candidate_row =
  cd_user_id :: uuid
  cd_firstname :: utext
  cd_age :: int
  cd_sex :: sex
  cd_bio :: "utext option"
  cd_distance_km :: f64
  cd_traits :: "utext list"
  cd_profile_answers :: "feed_profile_answer list"

record discovery_batch =
  bt_ready :: bool
  bt_candidates :: "candidate_row list"

text \<open>The published profile: as the row, with the distance rounded up to a multiple of five
  kilometres.\<close>

record feed_candidate =
  fc_user_id :: uuid
  fc_firstname :: utext
  fc_age :: int
  fc_sex :: sex
  fc_bio :: "utext option"
  fc_distance_km :: int
  fc_traits :: "utext list"
  fc_profile_answers :: "feed_profile_answer list"

definition published_distance :: "rat \<Rightarrow> int" where
  "published_distance d = max \<lceil>d / 5\<rceil> 1 * 5"

definition feed_candidate_from :: "candidate_row \<Rightarrow> feed_candidate" where
  "feed_candidate_from r =
     \<lparr>fc_user_id = cd_user_id r, fc_firstname = cd_firstname r, fc_age = cd_age r,
      fc_sex = cd_sex r, fc_bio = cd_bio r,
      fc_distance_km = published_distance (f64_value (cd_distance_km r)),
      fc_traits = cd_traits r, fc_profile_answers = cd_profile_answers r\<rparr>"

section \<open>Readiness\<close>

datatype required_action =
  NeedProfile | NeedSex | NeedPhoto | NeedPreferences | NeedSensitiveDataConsent
| NeedLocationConsent | NeedFreshPresence | ResumeDiscovery

record status_row =
  sr_paused :: bool
  has_profile :: bool
  has_sex :: bool
  has_approved_photo :: bool
  has_preferences :: bool
  has_sensitive_consent :: bool
  has_location_consent :: bool
  has_fresh_presence :: bool
  presence_expires_at :: "instant option"

definition required_actions :: "status_row \<Rightarrow> required_action list" where
  "required_actions r =
     (if sr_paused r then [ResumeDiscovery] else []) @
     (if \<not> has_profile r then [NeedProfile] else if \<not> has_sex r then [NeedSex] else []) @
     (if \<not> has_preferences r then [NeedPreferences] else []) @
     (if \<not> has_approved_photo r then [NeedPhoto] else []) @
     (if \<not> has_sensitive_consent r then [NeedSensitiveDataConsent] else []) @
     (if \<not> has_location_consent r then [NeedLocationConsent] else []) @
     (if \<not> has_fresh_presence r then [NeedFreshPresence] else [])"

record swipe_record =
  sc_actor_id :: uuid
  sc_target_id :: uuid
  sc_decision :: swipe_decision
  sc_swiped_at :: instant

record recorded_swipe =
  rs_created :: bool
  rs_decision :: swipe_decision

section \<open>Lemmas\<close>

lemma sex_round_trip: "sex_parse (sex_as_str s) = Some s"
  by (cases s) (simp_all add: sex_parse_def)

lemma looking_for_round_trip: "looking_for_parse (looking_for_as_str l) = Some l"
  by (cases l) (simp_all add: looking_for_parse_def)

lemma decision_round_trip: "decision_parse (decision_as_str d) = Some d"
  by (cases d) (simp_all add: decision_parse_def)

lemma accepts_cases:
  "accepts l s \<longleftrightarrow>
     (l = LookMale \<and> s = Male) \<or> (l = LookFemale \<and> s = Female) \<or> (l = LookOther \<and> s = Other) \<or>
     (l = LookBoth \<and> s \<noteq> Other)"
  by (cases l; cases s) (simp_all add: accepts_def)

lemma days_in_month_bounds: "28 \<le> days_in_month y m" "days_in_month y m \<le> 31"
  by (simp_all add: days_in_month_def)

lemma days_in_month_not_february: "m \<noteq> 2 \<Longrightarrow> days_in_month y m = days_in_month y' m"
  by (simp add: days_in_month_def)

text \<open>The window of birth dates of the query is the window of ages: a person born after
  \<open>oldest\<close> (the day \<open>max_age + 1\<close> years ago) and no later than \<open>youngest\<close> (the day \<open>min_age\<close>
  years ago) has at least \<open>min_age\<close> and at most \<open>max_age\<close> full years, also around 29 February.\<close>

lemma born_by_iff:
  assumes "valid_date today" "valid_date birth"
  shows "birth \<le> minus_years today n \<longleftrightarrow> n \<le> full_years today birth"
proof -
  obtain y m d where today: "today = (y, m, d)" by (cases today) auto
  obtain y' m' d' where birth: "birth = (y', m', d')" by (cases birth) auto
  show ?thesis
  proof (cases "y' = y - n")
    case True
    then show ?thesis
      using assms unfolding today birth
      by (cases "m' = m") (auto simp: less_eq_prod_def less_prod_def min_def)
  next
    case False
    then show ?thesis
      unfolding today birth by (auto simp: less_eq_prod_def less_prod_def)
  qed
qed

lemma age_in_range_iff:
  assumes "valid_date today" "valid_date birth" "0 < lo" "lo \<le> hi + 1"
  shows "minus_years today (hi + 1) < birth \<and> birth \<le> minus_years today lo \<longleftrightarrow>
    lo \<le> age_years today birth \<and> age_years today birth \<le> hi"
proof -
  have le: "birth \<le> minus_years today n \<longleftrightarrow> n \<le> full_years today birth" for n
    by (rule born_by_iff [OF assms(1,2)])
  have past: "0 \<le> full_years today birth \<longleftrightarrow> birth \<le> today"
    using le [of 0] assms(1) by (cases today) (simp add: min_def)
  have future: "0 \<le> full_years birth today" if "\<not> birth \<le> today"
    using that by (cases today; cases birth) (auto simp: less_eq_prod_def less_prod_def)
  show ?thesis
    using le [of lo] le [of "hi + 1"] past future assms(3,4)
    by (auto simp: age_years_def not_le [symmetric])
qed

end
