(* ===== verification/Discovery.thy ===== *)
theory Discovery
  imports Discovery_Domain
begin

text \<open>
  \<^verbatim>\<open>src/discovery/pg.rs\<close>: who is ready for discovery, the query behind the feed and its widening
  radius, the eligibility of one target, and the table of swipes.

  The tables of discovery stand beside the core tables of \<open>db\<close>.  What PostgreSQL and PostGIS
  compute on coordinates is a parameter: the haversine distance in kilometres, the spatial
  pre-filter \<^verbatim>\<open>st_dwithin\<close> in metres, and the collation by which trait names are sorted.  A statement
  reads a \<open>snapshot\<close>: the committed tables, \<^verbatim>\<open>statement_timestamp()\<close> and \<^verbatim>\<open>current_date\<close>.  The
  statements of one request need not see the same snapshot.
\<close>

section \<open>Tables\<close>

record profile_row =
  pf_firstname :: utext
  pf_birthdate :: ymd
  pf_sex :: "sex option"
  pf_bio :: "utext option"

record preferences_row =
  pp_min_age :: int
  pp_max_age :: int
  pp_max_distance_km :: int
  pp_looking_for :: looking_for

record presence_row =
  pr_user :: uuid
  pr_latitude :: "rat option"
  pr_longitude :: "rat option"
  pr_fresh :: bool
  pr_updated_at :: instant

record swipe_row =
  sw_decision :: swipe_decision
  sw_swiped_at :: instant
  sw_expires_at :: instant

record answer_row =
  an_id :: uuid
  an_user :: uuid
  an_question :: uuid
  an_answer :: utext
  an_position :: int

record question_row =
  qu_code :: string
  qu_prompt :: utext

record discovery_db =
  core :: db
  user_profile :: "uuid \<rightharpoonup> profile_row"
  user_preferences :: "uuid \<rightharpoonup> preferences_row"
  user_presence :: "presence_row list"
  swipes :: "uuid \<times> uuid \<rightharpoonup> swipe_row"
  user_trait :: "(uuid \<times> utext) list"
  user_profile_answer :: "answer_row list"
  profile_question :: "uuid \<rightharpoonup> question_row"
  approved_bio :: "uuid list"
  approved_answer :: "uuid list"

type_synonym coordinates = "rat \<times> rat"

record spatial =
  haversine :: "coordinates \<Rightarrow> coordinates \<Rightarrow> f64"
  dwithin :: "coordinates \<Rightarrow> coordinates \<Rightarrow> rat \<Rightarrow> bool"
  collation :: "utext \<Rightarrow> nat"

record snapshot =
  sn_db :: discovery_db
  sn_now :: instant
  sn_today :: ymd

definition on_core :: "(db, 'e, 'a) op \<Rightarrow> (discovery_db, 'e, 'a) op" where
  "on_core m s = (case m (core s) of (r, d) \<Rightarrow> (r, s\<lparr>core := d\<rparr>))"

section \<open>Readiness\<close>

definition consent_given :: "db \<Rightarrow> uuid \<Rightarrow> string \<Rightarrow> string \<Rightarrow> bool" where
  "consent_given db u consent version \<longleftrightarrow>
     list_ex (\<lambda>c. con_user c = u \<and> con_type c = consent \<and> con_granted c \<and> con_withdrawn_at c = None \<and>
       con_version c = version) (user_consent db)"

definition photo_approved :: "db \<Rightarrow> uuid \<Rightarrow> bool" where
  "photo_approved db u \<longleftrightarrow>
     list_ex (\<lambda>p. ph_user p = u \<and> ph_ready p \<and> ph_id p \<in> set (approved_photo db)) (user_photo db)"

definition both_consents :: "legal_config \<Rightarrow> db \<Rightarrow> uuid \<Rightarrow> bool" where
  "both_consents legal db u \<longleftrightarrow>
     consent_given db u ''sensitive_data_consent'' (sensitive_data_consent_version legal) \<and>
     consent_given db u ''location_consent'' (location_consent_version legal)"

definition presence_of :: "discovery_db \<Rightarrow> uuid \<Rightarrow> presence_row option" where
  "presence_of s u = find (\<lambda>p. pr_user p = u) (user_presence s)"

definition presence_fresh :: "instant \<Rightarrow> presence_row \<Rightarrow> bool" where
  "presence_fresh now p \<longleftrightarrow> pr_fresh p \<and> pr_updated_at p > now - hours 1"

definition visible_account :: "db \<Rightarrow> uuid \<Rightarrow> bool" where
  "visible_account db u \<longleftrightarrow>
     (case user_account db u of
        Some a \<Rightarrow> deleted_at a = None \<and> \<not> is_banned a \<and> \<not> discovery_paused a
      | None \<Rightarrow> False)"

text \<open>The joined rows of \<^verbatim>\<open>READY_SQL\<close>, which are those of \<^verbatim>\<open>VIEWER_SQL\<close>.\<close>

definition ready_rows ::
  "legal_config \<Rightarrow> instant \<Rightarrow> discovery_db \<Rightarrow> uuid \<Rightarrow>
   (profile_row \<times> sex \<times> preferences_row \<times> presence_row) option" where
  "ready_rows legal now s u =
     (case user_profile s u of None \<Rightarrow> None | Some pf \<Rightarrow>
      case pf_sex pf of None \<Rightarrow> None | Some sx \<Rightarrow>
      case user_preferences s u of None \<Rightarrow> None | Some pp \<Rightarrow>
      case presence_of s u of None \<Rightarrow> None | Some pr \<Rightarrow>
        if visible_account (core s) u \<and> presence_fresh now pr \<and> photo_approved (core s) u \<and>
           both_consents legal (core s) u
        then Some (pf, sx, pp, pr) else None)"

definition is_ready :: "legal_config \<Rightarrow> instant \<Rightarrow> discovery_db \<Rightarrow> uuid \<Rightarrow> bool" where
  "is_ready legal now s u \<longleftrightarrow> ready_rows legal now s u \<noteq> None"

definition status_of_user :: "legal_config \<Rightarrow> instant \<Rightarrow> discovery_db \<Rightarrow> uuid \<Rightarrow> status_row" where
  "status_of_user legal now s u =
     \<lparr>sr_paused = (case user_account (core s) u of Some a \<Rightarrow> discovery_paused a | None \<Rightarrow> False),
      has_profile = (user_profile s u \<noteq> None),
      has_sex = (case user_profile s u of Some pf \<Rightarrow> pf_sex pf \<noteq> None | None \<Rightarrow> False),
      has_approved_photo = photo_approved (core s) u,
      has_preferences = (user_preferences s u \<noteq> None),
      has_sensitive_consent =
        consent_given (core s) u ''sensitive_data_consent'' (sensitive_data_consent_version legal),
      has_location_consent =
        consent_given (core s) u ''location_consent'' (location_consent_version legal),
      has_fresh_presence = (case presence_of s u of Some p \<Rightarrow> presence_fresh now p | None \<Rightarrow> False),
      presence_expires_at = map_option (\<lambda>p. pr_updated_at p + hours 1) (presence_of s u)\<rparr>"

text \<open>Pausing discovery.\<close>

definition paused :: "uuid \<Rightarrow> (discovery_db, database_error, bool) op" where
  "paused u s =
     (case user_account (core s) u of
        Some a \<Rightarrow> if deleted_at a = None \<and> \<not> is_banned a then (Inr (discovery_paused a), s)
                 else (Inl AccountUnavailable, s)
      | None \<Rightarrow> (Inl AccountUnavailable, s))"

definition set_paused :: "uuid \<Rightarrow> bool \<Rightarrow> (discovery_db, database_error, bool) op" where
  "set_paused u b s =
     (case user_account (core s) u of
        Some a \<Rightarrow>
          if deleted_at a = None \<and> \<not> is_banned a
          then (Inr b, s\<lparr>core := (core s)\<lparr>user_account :=
                  (user_account (core s))(u \<mapsto> a\<lparr>discovery_paused := b\<rparr>)\<rparr>\<rparr>)
          else (Inl AccountUnavailable, s)
      | None \<Rightarrow> (Inl AccountUnavailable, s))"

section \<open>The viewer\<close>

record viewer =
  vw_sex :: sex
  vw_age :: int
  vw_preferences :: preferences_row
  vw_oldest_birthdate :: ymd
  vw_youngest_birthdate :: ymd
  vw_latitude :: "rat option"
  vw_longitude :: "rat option"
  vw_location :: "coordinates option"

definition in_range :: "rat option \<Rightarrow> rat option \<Rightarrow> coordinates option" where
  "in_range lat lon =
     (case (lat, lon) of
        (Some a, Some b) \<Rightarrow>
          if - 90 \<le> a \<and> a \<le> 90 \<and> - 180 \<le> b \<and> b \<le> 180 then Some (a, b) else None
      | _ \<Rightarrow> None)"

definition viewer_of :: "legal_config \<Rightarrow> snapshot \<Rightarrow> uuid \<Rightarrow> viewer option" where
  "viewer_of legal sn u =
     map_option (\<lambda>(pf, sx, pp, pr).
       \<lparr>vw_sex = sx, vw_age = age_years (sn_today sn) (pf_birthdate pf), vw_preferences = pp,
        vw_oldest_birthdate = minus_years (sn_today sn) (pp_max_age pp + 1),
        vw_youngest_birthdate = minus_years (sn_today sn) (pp_min_age pp),
        vw_latitude = pr_latitude pr, vw_longitude = pr_longitude pr,
        vw_location = in_range (pr_latitude pr) (pr_longitude pr)\<rparr>)
       (ready_rows legal (sn_now sn) (sn_db sn) u)"

text \<open>\<^verbatim>\<open>greatest\<close> ignores nulls, so the distance from a viewer without coordinates is zero.\<close>

definition distance_km :: "spatial \<Rightarrow> viewer \<Rightarrow> presence_row \<Rightarrow> f64" where
  "distance_km geo v p =
     (case (vw_latitude v, vw_longitude v, pr_latitude p, pr_longitude p) of
        (Some a, Some b, Some c, Some d) \<Rightarrow> haversine geo (a, b) (c, d)
      | _ \<Rightarrow> 0)"

text \<open>\<^verbatim>\<open>GEO_JOIN_SQL\<close>: another user, freshly located, at proper coordinates.\<close>

definition located :: "snapshot \<Rightarrow> uuid \<Rightarrow> presence_row \<Rightarrow> bool" where
  "located sn u p \<longleftrightarrow>
     pr_user p \<noteq> u \<and> presence_fresh (sn_now sn) p \<and> in_range (pr_latitude p) (pr_longitude p) \<noteq> None"

definition viewer_max :: "viewer \<Rightarrow> rat" where
  "viewer_max v = of_int (pp_max_distance_km (vw_preferences v))"

definition spatial_margin :: "rat \<Rightarrow> rat" where
  "spatial_margin r = r * 1000 * (1000001 / 1000000) + 1"

definition spatial_filter :: "spatial \<Rightarrow> viewer \<Rightarrow> rat \<Rightarrow> presence_row \<Rightarrow> bool" where
  "spatial_filter geo v radius p \<longleftrightarrow>
     (case (in_range (pr_latitude p) (pr_longitude p), vw_location v) of
        (Some a, Some b) \<Rightarrow> dwithin geo a b (spatial_margin (min radius (viewer_max v)))
      | _ \<Rightarrow> False)"

definition after_cursor :: "discovery_cursor option \<Rightarrow> f64 \<Rightarrow> uuid \<Rightarrow> bool" where
  "after_cursor cur d u \<longleftrightarrow>
     (case cur of None \<Rightarrow> True | Some c \<Rightarrow> (f64_value d, u) > (f64_value (dc_distance_km c), dc_id c))"

section \<open>Candidates\<close>

text \<open>The conditions the feed and a targeted query share.\<close>

definition fitting_profile ::
  "legal_config \<Rightarrow> snapshot \<Rightarrow> viewer \<Rightarrow> uuid \<Rightarrow> (profile_row \<times> sex \<times> preferences_row) option" where
  "fitting_profile legal sn v t =
     (let s = sn_db sn in
      case user_profile s t of None \<Rightarrow> None | Some pf \<Rightarrow>
      case pf_sex pf of None \<Rightarrow> None | Some sx \<Rightarrow>
      case user_preferences s t of None \<Rightarrow> None | Some pp \<Rightarrow>
        if photo_approved (core s) t \<and>
           pf_birthdate pf > vw_oldest_birthdate v \<and> pf_birthdate pf \<le> vw_youngest_birthdate v \<and>
           visible_account (core s) t \<and>
           pp_min_age pp \<le> vw_age v \<and> vw_age v \<le> pp_max_age pp \<and>
           accepts (pp_looking_for (vw_preferences v)) sx \<and> accepts (pp_looking_for pp) (vw_sex v) \<and>
           both_consents legal (core s) t
        then Some (pf, sx, pp) else None)"

definition swipe_current :: "instant \<Rightarrow> discovery_db \<Rightarrow> uuid \<Rightarrow> uuid \<Rightarrow> swipe_row option" where
  "swipe_current now s a t =
     (case swipes s (a, t) of
        Some w \<Rightarrow> if sw_expires_at w > now then Some w else None | None \<Rightarrow> None)"

text \<open>\<^verbatim>\<open>excluded\<close> of \<^verbatim>\<open>FEED_PAGE_SQL\<close>: matched, blocked either way, or already swiped.\<close>

definition excluded :: "snapshot \<Rightarrow> uuid \<Rightarrow> uuid \<Rightarrow> bool" where
  "excluded sn u t \<longleftrightarrow>
     list_ex (\<lambda>m. user1_id m = u \<and> user2_id m = t \<or> user2_id m = u \<and> user1_id m = t)
       (match_init (core (sn_db sn))) \<or>
     blocked_pair (core (sn_db sn)) u t \<or>
     swipe_current (sn_now sn) (sn_db sn) u t \<noteq> None"

definition moderated_bio :: "discovery_db \<Rightarrow> uuid \<Rightarrow> profile_row \<Rightarrow> utext option" where
  "moderated_bio s u pf = (if u \<in> set (approved_bio s) then pf_bio pf else None)"

definition trait_names :: "spatial \<Rightarrow> discovery_db \<Rightarrow> uuid \<Rightarrow> utext list" where
  "trait_names geo s u = sort_key (collation geo) (map snd (filter (\<lambda>(v, _). v = u) (user_trait s)))"

definition profile_answers :: "discovery_db \<Rightarrow> uuid \<Rightarrow> feed_profile_answer list" where
  "profile_answers s u =
     List.map_filter (\<lambda>a. map_option (\<lambda>q.
         \<lparr>fa_question_id = an_question a, fa_code = qu_code q, fa_question = qu_prompt q,
          fa_answer = an_answer a, fa_position = an_position a\<rparr>) (profile_question s (an_question a)))
       (sort_key an_position
         (filter (\<lambda>a. an_user a = u \<and> an_id a \<in> set (approved_answer s)) (user_profile_answer s)))"

definition candidate_of ::
  "spatial \<Rightarrow> snapshot \<Rightarrow> uuid \<Rightarrow> profile_row \<Rightarrow> sex \<Rightarrow> f64 \<Rightarrow> candidate_row" where
  "candidate_of geo sn t pf sx d =
     \<lparr>cd_user_id = t, cd_firstname = pf_firstname pf,
      cd_age = age_years (sn_today sn) (pf_birthdate pf), cd_sex = sx,
      cd_bio = moderated_bio (sn_db sn) t pf, cd_distance_km = d,
      cd_traits = trait_names geo (sn_db sn) t, cd_profile_answers = profile_answers (sn_db sn) t\<rparr>"

definition feed_key :: "candidate_row \<Rightarrow> rat \<times> uuid" where
  "feed_key c = (f64_value (cd_distance_km c), cd_user_id c)"

section \<open>The feed\<close>

text \<open>\<^verbatim>\<open>FEED_PAGE_SQL\<close>: the eligible users within a radius, after the cursor.\<close>

definition feed_candidate_at ::
  "spatial \<Rightarrow> legal_config \<Rightarrow> snapshot \<Rightarrow> uuid \<Rightarrow> viewer \<Rightarrow> presence_row \<Rightarrow> candidate_row option" where
  "feed_candidate_at geo legal sn u v p =
     (let d = distance_km geo v p in
      case fitting_profile legal sn v (pr_user p) of
        None \<Rightarrow> None
      | Some (pf, sx, pp) \<Rightarrow>
          if f64_value d \<le> of_int (pp_max_distance_km pp) \<and> \<not> excluded sn u (pr_user p)
          then Some (candidate_of geo sn (pr_user p) pf sx d) else None)"

definition nearby ::
  "spatial \<Rightarrow> snapshot \<Rightarrow> uuid \<Rightarrow> viewer \<Rightarrow> discovery_cursor option \<Rightarrow> rat \<Rightarrow> presence_row \<Rightarrow> bool" where
  "nearby geo sn u v cur radius p \<longleftrightarrow>
     located sn u p \<and> spatial_filter geo v radius p \<and>
     f64_value (distance_km geo v p) \<le> min (viewer_max v) radius \<and>
     after_cursor cur (distance_km geo v p) (pr_user p)"

definition feed_page ::
  "spatial \<Rightarrow> legal_config \<Rightarrow> snapshot \<Rightarrow> uuid \<Rightarrow> viewer \<Rightarrow> nat \<Rightarrow> discovery_cursor option \<Rightarrow> rat \<Rightarrow>
   candidate_row list" where
  "feed_page geo legal sn u v limit cur radius =
     order_limit feed_key limit (List.map_filter (feed_candidate_at geo legal sn u v)
       (filter (nearby geo sn u v cur radius) (user_presence (sn_db sn))))"

text \<open>The result rows: whether the viewer is ready, whether the radius covers the preference, and
  the page.\<close>

definition feed_query ::
  "spatial \<Rightarrow> legal_config \<Rightarrow> snapshot \<Rightarrow> uuid \<Rightarrow> nat \<Rightarrow> discovery_cursor option \<Rightarrow> rat \<Rightarrow>
   bool \<times> bool \<times> candidate_row list" where
  "feed_query geo legal sn u limit cur radius =
     (case viewer_of legal sn u of
        None \<Rightarrow> (False, True, [])
      | Some v \<Rightarrow> (True, vw_location v = None \<or> radius \<ge> viewer_max v,
                  feed_page geo legal sn u v limit cur radius))"

text \<open>The loop of \<^verbatim>\<open>feed_batch_inner\<close>: the radius doubles until the page is full or the preference
  is covered.  Statement \<open>k\<close> reads \<open>sn k\<close>; the loop also returns the number of the next statement.\<close>

partial_function (option) feed_radius ::
  "spatial \<Rightarrow> legal_config \<Rightarrow> (nat \<Rightarrow> snapshot) \<Rightarrow> uuid \<Rightarrow> nat \<Rightarrow> discovery_cursor option \<Rightarrow> nat \<Rightarrow>
   rat \<Rightarrow> (nat \<times> discovery_batch) option" where
  "feed_radius geo legal sn u limit cur k radius =
     (case feed_query geo legal (sn k) u limit cur radius of (ready, exhausted, candidates) \<Rightarrow>
        if \<not> ready \<or> exhausted \<or> length candidates \<ge> limit
        then Some (Suc k, \<lparr>bt_ready = ready, bt_candidates = candidates\<rparr>)
        else feed_radius geo legal sn u limit cur (Suc k) (radius * 2))"

declare feed_radius.simps [code]

definition start_radius :: "discovery_cursor option \<Rightarrow> rat" where
  "start_radius cur =
     (case cur of None \<Rightarrow> 1 / 10 | Some c \<Rightarrow> max (f64_value (dc_distance_km c) + 1 / 10) (1 / 10))"

definition feed_batch ::
  "spatial \<Rightarrow> legal_config \<Rightarrow> (nat \<Rightarrow> snapshot) \<Rightarrow> uuid \<Rightarrow> nat \<Rightarrow> discovery_cursor option \<Rightarrow> nat \<Rightarrow>
   (nat \<times> discovery_batch) option" where
  "feed_batch geo legal sn u limit cur k =
     feed_radius geo legal sn u limit cur k (start_radius cur)"

section \<open>One target\<close>

text \<open>\<^verbatim>\<open>excluded\<close> of \<^verbatim>\<open>TARGET_SETS_SQL\<close>: a match of the pair excludes the target unless it is live
  and the viewer's like still stands, which is the case of a retried swipe.\<close>

definition live_window :: "instant \<Rightarrow> match_row \<Rightarrow> bool" where
  "live_window now m \<longleftrightarrow>
     m_status m = Confirmed \<and> m_expires_at m > now \<or>
     m_status m = Active \<and> m_expires_at m + hours 24 > now \<or>
     m_status m = AwaitingContinuation \<and> m_expires_at m > now"

definition target_excluded :: "snapshot \<Rightarrow> uuid \<Rightarrow> uuid \<Rightarrow> bool" where
  "target_excluded sn u t \<longleftrightarrow>
     list_ex (\<lambda>m. user1_id m = min u t \<and> user2_id m = max u t \<and>
         \<not> (live_window (sn_now sn) m \<and>
            (case swipe_current (sn_now sn) (sn_db sn) u t of
               Some w \<Rightarrow> sw_decision w = Like | None \<Rightarrow> False)))
       (match_init (core (sn_db sn))) \<or>
     blocked_pair (core (sn_db sn)) u t"

definition target_candidate_at ::
  "spatial \<Rightarrow> legal_config \<Rightarrow> snapshot \<Rightarrow> uuid \<Rightarrow> viewer \<Rightarrow> uuid \<Rightarrow> discovery_cursor option \<Rightarrow>
   presence_row \<Rightarrow> candidate_row option" where
  "target_candidate_at geo legal sn u v t cur p =
     (let d = distance_km geo v p in
      if \<not> (located sn u p \<and> pr_user p = t) then None
      else case fitting_profile legal sn v t of
        None \<Rightarrow> None
      | Some (pf, sx, pp) \<Rightarrow>
          if f64_value d \<le> min (viewer_max v) (of_int (pp_max_distance_km pp)) \<and>
             \<not> target_excluded sn u t \<and> after_cursor cur d t
          then Some (candidate_of geo sn t pf sx d) else None)"

definition target_batch ::
  "spatial \<Rightarrow> legal_config \<Rightarrow> snapshot \<Rightarrow> uuid \<Rightarrow> nat \<Rightarrow> discovery_cursor option \<Rightarrow> uuid \<Rightarrow>
   candidate_row list" where
  "target_batch geo legal sn u limit cur t =
     (case viewer_of legal sn u of
        None \<Rightarrow> []
      | Some v \<Rightarrow> order_limit feed_key limit
          (List.map_filter (target_candidate_at geo legal sn u v t cur) (user_presence (sn_db sn))))"

definition candidate_batch ::
  "spatial \<Rightarrow> legal_config \<Rightarrow> (nat \<Rightarrow> snapshot) \<Rightarrow> uuid \<Rightarrow> nat \<Rightarrow> discovery_cursor option \<Rightarrow>
   uuid option \<Rightarrow> nat \<Rightarrow> (nat \<times> candidate_row list) option" where
  "candidate_batch geo legal sn u limit cur target k =
     (case target of
        None \<Rightarrow> map_option (\<lambda>(k', b). (k', bt_candidates b)) (feed_batch geo legal sn u limit cur k)
      | Some t \<Rightarrow> Some (Suc k, target_batch geo legal (sn k) u limit cur t))"

section \<open>Swipes\<close>

datatype account_activity_error =
  ActivityAccountUnavailable | ActivityUnavailable | ActivityDatabase database_error

datatype discovery_store_error =
  StoreDatabase database_error | StoreActivity account_activity_error | InvalidStoredData
| StoreNotReady | StoreCandidateNotFound

text \<open>The shared lease on the accounts of a request: whether the session and its advisory locks
  could be taken, and whether the lease is still held at each check.\<close>

record lease =
  le_acquire :: "account_activity_error option"
  le_held :: "nat \<Rightarrow> bool"

definition assert_held :: "lease \<Rightarrow> nat \<Rightarrow> ('s, discovery_store_error, unit) op" where
  "assert_held l i = (if le_held l i then ok () else err (StoreActivity ActivityUnavailable))"

definition activity_run ::
  "lease \<Rightarrow> uuid list \<Rightarrow> (discovery_db, discovery_store_error, 'a) op \<Rightarrow>
   (discovery_db, discovery_store_error, 'a) op" where
  "activity_run l users work s =
     (case le_acquire l of
        Some e \<Rightarrow> (Inl (StoreActivity e), s)
      | None \<Rightarrow>
          if list_all (live_account (core s)) users
          then bind_op work (\<lambda>v. then_op (assert_held l 2) (ok v)) s
          else (Inl (StoreActivity ActivityAccountUnavailable), s))"

definition account_may_swipe :: "db \<Rightarrow> uuid \<Rightarrow> bool" where
  "account_may_swipe db u \<longleftrightarrow>
     (case user_account db u of Some a \<Rightarrow> \<not> discovery_paused a | None \<Rightarrow> False) \<and> photo_approved db u"

fun check_accounts :: "uuid \<Rightarrow> uuid list \<Rightarrow> db \<Rightarrow> discovery_store_error + unit" where
  "check_accounts actor [] db = Inr ()"
| "check_accounts actor (u # us) db =
     (if account_may_swipe db u then check_accounts actor us db
      else if u = actor then Inl StoreNotReady else Inl StoreCandidateNotFound)"

definition swipe_entry :: "swipe_decision \<Rightarrow> instant \<Rightarrow> swipe_row" where
  "swipe_entry d now =
     \<lparr>sw_decision = d, sw_swiped_at = now, sw_expires_at = now + days SWIPE_RETENTION_DAYS\<rparr>"

definition store_swipe ::
  "uuid \<Rightarrow> uuid \<Rightarrow> swipe_decision \<Rightarrow> instant \<Rightarrow> (discovery_db, discovery_store_error, recorded_swipe) op" where
  "store_swipe actor target d now s =
     (let fresh = (Inr \<lparr>rs_created = True, rs_decision = d\<rparr>,
            s\<lparr>swipes := (swipes s)((actor, target) \<mapsto> swipe_entry d now)\<rparr>)
      in case swipes s (actor, target) of
           None \<Rightarrow> fresh
         | Some w \<Rightarrow>
             if sw_expires_at w > now
             then (Inr \<lparr>rs_created = False, rs_decision = sw_decision w\<rparr>, s) else fresh)"

definition record_swipe_on ::
  "uuid \<Rightarrow> uuid \<Rightarrow> swipe_decision \<Rightarrow> instant \<Rightarrow> (discovery_db, discovery_store_error, recorded_swipe) op" where
  "record_swipe_on actor target d now =
     bind_op (gets (\<lambda>s. filter (live_account (core s)) (sort (remdups [actor, target])))) (\<lambda>accounts.
       if length accounts \<noteq> 2 then err StoreCandidateNotFound
       else then_op (lift_result (\<lambda>s. check_accounts actor accounts (core s)))
              (store_swipe actor target d now))"

definition record_while_active ::
  "lease \<Rightarrow> uuid \<Rightarrow> uuid \<Rightarrow> swipe_decision \<Rightarrow> instant \<Rightarrow>
   (discovery_db, discovery_store_error, recorded_swipe) op" where
  "record_while_active l actor target d now =
     then_op (assert_held l 0)
       (bind_op (transaction (record_swipe_on actor target d now)) (\<lambda>result.
          then_op (assert_held l 1) (ok result)))"

definition record_swipe ::
  "lease \<Rightarrow> uuid \<Rightarrow> uuid \<Rightarrow> swipe_decision \<Rightarrow> instant \<Rightarrow>
   (discovery_db, discovery_store_error, recorded_swipe) op" where
  "record_swipe l actor target d now =
     activity_run l [actor, target] (record_while_active l actor target d now)"

definition find_swipe :: "instant \<Rightarrow> uuid \<Rightarrow> uuid \<Rightarrow> discovery_db \<Rightarrow> swipe_record option" where
  "find_swipe now actor target s =
     map_option (\<lambda>w. \<lparr>sc_actor_id = actor, sc_target_id = target, sc_decision = sw_decision w,
         sc_swiped_at = sw_swiped_at w\<rparr>) (swipe_current now s actor target)"

definition swiped_target_ids :: "instant \<Rightarrow> discovery_db \<Rightarrow> uuid \<Rightarrow> uuid list \<Rightarrow> uuid set" where
  "swiped_target_ids now s actor targets = {t \<in> set targets. swipe_current now s actor t \<noteq> None}"

end
