(* ===== verification/Discovery_Cursor.thy ===== *)
theory Discovery_Cursor
  imports Discovery Match_Service Bytes
begin

text \<open>
  \<^verbatim>\<open>src/discovery/cursor.rs\<close>: the sealed cursor of the feed.  A cursor is laid out in 32 bytes (the
  distance, the identifier, the expiry), encrypted with the viewer as associated data and written in
  URL-safe base64.  The cipher, the key derivation and the base64 codec are third-party code: they
  are the fields of \<open>cursor_codec\<close> and the arguments of \<open>codec_new\<close>.
\<close>

section \<open>Errors of the service\<close>

datatype discovery_error =
  InvalidFeedRequest | InvalidFeedCursor | InvalidSwipeRequest | DiscoveryNotReady
| DiscoveryCandidateNotFound | SwipeAlreadyRecorded | DiscoveryUnavailable
| DiscoveryDatabase database_error | DiscoveryActivity account_activity_error
| DiscoveryMatch match_error

fun activity_safe_code :: "account_activity_error \<Rightarrow> string" where
  "activity_safe_code ActivityAccountUnavailable = ''account_unavailable''"
| "activity_safe_code ActivityUnavailable = ''account_activity_unavailable''"
| "activity_safe_code (ActivityDatabase e) = safe_code e"

fun discovery_error_display :: "discovery_error \<Rightarrow> string" where
  "discovery_error_display InvalidFeedRequest = ''invalid_feed_request''"
| "discovery_error_display InvalidFeedCursor = ''invalid_cursor''"
| "discovery_error_display InvalidSwipeRequest = ''invalid_swipe_request''"
| "discovery_error_display DiscoveryNotReady = ''discovery_not_ready''"
| "discovery_error_display DiscoveryCandidateNotFound = ''discovery_candidate_not_found''"
| "discovery_error_display SwipeAlreadyRecorded = ''swipe_already_recorded''"
| "discovery_error_display DiscoveryUnavailable = ''discovery_unavailable''"
| "discovery_error_display (DiscoveryDatabase e) = safe_code e"
| "discovery_error_display (DiscoveryActivity e) = activity_safe_code e"
| "discovery_error_display (DiscoveryMatch e) = ''match_error''"

section \<open>The codec\<close>

definition VERSION :: byte where "VERSION = 1"
definition NONCE_BYTES :: nat where "NONCE_BYTES = 12"
definition PAYLOAD_BYTES :: nat where "PAYLOAD_BYTES = 8 + 16 + 8"
definition TOKEN_BYTES :: nat where "TOKEN_BYTES = 1 + NONCE_BYTES + PAYLOAD_BYTES + 16"
definition TTL_SECONDS :: int where "TTL_SECONDS = 900"
definition KEY_CONTEXT :: string where "KEY_CONTEXT = ''histae/discovery/cursor/v1/aes256gcm''"

text \<open>\<open>seal nonce aad msg\<close> and \<open>unseal nonce aad ciphertext\<close>.\<close>

record cursor_codec =
  seal :: "byte list \<Rightarrow> byte list \<Rightarrow> byte list \<Rightarrow> byte list option"
  unseal :: "byte list \<Rightarrow> byte list \<Rightarrow> byte list \<Rightarrow> byte list option"
  base64_encode :: "byte list \<Rightarrow> string"
  base64_decode :: "string \<Rightarrow> byte list option"

definition codec_new ::
  "(byte list \<Rightarrow> string \<Rightarrow> byte list option) \<Rightarrow> (byte list \<Rightarrow> cursor_codec option) \<Rightarrow> byte list \<Rightarrow>
   discovery_error + cursor_codec" where
  "codec_new hmac aes secret =
     (if length secret < 32 then Inl DiscoveryUnavailable
      else case hmac secret KEY_CONTEXT of
        None \<Rightarrow> Inl DiscoveryUnavailable
      | Some key \<Rightarrow> (case aes key of None \<Rightarrow> Inl DiscoveryUnavailable | Some c \<Rightarrow> Inr c))"

definition valid_cursor :: "discovery_cursor \<Rightarrow> bool" where
  "valid_cursor c \<longleftrightarrow>
     is_finite (dc_distance_km c) \<and> f64_value (dc_distance_km c) \<ge> 0 \<and>
     1 \<le> version_num (dc_id c) \<and> version_num (dc_id c) \<le> 8 \<and> variant_rfc4122 (dc_id c)"

definition checked_add_i64 :: "int \<Rightarrow> int \<Rightarrow> int option" where
  "checked_add_i64 a b = (if - (2 ^ 63) \<le> a + b \<and> a + b < 2 ^ 63 then Some (a + b) else None)"

definition cursor_payload :: "discovery_cursor \<Rightarrow> int \<Rightarrow> byte list" where
  "cursor_payload c expires_at =
     be_bytes 8 (dc_distance_km c) @ be_bytes 16 (dc_id c) @ be_bytes 8 (of_int expires_at :: 64 word)"

text \<open>\<open>nonce\<close> is what \<^verbatim>\<open>getrandom\<close> filled in, if it succeeded.\<close>

definition encode_cursor ::
  "cursor_codec \<Rightarrow> byte list option \<Rightarrow> instant \<Rightarrow> uuid \<Rightarrow> discovery_cursor \<Rightarrow> discovery_error + string" where
  "encode_cursor codec nonce now user c =
     (if \<not> valid_cursor c then Inl DiscoveryUnavailable
      else case checked_add_i64 (timestamp now) TTL_SECONDS of
        None \<Rightarrow> Inl DiscoveryUnavailable
      | Some expires_at \<Rightarrow>
          (case nonce of
             None \<Rightarrow> Inl DiscoveryUnavailable
           | Some n \<Rightarrow>
               (case seal codec n (be_bytes 16 user) (cursor_payload c expires_at) of
                  None \<Rightarrow> Inl DiscoveryUnavailable
                | Some encrypted \<Rightarrow> Inr (base64_encode codec ([VERSION] @ n @ encrypted)))))"

definition decode_cursor ::
  "cursor_codec \<Rightarrow> instant \<Rightarrow> uuid \<Rightarrow> string option \<Rightarrow> discovery_error + discovery_cursor option" where
  "decode_cursor codec now user raw =
     (case raw of
        None \<Rightarrow> Inr None
      | Some value \<Rightarrow>
          if value = [] then Inr None
          else if length value > 128 then Inl InvalidFeedCursor
          else case base64_decode codec value of
            None \<Rightarrow> Inl InvalidFeedCursor
          | Some token \<Rightarrow>
              if length token \<noteq> TOKEN_BYTES \<or> hd token \<noteq> VERSION then Inl InvalidFeedCursor
              else case unseal codec (take NONCE_BYTES (tl token)) (be_bytes 16 user)
                     (drop (1 + NONCE_BYTES) token) of
                None \<Rightarrow> Inl InvalidFeedCursor
              | Some plaintext \<Rightarrow>
                  if length plaintext \<noteq> PAYLOAD_BYTES then Inl InvalidFeedCursor
                  else
                    let c = \<lparr>dc_distance_km = from_be_bytes (take 8 plaintext),
                             dc_id = from_be_bytes (take 16 (drop 8 plaintext))\<rparr>;
                        expires_at = sint (from_be_bytes (drop 24 plaintext) :: 64 word)
                    in if expires_at \<le> timestamp now \<or> \<not> valid_cursor c then Inl InvalidFeedCursor
                       else Inr (Some c))"

section \<open>Lemmas\<close>

lemma length_cursor_payload [simp]: "length (cursor_payload c t) = PAYLOAD_BYTES"
  by (simp add: cursor_payload_def PAYLOAD_BYTES_def)

lemma payload_fields:
  "from_be_bytes (take 8 (cursor_payload c t)) = dc_distance_km c"
  "from_be_bytes (take 16 (drop 8 (cursor_payload c t))) = dc_id c"
  "from_be_bytes (drop 24 (cursor_payload c t)) = (of_int t :: 64 word)"
  by (simp_all add: cursor_payload_def from_be_bytes_inverse)

lemma checked_add_i64_sint:
  "checked_add_i64 a b = Some c \<Longrightarrow> sint (of_int c :: 64 word) = c"
  by (auto simp: checked_add_i64_def sint_sbintrunc' signed_take_bit_int_eq_self split: if_splits)

end
