(* ===== verification/Discovery_Service.thy ===== *)
theory Discovery_Service
  imports Discovery_Cursor
begin

text \<open>
  \<^verbatim>\<open>src/discovery/service.rs\<close>: the feed, assembled from growing batches, and the swipe, which ends in
  a match when the like is mutual.

  A swipe is a sequence of separate statements, between which other requests run.  It is therefore
  modelled as a machine with one step per statement; \<open>swipe\<close> runs the steps of one request without
  interruption, and \<open>two_swipes\<close> interleaves two requests with each other and with other
  transactions.
\<close>

section \<open>Errors of the stores\<close>

fun repository_error :: "discovery_store_error \<Rightarrow> discovery_error" where
  "repository_error StoreNotReady = DiscoveryNotReady"
| "repository_error StoreCandidateNotFound = DiscoveryCandidateNotFound"
| "repository_error (StoreDatabase e) = DiscoveryDatabase e"
| "repository_error (StoreActivity e) = DiscoveryActivity e"
| "repository_error InvalidStoredData = DiscoveryDatabase QueryFailed"

fun swipe_error :: "discovery_store_error \<Rightarrow> discovery_error" where
  "swipe_error StoreNotReady = DiscoveryNotReady"
| "swipe_error StoreCandidateNotFound = DiscoveryCandidateNotFound"
| "swipe_error (StoreActivity e) = DiscoveryActivity e"
| "swipe_error _ = DiscoveryUnavailable"

section \<open>Settings and status\<close>

definition discovery_settings :: "uuid \<Rightarrow> (discovery_db, discovery_error, bool) op" where
  "discovery_settings u = map_err (\<lambda>e. repository_error (StoreDatabase e)) (paused u)"

definition change_paused :: "uuid \<Rightarrow> bool \<Rightarrow> (discovery_db, discovery_error, bool) op" where
  "change_paused u b = map_err (\<lambda>e. repository_error (StoreDatabase e)) (set_paused u b)"

record discovery_status =
  ds_ready :: bool
  ds_required_actions :: "required_action list"
  ds_presence_expires_at :: "string option"

text \<open>\<open>fmt\<close> is \<^verbatim>\<open>wire_timestamp\<close>.\<close>

definition discovery_status_of ::
  "(instant \<Rightarrow> string) \<Rightarrow> legal_config \<Rightarrow> instant \<Rightarrow> discovery_db \<Rightarrow> uuid \<Rightarrow> discovery_status" where
  "discovery_status_of fmt legal now s u =
     (let row = status_of_user legal now s u; actions = required_actions row in
      \<lparr>ds_ready = (actions = []), ds_required_actions = actions,
       ds_presence_expires_at = map_option fmt (presence_expires_at row)\<rparr>)"

section \<open>The feed\<close>

definition MAX_FEED_BATCHES :: nat where "MAX_FEED_BATCHES = 20"

definition cursor_after :: "candidate_row \<Rightarrow> discovery_cursor" where
  "cursor_after c = \<lparr>dc_distance_km = cd_distance_km c, dc_id = cd_user_id c\<rparr>"

text \<open>The \<^verbatim>\<open>while\<close> loop of \<^verbatim>\<open>feed\<close>: its state is the cursor, the visible candidates, the rows that
  may still be scanned, the size of the next batch and the number of the next statement.  It
  answers the cursor reached, the visible candidates and whether the database was exhausted;
  \<open>None\<close> means that a batch did not return.\<close>

function scan_feed ::
  "spatial \<Rightarrow> legal_config \<Rightarrow> (nat \<Rightarrow> snapshot) \<Rightarrow> uuid \<Rightarrow> nat \<Rightarrow> nat \<Rightarrow> discovery_cursor option \<Rightarrow>
   candidate_row list \<Rightarrow> nat \<Rightarrow> nat \<Rightarrow> nat \<Rightarrow>
   (discovery_error + discovery_cursor option \<times> candidate_row list \<times> bool) option" where
  "scan_feed geo legal sn u limit maximum cur visible remaining bsize k =
     (if remaining = 0 \<or> length visible > limit then Some (Inr (cur, visible, False))
      else
        let requested = min bsize remaining in
        case feed_batch geo legal sn u requested cur k of
          None \<Rightarrow> None
        | Some (k1, batch) \<Rightarrow>
            if \<not> bt_ready batch then Some (Inl DiscoveryNotReady)
            else
              let candidates = bt_candidates batch in
              if candidates = [] then Some (Inr (cur, visible, True))
              else
                let swiped = swiped_target_ids (sn_now (sn k1)) (sn_db (sn k1)) u (map cd_user_id candidates);
                    count = length candidates;
                    cur' = Some (cursor_after (last candidates));
                    visible' = visible @ filter (\<lambda>c. cd_user_id c \<notin> swiped) candidates
                in if count < requested then Some (Inr (cur', visible', True))
                   else scan_feed geo legal sn u limit maximum cur' visible' (remaining - count)
                          (min (saturating_mul_u32 bsize 2) maximum) (Suc k1))"
  by pat_completeness auto
termination
  by (relation "measure (\<lambda>(_, _, _, _, _, _, _, _, remaining, _, _). remaining)") auto

declare scan_feed.simps [simp del]

record feed_result =
  fp_profiles :: "feed_candidate list"
  fp_next_cursor :: "string option"

definition encode_next ::
  "cursor_codec \<Rightarrow> byte list option \<Rightarrow> instant \<Rightarrow> uuid \<Rightarrow> discovery_cursor option \<Rightarrow>
   discovery_error + string option" where
  "encode_next codec nonce now u cur =
     (case cur of
        None \<Rightarrow> Inr None
      | Some c \<Rightarrow>
          (case encode_cursor codec nonce now u c of Inl e \<Rightarrow> Inl e | Inr token \<Rightarrow> Inr (Some token)))"

definition feed_answer ::
  "cursor_codec \<Rightarrow> byte list option \<Rightarrow> instant \<Rightarrow> uuid \<Rightarrow> nat \<Rightarrow> discovery_cursor option \<Rightarrow>
   candidate_row list \<Rightarrow> bool \<Rightarrow> discovery_error + feed_result" where
  "feed_answer codec nonce now u limit cur visible database_exhausted =
     (let has_more = length visible > limit \<or> \<not> database_exhausted;
          page = take limit visible;
          position = (if \<not> has_more then None
                      else if page \<noteq> [] then Some (cursor_after (last page)) else cur)
      in case encode_next codec nonce now u position of
           Inl e \<Rightarrow> Inl e
         | Inr token \<Rightarrow> Inr \<lparr>fp_profiles = map feed_candidate_from page, fp_next_cursor = token\<rparr>)"

definition maximum_batch :: "nat \<Rightarrow> nat" where
  "maximum_batch limit = max 50 (saturating_mul_u32 (limit + 1) 4)"

text \<open>\<open>now\<close> and \<open>now'\<close> are the clock of the codec when it decodes and when it encodes.\<close>

definition feed ::
  "cursor_codec \<Rightarrow> byte list option \<Rightarrow> instant \<Rightarrow> instant \<Rightarrow> spatial \<Rightarrow> legal_config \<Rightarrow>
   (nat \<Rightarrow> snapshot) \<Rightarrow> uuid \<Rightarrow> nat \<Rightarrow> string option \<Rightarrow> (discovery_error + feed_result) option" where
  "feed codec nonce now now' geo legal sn u limit raw =
     (if \<not> (1 \<le> limit \<and> limit \<le> 100) then Some (Inl InvalidFeedRequest)
      else case decode_cursor codec now u raw of
        Inl e \<Rightarrow>
          Some (Inl (if is_ready legal (sn_now (sn 0)) (sn_db (sn 0)) u then e else DiscoveryNotReady))
      | Inr cur \<Rightarrow>
          (case scan_feed geo legal sn u limit (maximum_batch limit) cur []
              (maximum_batch limit * MAX_FEED_BATCHES) (limit + 1) 0 of
             None \<Rightarrow> None
           | Some (Inl e) \<Rightarrow> Some (Inl e)
           | Some (Inr (cur', visible, exhausted)) \<Rightarrow>
               Some (feed_answer codec nonce now' u limit cur' visible exhausted)))"

section \<open>Swipes\<close>

record swipe_response =
  sp_decision :: swipe_decision
  sp_matched :: bool
  sp_match :: "public_match option"

text \<open>What the statements of one swipe read from outside: the clocks of each, the lease, and the
  identifier, clock and environment of the creation of the match.\<close>

record swipe_env =
  se_ready_at :: instant
  se_candidate_at :: instant
  se_today :: ymd
  se_lease :: lease
  se_now :: instant
  se_find_at :: instant
  se_match_env :: env
  se_match_id :: uuid
  se_match_now :: instant
  se_match_now' :: instant

datatype swipe_state =
  Validating | CheckingReady | CheckingCandidate | Recording | FindingReciprocal | CreatingMatch
| Finished "discovery_error + swipe_response"

definition unmatched :: "swipe_decision \<Rightarrow> swipe_state" where
  "unmatched d = Finished (Inr \<lparr>sp_decision = d, sp_matched = False, sp_match = None\<rparr>)"

fun swipe_step ::
  "spatial \<Rightarrow> legal_config \<Rightarrow> (instant \<Rightarrow> string) \<Rightarrow> swipe_env \<Rightarrow> uuid \<Rightarrow> uuid \<Rightarrow> swipe_decision \<Rightarrow>
   swipe_state \<Rightarrow> discovery_db \<Rightarrow> swipe_state \<times> discovery_db \<times> match_event list" where
  "swipe_step geo legal fmt e actor target d Validating s =
     (if actor = 0 \<or> target = 0 \<or> actor = target then (Finished (Inl InvalidSwipeRequest), s, [])
      else (CheckingReady, s, []))"
| "swipe_step geo legal fmt e actor target d CheckingReady s =
     (if is_ready legal (se_ready_at e) s actor then (CheckingCandidate, s, [])
      else (Finished (Inl DiscoveryNotReady), s, []))"
| "swipe_step geo legal fmt e actor target d CheckingCandidate s =
     (let sn = \<lparr>sn_db = s, sn_now = se_candidate_at e, sn_today = se_today e\<rparr> in
      case candidate_batch geo legal (\<lambda>_. sn) actor 1 None (Some target) 0 of
        Some (_, available) \<Rightarrow>
          if length available \<noteq> 1 then (Finished (Inl DiscoveryCandidateNotFound), s, [])
          else (Recording, s, [])
      | None \<Rightarrow> (CheckingCandidate, s, []))"
| "swipe_step geo legal fmt e actor target d Recording s =
     (case record_swipe (se_lease e) actor target d (se_now e) s of
        (Inl er, s') \<Rightarrow> (Finished (Inl (swipe_error er)), s', [])
      | (Inr recorded, s') \<Rightarrow>
          if \<not> rs_created recorded \<and> rs_decision recorded \<noteq> d
          then (Finished (Inl SwipeAlreadyRecorded), s', [])
          else if d = Pass then (unmatched d, s', [])
          else (FindingReciprocal, s', []))"
| "swipe_step geo legal fmt e actor target d FindingReciprocal s =
     (case find_swipe (se_find_at e) target actor s of
        Some w \<Rightarrow> if sc_decision w = Like then (CreatingMatch, s, []) else (unmatched d, s, [])
      | None \<Rightarrow> (unmatched d, s, []))"
| "swipe_step geo legal fmt e actor target d CreatingMatch s =
     (case create_from_mutual_like fmt (se_match_env e) (se_match_id e) (se_match_now e) (se_match_now' e)
         actor target (core s) of
        (Inl er, db', evs) \<Rightarrow> (Finished (Inl (DiscoveryMatch er)), s\<lparr>core := db'\<rparr>, evs)
      | (Inr p, db', evs) \<Rightarrow>
          (Finished (Inr \<lparr>sp_decision = d, sp_matched = True, sp_match = Some p\<rparr>), s\<lparr>core := db'\<rparr>, evs))"
| "swipe_step geo legal fmt e actor target d (Finished r) s = (Finished r, s, [])"

text \<open>One request on its own: six statements bring it to its end.\<close>

fun swipe_steps ::
  "spatial \<Rightarrow> legal_config \<Rightarrow> (instant \<Rightarrow> string) \<Rightarrow> swipe_env \<Rightarrow> uuid \<Rightarrow> uuid \<Rightarrow> swipe_decision \<Rightarrow>
   nat \<Rightarrow> swipe_state \<Rightarrow> discovery_db \<Rightarrow> swipe_state \<times> discovery_db \<times> match_event list" where
  "swipe_steps geo legal fmt e actor target d 0 st s = (st, s, [])"
| "swipe_steps geo legal fmt e actor target d (Suc n) st s =
     (case swipe_step geo legal fmt e actor target d st s of (st', s', evs) \<Rightarrow>
      case swipe_steps geo legal fmt e actor target d n st' s' of (st'', s'', evs') \<Rightarrow>
        (st'', s'', evs @ evs'))"

definition swipe ::
  "spatial \<Rightarrow> legal_config \<Rightarrow> (instant \<Rightarrow> string) \<Rightarrow> swipe_env \<Rightarrow> uuid \<Rightarrow> uuid \<Rightarrow> swipe_decision \<Rightarrow>
   discovery_db \<Rightarrow> swipe_state \<times> discovery_db \<times> match_event list" where
  "swipe geo legal fmt e actor target d s = swipe_steps geo legal fmt e actor target d 6 Validating s"

section \<open>Concurrent swipes\<close>

text \<open>Two users like each other at the same time, in any order of their statements, while other
  transactions run that withdraw neither a swipe nor a match of the two.\<close>

definition pair_match :: "discovery_db \<Rightarrow> uuid \<Rightarrow> uuid \<Rightarrow> bool" where
  "pair_match s a b \<longleftrightarrow>
     list_ex (\<lambda>m. user1_id m = min a b \<and> user2_id m = max a b) (match_init (core s))"

definition keeps_pair :: "uuid \<Rightarrow> uuid \<Rightarrow> discovery_db \<Rightarrow> discovery_db \<Rightarrow> bool" where
  "keeps_pair a b s s' \<longleftrightarrow>
     swipes s' (a, b) = swipes s (a, b) \<and> swipes s' (b, a) = swipes s (b, a) \<and>
     (pair_match s a b \<longrightarrow> pair_match s' a b)"

inductive two_swipes ::
  "spatial \<Rightarrow> legal_config \<Rightarrow> (instant \<Rightarrow> string) \<Rightarrow> swipe_env \<Rightarrow> swipe_env \<Rightarrow> uuid \<Rightarrow> uuid \<Rightarrow>
   discovery_db \<Rightarrow> swipe_state \<Rightarrow> swipe_state \<Rightarrow> discovery_db \<Rightarrow> bool"
  for geo :: spatial and legal :: legal_config and fmt :: "instant \<Rightarrow> string" and ea :: swipe_env
    and eb :: swipe_env and a :: uuid and b :: uuid and s0 :: discovery_db where
  start: "two_swipes geo legal fmt ea eb a b s0 Validating Validating s0"
| first: "two_swipes geo legal fmt ea eb a b s0 x y s \<Longrightarrow>
    swipe_step geo legal fmt ea a b Like x s = (x', s', evs) \<Longrightarrow>
    two_swipes geo legal fmt ea eb a b s0 x' y s'"
| second: "two_swipes geo legal fmt ea eb a b s0 x y s \<Longrightarrow>
    swipe_step geo legal fmt eb b a Like y s = (y', s', evs) \<Longrightarrow>
    two_swipes geo legal fmt ea eb a b s0 x y' s'"
| other: "two_swipes geo legal fmt ea eb a b s0 x y s \<Longrightarrow> keeps_pair a b s s' \<Longrightarrow>
    two_swipes geo legal fmt ea eb a b s0 x y s'"

end
