(* ===== verification/Discovery_Proofs.thy ===== *)
theory Discovery_Proofs
  imports Discovery_Service
begin

text \<open>
  What the feed is meant to list, independently of radii and batches: \<open>feed_listing\<close>, the eligible
  users by distance, and \<open>may_see\<close>, the eligibility of a pair.  The lemmas show that the widening
  radius and the growing batches compute exactly prefixes of that listing, and that they end.
\<close>

section \<open>Specification\<close>

definition discoverable :: "legal_config \<Rightarrow> db \<Rightarrow> uuid \<Rightarrow> bool" where
  "discoverable legal db u \<longleftrightarrow> visible_account db u \<and> photo_approved db u \<and> both_consents legal db u"

text \<open>The preferences of \<open>u\<close> admit \<open>t\<close> at the given distance.\<close>

definition open_to :: "snapshot \<Rightarrow> uuid \<Rightarrow> uuid \<Rightarrow> rat \<Rightarrow> bool" where
  "open_to sn u t d \<longleftrightarrow>
     (\<exists>pp pf sx. user_preferences (sn_db sn) u = Some pp \<and> user_profile (sn_db sn) t = Some pf \<and>
        pf_sex pf = Some sx \<and> accepts (pp_looking_for pp) sx \<and>
        pp_min_age pp \<le> age_years (sn_today sn) (pf_birthdate pf) \<and>
        age_years (sn_today sn) (pf_birthdate pf) \<le> pp_max_age pp \<and>
        d \<le> of_int (pp_max_distance_km pp))"

definition may_see :: "legal_config \<Rightarrow> snapshot \<Rightarrow> uuid \<Rightarrow> uuid \<Rightarrow> rat \<Rightarrow> bool" where
  "may_see legal sn u t d \<longleftrightarrow>
     t \<noteq> u \<and> discoverable legal (core (sn_db sn)) u \<and> discoverable legal (core (sn_db sn)) t \<and>
     open_to sn u t d \<and> open_to sn t u d \<and> \<not> excluded sn u t"

definition in_reach :: "spatial \<Rightarrow> snapshot \<Rightarrow> uuid \<Rightarrow> viewer \<Rightarrow> presence_row \<Rightarrow> bool" where
  "in_reach geo sn u v p \<longleftrightarrow>
     located sn u p \<and> vw_location v \<noteq> None \<and> f64_value (distance_km geo v p) \<le> viewer_max v"

definition feed_listing ::
  "spatial \<Rightarrow> legal_config \<Rightarrow> snapshot \<Rightarrow> uuid \<Rightarrow> viewer \<Rightarrow> candidate_row list" where
  "feed_listing geo legal sn u v =
     sort_key feed_key (List.map_filter (feed_candidate_at geo legal sn u v)
       (filter (in_reach geo sn u v) (user_presence (sn_db sn))))"

definition cursor_key :: "discovery_cursor \<Rightarrow> rat \<times> uuid" where
  "cursor_key c = (f64_value (dc_distance_km c), dc_id c)"

definition beyond :: "discovery_cursor option \<Rightarrow> candidate_row \<Rightarrow> bool" where
  "beyond cur c \<longleftrightarrow> (case cur of None \<Rightarrow> True | Some p \<Rightarrow> cursor_key p < feed_key c)"

definition reference_batch ::
  "spatial \<Rightarrow> legal_config \<Rightarrow> snapshot \<Rightarrow> uuid \<Rightarrow> nat \<Rightarrow> discovery_cursor option \<Rightarrow> discovery_batch" where
  "reference_batch geo legal sn u limit cur =
     (case viewer_of legal sn u of
        None \<Rightarrow> \<lparr>bt_ready = False, bt_candidates = []\<rparr>
      | Some v \<Rightarrow> \<lparr>bt_ready = True,
          bt_candidates = take limit (filter (beyond cur) (feed_listing geo legal sn u v))\<rparr>)"

text \<open>What the types and constraints of the tables guarantee of a snapshot: ages and distances
  within their checks, proper dates, one presence per user.\<close>

definition preferences_ok :: "preferences_row \<Rightarrow> bool" where
  "preferences_ok pp \<longleftrightarrow>
     18 \<le> pp_min_age pp \<and> pp_min_age pp \<le> pp_max_age pp \<and> pp_max_age pp \<le> 99 \<and>
     0 < pp_max_distance_km pp \<and> pp_max_distance_km pp \<le> 2147483647"

definition snapshot_ok :: "snapshot \<Rightarrow> bool" where
  "snapshot_ok sn \<longleftrightarrow>
     valid_date (sn_today sn) \<and>
     (\<forall>u pp. user_preferences (sn_db sn) u = Some pp \<longrightarrow> preferences_ok pp) \<and>
     (\<forall>u pf. user_profile (sn_db sn) u = Some pf \<longrightarrow> valid_date (pf_birthdate pf)) \<and>
     distinct (map pr_user (user_presence (sn_db sn)))"

text \<open>The spatial pre-filter is conservative: within the margin it keeps every point whose haversine
  distance is within the radius.\<close>

definition conservative :: "spatial \<Rightarrow> bool" where
  "conservative geo \<longleftrightarrow>
     (\<forall>a b r. f64_value (haversine geo a b) \<le> r \<longrightarrow> dwithin geo b a (spatial_margin r))"

section \<open>Lists\<close>

lemma filter_map_filter:
  "filter P (List.map_filter f xs) = List.map_filter (\<lambda>x. case f x of Some y \<Rightarrow> if P y then Some y else None | None \<Rightarrow> None) xs"
  by (induction xs) (auto simp: List.map_filter_simps split: option.splits)

lemma map_filter_cong_set:
  "(\<And>x. x \<in> set xs \<Longrightarrow> f x = g x) \<Longrightarrow> List.map_filter f xs = List.map_filter g xs"
  by (induction xs) (auto simp: List.map_filter_simps split: option.splits)

lemma map_filter_filter:
  "List.map_filter f (filter P xs) = List.map_filter (\<lambda>x. if P x then f x else None) xs"
  by (induction xs) (auto simp: List.map_filter_simps split: option.splits)

lemma set_map_filter: "set (List.map_filter f xs) = {y. \<exists>x \<in> set xs. f x = Some y}"
  by (induction xs) (auto simp: List.map_filter_simps split: option.splits)

text \<open>In a sorted list the elements that satisfy a downward closed condition come first.\<close>

lemma sorted_filter_prefix:
  assumes "sorted (map key xs)" "\<And>x y. P y \<Longrightarrow> key x \<le> (key y :: 'k::linorder) \<Longrightarrow> P x"
  shows "xs = filter P xs @ filter (\<lambda>x. \<not> P x) xs"
  using assms(1)
proof (induction xs)
  case (Cons x xs)
  have "filter P xs = []" if "\<not> P x"
    using that Cons.prems assms(2) by (auto simp: filter_empty_conv)
  then show ?case
    using Cons by auto
qed simp

lemma take_filter_sorted:
  assumes "sorted (map key xs)" "\<And>x y. P y \<Longrightarrow> key x \<le> (key y :: 'k::linorder) \<Longrightarrow> P x"
    and "n \<le> length (filter P xs)"
  shows "take n (filter P xs) = take n xs"
proof -
  have "take n xs = take n (filter P xs @ filter (\<lambda>x. \<not> P x) xs)"
    by (rule arg_cong [OF sorted_filter_prefix [where P = P, OF assms(1,2)]])
  then show ?thesis
    using assms(3) by simp
qed

section \<open>The widening radius\<close>

lemma viewer_location:
  "viewer_of legal sn u = Some v \<Longrightarrow> vw_location v = in_range (vw_latitude v) (vw_longitude v)"
  by (auto simp: viewer_of_def)

lemma nearby_iff:
  assumes "conservative geo" "viewer_of legal sn u = Some v"
  shows "nearby geo sn u v cur radius p \<longleftrightarrow>
    in_reach geo sn u v p \<and> f64_value (distance_km geo v p) \<le> radius \<and>
    after_cursor cur (distance_km geo v p) (pr_user p)"
proof -
  have "spatial_filter geo v radius p"
    if here: "located sn u p" and loc: "vw_location v = Some loc"
      and near: "f64_value (distance_km geo v p) \<le> min radius (viewer_max v)" for loc
  proof -
    obtain c where c: "in_range (pr_latitude p) (pr_longitude p) = Some c"
      using here unfolding located_def by blast
    then have "distance_km geo v p = haversine geo loc c"
      using loc viewer_location [OF assms(2)]
      by (auto simp: distance_km_def in_range_def split: option.splits if_splits)
    then have "dwithin geo c loc (spatial_margin (min radius (viewer_max v)))"
      using assms(1) near unfolding conservative_def by metis
    then show ?thesis
      using loc c by (simp add: spatial_filter_def)
  qed
  moreover have "vw_location v \<noteq> None" if "spatial_filter geo v radius p"
    using that by (auto simp: spatial_filter_def split: option.splits)
  ultimately show ?thesis
    by (auto simp: nearby_def in_reach_def)
qed

lemma feed_candidate_key:
  "feed_candidate_at geo legal sn u v p = Some c \<Longrightarrow>
   cd_distance_km c = distance_km geo v p \<and> cd_user_id c = pr_user p"
  by (auto simp: feed_candidate_at_def Let_def candidate_of_def split: option.splits prod.splits if_splits)

lemma after_cursor_beyond:
  "feed_candidate_at geo legal sn u v p = Some c \<Longrightarrow>
   after_cursor cur (distance_km geo v p) (pr_user p) \<longleftrightarrow> beyond cur c"
  using feed_candidate_key
  by (fastforce simp: after_cursor_def beyond_def feed_key_def cursor_key_def split: option.splits)

text \<open>The page of a radius: the listing beyond the cursor, up to the radius, cut at the limit.\<close>

definition within_km :: "rat \<Rightarrow> candidate_row \<Rightarrow> bool" where
  "within_km radius c \<longleftrightarrow> f64_value (cd_distance_km c) \<le> radius"

lemma feed_page_eq:
  assumes "conservative geo" "viewer_of legal sn u = Some v"
  shows "feed_page geo legal sn u v limit cur radius =
    take limit (filter (within_km radius) (filter (beyond cur) (feed_listing geo legal sn u v)))"
proof -
  have "List.map_filter (feed_candidate_at geo legal sn u v)
      (filter (nearby geo sn u v cur radius) (user_presence (sn_db sn))) =
    filter (within_km radius) (filter (beyond cur) (List.map_filter (feed_candidate_at geo legal sn u v)
      (filter (in_reach geo sn u v) (user_presence (sn_db sn)))))"
    unfolding filter_map_filter map_filter_filter
  proof (rule map_filter_cong_set)
    fix p
    show "(if nearby geo sn u v cur radius p then feed_candidate_at geo legal sn u v p else None) =
      (case case if in_reach geo sn u v p then feed_candidate_at geo legal sn u v p else None of
              None \<Rightarrow> None | Some y \<Rightarrow> if beyond cur y then Some y else None of
         None \<Rightarrow> None | Some y \<Rightarrow> if within_km radius y then Some y else None)"
      using nearby_iff [OF assms, of cur radius p]
      by (cases "feed_candidate_at geo legal sn u v p")
        (auto simp: after_cursor_beyond within_km_def dest: feed_candidate_key split: option.splits)
  qed
  then show ?thesis
    by (simp add: feed_page_def order_limit_def feed_listing_def filter_sort)
qed

lemma sorted_listing: "sorted (map feed_key (filter P (feed_listing geo legal sn u v)))"
  by (simp add: feed_listing_def filter_sort)

lemma listing_within:
  "c \<in> set (feed_listing geo legal sn u v) \<Longrightarrow> f64_value (cd_distance_km c) \<le> viewer_max v \<and> vw_location v \<noteq> None"
  by (auto simp: feed_listing_def set_map_filter in_reach_def dest!: feed_candidate_key)

lemma feed_query_reference:
  assumes "conservative geo" "feed_query geo legal sn u limit cur radius = (rdy, exhausted, cs)"
    and "\<not> rdy \<or> exhausted \<or> length cs \<ge> limit"
  shows "\<lparr>bt_ready = rdy, bt_candidates = cs\<rparr> = reference_batch geo legal sn u limit cur"
proof (cases "viewer_of legal sn u")
  case None
  then show ?thesis
    using assms(2) by (simp add: feed_query_def reference_batch_def)
next
  case (Some v)
  let ?L = "filter (beyond cur) (feed_listing geo legal sn u v)"
  have out: "rdy" "exhausted \<longleftrightarrow> vw_location v = None \<or> radius \<ge> viewer_max v"
      "cs = take limit (filter (within_km radius) ?L)"
    using assms(2) Some by (auto simp: feed_query_def feed_page_eq [OF assms(1) Some])
  have "take limit (filter (within_km radius) ?L) = take limit ?L"
  proof (cases exhausted)
    case True
    have "filter (within_km radius) ?L = ?L"
    proof (rule filter_True, rule ballI)
      fix c
      assume "c \<in> set ?L"
      then show "within_km radius c"
        using True out(2) listing_within [of c geo legal sn u v] by (auto simp: within_km_def)
    qed
    then show ?thesis
      by simp
  next
    case False
    then have "limit \<le> length (filter (within_km radius) ?L)"
      using assms(3) out(1,3) by simp
    then show ?thesis
      by (rule take_filter_sorted [OF sorted_listing, rotated])
        (auto simp: within_km_def feed_key_def less_eq_prod_def)
  qed
  then show ?thesis
    using out Some by (simp add: reference_batch_def)
qed

text \<open>The loop ends: after \<open>n\<close> doublings the radius covers every preference.\<close>

lemma feed_radius_reference:
  assumes "conservative geo"
    and "\<And>j v. viewer_of legal (sn j) u = Some v \<Longrightarrow> viewer_max v \<le> bound"
    and "0 < radius" "bound \<le> radius * 2 ^ n"
  shows "\<exists>j \<ge> k. feed_radius geo legal sn u limit cur k radius =
    Some (Suc j, reference_batch geo legal (sn j) u limit cur)"
  using assms(3,4)
proof (induction n arbitrary: k radius)
  case (0 k radius)
  obtain rdy exhausted cs where q: "feed_query geo legal (sn k) u limit cur radius = (rdy, exhausted, cs)"
    by (cases "feed_query geo legal (sn k) u limit cur radius") auto
  have "\<not> rdy \<or> exhausted"
    using q 0 assms(2) [of k] by (fastforce simp: feed_query_def split: option.splits)
  then show ?case
    using q feed_query_reference [OF assms(1) q] by (auto simp: feed_radius.simps)
next
  case (Suc n k radius)
  obtain rdy exhausted cs where q: "feed_query geo legal (sn k) u limit cur radius = (rdy, exhausted, cs)"
    by (cases "feed_query geo legal (sn k) u limit cur radius") auto
  show ?case
  proof (cases "\<not> rdy \<or> exhausted \<or> length cs \<ge> limit")
    case True
    then show ?thesis
      using q feed_query_reference [OF assms(1) q] by (auto simp: feed_radius.simps)
  next
    case False
    have "0 < radius * 2" "bound \<le> radius * 2 * 2 ^ n"
      using Suc.prems by (simp_all add: mult.assoc)
    from Suc.IH [OF this, of "Suc k"] obtain j where "Suc k \<le> j"
      "feed_radius geo legal sn u limit cur (Suc k) (radius * 2) =
        Some (Suc j, reference_batch geo legal (sn j) u limit cur)"
      by auto
    then show ?thesis
      using False q by (intro exI [of _ j]) (auto simp: feed_radius.simps [of geo legal sn u limit cur k])
  qed
qed

lemma start_radius_pos: "1 / 10 \<le> start_radius cur"
  by (cases cur) (simp_all add: start_radius_def del: le_divide_eq_numeral1 divide_le_eq_numeral1)

lemma viewer_max_bound:
  assumes "snapshot_ok sn" "viewer_of legal sn u = Some v"
  shows "viewer_max v \<le> 2147483647"
proof -
  obtain u' pp where "user_preferences (sn_db sn) u = Some pp" "vw_preferences v = pp"
    using assms(2) by (auto simp: viewer_of_def ready_rows_def split: option.splits if_splits)
  then have "pp_max_distance_km pp \<le> 2147483647"
    using assms(1) by (auto simp: snapshot_ok_def preferences_ok_def)
  then have "(of_int (pp_max_distance_km pp) :: rat) \<le> of_int 2147483647"
    by (subst of_int_le_iff)
  then show ?thesis
    using \<open>vw_preferences v = pp\<close> by (simp add: viewer_max_def)
qed

lemma feed_batch_reference:
  assumes "conservative geo" "\<And>j. snapshot_ok (sn j)"
  shows "\<exists>j \<ge> k. feed_batch geo legal sn u limit cur k =
    Some (Suc j, reference_batch geo legal (sn j) u limit cur)"
proof -
  have "(2147483647 :: rat) \<le> 1 / 10 * 2 ^ 35"
    by simp
  also have "\<dots> \<le> start_radius cur * 2 ^ 35"
    using start_radius_pos [of cur] by simp
  finally show ?thesis
    unfolding feed_batch_def
    by (intro feed_radius_reference [OF assms(1), where bound = 2147483647 and n = 35])
      (use start_radius_pos [of cur] viewer_max_bound [OF assms(2)] in auto)
qed

end
