(* ===== verification/Discovery_Feed.thy ===== *)
theory Discovery_Feed
  imports Discovery_Proofs
begin

text \<open>
  The feed as the service assembles it (\<^verbatim>\<open>src/discovery/service.rs\<close>): whom it may show, that its
  loop ends, that it never repeats itself, and, on a database that stays as it is, that each page is
  the next piece of the listing.
\<close>

section \<open>Whom the listing shows\<close>

lemma fitting_profile_SomeD:
  assumes "fitting_profile legal sn v t = Some (pf, sx, pp)"
  shows "user_profile (sn_db sn) t = Some pf" "pf_sex pf = Some sx" "user_preferences (sn_db sn) t = Some pp"
    "discoverable legal (core (sn_db sn)) t"
    "vw_oldest_birthdate v < pf_birthdate pf" "pf_birthdate pf \<le> vw_youngest_birthdate v"
    "pp_min_age pp \<le> vw_age v" "vw_age v \<le> pp_max_age pp"
    "accepts (pp_looking_for (vw_preferences v)) sx" "accepts (pp_looking_for pp) (vw_sex v)"
  using assms
  by (auto simp: fitting_profile_def Let_def discoverable_def split: option.splits if_splits)

lemma viewer_of_SomeD:
  assumes "viewer_of legal sn u = Some v"
  obtains pf pp where "user_profile (sn_db sn) u = Some pf" "pf_sex pf = Some (vw_sex v)"
    "user_preferences (sn_db sn) u = Some pp" "vw_preferences v = pp"
    "vw_age v = age_years (sn_today sn) (pf_birthdate pf)"
    "vw_oldest_birthdate v = minus_years (sn_today sn) (pp_max_age pp + 1)"
    "vw_youngest_birthdate v = minus_years (sn_today sn) (pp_min_age pp)"
    "discoverable legal (core (sn_db sn)) u"
  using assms
  by (auto simp: viewer_of_def ready_rows_def discoverable_def split: option.splits if_splits)

lemma fitting_open_to:
  assumes "viewer_of legal sn u = Some v" "snapshot_ok sn" "fitting_profile legal sn v t = Some (pf, sx, pp)"
    and "d \<le> viewer_max v" "d \<le> of_int (pp_max_distance_km pp)"
  shows "open_to sn u t d" "open_to sn t u d" "discoverable legal (core (sn_db sn)) u"
    "discoverable legal (core (sn_db sn)) t"
proof -
  obtain pfu ppu where me: "user_profile (sn_db sn) u = Some pfu" "pf_sex pfu = Some (vw_sex v)"
      "user_preferences (sn_db sn) u = Some ppu" "vw_preferences v = ppu"
      "vw_age v = age_years (sn_today sn) (pf_birthdate pfu)"
      "vw_oldest_birthdate v = minus_years (sn_today sn) (pp_max_age ppu + 1)"
      "vw_youngest_birthdate v = minus_years (sn_today sn) (pp_min_age ppu)"
      "discoverable legal (core (sn_db sn)) u"
    by (rule viewer_of_SomeD [OF assms(1)])
  note you = fitting_profile_SomeD [OF assms(3)]
  have prefs: "preferences_ok ppu" and dates: "valid_date (sn_today sn)" "valid_date (pf_birthdate pf)"
    using assms(2) me(3) you(1) by (auto simp: snapshot_ok_def)
  have "pp_min_age ppu \<le> age_years (sn_today sn) (pf_birthdate pf)"
      "age_years (sn_today sn) (pf_birthdate pf) \<le> pp_max_age ppu"
    using age_in_range_iff [OF dates, of "pp_min_age ppu" "pp_max_age ppu"] you(5,6) me(6,7) prefs
    by (auto simp: preferences_ok_def)
  then show "open_to sn u t d" "open_to sn t u d" "discoverable legal (core (sn_db sn)) u"
    "discoverable legal (core (sn_db sn)) t"
    using me you assms(4,5) unfolding open_to_def viewer_max_def by auto
qed

lemma listing_may_see:
  assumes "viewer_of legal sn u = Some v" "snapshot_ok sn" "c \<in> set (feed_listing geo legal sn u v)"
  shows "may_see legal sn u (cd_user_id c) (f64_value (cd_distance_km c))"
proof -
  obtain p where p: "in_reach geo sn u v p" "feed_candidate_at geo legal sn u v p = Some c"
    using assms(3) by (auto simp: feed_listing_def set_map_filter)
  obtain pf sx pp where fit: "fitting_profile legal sn v (pr_user p) = Some (pf, sx, pp)"
      and near: "f64_value (distance_km geo v p) \<le> of_int (pp_max_distance_km pp)"
      and free: "\<not> excluded sn u (pr_user p)"
    using p(2) by (auto simp: feed_candidate_at_def Let_def split: option.splits if_splits)
  have "f64_value (distance_km geo v p) \<le> viewer_max v" "pr_user p \<noteq> u"
    using p(1) by (auto simp: in_reach_def located_def)
  then show ?thesis
    using fitting_open_to [OF assms(1,2) fit _ near] free feed_candidate_key [OF p(2)]
    by (simp add: may_see_def)
qed

section \<open>The listing is strictly ordered\<close>

lemma distinct_map_filter_key:
  assumes "distinct (map k xs)" "\<And>x y. f x = Some y \<Longrightarrow> g y = k x"
  shows "distinct (map g (List.map_filter f xs))"
  using assms(1)
proof (induction xs)
  case (Cons x xs)
  have "g y \<in> k ` set xs" if "y \<in> set (List.map_filter f xs)" for y
    using that assms(2) by (auto simp: set_map_filter)
  then show ?case
    using Cons assms(2) by (fastforce simp: List.map_filter_simps split: option.splits)
qed (simp add: List.map_filter_simps)

lemma listing_distinct:
  assumes "snapshot_ok sn"
  shows "distinct (map cd_user_id (feed_listing geo legal sn u v))"
proof -
  have "distinct (map pr_user (filter (in_reach geo sn u v) (user_presence (sn_db sn))))"
    using assms by (simp add: snapshot_ok_def distinct_map_filter)
  then have "distinct (map cd_user_id (List.map_filter (feed_candidate_at geo legal sn u v)
      (filter (in_reach geo sn u v) (user_presence (sn_db sn)))))"
    by (rule distinct_map_filter_key) (simp add: feed_candidate_key)
  then show ?thesis
    by (simp add: feed_listing_def distinct_map)
qed

lemma listing_strict:
  assumes "snapshot_ok sn"
  shows "sorted_wrt (<) (map feed_key (feed_listing geo legal sn u v))"
proof -
  have "distinct (map feed_key (feed_listing geo legal sn u v))"
    using listing_distinct [OF assms, of geo legal u v]
    by (auto simp: distinct_map inj_on_def feed_key_def)
  moreover have "sorted (map feed_key (feed_listing geo legal sn u v))"
    using sorted_listing [of "\<lambda>_. True" geo legal sn u v] by simp
  ultimately show ?thesis
    by (simp add: strict_sorted_iff)
qed

lemma reference_batch_props:
  assumes "snapshot_ok sn" "bt_ready (reference_batch geo legal sn u limit cur)"
  shows "sorted_wrt (<) (map feed_key (bt_candidates (reference_batch geo legal sn u limit cur)))"
    and "c \<in> set (bt_candidates (reference_batch geo legal sn u limit cur)) \<Longrightarrow>
      may_see legal sn u (cd_user_id c) (f64_value (cd_distance_km c)) \<and> beyond cur c"
    and "length (bt_candidates (reference_batch geo legal sn u limit cur)) \<le> limit"
proof -
  obtain v where v: "viewer_of legal sn u = Some v"
    using assms(2) by (cases "viewer_of legal sn u") (auto simp: reference_batch_def)
  have cs: "bt_candidates (reference_batch geo legal sn u limit cur) =
      take limit (filter (beyond cur) (feed_listing geo legal sn u v))"
    using v by (simp add: reference_batch_def)
  show "sorted_wrt (<) (map feed_key (bt_candidates (reference_batch geo legal sn u limit cur)))"
    unfolding cs using listing_strict [OF assms(1), of geo legal u v]
    by (simp add: sorted_wrt_map sorted_wrt_take sorted_wrt_filter)
  show "length (bt_candidates (reference_batch geo legal sn u limit cur)) \<le> limit"
    unfolding cs by simp
  show "may_see legal sn u (cd_user_id c) (f64_value (cd_distance_km c)) \<and> beyond cur c"
    if "c \<in> set (bt_candidates (reference_batch geo legal sn u limit cur))"
    using in_set_takeD [OF that [unfolded cs]] listing_may_see [OF v assms(1)] by auto
qed

section \<open>The loop of the service\<close>

text \<open>A candidate was eligible when a statement of the request read it, and not swiped when a later
  statement checked it.\<close>

definition shown :: "legal_config \<Rightarrow> (nat \<Rightarrow> snapshot) \<Rightarrow> uuid \<Rightarrow> candidate_row \<Rightarrow> bool" where
  "shown legal sn u c \<longleftrightarrow>
     (\<exists>j j'. j < j' \<and> may_see legal (sn j) u (cd_user_id c) (f64_value (cd_distance_km c)) \<and>
        swipe_current (sn_now (sn j')) (sn_db (sn j')) u (cd_user_id c) = None)"

definition scan_inv ::
  "legal_config \<Rightarrow> (nat \<Rightarrow> snapshot) \<Rightarrow> uuid \<Rightarrow> discovery_cursor option \<Rightarrow> candidate_row list \<Rightarrow> bool" where
  "scan_inv legal sn u cur visible \<longleftrightarrow>
     list_all (shown legal sn u) visible \<and> sorted_wrt (<) (map feed_key visible) \<and>
     (\<forall>c \<in> set visible. \<not> beyond cur c)"

lemma scan_inv_step:
  assumes inv: "scan_inv legal sn u cur visible" and ok: "snapshot_ok (sn j)"
    and rdy: "bt_ready (reference_batch geo legal (sn j) u n cur)"
    and cs: "cs = bt_candidates (reference_batch geo legal (sn j) u n cur)" "cs \<noteq> []"
  shows "scan_inv legal sn u (Some (cursor_after (last cs)))
    (visible @ filter (\<lambda>c. cd_user_id c \<notin>
       swiped_target_ids (sn_now (sn (Suc j))) (sn_db (sn (Suc j))) u (map cd_user_id cs)) cs)"
proof -
  note props = reference_batch_props [OF ok rdy, folded cs(1)]
  have last_key: "feed_key c \<le> feed_key (last cs)" if "c \<in> set cs" for c
  proof -
    have "cs = butlast cs @ [last cs]"
      using cs(2) by simp
    then have "sorted_wrt (<) (map feed_key (butlast cs @ [last cs]))" "c \<in> set (butlast cs @ [last cs])"
      using props(1) that by simp_all
    then show ?thesis
      by (auto simp: sorted_wrt_append)
  qed
  have cursor: "beyond (Some (cursor_after (last cs))) c \<longleftrightarrow> feed_key (last cs) < feed_key c" for c
    by (simp add: beyond_def cursor_key_def cursor_after_def feed_key_def)
  have old: "feed_key c < feed_key c'" if "c \<in> set visible" "c' \<in> set cs" for c c'
  proof -
    have "\<not> beyond cur c" "beyond cur c'"
      using inv that props(2) by (auto simp: scan_inv_def)
    then show ?thesis
      by (cases cur) (auto simp: beyond_def)
  qed
  have "\<not> feed_key (last cs) < feed_key c" if "c \<in> set visible \<or> c \<in> set cs" for c
    using that old [of c "last cs"] last_key [of c] cs(2) by auto
  moreover have "shown legal sn u c"
    if "c \<in> set cs" "cd_user_id c \<notin> swiped_target_ids (sn_now (sn (Suc j))) (sn_db (sn (Suc j))) u (map cd_user_id cs)"
    for c
    using that props(2) [OF that(1)] unfolding shown_def
    by (intro exI [of _ j] exI [of _ "Suc j"]) (auto simp: swiped_target_ids_def)
  moreover have "sorted_wrt (<) (map feed_key (filter P cs))" for P
    using props(1) by (simp add: sorted_wrt_map sorted_wrt_filter)
  ultimately show ?thesis
    using inv old unfolding scan_inv_def cursor
    by (auto simp: list_all_iff sorted_wrt_append)
qed

lemma scan_feed_result:
  assumes "conservative geo" "\<And>j. snapshot_ok (sn j)"
  shows "scan_inv legal sn u cur visible \<Longrightarrow>
    \<exists>r. scan_feed geo legal sn u limit maximum cur visible remaining bsize k = Some r \<and>
      (case r of Inl e \<Rightarrow> e = DiscoveryNotReady
       | Inr (cur', visible', _) \<Rightarrow> scan_inv legal sn u cur' visible')"
proof (induction remaining arbitrary: cur visible bsize k rule: less_induct)
  case (less remaining)
  show ?case
  proof (cases "remaining = 0 \<or> length visible > limit")
    case True
    then show ?thesis
      using less.prems by (simp add: scan_feed.simps)
  next
    case False
    let ?n = "min bsize remaining"
    obtain j where batch: "feed_batch geo legal sn u ?n cur k =
        Some (Suc j, reference_batch geo legal (sn j) u ?n cur)"
      using feed_batch_reference [where sn = sn and k = k, OF assms] by blast
    let ?b = "reference_batch geo legal (sn j) u ?n cur"
    let ?cs = "bt_candidates ?b"
    show ?thesis
    proof (cases "bt_ready ?b \<and> ?cs \<noteq> []")
      case True
      note inv = scan_inv_step [OF less.prems assms(2) conjunct1 [OF True] refl conjunct2 [OF True]]
      have "remaining - length ?cs < remaining"
        using True \<open>\<not> (remaining = 0 \<or> length visible > limit)\<close> by (simp add: diff_less)
      note rest = less.IH [OF this inv, of "min (saturating_mul_u32 bsize 2) maximum" "Suc (Suc j)"]
      show ?thesis
        using False batch True inv rest
        by (subst scan_feed.simps) (simp add: Let_def)
    next
      case unready: False
      then show ?thesis
        using False batch less.prems by (subst scan_feed.simps) (auto simp: Let_def)
    qed
  qed
qed

section \<open>Pages of a database at rest\<close>

text \<open>What remains to be shown after a cursor.\<close>

definition feed_rest ::
  "spatial \<Rightarrow> legal_config \<Rightarrow> snapshot \<Rightarrow> uuid \<Rightarrow> discovery_cursor option \<Rightarrow> candidate_row list" where
  "feed_rest geo legal sn u cur =
     (case viewer_of legal sn u of
        None \<Rightarrow> [] | Some v \<Rightarrow> filter (beyond cur) (feed_listing geo legal sn u v))"

lemma filter_drop_asc:
  assumes "sorted_wrt (<) (map key xs)" "i < length xs"
  shows "filter (\<lambda>r. (key (xs ! i) :: 'k::linorder) < key r) xs = drop (Suc i) xs"
proof -
  have "sorted_wrt (<) (map key (take (Suc i) xs @ drop (Suc i) xs))"
    using assms(1) by simp
  moreover have "xs ! i \<in> set (take (Suc i) xs)"
    using assms(2) by (simp add: take_Suc_conv_app_nth)
  ultimately have "\<forall>r \<in> set (drop (Suc i) xs). key (xs ! i) < key r"
    by (auto simp: sorted_wrt_append simp del: append_take_drop_id)
  moreover have "\<not> key (xs ! i) < key r" if mem: "r \<in> set (take (Suc i) xs)" for r
  proof -
    obtain j where "j < length (take (Suc i) xs)" "take (Suc i) xs ! j = r"
      using mem unfolding in_set_conv_nth by blast
    then have "j \<le> i" "r = xs ! j"
      by auto
    then show ?thesis
      using assms sorted_wrt_nth_less [of "(<)" "map key xs" j i] by (cases "j = i") auto
  qed
  ultimately have "filter (\<lambda>r. key (xs ! i) < key r) (take (Suc i) xs @ drop (Suc i) xs) = drop (Suc i) xs"
    by (simp only: filter_append) (simp add: filter_empty_conv)
  then show ?thesis
    by simp
qed

lemma feed_rest_next:
  assumes "snapshot_ok sn" "0 < limit" "limit < length (feed_rest geo legal sn u cur)"
  shows "feed_rest geo legal sn u (Some (cursor_after (last (take limit (feed_rest geo legal sn u cur))))) =
    drop limit (feed_rest geo legal sn u cur)"
proof -
  obtain v where v: "viewer_of legal sn u = Some v"
    using assms(3) by (cases "viewer_of legal sn u") (auto simp: feed_rest_def)
  let ?R = "filter (beyond cur) (feed_listing geo legal sn u v)"
  have R: "feed_rest geo legal sn u cur = ?R" and len: "limit < length ?R"
    using assms(3) v by (simp_all add: feed_rest_def)
  have lst: "last (take limit ?R) = ?R ! (limit - 1)"
    using assms(2) len by (subst last_conv_nth) auto
  have "beyond cur (?R ! (limit - 1))"
    using nth_mem [of "limit - 1" ?R] len by auto
  then have "filter (beyond (Some (cursor_after (?R ! (limit - 1))))) (feed_listing geo legal sn u v) =
      filter (\<lambda>r. feed_key (?R ! (limit - 1)) < feed_key r) ?R"
    by (auto simp: beyond_def cursor_key_def cursor_after_def feed_key_def split: option.splits
        intro!: filter_cong)
  also have "\<dots> = drop (Suc (limit - 1)) ?R"
  proof (rule filter_drop_asc)
    show "sorted_wrt (<) (map feed_key ?R)"
      using listing_strict [OF assms(1), of geo legal u v] by (simp add: sorted_wrt_map sorted_wrt_filter)
  qed (use len in simp)
  finally show ?thesis
    using assms(2) v by (simp add: R lst) (simp add: feed_rest_def)
qed

lemma reference_batch_rest:
  "viewer_of legal sn u \<noteq> None \<Longrightarrow>
   reference_batch geo legal sn u n cur = \<lparr>bt_ready = True, bt_candidates = take n (feed_rest geo legal sn u cur)\<rparr>"
  by (auto simp: reference_batch_def feed_rest_def)

lemma rest_not_swiped:
  assumes "snapshot_ok sn" "c \<in> set (feed_rest geo legal sn u cur)"
  shows "swipe_current (sn_now sn) (sn_db sn) u (cd_user_id c) = None"
proof (cases "viewer_of legal sn u")
  case (Some v)
  then show ?thesis
    using assms listing_may_see [OF Some assms(1), of c geo]
    by (auto simp: feed_rest_def may_see_def excluded_def)
qed (use assms in \<open>simp add: feed_rest_def\<close>)

text \<open>On a database at rest the first batch decides: the recheck of swipes drops nobody.\<close>

lemma scan_feed_at_rest:
  fixes cur :: "discovery_cursor option"
  assumes "conservative geo" "snapshot_ok sn" "viewer_of legal sn u \<noteq> None" "limit < remaining"
  defines "R \<equiv> feed_rest geo legal sn u cur"
  shows "\<exists>cur'. scan_feed geo legal (\<lambda>_. sn) u limit maximum cur [] remaining (limit + 1) k =
    Some (Inr (cur', take (limit + 1) R, length R \<le> limit))"
proof -
  have req: "min (limit + 1) remaining = limit + 1"
    using assms(4) by simp
  obtain j where batch: "feed_batch geo legal (\<lambda>_. sn) u (limit + 1) cur k =
      Some (Suc j, \<lparr>bt_ready = True, bt_candidates = take (limit + 1) R\<rparr>)"
    using feed_batch_reference [where sn = "\<lambda>_. sn" and k = k, OF assms(1,2)]
      reference_batch_rest [OF assms(3)] by (metis R_def)
  have none: "filter (\<lambda>c. cd_user_id c \<notin>
      swiped_target_ids (sn_now sn) (sn_db sn) u (map cd_user_id (take (limit + 1) R))) (take (limit + 1) R) =
      take (limit + 1) R"
    using rest_not_swiped [OF assms(2)]
    by (auto simp: filter_id_conv swiped_target_ids_def R_def dest!: in_set_takeD)
  show ?thesis
  proof (cases "R = []")
    case True
    then show ?thesis
      using batch req assms(4) by (subst scan_feed.simps) (simp add: Let_def)
  next
    case False
    show ?thesis
    proof (cases "length R \<le> limit")
      case True
      then show ?thesis
        using batch req none False assms(4) by (subst scan_feed.simps) (simp add: Let_def)
    next
      case more: False
      then have "scan_feed geo legal (\<lambda>_. sn) u limit maximum c (take (limit + 1) R) r b i =
          Some (Inr (c, take (limit + 1) R, False))" for c r b i
        by (subst scan_feed.simps) simp
      then show ?thesis
        using batch req none False more assms(4) by (subst scan_feed.simps) (simp add: Let_def)
    qed
  qed
qed

section \<open>Cursors\<close>

text \<open>What the code relies on of the cipher and of base64.\<close>

definition codec_ok :: "cursor_codec \<Rightarrow> bool" where
  "codec_ok codec \<longleftrightarrow>
     (\<forall>n a m. length a = 16 \<longrightarrow>
        (\<exists>ct. seal codec n a m = Some ct \<and> length ct = length m + 16 \<and> unseal codec n a ct = Some m)) \<and>
     (\<forall>bs. base64_decode codec (base64_encode codec bs) = Some bs) \<and>
     (\<forall>bs. bs \<noteq> [] \<longrightarrow> base64_encode codec bs \<noteq> [] \<and> length (base64_encode codec bs) \<le> 2 * length bs)"

text \<open>Associated data is authenticated: another user's data does not open the cursor.\<close>

definition authentic :: "cursor_codec \<Rightarrow> bool" where
  "authentic codec \<longleftrightarrow>
     (\<forall>n a a' m ct. length a = 16 \<longrightarrow> length a' = 16 \<longrightarrow> a' \<noteq> a \<longrightarrow>
        seal codec n a m = Some ct \<longrightarrow> unseal codec n a' ct = None)"

lemma encode_cursor_SomeD:
  assumes "encode_cursor codec nonce now u c = Inr token"
  obtains n t ct where "nonce = Some n" "valid_cursor c" "checked_add_i64 (timestamp now) TTL_SECONDS = Some t"
    "seal codec n (be_bytes 16 u) (cursor_payload c t) = Some ct"
    "token = base64_encode codec ([VERSION] @ n @ ct)"
  using assms by (auto simp: encode_cursor_def split: if_splits option.splits)

lemma decode_token:
  assumes "codec_ok codec" "length n = NONCE_BYTES" "length ct = PAYLOAD_BYTES + 16"
  shows "decode_cursor codec now u (Some (base64_encode codec ([VERSION] @ n @ ct))) =
    (case unseal codec n (be_bytes 16 u) ct of
       None \<Rightarrow> Inl InvalidFeedCursor
     | Some plaintext \<Rightarrow>
         if length plaintext \<noteq> PAYLOAD_BYTES then Inl InvalidFeedCursor
         else
           let c = \<lparr>dc_distance_km = from_be_bytes (take 8 plaintext),
                    dc_id = from_be_bytes (take 16 (drop 8 plaintext))\<rparr>;
               expires_at = sint (from_be_bytes (drop 24 plaintext) :: 64 word)
           in if expires_at \<le> timestamp now \<or> \<not> valid_cursor c then Inl InvalidFeedCursor
              else Inr (Some c))"
proof -
  let ?bs = "VERSION # n @ ct"
  have len: "length ?bs = TOKEN_BYTES"
    using assms(2,3) by (simp add: TOKEN_BYTES_def)
  then have "length (base64_encode codec ?bs) \<le> 2 * TOKEN_BYTES"
    using assms(1) unfolding codec_ok_def by (metis list.distinct(1))
  then have "length (base64_encode codec ?bs) \<le> 128"
    by (simp add: TOKEN_BYTES_def NONCE_BYTES_def PAYLOAD_BYTES_def)
  moreover have "base64_encode codec ?bs \<noteq> []" "base64_decode codec (base64_encode codec ?bs) = Some ?bs"
    using assms(1) by (auto simp: codec_ok_def)
  ultimately show ?thesis
    using len assms(2) by (simp add: decode_cursor_def)
qed

lemma cursor_round_trip:
  assumes "codec_ok codec" "encode_cursor codec (Some n) now u c = Inr token" "length n = NONCE_BYTES"
  shows "decode_cursor codec now' u (Some token) =
    (if timestamp now' < timestamp now + TTL_SECONDS then Inr (Some c) else Inl InvalidFeedCursor)"
proof -
  obtain t ct where enc: "valid_cursor c" "checked_add_i64 (timestamp now) TTL_SECONDS = Some t"
      "seal codec n (be_bytes 16 u) (cursor_payload c t) = Some ct"
      "token = base64_encode codec ([VERSION] @ n @ ct)"
    using assms(2) by (rule encode_cursor_SomeD) auto
  have ct: "length ct = PAYLOAD_BYTES + 16" "unseal codec n (be_bytes 16 u) ct = Some (cursor_payload c t)"
    using assms(1) enc(3) unfolding codec_ok_def by (metis length_be_bytes length_cursor_payload option.inject)+
  have "t = timestamp now + TTL_SECONDS"
    using enc(2) by (auto simp: checked_add_i64_def split: if_splits)
  moreover have "sint (of_int t :: 64 word) = t"
    using enc(2) by (rule checked_add_i64_sint)
  moreover have same: "\<lparr>dc_distance_km = dc_distance_km c, dc_id = dc_id c\<rparr> = c"
    by (cases c) simp
  ultimately show ?thesis
    unfolding enc(4) decode_token [OF assms(1,3) ct(1)] ct(2)
    using enc(1) by (auto simp: payload_fields Let_def same)
qed

lemma cursor_bound_to_viewer:
  assumes "codec_ok codec" "authentic codec" "encode_cursor codec (Some n) now u c = Inr token"
    and "length n = NONCE_BYTES" "u' \<noteq> u"
  shows "decode_cursor codec now' u' (Some token) = Inl InvalidFeedCursor"
proof -
  obtain t ct where enc: "seal codec n (be_bytes 16 u) (cursor_payload c t) = Some ct"
      "token = base64_encode codec ([VERSION] @ n @ ct)"
    using assms(3) by (rule encode_cursor_SomeD) auto
  have "length ct = PAYLOAD_BYTES + 16"
    using assms(1) enc(1) unfolding codec_ok_def by (metis length_be_bytes length_cursor_payload option.inject)
  moreover have "be_bytes 16 u' \<noteq> be_bytes 16 u"
    using assms(5) by (simp add: be_bytes_inj)
  then have "unseal codec n (be_bytes 16 u') ct = None"
    using assms(2) enc(1) unfolding authentic_def by (metis length_be_bytes)
  ultimately show ?thesis
    unfolding enc(2) using decode_token [OF assms(1,4)] by simp
qed

lemma encode_cursor_ok:
  assumes "codec_ok codec" "valid_cursor c" "min_utc \<le> now" "now \<le> max_utc"
  shows "\<exists>token. encode_cursor codec (Some n) now u c = Inr token"
proof -
  have "- (2 ^ 63) \<le> timestamp now + TTL_SECONDS" "timestamp now + TTL_SECONDS < 2 ^ 63"
    using assms(3,4) by (simp_all add: timestamp_def TTL_SECONDS_def min_utc_def max_utc_def time_simps)
  then have "checked_add_i64 (timestamp now) TTL_SECONDS = Some (timestamp now + TTL_SECONDS)"
    by (simp add: checked_add_i64_def)
  moreover obtain ct where
    "seal codec n (be_bytes 16 u) (cursor_payload c (timestamp now + TTL_SECONDS)) = Some ct"
    using assms(1) unfolding codec_ok_def by (metis length_be_bytes)
  ultimately show ?thesis
    using assms(2) by (simp add: encode_cursor_def)
qed

section \<open>The answer of the feed\<close>

lemma feed_at_rest:
  assumes "conservative geo" "snapshot_ok sn" "viewer_of legal sn u \<noteq> None" "1 \<le> limit" "limit \<le> 100"
    and "decode_cursor codec now u raw = Inr cur"
  defines "R \<equiv> feed_rest geo legal sn u cur"
  shows "feed codec nonce now now' geo legal (\<lambda>_. sn) u limit raw =
    Some (case encode_next codec nonce now' u
            (if limit < length R then Some (cursor_after (last (take limit R))) else None) of
            Inl e \<Rightarrow> Inl e
          | Inr token \<Rightarrow> Inr \<lparr>fp_profiles = map feed_candidate_from (take limit R), fp_next_cursor = token\<rparr>)"
proof -
  have "limit < maximum_batch limit * MAX_FEED_BATCHES"
    using assms(5) by (simp add: maximum_batch_def MAX_FEED_BATCHES_def)
  then obtain cur' where scan: "scan_feed geo legal (\<lambda>_. sn) u limit (maximum_batch limit) cur []
      (maximum_batch limit * MAX_FEED_BATCHES) (limit + 1) 0 =
      Some (Inr (cur', take (limit + 1) R, length R \<le> limit))"
    using scan_feed_at_rest [OF assms(1-3)] unfolding R_def by blast
  have "limit < length R \<Longrightarrow> take limit R \<noteq> []"
    using assms(4) by (cases R) auto
  moreover have "take limit (take (limit + 1) R) = take limit R" "limit < length (take (limit + 1) R) \<longleftrightarrow> limit < length R"
    by auto
  ultimately show ?thesis
    using assms(4-6) scan by (simp add: feed_def feed_answer_def Let_def not_le split: sum.split)
qed

text \<open>A client that follows the cursors, at most \<open>n\<close> requests; request \<open>k\<close> comes at \<open>t k\<close>.\<close>

fun walk_feed ::
  "cursor_codec \<Rightarrow> (nat \<Rightarrow> byte list) \<Rightarrow> (nat \<Rightarrow> instant) \<Rightarrow> spatial \<Rightarrow> legal_config \<Rightarrow> snapshot \<Rightarrow> uuid \<Rightarrow>
   nat \<Rightarrow> nat \<Rightarrow> nat \<Rightarrow> string option \<Rightarrow> feed_candidate list" where
  "walk_feed codec nonce t geo legal sn u limit 0 k raw = []"
| "walk_feed codec nonce t geo legal sn u limit (Suc n) k raw =
     (case feed codec (Some (nonce k)) (t k) (t k) geo legal (\<lambda>_. sn) u limit raw of
        Some (Inr page) \<Rightarrow> fp_profiles page @
          (case fp_next_cursor page of
             None \<Rightarrow> [] | Some token \<Rightarrow> walk_feed codec nonce t geo legal sn u limit n (Suc k) (Some token))
      | _ \<Rightarrow> [])"

lemma walk_feed_rest:
  assumes "codec_ok codec" "conservative geo" "snapshot_ok sn" "viewer_of legal sn u \<noteq> None"
    and "1 \<le> limit" "limit \<le> 100" "\<And>k. length (nonce k) = NONCE_BYTES"
    and "\<And>k. min_utc \<le> t k \<and> t k \<le> max_utc \<and> timestamp (t (Suc k)) < timestamp (t k) + TTL_SECONDS"
    and "\<And>c. c \<in> set (feed_rest geo legal sn u None) \<Longrightarrow> valid_cursor (cursor_after c)"
  shows "decode_cursor codec (t k) u raw = Inr cur \<Longrightarrow> length (feed_rest geo legal sn u cur) \<le> n \<Longrightarrow>
    walk_feed codec nonce t geo legal sn u limit (Suc n) k raw =
      map feed_candidate_from (feed_rest geo legal sn u cur)"
proof (induction n arbitrary: k raw cur rule: less_induct)
  case (less n)
  let ?R = "feed_rest geo legal sn u cur"
  note page = feed_at_rest [OF assms(2-6) less.prems(1), of "Some (nonce k)" "t k"]
  show ?case
  proof (cases "limit < length ?R")
    case False
    then show ?thesis
      using page by (simp add: encode_next_def)
  next
    case True
    let ?c = "cursor_after (last (take limit ?R))"
    have "take limit ?R \<noteq> []"
      using True assms(5) by (cases ?R) auto
    then have "last (take limit ?R) \<in> set ?R"
      by (rule in_set_takeD [OF last_in_set])
    moreover have "set ?R \<subseteq> set (feed_rest geo legal sn u None)"
      by (auto simp: feed_rest_def beyond_def split: option.splits)
    ultimately have "valid_cursor ?c"
      using assms(9) by blast
    then obtain token where token: "encode_cursor codec (Some (nonce k)) (t k) u ?c = Inr token"
      using encode_cursor_ok [OF assms(1)] assms(8) by blast
    have "decode_cursor codec (t (Suc k)) u (Some token) = Inr (Some ?c)"
      using cursor_round_trip [OF assms(1) token assms(7), of "t (Suc k)"] assms(8) by simp
    moreover have rest: "feed_rest geo legal sn u (Some ?c) = drop limit ?R"
      using feed_rest_next [OF assms(3) _ True] assms(5) by simp
    moreover have "n - 1 < n" "Suc (n - 1) = n" "length (drop limit ?R) \<le> n - 1"
      using True less.prems(2) assms(5) by auto
    ultimately have "walk_feed codec nonce t geo legal sn u limit n (Suc k) (Some token) =
        map feed_candidate_from (drop limit ?R)"
      using less.IH [of "n - 1" "Suc k" "Some token" "Some ?c"] by simp
    moreover have "map feed_candidate_from (take limit ?R) @ map feed_candidate_from (drop limit ?R) =
        map feed_candidate_from ?R"
      by (simp flip: map_append)
    ultimately show ?thesis
      using page True token by (simp add: encode_next_def)
  qed
qed

end
