(* ===== verification/Discovery_Swipes.thy ===== *)
theory Discovery_Swipes
  imports Discovery_Feed Match_Lifecycle
begin

text \<open>
  Swipes: what recording one changes, what a whole request answers, and the invariant of two
  concurrent likes.
\<close>

section \<open>Recording\<close>

definition put_swipe :: "uuid \<Rightarrow> uuid \<Rightarrow> swipe_row \<Rightarrow> discovery_db \<Rightarrow> discovery_db" where
  "put_swipe a t w s = s\<lparr>swipes := (swipes s)((a, t) \<mapsto> w)\<rparr>"

lemma put_swipe_simps [simp]:
  "core (put_swipe a t w s) = core s" "swipes (put_swipe a t w s) = (swipes s)((a, t) \<mapsto> w)"
  by (simp_all add: put_swipe_def)

lemma put_swipe_same: "swipes s (a, t) = Some w \<Longrightarrow> put_swipe a t w s = s"
  by (simp add: put_swipe_def map_upd_triv)

text \<open>The row a recording leaves: a new one, or the one that still stands.\<close>

definition left_row :: "swipe_decision \<Rightarrow> instant \<Rightarrow> swipe_row option \<Rightarrow> swipe_row" where
  "left_row d now old =
     (case old of Some w \<Rightarrow> if sw_expires_at w > now then w else swipe_entry d now
      | None \<Rightarrow> swipe_entry d now)"

lemma store_swipe_left:
  "store_swipe a t d now s =
     (Inr \<lparr>rs_created = (swipe_current now s a t = None), rs_decision = sw_decision (left_row d now (swipes s (a, t)))\<rparr>,
      put_swipe a t (left_row d now (swipes s (a, t))) s)"
  by (auto simp: store_swipe_def left_row_def swipe_current_def Let_def swipe_entry_def
      put_swipe_def map_upd_triv split: option.splits)

lemma length_live_pair:
  "length (filter P (sort (remdups [a, t]))) = 2 \<longleftrightarrow> a \<noteq> t \<and> P a \<and> P (t :: uuid)"
  by (auto simp: insort_key.simps)

lemma record_swipe_on_Inr:
  assumes "record_swipe_on a t d now s = (Inr r, s')"
  shows "a \<noteq> t" "(Inr r, s') = store_swipe a t d now s"
  using assms length_live_pair [of "live_account (core s)" a t]
  by (auto simp: record_swipe_on_def op_defs split: if_splits sum.splits simp del: remdups.simps)

lemma record_swipe_Inr:
  assumes "record_swipe l a t d now s = (Inr r, s')"
  shows "a \<noteq> t" "(Inr r, s') = store_swipe a t d now s"
proof -
  have "record_while_active l a t d now s = (Inr r, s')"
    using assms
    by (auto simp: record_swipe_def activity_run_def assert_held_def op_defs
        split: option.splits if_splits prod.splits sum.splits)
  then have "record_swipe_on a t d now s = (Inr r, s')"
    by (auto simp: record_while_active_def assert_held_def bind_op_def then_op_def ok_def err_def
        split: if_splits prod.splits sum.splits dest!: transaction_OkD)
  then show "a \<noteq> t" "(Inr r, s') = store_swipe a t d now s"
    by (rule record_swipe_on_Inr)+
qed

lemma record_swipe_state:
  assumes "record_swipe l a t d now s = (r, s')"
  shows "s' = s \<or> s' = put_swipe a t (left_row d now (swipes s (a, t))) s"
proof -
  have on: "s'' = put_swipe a t (left_row d now (swipes s (a, t))) s"
    if "record_swipe_on a t d now s = (Inr v, s'')" for v s''
    using record_swipe_on_Inr [OF that] by (simp add: store_swipe_left)
  show ?thesis
    using assms on
    by (auto simp: record_swipe_def activity_run_def record_while_active_def assert_held_def
        bind_op_def then_op_def ok_def err_def transaction_def
        split: option.splits if_splits prod.splits sum.splits)
qed

section \<open>The match of a mutual like\<close>

lemma mutual_like_pairs:
  assumes "create_from_mutual_like fmt e i now now' a t db = (res, db', evs)"
  shows "list_ex (\<lambda>m. user1_id m = x \<and> user2_id m = y) (match_init db) \<Longrightarrow>
      list_ex (\<lambda>m. user1_id m = x \<and> user2_id m = y) (match_init db')"
    and "res = Inr p \<Longrightarrow> list_ex (\<lambda>m. user1_id m = min a t \<and> user2_id m = max a t) (match_init db')"
    and "res = Inl er \<Longrightarrow> db' = db"
proof -
  let ?r = "new_match_record i a t now"
  have row: "user1_id (track_inserted c (match_row_of ?r)) = min a t"
      "user2_id (track_inserted c (match_row_of ?r)) = max a t" for c
    by (simp_all add: track_inserted_def track_match_inactivity_def match_row_of_def new_match_record_def
        match_record.defs split: option.splits)
  note cases = mutual_like_cases [OF assms]
  show "list_ex (\<lambda>m. user1_id m = x \<and> user2_id m = y) (match_init db')"
    if "list_ex (\<lambda>m. user1_id m = x \<and> user2_id m = y) (match_init db)"
    using cases that create_Ok(1) [of e ?r db "()" db'] by auto
  show "list_ex (\<lambda>m. user1_id m = min a t \<and> user2_id m = max a t) (match_init db')" if "res = Inr p"
    using cases that create_Ok(1) [of e ?r db "()" db'] row
    by (auto simp: find_by_pair_def list_ex_iff new_match_record_def dest!: find_SomeD)
  show "db' = db" if "res = Inl er"
    using cases that by auto
qed

section \<open>One request\<close>

lemma target_batch_SomeD:
  assumes "c \<in> set (target_batch geo legal sn a n cur t)"
  obtains v p pf sx pp where "viewer_of legal sn a = Some v" "located sn a p" "pr_user p = t"
    "p \<in> set (user_presence (sn_db sn))" "fitting_profile legal sn v t = Some (pf, sx, pp)"
    "f64_value (distance_km geo v p) \<le> viewer_max v"
    "f64_value (distance_km geo v p) \<le> of_int (pp_max_distance_km pp)" "\<not> target_excluded sn a t"
proof -
  obtain v where v: "viewer_of legal sn a = Some v"
    using assms by (cases "viewer_of legal sn a") (auto simp: target_batch_def)
  then obtain p where "target_candidate_at geo legal sn a v t cur p = Some c"
    "p \<in> set (user_presence (sn_db sn))"
    using assms by (auto simp: target_batch_def set_map_filter dest!: set_order_limit_subset [THEN subsetD])
  then show thesis
    using v that by (auto simp: target_candidate_at_def Let_def split: if_splits option.splits prod.splits)
qed

text \<open>Whom a swipe reaches: each is open to the other at the distance between them, and neither has
  blocked the other.\<close>

definition may_swipe :: "spatial \<Rightarrow> legal_config \<Rightarrow> snapshot \<Rightarrow> uuid \<Rightarrow> uuid \<Rightarrow> bool" where
  "may_swipe geo legal sn u t \<longleftrightarrow>
     t \<noteq> u \<and> discoverable legal (core (sn_db sn)) u \<and> discoverable legal (core (sn_db sn)) t \<and>
     (\<exists>v p. viewer_of legal sn u = Some v \<and> p \<in> set (user_presence (sn_db sn)) \<and> pr_user p = t \<and>
        located sn u p \<and>
        open_to sn u t (f64_value (distance_km geo v p)) \<and> open_to sn t u (f64_value (distance_km geo v p))) \<and>
     \<not> blocked_pair (core (sn_db sn)) u t"

lemma target_may_swipe:
  assumes "c \<in> set (target_batch geo legal sn a n cur t)" "snapshot_ok sn"
  shows "may_swipe geo legal sn a t"
proof -
  obtain v p pf sx pp where t: "viewer_of legal sn a = Some v" "located sn a p" "pr_user p = t"
    "p \<in> set (user_presence (sn_db sn))" "fitting_profile legal sn v t = Some (pf, sx, pp)"
    "f64_value (distance_km geo v p) \<le> viewer_max v"
    "f64_value (distance_km geo v p) \<le> of_int (pp_max_distance_km pp)" "\<not> target_excluded sn a t"
    using assms(1) by (rule target_batch_SomeD)
  show ?thesis
    using fitting_open_to [OF t(1) assms(2) t(5-7)] t(1-4,8)
    by (auto simp: may_swipe_def located_def target_excluded_def)
qed

text \<open>The admission of a request, its recording and its ending, as one statement each.\<close>

definition admitted :: "spatial \<Rightarrow> legal_config \<Rightarrow> swipe_env \<Rightarrow> uuid \<Rightarrow> uuid \<Rightarrow> discovery_db \<Rightarrow> bool" where
  "admitted geo legal e a t s \<longleftrightarrow>
     a \<noteq> 0 \<and> t \<noteq> 0 \<and> a \<noteq> t \<and> is_ready legal (se_ready_at e) s a \<and>
     length (target_batch geo legal \<lparr>sn_db = s, sn_now = se_candidate_at e, sn_today = se_today e\<rparr> a 1 None t) = 1"

lemma swipe_admission:
  "(\<not> admitted geo legal e a t s \<and> (\<exists>er. swipe geo legal fmt e a t d s = (Finished (Inl er), s, []))) \<or>
   (admitted geo legal e a t s \<and> swipe geo legal fmt e a t d s = swipe_steps geo legal fmt e a t d 3 Recording s)"
  by (auto simp: swipe_def admitted_def candidate_batch_def eval_nat_numeral Let_def)

definition reciprocated :: "instant \<Rightarrow> discovery_db \<Rightarrow> uuid \<Rightarrow> uuid \<Rightarrow> bool" where
  "reciprocated now s a t \<longleftrightarrow>
     (case swipe_current now s t a of Some w \<Rightarrow> sw_decision w = Like | None \<Rightarrow> False)"

lemma finding_step:
  "swipe_step geo legal fmt e a t d FindingReciprocal s =
     ((if reciprocated (se_find_at e) s a t then CreatingMatch else unmatched d), s, [])"
  by (auto simp: reciprocated_def find_swipe_def split: option.splits)

lemma left_row_stands: "now < sw_expires_at (left_row d now old)"
  by (auto simp: left_row_def swipe_entry_def SWIPE_RETENTION_DAYS_def split: option.splits)

lemma left_row_new:
  "swipe_current now s a t = None \<Longrightarrow> left_row d now (swipes s (a, t)) = swipe_entry d now"
  by (auto simp: left_row_def swipe_current_def split: option.splits if_splits)

lemma recording_step:
  assumes "swipe_step geo legal fmt e a t d Recording s = (st, s', evs)"
  shows "evs = [] \<and> core s' = core s \<and>
    ((\<exists>er. st = Finished (Inl er) \<and> (s' = s \<or> s' = put_swipe a t (left_row d (se_now e) (swipes s (a, t))) s)) \<or>
     (\<exists>w. a \<noteq> t \<and> s' = put_swipe a t w s \<and> w = left_row d (se_now e) (swipes s (a, t)) \<and>
        sw_decision w = d \<and> st = (if d = Pass then unmatched d else FindingReciprocal)))"
proof -
  let ?w = "left_row d (se_now e) (swipes s (a, t))"
  obtain rr s1 where rec: "record_swipe (se_lease e) a t d (se_now e) s = (rr, s1)"
    by (rule prod.exhaust)
  have states: "s1 = s \<or> s1 = put_swipe a t ?w s"
    by (rule record_swipe_state [OF rec])
  show ?thesis
  proof (cases rr)
    case (Inl er)
    then show ?thesis
      using assms rec states by auto
  next
    case (Inr r)
    note stored = record_swipe_Inr [OF rec [unfolded Inr]]
    have r: "s1 = put_swipe a t ?w s" "rs_decision r = sw_decision ?w"
        "rs_created r \<longleftrightarrow> swipe_current (se_now e) s a t = None"
      using stored(2) by (simp_all add: store_swipe_left)
    have "sw_decision ?w = d" if "rs_created r \<or> rs_decision r = d"
      using that r(2,3) left_row_new [of "se_now e" s a t d] by (auto simp: swipe_entry_def)
    then show ?thesis
      using assms rec Inr r(1) stored(1) by (auto split: if_splits)
  qed
qed

lemma swipe_recorded:
  assumes "swipe_steps geo legal fmt e a t d 3 Recording s = (st, s', evs)"
  shows "\<exists>r. st = Finished r \<and> (\<forall>er. r = Inl er \<longrightarrow> core s' = core s) \<and>
    (\<forall>resp. r = Inr resp \<longrightarrow> sp_decision resp = d \<and>
       swipes s' = (swipes s)((a, t) \<mapsto> left_row d (se_now e) (swipes s (a, t))) \<and>
       sw_decision (left_row d (se_now e) (swipes s (a, t))) = d \<and>
       (sp_matched resp \<longleftrightarrow> d = Like \<and> reciprocated (se_find_at e) s a t) \<and>
       (if sp_matched resp then pair_match s' a t else core s' = core s \<and> evs = []))"
proof -
  obtain st1 s1 evs1 where step: "swipe_step geo legal fmt e a t d Recording s = (st1, s1, evs1)"
    by (metis prod_cases3)
  obtain cr db2 evs2 where made: "create_from_mutual_like fmt (se_match_env e) (se_match_id e)
      (se_match_now e) (se_match_now' e) a t (core s1) = (cr, db2, evs2)"
    by (metis prod_cases3)
  note pairs = mutual_like_pairs [OF made]
  note first = recording_step [OF step]
  have same: "reciprocated (se_find_at e) s1 a t \<longleftrightarrow> reciprocated (se_find_at e) s a t"
    if "a \<noteq> t" "s1 = put_swipe a t w s" for w
    using that by (simp add: reciprocated_def swipe_current_def)
  have "d \<noteq> Pass \<longleftrightarrow> d = Like"
    by (cases d) simp_all
  then show ?thesis
    using assms step first made pairs(2,3) same
    by (auto simp: numeral_3_eq_3 finding_step unmatched_def pair_match_def
        simp del: swipe_step.simps(4,5) split: if_splits sum.splits)
qed

text \<open>A request on its own ends, and answers as the tables say.\<close>

lemma swipe_answer:
  assumes "snapshot_ok \<lparr>sn_db = s, sn_now = se_candidate_at e, sn_today = se_today e\<rparr>"
  shows "\<exists>r s' evs. swipe geo legal fmt e a t d s = (Finished r, s', evs) \<and>
    (\<forall>er. r = Inl er \<longrightarrow> core s' = core s) \<and>
    (\<forall>resp. r = Inr resp \<longrightarrow>
       may_swipe geo legal \<lparr>sn_db = s, sn_now = se_candidate_at e, sn_today = se_today e\<rparr> a t \<and>
       sp_decision resp = d \<and>
       (\<exists>w. swipes s' = (swipes s)((a, t) \<mapsto> w) \<and> sw_decision w = d \<and> se_now e < sw_expires_at w) \<and>
       (sp_matched resp \<longleftrightarrow> d = Like \<and> reciprocated (se_find_at e) s a t) \<and>
       (if sp_matched resp then pair_match s' a t else core s' = core s \<and> evs = []))"
proof (cases "admitted geo legal e a t s")
  case False
  then obtain er where "swipe geo legal fmt e a t d s = (Finished (Inl er), s, [])"
    using swipe_admission [of geo legal e a t s fmt d] by auto
  then show ?thesis
    by auto
next
  case True
  then obtain c where "c \<in> set (target_batch geo legal \<lparr>sn_db = s, sn_now = se_candidate_at e, sn_today = se_today e\<rparr> a 1 None t)"
    unfolding admitted_def by (metis length_0_conv list.set_intros(1) neq_Nil_conv zero_neq_one)
  note reach = target_may_swipe [OF this assms]
  have "swipe geo legal fmt e a t d s = swipe_steps geo legal fmt e a t d 3 Recording s"
    using True swipe_admission [of geo legal e a t s fmt d] by simp
  moreover obtain st s' evs where run: "swipe_steps geo legal fmt e a t d 3 Recording s = (st, s', evs)"
    by (metis prod_cases3)
  ultimately show ?thesis
    using swipe_recorded [OF run] reach left_row_stands [of "se_now e" d "swipes s (a, t)"] by metis
qed

section \<open>Two concurrent likes\<close>

text \<open>\<open>deadline\<close> bounds the times at which the two requests look for the other like.\<close>

definition standing :: "instant \<Rightarrow> discovery_db \<Rightarrow> uuid \<Rightarrow> uuid \<Rightarrow> bool" where
  "standing deadline s a b \<longleftrightarrow> (\<forall>w. swipes s (a, b) = Some w \<longrightarrow> deadline < sw_expires_at w)"

definition liked :: "discovery_db \<Rightarrow> uuid \<Rightarrow> uuid \<Rightarrow> bool" where
  "liked s a b \<longleftrightarrow> (\<exists>w. swipes s (a, b) = Some w \<and> sw_decision w = Like)"

definition past_recording :: "swipe_state \<Rightarrow> bool" where
  "past_recording x \<longleftrightarrow> x \<in> {FindingReciprocal, CreatingMatch} \<or> (\<exists>r. x = Finished (Inr r))"

definition answered :: "bool \<Rightarrow> swipe_state \<Rightarrow> bool" where
  "answered m x \<longleftrightarrow> (\<exists>r. x = Finished (Inr r) \<and> sp_matched r = m)"

definition pair_inv :: "instant \<Rightarrow> uuid \<Rightarrow> uuid \<Rightarrow> swipe_state \<Rightarrow> swipe_state \<Rightarrow> discovery_db \<Rightarrow> bool" where
  "pair_inv deadline a b x y s \<longleftrightarrow>
     standing deadline s a b \<and> standing deadline s b a \<and>
     (past_recording x \<longrightarrow> liked s a b) \<and> (past_recording y \<longrightarrow> liked s b a) \<and>
     (answered True x \<or> answered True y \<longrightarrow> pair_match s a b) \<and>
     \<not> (answered False x \<and> answered False y)"

lemma pair_inv_sym: "pair_inv deadline a b x y s \<longleftrightarrow> pair_inv deadline b a y x s"
  by (auto simp: pair_inv_def pair_match_def min.commute max.commute)

lemma answered_simps [simp]:
  "answered m Validating = False" "answered m CheckingReady = False" "answered m CheckingCandidate = False"
  "answered m Recording = False" "answered m FindingReciprocal = False" "answered m CreatingMatch = False"
  "answered m (Finished (Inl er)) = False" "answered m (Finished (Inr r)) = (sp_matched r = m)"
  "answered m (unmatched d) = (\<not> m)"
  by (auto simp: answered_def unmatched_def)

lemma past_recording_simps [simp]:
  "past_recording Validating = False" "past_recording CheckingReady = False"
  "past_recording CheckingCandidate = False" "past_recording Recording = False"
  "past_recording FindingReciprocal" "past_recording CreatingMatch"
  "past_recording (Finished (Inl er)) = False" "past_recording (Finished (Inr r))"
  "past_recording (unmatched d)"
  by (auto simp: past_recording_def unmatched_def)

lemma answered_past: "answered m x \<Longrightarrow> past_recording x"
  by (auto simp: answered_def)

text \<open>A standing like is seen by the other request.\<close>

lemma liked_reciprocated:
  "liked s b a \<Longrightarrow> standing deadline s b a \<Longrightarrow> now \<le> deadline \<Longrightarrow> reciprocated now s a b"
  by (auto simp: liked_def standing_def reciprocated_def swipe_current_def)

lemma pair_inv_recording:
  assumes "pair_inv deadline a b Recording y s" "deadline < se_now e + days SWIPE_RETENTION_DAYS"
    and "swipe_step geo legal fmt e a b Like Recording s = (x', s', evs)"
  shows "pair_inv deadline a b x' y s'"
proof -
  let ?w = "left_row Like (se_now e) (swipes s (a, b))"
  have late: "deadline < sw_expires_at ?w"
    using assms(1,2) by (auto simp: left_row_def pair_inv_def standing_def swipe_entry_def split: option.splits)
  have cases: "core s' = core s" "(\<exists>er. x' = Finished (Inl er)) \<and> (s' = s \<or> s' = put_swipe a b ?w s) \<or>
      a \<noteq> b \<and> s' = put_swipe a b ?w s \<and> sw_decision ?w = Like \<and> x' = FindingReciprocal"
    using recording_step [OF assms(3)] by auto
  have inv: "standing deadline s a b" "standing deadline s b a" "past_recording y \<Longrightarrow> liked s b a"
      "answered True y \<Longrightarrow> pair_match s a b"
    using assms(1) by (simp_all add: pair_inv_def)
  have "liked s' b a" if "past_recording y"
    using inv(3) [OF that] cases(2)
    by (auto simp: liked_def left_row_def swipe_entry_def split: option.splits)
  moreover have "standing deadline s' a b" "standing deadline s' b a"
    using cases(2) inv(1,2) late by (cases "a = b"; auto simp: standing_def)+
  moreover have "past_recording x' \<Longrightarrow> liked s' a b" "\<not> answered m x'" for m
    using cases(2) by (auto simp: liked_def)
  moreover have "pair_match s' a b = pair_match s a b"
    by (simp add: pair_match_def cases(1))
  ultimately show ?thesis
    using inv(4) by (simp add: pair_inv_def)
qed

lemma pair_inv_finding:
  assumes "pair_inv deadline a b FindingReciprocal y s" "se_find_at e \<le> deadline"
    and "swipe_step geo legal fmt e a b Like FindingReciprocal s = (x', s', evs)"
  shows "pair_inv deadline a b x' y s'"
proof -
  have "reciprocated (se_find_at e) s a b" if "answered False y"
    using that assms(1,2) answered_past [OF that] liked_reciprocated [of s b a deadline "se_find_at e"]
    by (simp add: pair_inv_def)
  then show ?thesis
    using assms(1,3) unfolding finding_step pair_inv_def by (auto split: if_splits)
qed

lemma pair_inv_creating:
  assumes "pair_inv deadline a b CreatingMatch y s"
    and "swipe_step geo legal fmt e a b Like CreatingMatch s = (x', s', evs)"
  shows "pair_inv deadline a b x' y s'"
proof -
  obtain cr db' evs' where made: "create_from_mutual_like fmt (se_match_env e) (se_match_id e)
      (se_match_now e) (se_match_now' e) a b (core s) = (cr, db', evs')"
    by (metis prod_cases3)
  note pairs = mutual_like_pairs [OF made]
  show ?thesis
    using assms made pairs(2) pairs(1) [of "min a b" "max a b"]
    by (auto simp: pair_inv_def pair_match_def standing_def liked_def split: sum.splits)
qed

lemma pair_inv_step:
  assumes "pair_inv deadline a b x y s" "deadline < se_now e + days SWIPE_RETENTION_DAYS"
    and "se_find_at e \<le> deadline" "swipe_step geo legal fmt e a b Like x s = (x', s', evs)"
  shows "pair_inv deadline a b x' y s'"
proof (cases x)
  case Recording
  then show ?thesis
    using pair_inv_recording assms by blast
next
  case FindingReciprocal
  then show ?thesis
    using pair_inv_finding assms by blast
next
  case CreatingMatch
  then show ?thesis
    using pair_inv_creating assms by blast
qed (use assms in \<open>auto simp: pair_inv_def candidate_batch_def Let_def split: if_splits\<close>)

lemma two_swipes_inv:
  assumes "two_swipes geo legal fmt ea eb a b s0 x y s"
    and "standing deadline s0 a b" "standing deadline s0 b a"
    and "se_find_at ea \<le> deadline" "se_find_at eb \<le> deadline"
    and "deadline < se_now ea + days SWIPE_RETENTION_DAYS" "deadline < se_now eb + days SWIPE_RETENTION_DAYS"
  shows "pair_inv deadline a b x y s"
  using assms(1)
proof (induction rule: two_swipes.induct)
  case start
  then show ?case
    using assms(2,3) by (simp add: pair_inv_def)
next
  case (first x y s x' s' evs)
  then show ?case
    using assms(4,6) pair_inv_step by blast
next
  case (second x y s y' s' evs)
  then have "pair_inv deadline b a y' x s'"
    using assms(5,7) pair_inv_step pair_inv_sym by metis
  then show ?case
    by (subst pair_inv_sym)
next
  case (other x y s s')
  then show ?case
    by (auto simp: pair_inv_def keeps_pair_def standing_def liked_def)
qed

end
