(* ===== verification/Discovery_Properties.thy ===== *)
theory Discovery_Properties
  imports Discovery_Swipes Samples
begin

text \<open>
  The properties of discovery: the feed is the listing, in pages; it shows only users who suit each
  other; swipes answer what the tables say; two likes always meet; a cursor opens only for whom and
  as long as it was made.
\<close>

section \<open>A small sample\<close>

lemma f64_value_code [code]:
  "f64_value b =
     (if b = 0 then 0
      else let magnitude =
            (if f64_exponent b = 0 then of_int (f64_mantissa b) / 2 ^ 1074
             else of_int (2 ^ 52 + f64_mantissa b) * 2 ^ f64_exponent b / 2 ^ 1075)
      in if bit b 63 then - magnitude else magnitude)"
  by (simp add: f64_value_def f64_exponent_def f64_mantissa_def)

lemma saturating_mul_u32_code [code]:
  "saturating_mul_u32 a b = nat (min (int a * int b) 4294967295)"
  by (simp add: saturating_mul_u32_def u32_max_def min_def flip: of_nat_mult)

definition ann :: uuid where "ann = 302240678275694148452352"
definition bob :: uuid where "bob = 302240678275694148452353"
definition cyd :: uuid where "cyd = 302240678275694148452354"

definition sample_legal :: legal_config where
  "sample_legal =
     \<lparr>terms_version = ''t1'', privacy_version = ''p1'', sensitive_data_consent_version = ''s1'',
      location_consent_version = ''l1''\<rparr>"

definition sample_consents :: "uuid \<Rightarrow> consent_row list" where
  "sample_consents u =
     [\<lparr>con_user = u, con_type = ''sensitive_data_consent'', con_version = ''s1'', con_granted = True,
       con_withdrawn_at = None\<rparr>,
      \<lparr>con_user = u, con_type = ''location_consent'', con_version = ''l1'', con_granted = True,
       con_withdrawn_at = None\<rparr>]"

definition sample_profile :: "sex \<Rightarrow> profile_row" where
  "sample_profile sx =
     \<lparr>pf_firstname = [65], pf_birthdate = (1996, 5, 4), pf_sex = Some sx, pf_bio = None\<rparr>"

definition sample_preferences :: "looking_for \<Rightarrow> preferences_row" where
  "sample_preferences l =
     \<lparr>pp_min_age = 18, pp_max_age = 99, pp_max_distance_km = 50, pp_looking_for = l\<rparr>"

definition sample_presence :: "uuid \<Rightarrow> presence_row" where
  "sample_presence u =
     \<lparr>pr_user = u, pr_latitude = Some 48, pr_longitude = Some 2, pr_fresh = True, pr_updated_at = 500\<rparr>"

definition sample_discovery :: "(uuid \<times> uuid \<rightharpoonup> swipe_row) \<Rightarrow> discovery_db" where
  "sample_discovery sw =
     \<lparr>core = sample_empty\<lparr>
        user_account := [ann \<mapsto> sample_account, bob \<mapsto> sample_account, cyd \<mapsto> sample_account],
        user_consent := concat (map sample_consents [ann, bob, cyd]),
        user_photo := map (\<lambda>u. \<lparr>ph_id = u, ph_user = u, ph_ready = True\<rparr>) [ann, bob, cyd],
        approved_photo := [ann, bob, cyd]\<rparr>,
      user_profile = [ann \<mapsto> sample_profile Female, bob \<mapsto> sample_profile Male, cyd \<mapsto> sample_profile Male],
      user_preferences =
        [ann \<mapsto> sample_preferences LookBoth, bob \<mapsto> sample_preferences LookFemale,
         cyd \<mapsto> sample_preferences LookFemale],
      user_presence = map sample_presence [cyd, bob, ann], swipes = sw, user_trait = [],
      user_profile_answer = [], profile_question = Map.empty, approved_bio = [], approved_answer = []\<rparr>"

definition sample_snapshot :: snapshot where
  "sample_snapshot = \<lparr>sn_db = sample_discovery Map.empty, sn_now = 1000, sn_today = (2026, 1, 15)\<rparr>"

definition sample_geo :: spatial where
  "sample_geo = \<lparr>haversine = (\<lambda>_ _. 0), dwithin = (\<lambda>_ _ _. True), collation = length\<rparr>"

text \<open>A stand-in for the cipher: the associated data is the tag.\<close>

definition sample_codec :: cursor_codec where
  "sample_codec =
     \<lparr>seal = (\<lambda>n a m. Some (m @ a)),
      unseal = (\<lambda>n a ct. if drop (length ct - 16) ct = a then Some (take (length ct - 16) ct) else None),
      base64_encode = map (\<lambda>b. char_of (unat b)),
      base64_decode = (\<lambda>s. Some (map (\<lambda>c. of_nat (of_char c)) s))\<rparr>"

lemma sample_people: "ann \<noteq> bob" "bob \<noteq> ann" "ann \<noteq> cyd" "cyd \<noteq> ann" "bob \<noteq> cyd" "cyd \<noteq> bob"
  by (simp_all add: ann_def bob_def cyd_def)

lemma sample_snapshot_ok:
  "snapshot_ok \<lparr>sn_db = sample_discovery sw, sn_now = t, sn_today = (2026, 1, 15)\<rparr>"
  by (auto simp: snapshot_ok_def sample_discovery_def preferences_ok_def sample_preferences_def
      sample_profile_def sample_presence_def days_in_month_def sample_people split: if_splits)

lemma sample_conservative: "conservative sample_geo"
  by (simp add: conservative_def sample_geo_def)

lemma byte_char: "of_nat (unat (b :: byte) mod 256) = b"
proof -
  have "unat b < 256"
    using unsigned_less [of b, where ?'a = nat] by simp
  then show ?thesis
    by simp
qed

lemma sample_codec_ok: "codec_ok sample_codec" "authentic sample_codec"
  by (auto simp: codec_ok_def authentic_def sample_codec_def comp_def byte_char intro!: map_idI)

definition sample_viewer :: viewer where
  "sample_viewer = the (viewer_of sample_legal sample_snapshot ann)"

lemma sample_listing:
  "viewer_of sample_legal sample_snapshot ann \<noteq> None"
  "map cd_user_id (feed_listing sample_geo sample_legal sample_snapshot ann sample_viewer) = [bob, cyd]"
  "list_all (\<lambda>c. valid_cursor (cursor_after c)) (feed_listing sample_geo sample_legal sample_snapshot ann sample_viewer)"
  by code_simp+

lemma sample_viewer_of: "viewer_of sample_legal sample_snapshot ann = Some sample_viewer"
  using sample_listing(1) by (auto simp: sample_viewer_def)

lemma sample_listing_length:
  "length (feed_listing sample_geo sample_legal sample_snapshot ann sample_viewer) = 2"
  using arg_cong [OF sample_listing(2), of length] by simp

lemma sample_batch:
  "map cd_user_id (bt_candidates (reference_batch sample_geo sample_legal sample_snapshot ann 5 None)) = [bob, cyd]"
  using sample_listing(2) sample_listing_length by (simp add: reference_batch_def sample_viewer_of beyond_def)

section \<open>The feed\<close>

text \<open>\<^bold>\<open>C33.\<close> The widening radius is exact and ends: whatever other transactions commit between its
  statements, a batch returns, and it is the one the full listing of the last statement gives, the
  nearest eligible users beyond the cursor, at most \<open>limit\<close> of them.\<close>

theorem feed_batch_equals_listing:
  assumes "conservative geo" "\<And>j. snapshot_ok (sn j)"
  shows "\<exists>j \<ge> k. feed_batch geo legal sn u limit cur k =
    Some (Suc j, reference_batch geo legal (sn j) u limit cur)"
  using assms by (rule feed_batch_reference)

theorem feed_batch_equals_listing_witness:
  "\<exists>j b. feed_batch sample_geo sample_legal (\<lambda>_. sample_snapshot) ann 5 None 0 = Some (Suc j, b) \<and>
     map cd_user_id (bt_candidates b) = [bob, cyd]"
  using feed_batch_equals_listing [of sample_geo "\<lambda>_. sample_snapshot" 0 sample_legal ann 5 None]
    sample_batch sample_conservative sample_snapshot_ok [of Map.empty 1000]
  by (auto simp: sample_snapshot_def [symmetric])

lemma published_distance_coarse: "5 dvd published_distance d" "d \<le> of_int (published_distance d)"
proof -
  show "5 dvd published_distance d"
    by (simp add: published_distance_def)
  have "d / 5 \<le> of_int (max \<lceil>d / 5\<rceil> 1)"
    by (meson le_of_int_ceiling max.cobounded1 of_int_le_iff order_trans)
  then show "d \<le> of_int (published_distance d)"
    by (simp add: published_distance_def)
qed

text \<open>\<^bold>\<open>C34.\<close> The feed always answers, and shows only users who suit each other: whatever other
  transactions commit meanwhile, a page holds at most \<open>limit\<close> profiles, nearest first and none twice
  at the same place.  Each was eligible when a statement read it (both accounts visible, with an
  approved photo and the consents; each within the age range, the distance and the preference of the
  other; no match, block or standing swipe between them) and not swiped when it was checked again.
  Distances are published as multiples of five kilometres, never below the true one.\<close>

theorem feed_shows_only_mutual:
  assumes "conservative geo" "\<And>j. snapshot_ok (sn j)"
  shows "\<exists>r. feed codec nonce now now' geo legal sn u limit raw = Some r \<and>
    (\<forall>page. r = Inr page \<longrightarrow> length (fp_profiles page) \<le> limit \<and>
       (\<exists>cs. fp_profiles page = map feed_candidate_from cs \<and> sorted_wrt (<) (map feed_key cs) \<and>
          list_all (shown legal sn u) cs \<and>
          list_all (\<lambda>c. 5 dvd fc_distance_km (feed_candidate_from c) \<and>
             f64_value (cd_distance_km c) \<le> of_int (fc_distance_km (feed_candidate_from c))) cs))"
proof (cases "1 \<le> limit \<and> limit \<le> 100")
  case True
  show ?thesis
  proof (cases "decode_cursor codec now u raw")
    case (Inr cur)
    have "scan_inv legal sn u cur []"
      by (simp add: scan_inv_def)
    from scan_feed_result [where sn = sn, OF assms this] obtain r where
      scan: "scan_feed geo legal sn u limit (maximum_batch limit) cur []
        (maximum_batch limit * MAX_FEED_BATCHES) (limit + 1) 0 = Some r"
      "case r of Inl e \<Rightarrow> e = DiscoveryNotReady | Inr (cur', visible', _) \<Rightarrow> scan_inv legal sn u cur' visible'"
      by blast
    show ?thesis
    proof (cases r)
      case (Inl e)
      then show ?thesis
        using True \<open>decode_cursor codec now u raw = Inr cur\<close> scan by (simp add: feed_def)
    next
      case ok: (Inr res)
      obtain cur' visible ex where res: "res = (cur', visible, ex)"
        by (rule prod_cases3)
      then have inv: "scan_inv legal sn u cur' visible"
        using scan(2) ok by simp
      have "list_all (shown legal sn u) (take limit visible)" "sorted_wrt (<) (map feed_key (take limit visible))"
        using inv by (auto simp: scan_inv_def list_all_iff sorted_wrt_map sorted_wrt_take dest: in_set_takeD)
      moreover have "feed codec nonce now now' geo legal sn u limit raw =
          Some (feed_answer codec nonce now' u limit cur' visible ex)"
        using True \<open>decode_cursor codec now u raw = Inr cur\<close> scan ok res by (simp add: feed_def)
      moreover have "fp_profiles page = map feed_candidate_from (take limit visible)"
        if "feed_answer codec nonce now' u limit cur' visible ex = Inr page" for page
        using that by (auto simp: feed_answer_def Let_def split: sum.splits)
      ultimately show ?thesis
        by (auto simp: list_all_iff feed_candidate_from_def published_distance_coarse
            intro!: exI [of _ "take limit visible"])
    qed
  qed (use True in \<open>simp add: feed_def\<close>)
qed (simp add: feed_def)

definition sample_feed :: "(discovery_error + feed_result) option" where
  "sample_feed =
     feed sample_codec (Some (replicate 12 7)) 0 0 sample_geo sample_legal (\<lambda>_. sample_snapshot) ann 2 None"

lemma sample_feed_page:
  "\<exists>page. sample_feed = Some (Inr page) \<and> map fc_user_id (fp_profiles page) = [bob, cyd]"
  using feed_at_rest [OF sample_conservative sample_snapshot_ok [of Map.empty 1000, folded sample_snapshot_def],
      of sample_legal ann 2 sample_codec 0 None None] sample_listing(2) sample_listing_length
  by (simp add: sample_feed_def sample_viewer_of decode_cursor_def feed_rest_def beyond_def encode_next_def
      feed_candidate_from_def comp_def)

theorem feed_shows_only_mutual_witness:
  "\<exists>page. sample_feed = Some (Inr page) \<and> map fc_user_id (fp_profiles page) = [bob, cyd] \<and>
     length (fp_profiles page) \<le> 2"
  using feed_shows_only_mutual [of sample_geo "\<lambda>_. sample_snapshot" sample_codec "Some (replicate 12 7)" 0 0
      sample_legal ann 2 None] sample_feed_page sample_conservative sample_snapshot_ok [of Map.empty 1000]
  by (auto simp: sample_snapshot_def [symmetric] sample_feed_def [symmetric] split: option.splits sum.splits)

text \<open>\<^bold>\<open>C35.\<close> Pages are complete: on a database at rest a client that follows the cursors, each within
  its fifteen minutes, sees every eligible profile exactly once, in the order of the listing, after at
  most one request more than there are profiles.\<close>

theorem feed_pages_complete:
  assumes "codec_ok codec" "conservative geo" "snapshot_ok sn" "viewer_of legal sn u = Some v"
    and "1 \<le> limit" "limit \<le> 100" "\<And>k. length (nonce k) = NONCE_BYTES"
    and "\<And>k. min_utc \<le> t k \<and> t k \<le> max_utc \<and> timestamp (t (Suc k)) < timestamp (t k) + TTL_SECONDS"
    and "\<And>c. c \<in> set (feed_listing geo legal sn u v) \<Longrightarrow> valid_cursor (cursor_after c)"
    and "length (feed_listing geo legal sn u v) \<le> n"
  shows "walk_feed codec nonce t geo legal sn u limit (Suc n) 0 None =
      map feed_candidate_from (feed_listing geo legal sn u v) \<and>
    distinct (map cd_user_id (feed_listing geo legal sn u v))"
proof -
  have rest: "feed_rest geo legal sn u None = feed_listing geo legal sn u v"
    using assms(4) by (simp add: feed_rest_def beyond_def)
  have "decode_cursor codec (t 0) u None = Inr None" "viewer_of legal sn u \<noteq> None"
    using assms(4) by (simp_all add: decode_cursor_def)
  then show ?thesis
    using walk_feed_rest [of codec geo sn legal u limit nonce t 0 None None n] assms rest
      listing_distinct [OF assms(3)] by simp
qed

theorem feed_pages_complete_witness:
  "map fc_user_id (walk_feed sample_codec (\<lambda>_. replicate 12 7) (\<lambda>_. 0) sample_geo sample_legal
     sample_snapshot ann 1 3 0 None) = [bob, cyd]"
proof -
  let ?L = "feed_listing sample_geo sample_legal sample_snapshot ann sample_viewer"
  have "walk_feed sample_codec (\<lambda>_. replicate 12 7) (\<lambda>_. 0) sample_geo sample_legal
      sample_snapshot ann 1 (Suc 2) 0 None = map feed_candidate_from ?L"
    using feed_pages_complete [OF sample_codec_ok(1) sample_conservative
        sample_snapshot_ok [of Map.empty 1000, folded sample_snapshot_def] sample_viewer_of, of 1 "\<lambda>_. replicate 12 7" "\<lambda>_. 0" 2]
      sample_listing(3) sample_listing_length
    by (simp add: NONCE_BYTES_def TTL_SECONDS_def min_utc_def max_utc_def time_simps list_all_iff)
  then show ?thesis
    using sample_listing(2) by (simp add: feed_candidate_from_def comp_def eval_nat_numeral del: walk_feed.simps)
qed

text \<open>\<^bold>\<open>C36.\<close> A cursor opens only for whom and as long as it was made: a token decodes to the position
  it was made from during fifteen minutes and is refused afterwards, and at any time it is refused to
  another user.\<close>

theorem feed_cursor_round_trip:
  assumes "codec_ok codec" "authentic codec" "length n = NONCE_BYTES"
    and "encode_cursor codec (Some n) now u c = Inr token"
  shows "decode_cursor codec now' u (Some token) =
      (if timestamp now' < timestamp now + TTL_SECONDS then Inr (Some c) else Inl InvalidFeedCursor) \<and>
    (u' \<noteq> u \<longrightarrow> decode_cursor codec now' u' (Some token) = Inl InvalidFeedCursor)"
  using cursor_round_trip [OF assms(1,4,3)] cursor_bound_to_viewer [OF assms(1,2,4,3)] by simp

definition sample_cursor :: discovery_cursor where
  "sample_cursor = \<lparr>dc_distance_km = 0, dc_id = bob\<rparr>"

lemma sample_cursor_valid: "valid_cursor sample_cursor"
  by code_simp

theorem feed_cursor_round_trip_witness:
  "\<exists>token. encode_cursor sample_codec (Some (replicate 12 7)) 0 ann sample_cursor = Inr token \<and>
     decode_cursor sample_codec (seconds 899) ann (Some token) = Inr (Some sample_cursor) \<and>
     decode_cursor sample_codec (seconds 900) ann (Some token) = Inl InvalidFeedCursor \<and>
     decode_cursor sample_codec 0 bob (Some token) = Inl InvalidFeedCursor"
proof -
  obtain token where token: "encode_cursor sample_codec (Some (replicate 12 7)) 0 ann sample_cursor = Inr token"
    using encode_cursor_ok [OF sample_codec_ok(1) sample_cursor_valid, of 0]
    by (auto simp: min_utc_def max_utc_def time_simps)
  have "length (replicate 12 (7 :: byte)) = NONCE_BYTES"
    by (simp add: NONCE_BYTES_def)
  note trip = feed_cursor_round_trip [OF sample_codec_ok this token]
  show ?thesis
    using token trip [of "seconds 899" ann] trip [of "seconds 900" ann] trip [of 0 bob] sample_people
    by (simp add: timestamp_def TTL_SECONDS_def time_simps)
qed

section \<open>Swipes\<close>

text \<open>\<^bold>\<open>C37.\<close> A swipe always ends, and answers what the tables say.  An error leaves accounts, matches
  and messages as they were.  A successful answer reports the decision that is now stored for the pair
  and still stands, was given between users who are open to each other at the distance between them and
  not blocked, and says matched exactly when it is a like and a standing like of the other user was
  found; then the pair has a match, and otherwise nothing but the swipe changed.\<close>

theorem swipe_answers_as_recorded:
  assumes "snapshot_ok \<lparr>sn_db = s, sn_now = se_candidate_at e, sn_today = se_today e\<rparr>"
  shows "\<exists>r s' evs. swipe geo legal fmt e a t d s = (Finished r, s', evs) \<and>
    (\<forall>er. r = Inl er \<longrightarrow> core s' = core s) \<and>
    (\<forall>resp. r = Inr resp \<longrightarrow>
       may_swipe geo legal \<lparr>sn_db = s, sn_now = se_candidate_at e, sn_today = se_today e\<rparr> a t \<and>
       sp_decision resp = d \<and>
       (\<exists>w. swipes s' = (swipes s)((a, t) \<mapsto> w) \<and> sw_decision w = d \<and> se_now e < sw_expires_at w) \<and>
       (sp_matched resp \<longleftrightarrow> d = Like \<and> reciprocated (se_find_at e) s a t) \<and>
       (if sp_matched resp then pair_match s' a t else core s' = core s \<and> evs = []))"
  using assms by (rule swipe_answer)

definition sample_swipe_env :: "uuid \<Rightarrow> swipe_env" where
  "sample_swipe_env i =
     \<lparr>se_ready_at = 1000, se_candidate_at = 1000, se_today = (2026, 1, 15),
      se_lease = \<lparr>le_acquire = None, le_held = (\<lambda>_. True)\<rparr>, se_now = 1000, se_find_at = 1001,
      se_match_env = sample_env 1002, se_match_id = i, se_match_now = 1002, se_match_now' = 1002\<rparr>"

definition sample_swipe ::
  "uuid \<Rightarrow> uuid \<Rightarrow> discovery_db \<Rightarrow> swipe_state \<times> discovery_db \<times> match_event list" where
  "sample_swipe a t s = swipe sample_geo sample_legal (\<lambda>t. []) (sample_swipe_env 77) a t Like s"

definition sample_liked :: discovery_db where
  "sample_liked = sample_discovery [(bob, ann) \<mapsto> swipe_entry Like 900]"

lemma sample_swipe_ok: "case fst (sample_swipe ann bob sample_liked) of Finished (Inr r) \<Rightarrow> True | _ \<Rightarrow> False"
  by code_simp

lemma sample_reciprocated: "reciprocated 1001 sample_liked ann bob"
  by code_simp

theorem swipe_answers_as_recorded_witness:
  "\<exists>resp s' evs. sample_swipe ann bob sample_liked = (Finished (Inr resp), s', evs) \<and>
     sp_matched resp \<and> pair_match s' ann bob"
proof -
  have "snapshot_ok \<lparr>sn_db = sample_liked, sn_now = se_candidate_at (sample_swipe_env 77),
      sn_today = se_today (sample_swipe_env 77)\<rparr>"
    using sample_snapshot_ok by (simp add: sample_liked_def sample_swipe_env_def)
  from swipe_answers_as_recorded [OF this, of sample_geo sample_legal "\<lambda>t. []" ann bob Like]
  obtain r s' evs where run: "sample_swipe ann bob sample_liked = (Finished r, s', evs)"
    and out: "\<forall>resp. r = Inr resp \<longrightarrow> (sp_matched resp \<longleftrightarrow> reciprocated 1001 sample_liked ann bob) \<and>
      (sp_matched resp \<longrightarrow> pair_match s' ann bob)"
    unfolding sample_swipe_def by (auto simp: sample_swipe_env_def split: if_splits)
  have "\<exists>resp. r = Inr resp"
    using sample_swipe_ok run by (cases r) simp_all
  then show ?thesis
    using run out sample_reciprocated by blast
qed

text \<open>\<^bold>\<open>C38.\<close> Two likes always meet: when two users like each other at the same time, in any order of
  the statements of their requests and with any other transactions in between that leave the two swipes
  of the pair as they are and withdraw no match of the two, and both requests succeed, then at least one of them answers matched
  and the pair has a match.  A swipe that stood before must not expire before both have looked, and
  the requests must not last thirty days.\<close>

theorem concurrent_likes_meet:
  assumes "two_swipes geo legal fmt ea eb a b s0 (Finished (Inr ra)) (Finished (Inr rb)) s"
    and "standing deadline s0 a b" "standing deadline s0 b a"
    and "se_find_at ea \<le> deadline" "se_find_at eb \<le> deadline"
    and "deadline < se_now ea + days SWIPE_RETENTION_DAYS" "deadline < se_now eb + days SWIPE_RETENTION_DAYS"
  shows "(sp_matched ra \<or> sp_matched rb) \<and> pair_match s a b"
  using two_swipes_inv [OF assms] by (auto simp: pair_inv_def)

lemma two_swipes_run_first:
  "two_swipes geo legal fmt ea eb a b s0 x y s \<Longrightarrow>
   swipe_steps geo legal fmt ea a b Like n x s = (x', s', evs) \<Longrightarrow>
   two_swipes geo legal fmt ea eb a b s0 x' y s'"
proof (induction n arbitrary: x s evs)
  case (Suc n)
  obtain x1 s1 e1 e2 where "swipe_step geo legal fmt ea a b Like x s = (x1, s1, e1)"
      "swipe_steps geo legal fmt ea a b Like n x1 s1 = (x', s', e2)"
    using Suc.prems(2) by (auto split: prod.splits)
  then show ?case
    using Suc.IH two_swipes.first [OF Suc.prems(1)] by blast
qed simp

lemma two_swipes_run_second:
  "two_swipes geo legal fmt ea eb a b s0 x y s \<Longrightarrow>
   swipe_steps geo legal fmt eb b a Like n y s = (y', s', evs) \<Longrightarrow>
   two_swipes geo legal fmt ea eb a b s0 x y' s'"
proof (induction n arbitrary: y s evs)
  case (Suc n)
  obtain y1 s1 e1 e2 where "swipe_step geo legal fmt eb b a Like y s = (y1, s1, e1)"
      "swipe_steps geo legal fmt eb b a Like n y1 s1 = (y', s', e2)"
    using Suc.prems(2) by (auto split: prod.splits)
  then show ?case
    using Suc.IH two_swipes.second [OF Suc.prems(1)] by blast
qed simp

definition sample_steps ::
  "uuid \<Rightarrow> uuid \<Rightarrow> nat \<Rightarrow> swipe_state \<Rightarrow> discovery_db \<Rightarrow> swipe_state \<times> discovery_db \<times> match_event list" where
  "sample_steps a t n x s = swipe_steps sample_geo sample_legal (\<lambda>t. []) (sample_swipe_env 77) a t Like n x s"

text \<open>Both record their like before either looks for the other.\<close>

definition sample_race :: "swipe_state \<times> swipe_state" where
  "sample_race =
     (case sample_steps ann bob 4 Validating (sample_discovery Map.empty) of (x, s1, _) \<Rightarrow>
      case sample_steps bob ann 4 Validating s1 of (y, s2, _) \<Rightarrow>
      case sample_steps ann bob 2 x s2 of (x', s3, _) \<Rightarrow>
      case sample_steps bob ann 2 y s3 of (y', s4, _) \<Rightarrow> (x', y'))"

fun succeeded :: "swipe_state \<Rightarrow> bool" where
  "succeeded (Finished (Inr r)) = True"
| "succeeded _ = False"

lemma succeededD: "succeeded x \<Longrightarrow> \<exists>r. x = Finished (Inr r)"
  by (cases x rule: succeeded.cases) simp_all

lemma sample_race_ok: "case sample_race of (x, y) \<Rightarrow> succeeded x \<and> succeeded y"
  by code_simp

abbreviation sample_two_swipes :: "swipe_state \<Rightarrow> swipe_state \<Rightarrow> discovery_db \<Rightarrow> bool" where
  "sample_two_swipes \<equiv> two_swipes sample_geo sample_legal (\<lambda>t. []) (sample_swipe_env 77) (sample_swipe_env 77)
     ann bob (sample_discovery Map.empty)"

theorem concurrent_likes_meet_witness:
  "\<exists>ra rb s. sample_two_swipes (Finished (Inr ra)) (Finished (Inr rb)) s \<and>
     (sp_matched ra \<or> sp_matched rb) \<and> pair_match s ann bob"
proof -
  obtain x s1 e1 y s2 e2 x' s3 e3 y' s4 e4 where
    run: "sample_steps ann bob 4 Validating (sample_discovery Map.empty) = (x, s1, e1)"
      "sample_steps bob ann 4 Validating s1 = (y, s2, e2)" "sample_steps ann bob 2 x s2 = (x', s3, e3)"
      "sample_steps bob ann 2 y s3 = (y', s4, e4)"
    by (metis prod_cases3)
  have race: "sample_race = (x', y')"
    by (simp add: sample_race_def run)
  have "succeeded x' \<and> succeeded y'"
    using sample_race_ok unfolding race by simp
  then obtain ra rb where fin: "x' = Finished (Inr ra)" "y' = Finished (Inr rb)"
    by (auto dest!: succeededD)
  have "sample_two_swipes x Validating s1"
    using two_swipes.start run(1) [unfolded sample_steps_def] by (rule two_swipes_run_first)
  then have "sample_two_swipes x y s2"
    using run(2) [unfolded sample_steps_def] by (rule two_swipes_run_second)
  then have "sample_two_swipes x' y s3"
    using run(3) [unfolded sample_steps_def] by (rule two_swipes_run_first)
  then have "sample_two_swipes x' y' s4"
    using run(4) [unfolded sample_steps_def] by (rule two_swipes_run_second)
  then have both: "sample_two_swipes (Finished (Inr ra)) (Finished (Inr rb)) s4"
    by (simp add: fin)
  have "standing 2000 (sample_discovery Map.empty) a b" for a b
    by (simp add: standing_def sample_discovery_def)
  then show ?thesis
    using both concurrent_likes_meet [OF both, of 2000]
    by (auto simp: sample_swipe_env_def SWIPE_RETENTION_DAYS_def time_simps)
qed

end
