(* ===== verification/Crypto.thy ===== *)
theory Crypto
  imports Bytes
begin

text \<open>
  \<^verbatim>\<open>src/infra/crypto.rs\<close>: keys written raw or in hexadecimal, the encryption of telephone numbers, the
  digests, and secrets sealed for one purpose.  AES-256-GCM, SHA-256 and HMAC are third-party code:
  they are the fields of \<open>primitives\<close>.  The nonce that \<^verbatim>\<open>getrandom\<close> fills in is an argument,
  \<open>None\<close> when the system has no randomness.
\<close>

section \<open>Primitives\<close>

text \<open>The cipher takes the key, the nonce, the associated data and the message.\<close>

record primitives =
  gcm_encrypt :: "byte list \<Rightarrow> byte list \<Rightarrow> byte list \<Rightarrow> byte list \<Rightarrow> byte list option"
  gcm_decrypt :: "byte list \<Rightarrow> byte list \<Rightarrow> byte list \<Rightarrow> byte list \<Rightarrow> byte list option"
  sha256_digest :: "byte list \<Rightarrow> byte list"
  hmac_digest :: "byte list \<Rightarrow> byte list \<Rightarrow> byte list"

definition AES_KEY_BYTES :: nat where "AES_KEY_BYTES = 32"
definition GCM_NONCE_BYTES :: nat where "GCM_NONCE_BYTES = 12"

text \<open>What is documented of them: decryption under the same key, nonce and associated data inverts
  encryption, a ciphertext is its message and a tag of sixteen bytes, a SHA-256 digest has 32 bytes.\<close>

definition aead_laws :: "primitives \<Rightarrow> bool" where
  "aead_laws P \<longleftrightarrow>
     (\<forall>k n a m c. gcm_encrypt P k n a m = Some c \<longrightarrow>
        gcm_decrypt P k n a c = Some m \<and> length c = length m + 16)"

definition digest_laws :: "primitives \<Rightarrow> bool" where
  "digest_laws P \<longleftrightarrow> (\<forall>m. length (sha256_digest P m) = AES_KEY_BYTES)"

datatype crypto_error = InvalidKey | RandomUnavailable | EncryptionFailed

fun crypto_safe_code :: "crypto_error \<Rightarrow> string" where
  "crypto_safe_code InvalidKey = ''crypto_invalid_key''"
| "crypto_safe_code RandomUnavailable = ''crypto_random_unavailable''"
| "crypto_safe_code EncryptionFailed = ''crypto_encryption_failed''"

section \<open>Keys\<close>

definition parse_phone_key :: "string \<Rightarrow> crypto_error + byte list" where
  "parse_phone_key v =
     (if length v = AES_KEY_BYTES * 2 \<and> list_all (\<lambda>c. hex_value c \<noteq> None) v
      then (case hex_decode v of Some decoded \<Rightarrow> Inr decoded | None \<Rightarrow> Inl InvalidKey)
      else if length v = AES_KEY_BYTES then Inr (as_bytes v) else Inl InvalidKey)"

text \<open>\<^verbatim>\<open>Aes256Gcm::new_from_slice\<close> refuses every other length.\<close>

definition aes_key :: "string \<Rightarrow> crypto_error + byte list" where
  "aes_key v =
     (case parse_phone_key v of
        Inl e \<Rightarrow> Inl e
      | Inr k \<Rightarrow> if length k = AES_KEY_BYTES then Inr k else Inl InvalidKey)"

section \<open>Operations\<close>

definition encrypt_phone_with_nonce ::
  "primitives \<Rightarrow> string \<Rightarrow> string \<Rightarrow> byte list \<Rightarrow> crypto_error + byte list" where
  "encrypt_phone_with_nonce P phone key nonce =
     (case aes_key key of
        Inl e \<Rightarrow> Inl e
      | Inr k \<Rightarrow>
          (case gcm_encrypt P k nonce [] (as_bytes phone) of
             None \<Rightarrow> Inl EncryptionFailed
           | Some ciphertext \<Rightarrow> Inr (nonce @ ciphertext)))"

definition encrypt_phone ::
  "primitives \<Rightarrow> byte list option \<Rightarrow> string \<Rightarrow> string \<Rightarrow> crypto_error + byte list" where
  "encrypt_phone P nonce phone key =
     (case nonce of
        None \<Rightarrow> Inl RandomUnavailable
      | Some n \<Rightarrow> encrypt_phone_with_nonce P phone key n)"

definition hmac_sha256 :: "primitives \<Rightarrow> string \<Rightarrow> string \<Rightarrow> crypto_error + string" where
  "hmac_sha256 P v key =
     (case parse_phone_key key of
        Inl e \<Rightarrow> Inl e
      | Inr k \<Rightarrow> Inr (hex_lower (hmac_digest P k (as_bytes v))))"

definition sha256_hex_of :: "primitives \<Rightarrow> byte list \<Rightarrow> string" where
  "sha256_hex_of P v = hex_lower (sha256_digest P v)"

definition seal_secret ::
  "primitives \<Rightarrow> byte list option \<Rightarrow> string \<Rightarrow> string \<Rightarrow> byte list \<Rightarrow> crypto_error + byte list" where
  "seal_secret P nonce v key purpose =
     (case nonce of
        None \<Rightarrow> Inl RandomUnavailable
      | Some n \<Rightarrow>
          (case aes_key key of
             Inl e \<Rightarrow> Inl e
           | Inr k \<Rightarrow>
               (case gcm_encrypt P k n purpose (as_bytes v) of
                  None \<Rightarrow> Inl EncryptionFailed
                | Some encrypted \<Rightarrow> Inr (n @ encrypted))))"

definition open_secret ::
  "primitives \<Rightarrow> byte list \<Rightarrow> string \<Rightarrow> byte list \<Rightarrow> crypto_error + string" where
  "open_secret P v key purpose =
     (if length v < GCM_NONCE_BYTES + 16 then Inl EncryptionFailed
      else case aes_key key of
        Inl e \<Rightarrow> Inl e
      | Inr k \<Rightarrow>
          (case gcm_decrypt P k (take GCM_NONCE_BYTES v) purpose (drop GCM_NONCE_BYTES v) of
             None \<Rightarrow> Inl EncryptionFailed
           | Some bytes \<Rightarrow>
               if valid_utf8 bytes then Inr (of_bytes bytes) else Inl EncryptionFailed))"

section \<open>Laws\<close>

lemma parse_phone_key_hex:
  "length bs = AES_KEY_BYTES \<Longrightarrow> parse_phone_key (hex_lower bs) = Inr bs"
  using hex_lower_digits [of _ bs] by (auto simp: parse_phone_key_def list_all_iff AES_KEY_BYTES_def)

text \<open>A digest written in hexadecimal is a key, and not the 64 bytes of its text.\<close>

lemma aes_key_sha256: "digest_laws P \<Longrightarrow> aes_key (sha256_hex_of P m) = Inr (sha256_digest P m)"
  by (simp add: aes_key_def sha256_hex_of_def digest_laws_def parse_phone_key_hex)

text \<open>A sealed secret opens under the same key and purpose.\<close>

lemma open_seal_secret:
  assumes laws: "aead_laws P" and nonce: "length n = GCM_NONCE_BYTES"
    and utf8: "valid_utf8 (as_bytes v)" and "seal_secret P (Some n) v key purpose = Inr c"
  shows "open_secret P c key purpose = Inr v"
proof -
  obtain k d where k: "aes_key key = Inr k" and d: "gcm_encrypt P k n purpose (as_bytes v) = Some d"
    and c: "c = n @ d"
    using assms(4) by (auto simp: seal_secret_def split: sum.splits option.splits)
  have "gcm_decrypt P k n purpose d = Some (as_bytes v)" "length d = length v + 16"
    using laws d by (auto simp: aead_laws_def)
  then show ?thesis
    using k c nonce utf8 by (simp add: open_secret_def)
qed

end
