(* ===== verification/Tokens.thy ===== *)
theory Tokens
  imports Crypto Discovery_Domain
begin

text \<open>
  \<^verbatim>\<open>src/identity/mobile/tokens.rs\<close>: refresh tokens, which are an identifier and a random secret of
  which only the digest is stored, and access tokens, which are signed claims with an expiry.  The
  signature library is third-party code, the fields of \<open>jwt_crate\<close>.
\<close>

section \<open>Data\<close>

definition ACCESS_TOKEN_ISSUER :: string where "ACCESS_TOKEN_ISSUER = ''histae-api''"
definition ACCESS_TOKEN_AUDIENCE :: string where "ACCESS_TOKEN_AUDIENCE = ''histae-app''"
definition ACCESS_TOKEN_TYPE :: string where "ACCESS_TOKEN_TYPE = ''access''"

text \<open>The largest expiry, \<^verbatim>\<open>9_007_199_254_740_991\<close>.\<close>

definition max_safe_integer :: nat where "max_safe_integer = 9007199254740991"

record jwt_config =
  jwt_secret :: string
  active_kid :: string
  verification_keys :: "string \<rightharpoonup> string"
  access_ttl :: nat
  refresh_ttl :: duration

record new_token =
  nrt_id :: uuid
  nrt_jti :: uuid
  nrt_plain :: string
  nrt_hash :: string
  nrt_created_at :: instant
  nrt_expires_at :: instant

record parsed_refresh_token =
  prt_jti :: uuid
  prt_hash :: string

record verified_access_token =
  va_user_id :: uuid
  va_session_id :: uuid
  va_expires_at_seconds :: nat

datatype token_error =
  TokenRandomUnavailable | TimeOutOfRange | SigningFailed | TokenInvalidAccessToken

fun token_safe_code :: "token_error \<Rightarrow> string" where
  "token_safe_code TokenRandomUnavailable = ''token_random_unavailable''"
| "token_safe_code TimeOutOfRange = ''token_time_out_of_range''"
| "token_safe_code SigningFailed = ''token_signing_failed''"
| "token_safe_code TokenInvalidAccessToken = ''invalid_access_token''"

record access_claims =
  ac_sub :: string
  ac_sid :: string
  ac_typ :: string
  ac_iat :: nat
  ac_exp :: nat
  ac_aud :: string
  ac_iss :: string

record access_claims_owned =
  aco_sub :: string
  aco_sid :: string
  aco_typ :: string
  aco_exp :: nat
  aco_iss :: string
  aco_nbf :: f64

datatype jwt_algorithm = HS256 | OtherAlgorithm

text \<open>\<open>jwt_encode kid claims key\<close> signs with HS256; \<open>jwt_decode token key audience issuer\<close> checks the
  signature, the audience, the issuer and the presence of the required claims.\<close>

record jwt_crate =
  jwt_encode :: "string \<Rightarrow> access_claims \<Rightarrow> string \<Rightarrow> string option"
  decode_header :: "string \<Rightarrow> (jwt_algorithm \<times> string option) option"
  jwt_decode :: "string \<Rightarrow> string \<Rightarrow> string \<Rightarrow> string \<Rightarrow> access_claims_owned option"

text \<open>What \<^verbatim>\<open>getrandom\<close> gave: two identifiers, with the version and variant bits that
  \<^verbatim>\<open>Builder::from_random_bytes\<close> sets, and the secret.\<close>

record token_randomness =
  rnd_id :: "uuid option"
  rnd_jti :: "uuid option"
  rnd_secret :: "byte list option"

section \<open>Refresh tokens\<close>

text \<open>\<^verbatim>\<open>ChronoDuration::from_std\<close> accepts at most \<^verbatim>\<open>i64::MAX\<close> milliseconds.\<close>

definition ttl_from_std :: "duration \<Rightarrow> duration option" where
  "ttl_from_std d = (if d \<le> (2 ^ 63 - 1) * 1000 then Some d else None)"

definition new_refresh_token ::
  "primitives \<Rightarrow> text_crates \<Rightarrow> jwt_config \<Rightarrow> instant \<Rightarrow> token_randomness \<Rightarrow>
   token_error + new_token" where
  "new_refresh_token P X config now rnd =
     (case (rnd_id rnd, rnd_jti rnd, rnd_secret rnd) of
        (Some i, Some jti, Some secret) \<Rightarrow>
          (let encoded = base64url_encode X secret in
           case ttl_from_std (refresh_ttl config) of
             None \<Rightarrow> Inl TimeOutOfRange
           | Some ttl \<Rightarrow>
               (case checked_add_signed now ttl of
                  None \<Rightarrow> Inl TimeOutOfRange
                | Some expires_at \<Rightarrow>
                    Inr \<lparr>nrt_id = i, nrt_jti = jti,
                         nrt_plain = hyphenated X jti @ '':'' @ encoded,
                         nrt_hash = sha256_hex_of P (as_bytes encoded),
                         nrt_created_at = now, nrt_expires_at = expires_at\<rparr>))
      | _ \<Rightarrow> Inl TokenRandomUnavailable)"

text \<open>\<^verbatim>\<open>str::split_once\<close>.\<close>

definition split_once :: "char \<Rightarrow> string \<Rightarrow> (string \<times> string) option" where
  "split_once c v =
     (case dropWhile (\<lambda>d. d \<noteq> c) v of
        [] \<Rightarrow> None
      | _ # rest \<Rightarrow> Some (takeWhile (\<lambda>d. d \<noteq> c) v, rest))"

definition parse_refresh_token ::
  "primitives \<Rightarrow> text_crates \<Rightarrow> string \<Rightarrow> parsed_refresh_token option" where
  "parse_refresh_token P X v =
     (case split_once CHR '':'' v of
        None \<Rightarrow> None
      | Some (jti, secret) \<Rightarrow>
          if length secret \<noteq> 43 \<or> \<not> list_all base64url_char secret \<or>
             CHR '':'' \<in> set (drop (length jti + 1) v)
          then None
          else case canonical_uuid X jti of
            None \<Rightarrow> None
          | Some i \<Rightarrow>
              if version_num i \<noteq> 4 \<or> \<not> variant_rfc4122 i then None
              else Some \<lparr>prt_jti = i, prt_hash = sha256_hex_of P (as_bytes secret)\<rparr>)"

section \<open>Access tokens\<close>

definition access_token_at ::
  "text_crates \<Rightarrow> jwt_crate \<Rightarrow> jwt_config \<Rightarrow> uuid \<Rightarrow> uuid \<Rightarrow> nat \<Rightarrow> token_error + string" where
  "access_token_at X J config user_id session_id issued_at =
     (let expiry = issued_at + access_ttl config in
      if expiry > u64_max then Inl TimeOutOfRange
      else if expiry > max_safe_integer then Inl TimeOutOfRange
      else case jwt_encode J (active_kid config)
             \<lparr>ac_sub = hyphenated X user_id, ac_sid = hyphenated X session_id,
              ac_typ = ACCESS_TOKEN_TYPE, ac_iat = issued_at, ac_exp = expiry,
              ac_aud = ACCESS_TOKEN_AUDIENCE, ac_iss = ACCESS_TOKEN_ISSUER\<rparr>
             (jwt_secret config) of
        None \<Rightarrow> Inl SigningFailed
      | Some token \<Rightarrow> Inr token)"

definition access_token ::
  "text_crates \<Rightarrow> jwt_crate \<Rightarrow> jwt_config \<Rightarrow> instant \<Rightarrow> uuid \<Rightarrow> uuid \<Rightarrow> token_error + string" where
  "access_token X J config now user_id session_id =
     (if timestamp now < 0 then Inl TimeOutOfRange
      else access_token_at X J config user_id session_id (nat (timestamp now)))"

text \<open>\<^verbatim>\<open>nbf > now as f64\<close>; the seconds of a \<^verbatim>\<open>DateTime\<close> are exact in an \<^verbatim>\<open>f64\<close>.\<close>

definition f64_exceeds :: "f64 \<Rightarrow> nat \<Rightarrow> bool" where
  "f64_exceeds b n \<longleftrightarrow>
     (if is_finite b then f64_value b > of_nat n else b = 0x7FF0000000000000)"

definition verify_access_token ::
  "text_crates \<Rightarrow> jwt_crate \<Rightarrow> jwt_config \<Rightarrow> instant \<Rightarrow> string \<Rightarrow> token_error + verified_access_token"
where
  "verify_access_token X J config now token =
     (case decode_header J token of
        Some (HS256, Some kid) \<Rightarrow>
          (case verification_keys config kid of
             None \<Rightarrow> Inl TokenInvalidAccessToken
           | Some key \<Rightarrow>
               (case jwt_decode J token key ACCESS_TOKEN_AUDIENCE ACCESS_TOKEN_ISSUER of
                  None \<Rightarrow> Inl TokenInvalidAccessToken
                | Some claims \<Rightarrow>
                    if timestamp now < 0 then Inl TokenInvalidAccessToken
                    else if aco_typ claims \<noteq> ACCESS_TOKEN_TYPE \<or>
                            aco_iss claims \<noteq> ACCESS_TOKEN_ISSUER \<or>
                            aco_exp claims > max_safe_integer \<or>
                            aco_exp claims \<le> nat (timestamp now) \<or>
                            f64_exceeds (aco_nbf claims) (nat (timestamp now))
                    then Inl TokenInvalidAccessToken
                    else case (canonical_uuid X (aco_sub claims), canonical_uuid X (aco_sid claims)) of
                      (Some user_id, Some session_id) \<Rightarrow>
                        if version_num session_id \<noteq> 4 \<or> \<not> variant_rfc4122 session_id
                        then Inl TokenInvalidAccessToken
                        else Inr \<lparr>va_user_id = user_id, va_session_id = session_id,
                                  va_expires_at_seconds = aco_exp claims\<rparr>
                    | _ \<Rightarrow> Inl TokenInvalidAccessToken))
      | _ \<Rightarrow> Inl TokenInvalidAccessToken)"

section \<open>Laws\<close>

text \<open>Signed claims are read back under the same key; \<^verbatim>\<open>nbf\<close> takes its default.\<close>

definition jwt_laws :: "jwt_crate \<Rightarrow> bool" where
  "jwt_laws J \<longleftrightarrow>
     (\<forall>kid c key token. jwt_encode J kid c key = Some token \<longrightarrow>
        decode_header J token = Some (HS256, Some kid) \<and>
        jwt_decode J token key (ac_aud c) (ac_iss c) =
          Some \<lparr>aco_sub = ac_sub c, aco_sid = ac_sid c, aco_typ = ac_typ c, aco_exp = ac_exp c,
                aco_iss = ac_iss c, aco_nbf = 0\<rparr>)"

text \<open>The identifiers and the secret have the shape their constructors give.\<close>

definition random_ok :: "token_randomness \<Rightarrow> bool" where
  "random_ok rnd \<longleftrightarrow>
     (\<forall>i. rnd_jti rnd = Some i \<longrightarrow> random_v4 i) \<and> (\<forall>s. rnd_secret rnd = Some s \<longrightarrow> length s = 32)"

lemma split_once_append:
  "c \<notin> set s \<Longrightarrow> split_once c (s @ c # t) = Some (s, t)"
  by (simp add: split_once_def dropWhile_append takeWhile_append)

lemma base64url_char_colon [simp]: "\<not> base64url_char CHR '':''"
  by code_simp

lemma base64url_char_ascii: "base64url_char c \<Longrightarrow> (of_char c :: nat) < 128"
  by (auto simp: base64url_char_def Let_def)

lemma parse_refresh_token_parts:
  assumes "text_laws X" "random_v4 jti" "length secret = 32"
  shows "parse_refresh_token P X (hyphenated X jti @ '':'' @ base64url_encode X secret) =
    Some \<lparr>prt_jti = jti, prt_hash = sha256_hex_of P (as_bytes (base64url_encode X secret))\<rparr>"
proof -
  let ?enc = "base64url_encode X secret"
  have shape: "length ?enc = 43" "list_all base64url_char ?enc"
    "CHR '':'' \<notin> set (hyphenated X jti)"
    using assms by (auto simp: text_laws_def)
  have "CHR '':'' \<notin> set ?enc"
    using shape(2) base64url_char_colon by (auto simp: list_all_iff)
  then show ?thesis
    using shape assms canonical_uuid_hyphenated [OF assms(1), of jti]
    by (simp add: parse_refresh_token_def split_once_append random_v4_def)
qed

text \<open>A fresh token is read back as the identifier and the digest that are stored of it, and it is
  plain ASCII.\<close>

lemma parse_new_refresh_token:
  assumes "text_laws X" "random_ok rnd" "new_refresh_token P X config now rnd = Inr t"
  shows "parse_refresh_token P X (nrt_plain t) = Some \<lparr>prt_jti = nrt_jti t, prt_hash = nrt_hash t\<rparr>"
  using assms parse_refresh_token_parts [of X _ _ P]
  by (auto simp: new_refresh_token_def random_ok_def Let_def split: option.splits)

lemma new_refresh_token_ascii:
  assumes "text_laws X" "new_refresh_token P X config now rnd = Inr t"
  shows "is_ascii (nrt_plain t)"
  using assms base64url_char_ascii
  by (fastforce simp: new_refresh_token_def text_laws_def is_ascii_def list_all_iff Let_def
      split: option.splits)

lemma new_refresh_token_times:
  assumes "new_refresh_token P X config now rnd = Inr t"
  shows "nrt_created_at t = now" "nrt_expires_at t = now + refresh_ttl config"
  using assms
  by (auto simp: new_refresh_token_def ttl_from_std_def checked_add_signed_def Let_def
      split: option.splits if_splits)

lemma f64_exceeds_zero [simp]: "\<not> f64_exceeds 0 n"
  by (simp add: f64_exceeds_def is_finite_def f64_exponent_def f64_value_def f64_mantissa_def)

text \<open>An access token identifies its user and session until the second it expires.\<close>

lemma verify_signed_token:
  assumes laws: "text_laws X" "jwt_laws J"
    and key: "verification_keys config (active_kid config) = Some (jwt_secret config)"
    and ids: "uuid_all user_id" "random_v4 session_id"
    and signed: "access_token_at X J config user_id session_id issued_at = Inr token"
    and now: "0 \<le> timestamp now"
  shows "verify_access_token X J config now token =
    (if nat (timestamp now) < issued_at + access_ttl config
     then Inr \<lparr>va_user_id = user_id, va_session_id = session_id,
               va_expires_at_seconds = issued_at + access_ttl config\<rparr>
     else Inl TokenInvalidAccessToken)"
proof -
  have "decode_header J token = Some (HS256, Some (active_kid config))"
    "jwt_decode J token (jwt_secret config) ACCESS_TOKEN_AUDIENCE ACCESS_TOKEN_ISSUER =
      Some \<lparr>aco_sub = hyphenated X user_id, aco_sid = hyphenated X session_id,
            aco_typ = ACCESS_TOKEN_TYPE, aco_exp = issued_at + access_ttl config,
            aco_iss = ACCESS_TOKEN_ISSUER, aco_nbf = 0\<rparr>"
    "issued_at + access_ttl config \<le> max_safe_integer"
    using laws(2) signed
    by (fastforce simp: access_token_at_def jwt_laws_def Let_def split: if_splits option.splits)+
  then show ?thesis
    using key now ids canonical_uuid_hyphenated [OF laws(1)]
    by (simp add: verify_access_token_def random_v4_def random_v4_uuid_all)
qed

end
