(* ===== verification/Sessions.thy ===== *)
theory Sessions
  imports Notifications Tokens
begin

text \<open>
  \<^verbatim>\<open>src/identity/mobile/pg.rs\<close>, \<^verbatim>\<open>pg/rotation.rs\<close> and \<^verbatim>\<open>refresh_recovery.rs\<close>: mobile sessions.  A
  session is a family of refresh tokens, of which the newest can be exchanged for a successor.  The
  table of tokens and the website sessions stand beside the core tables of \<open>db\<close>, which hold the
  families, the devices and the accounts.

  Each operation is one transaction.  Its successive readings of \<^verbatim>\<open>clock_timestamp()\<close> are
  \<open>clk e 0\<close>, \<open>clk e 1\<close> and so on, one per statement that reads the clock.
\<close>

section \<open>Domain\<close>

datatype account_role = RoleUser | RoleAdmin | RoleSuperadmin

datatype session_domain_error = SessionInvalidCursor | InvalidStoredRole

definition account_role_parse :: "string \<Rightarrow> session_domain_error + account_role" where
  "account_role_parse v =
     (if v = ''user'' then Inr RoleUser
      else if v = ''admin'' then Inr RoleAdmin
      else if v = ''superadmin'' then Inr RoleSuperadmin
      else Inl InvalidStoredRole)"

datatype language = LangFr | LangEn | LangEs | LangIt

fun language_as_str :: "language \<Rightarrow> string" where
  "language_as_str LangFr = ''fr''"
| "language_as_str LangEn = ''en''"
| "language_as_str LangEs = ''es''"
| "language_as_str LangIt = ''it''"

definition language_parse :: "string \<Rightarrow> language option" where
  "language_parse v =
     (if v = ''fr'' then Some LangFr else if v = ''en'' then Some LangEn
      else if v = ''es'' then Some LangEs else if v = ''it'' then Some LangIt else None)"

record active_account =
  aa_preferred_language :: language
  aa_user_id :: uuid
  aa_role :: account_role
  aa_is_banned :: bool
  aa_onboarding_complete :: bool

record mobile_session_identity =
  si_user_id :: uuid
  si_session_id :: uuid

record mobile_session_row =
  msr_id :: uuid
  msr_created_at :: instant
  msr_last_refreshed_at :: instant
  msr_expires_at :: instant
  msr_cursor_at :: string

record session_cursor =
  sc_at :: string
  sc_id :: uuid

datatype rotation_outcome = Rotated mobile_session_identity | Invalid | ReplayRevoked

datatype revocation_reason = Replay | Logout | LogoutAll | UserRevoked

fun revocation_as_str :: "revocation_reason \<Rightarrow> string" where
  "revocation_as_str Replay = ''replay''"
| "revocation_as_str Logout = ''logout''"
| "revocation_as_str LogoutAll = ''logout_all''"
| "revocation_as_str UserRevoked = ''user_revoked''"

section \<open>Receipts\<close>

text \<open>A receipt seals the replacement token under a key that is derived from the token it replaces
  and the attempt of the client.  The \<^verbatim>\<open>\0\<close> that ends each context is \<open>CHR 0x00\<close>.\<close>

record refresh_recovery =
  request_hash :: string
  encrypted_token :: "byte list"
  recovery_key :: string
  recovery_purpose :: "byte list"

definition refresh_recovery_new ::
  "primitives \<Rightarrow> byte list option \<Rightarrow> string \<Rightarrow> uuid \<Rightarrow> string \<Rightarrow> crypto_error + refresh_recovery" where
  "refresh_recovery_new P nonce parent attempt replacement =
     (let material = as_bytes (''histae/refresh-recovery/key/v1'' @ [CHR 0x00]) @
                     as_bytes parent @ be_bytes 16 attempt;
          key = sha256_hex_of P material;
          purpose = as_bytes (''histae/refresh-recovery/result/v1'' @ [CHR 0x00]) @
                    be_bytes 16 attempt
      in case seal_secret P nonce replacement key purpose of
           Inl e \<Rightarrow> Inl e
         | Inr encrypted \<Rightarrow>
             Inr \<lparr>request_hash = sha256_hex_of P (be_bytes 16 attempt), encrypted_token = encrypted,
                  recovery_key = key, recovery_purpose = purpose\<rparr>)"

definition recovery_open :: "primitives \<Rightarrow> refresh_recovery \<Rightarrow> byte list \<Rightarrow> crypto_error + string" where
  "recovery_open P r encrypted = open_secret P encrypted (recovery_key r) (recovery_purpose r)"

datatype refresh_rotation =
  Outcome rotation_outcome
| Recovered mobile_session_identity string

fun into_outcome :: "refresh_rotation \<Rightarrow> rotation_outcome" where
  "into_outcome (Outcome outcome) = outcome"
| "into_outcome (Recovered session _) = Rotated session"

section \<open>Tables\<close>

record token_row =
  tk_id :: uuid
  tk_user :: uuid
  tk_family :: uuid
  tk_parent :: "uuid option"
  tk_hash :: string
  tk_jti :: uuid
  tk_expires_at :: instant
  tk_created_at :: instant
  tk_revoked :: bool
  tk_rotated_at :: "instant option"
  tk_request_hash :: "string option"
  tk_result :: "byte list option"

record session_db =
  s_core :: db
  refresh_tokens :: "token_row list"
  web_billing_session :: "uuid list"

text \<open>The row a query gives back.\<close>

record stored_refresh_token =
  st_id :: uuid
  st_user_id :: uuid
  st_token_hash :: string
  st_family_id :: uuid
  st_revoked :: bool
  st_rotated_at :: "instant option"

definition stored_token :: "token_row \<Rightarrow> stored_refresh_token" where
  "stored_token t =
     \<lparr>st_id = tk_id t, st_user_id = tk_user t, st_token_hash = tk_hash t,
      st_family_id = tk_family t, st_revoked = tk_revoked t, st_rotated_at = tk_rotated_at t\<rparr>"

definition same_hash :: "string \<Rightarrow> string \<Rightarrow> bool" where
  "same_hash stored supplied \<longleftrightarrow> as_bytes stored = as_bytes supplied"

definition on_session_core :: "(db, 'e, 'a) op \<Rightarrow> (session_db, 'e, 'a) op" where
  "on_session_core m s = (case m (s_core s) of (r, d) \<Rightarrow> (r, s\<lparr>s_core := d\<rparr>))"

definition find_token :: "session_db \<Rightarrow> uuid \<Rightarrow> token_row option" where
  "find_token s i = find (\<lambda>t. tk_id t = i) (refresh_tokens s)"

definition update_token :: "uuid \<Rightarrow> (token_row \<Rightarrow> token_row) \<Rightarrow> session_db \<Rightarrow> session_db" where
  "update_token i f s =
     s\<lparr>refresh_tokens := upd_where (\<lambda>t. tk_id t = i) f (refresh_tokens s)\<rparr>"

definition update_family :: "uuid \<Rightarrow> (session_row \<Rightarrow> session_row) \<Rightarrow> session_db \<Rightarrow> session_db" where
  "update_family i f s =
     s\<lparr>s_core := (s_core s)\<lparr>refresh_token_family :=
        upd_where (\<lambda>r. ses_id r = i) f (refresh_token_family (s_core s))\<rparr>\<rparr>"

section \<open>Statements\<close>

text \<open>\<^verbatim>\<open>lock_active_account\<close> selects the account when it is neither deleted nor banned.\<close>

definition lock_active_account :: "session_db \<Rightarrow> uuid \<Rightarrow> bool" where
  "lock_active_account s u = live_account (s_core s) u"

definition family_active :: "instant \<Rightarrow> uuid \<Rightarrow> uuid \<Rightarrow> session_row \<Rightarrow> bool" where
  "family_active t user_id session_id f \<longleftrightarrow>
     ses_id f = session_id \<and> ses_user f = user_id \<and> ses_revoked_at f = None \<and> ses_expires_at f > t"

definition active_family :: "instant \<Rightarrow> session_db \<Rightarrow> uuid \<Rightarrow> uuid \<Rightarrow> bool" where
  "active_family t s user_id session_id \<longleftrightarrow>
     (\<exists>f \<in> set (refresh_token_family (s_core s)). family_active t user_id session_id f)"

definition receipt_window :: duration where "receipt_window = days 7"

definition token_usable :: "instant \<Rightarrow> string option \<Rightarrow> token_row \<Rightarrow> bool" where
  "token_usable t recovery_hash r \<longleftrightarrow>
     tk_expires_at r > t \<or>
     (recovery_hash \<noteq> None \<and> tk_request_hash r = recovery_hash \<and> tk_revoked r \<and>
      (case tk_rotated_at r of Some x \<Rightarrow> x > t - receipt_window | None \<Rightarrow> False))"

definition lock_token ::
  "instant \<Rightarrow> session_db \<Rightarrow> uuid \<Rightarrow> string \<Rightarrow> uuid option \<Rightarrow> string option \<Rightarrow>
   stored_refresh_token option" where
  "lock_token t s jti supplied_hash owner_id recovery_hash =
     (case find (\<lambda>r. tk_jti r = jti) (refresh_tokens s) of
        None \<Rightarrow> None
      | Some row \<Rightarrow>
          (let token = stored_token row in
           if (case owner_id of Some owner \<Rightarrow> owner \<noteq> st_user_id token | None \<Rightarrow> False) \<or>
              \<not> same_hash (st_token_hash token) supplied_hash
           then None
           else if \<not> lock_active_account s (st_user_id token) then None
           else map_option stored_token
             (find (\<lambda>r. tk_id r = st_id token \<and> token_usable t recovery_hash r)
                (refresh_tokens s))))"

definition fresh_token :: "uuid \<Rightarrow> uuid \<Rightarrow> new_token \<Rightarrow> uuid option \<Rightarrow> token_row" where
  "fresh_token user_id session_id token parent_id =
     \<lparr>tk_id = nrt_id token, tk_user = user_id, tk_family = session_id,
      tk_parent = parent_id, tk_hash = nrt_hash token, tk_jti = nrt_jti token,
      tk_expires_at = nrt_expires_at token, tk_created_at = nrt_created_at token,
      tk_revoked = False, tk_rotated_at = None, tk_request_hash = None, tk_result = None\<rparr>"

text \<open>The keys and references of \<^verbatim>\<open>refresh_tokens\<close>: a row is its own parent never, its identifier,
  its \<^verbatim>\<open>jti\<close> and its parent are unique, at most one row of a family is not revoked, and the family
  with the same owner and the parent in the same family exist.\<close>

definition insert_token ::
  "uuid \<Rightarrow> uuid \<Rightarrow> new_token \<Rightarrow> uuid option \<Rightarrow> (session_db, database_error, unit) op" where
  "insert_token user_id session_id token parent_id s =
     (if parent_id = Some (nrt_id token) then (Inl (Constraint Check), s)
      else if \<exists>r \<in> set (refresh_tokens s).
           tk_id r = nrt_id token \<or> tk_jti r = nrt_jti token \<or>
           (tk_family r = session_id \<and> \<not> tk_revoked r) \<or>
           (parent_id \<noteq> None \<and> tk_parent r = parent_id)
      then (Inl (Constraint Unique), s)
      else if \<not> (\<exists>f \<in> set (refresh_token_family (s_core s)).
                  ses_id f = session_id \<and> ses_user f = user_id) \<or>
              user_account (s_core s) user_id = None \<or>
              (case parent_id of
                 None \<Rightarrow> False
               | Some p \<Rightarrow> \<not> (\<exists>r \<in> set (refresh_tokens s). tk_id r = p \<and> tk_family r = session_id))
      then (Inl (Constraint ForeignKey), s)
      else (Inr (), s\<lparr>refresh_tokens := refresh_tokens s @
              [fresh_token user_id session_id token parent_id]\<rparr>))"

definition new_family :: "uuid \<Rightarrow> uuid \<Rightarrow> new_token \<Rightarrow> session_row" where
  "new_family session_id user_id token =
     \<lparr>ses_id = session_id, ses_user = user_id, ses_created_at = nrt_created_at token,
      ses_last_refreshed_at = nrt_created_at token, ses_expires_at = nrt_expires_at token,
      ses_revoked_at = None, ses_revocation_reason = None\<rparr>"

definition insert_family :: "uuid \<Rightarrow> uuid \<Rightarrow> new_token \<Rightarrow> (db, database_error, unit) op" where
  "insert_family session_id user_id token db =
     (if \<exists>f \<in> set (refresh_token_family db). ses_id f = session_id
      then (Inl (Constraint Unique), db)
      else if user_account db user_id = None then (Inl (Constraint ForeignKey), db)
      else (Inr (), db\<lparr>refresh_token_family :=
              refresh_token_family db @ [new_family session_id user_id token]\<rparr>))"

text \<open>\<open>session_id\<close> is the identifier \<^verbatim>\<open>Uuid::new_v4\<close> gave, \<open>k\<close> the reading of the clock in the
  notification statement.\<close>

definition insert_session ::
  "env \<Rightarrow> nat \<Rightarrow> uuid \<Rightarrow> uuid \<Rightarrow> new_token \<Rightarrow>
   (session_db, database_error, mobile_session_identity) op" where
  "insert_session e k session_id user_id token =
     then_op (on_session_core (insert_family session_id user_id token))
     (then_op (insert_token user_id session_id token None)
     (then_op (on_session_core
        (enqueue_notification e 0 (clk e k) user_id (SUuid session_id) (NewSession session_id)))
     (ok \<lparr>si_user_id = user_id, si_session_id = session_id\<rparr>)))"

text \<open>The three or four statements of a revocation.  A device that is deleted takes its pending
  deliveries with it.\<close>

definition selected :: "uuid option \<Rightarrow> uuid \<Rightarrow> bool" where
  "selected session_id i \<longleftrightarrow> (case session_id of None \<Rightarrow> True | Some s \<Rightarrow> i = s)"

definition revoked_family :: "instant \<Rightarrow> revocation_reason \<Rightarrow> session_row \<Rightarrow> session_row" where
  "revoked_family t reason f =
     f\<lparr>ses_revoked_at := Some t, ses_revocation_reason := Some (revocation_as_str reason)\<rparr>"

definition revoke_family_rows ::
  "instant \<Rightarrow> uuid \<Rightarrow> revocation_reason \<Rightarrow> uuid option \<Rightarrow> session_row list \<Rightarrow> session_row list" where
  "revoke_family_rows t user_id reason session_id =
     upd_where (\<lambda>f. ses_user f = user_id \<and> ses_revoked_at f = None \<and> selected session_id (ses_id f))
       (revoked_family t reason)"

definition revoke_token_rows :: "uuid \<Rightarrow> uuid option \<Rightarrow> token_row list \<Rightarrow> token_row list" where
  "revoke_token_rows user_id session_id =
     upd_where (\<lambda>r. tk_user r = user_id \<and> (\<not> tk_revoked r \<or> tk_result r \<noteq> None) \<and>
                    selected session_id (tk_family r))
       (\<lambda>r. r\<lparr>tk_revoked := True, tk_result := None\<rparr>)"

definition delete_devices :: "(device_row \<Rightarrow> bool) \<Rightarrow> db \<Rightarrow> db" where
  "delete_devices P db =
     db\<lparr>device_token := del_where P (device_token db),
        notification_push_delivery := del_where
          (\<lambda>p. \<exists>d \<in> set (device_token db). P d \<and> dev_id d = pd_device p)
          (notification_push_delivery db)\<rparr>"

definition revoke_families ::
  "instant \<Rightarrow> uuid \<Rightarrow> revocation_reason \<Rightarrow> uuid option \<Rightarrow> (session_db, database_error, nat) op" where
  "revoke_families t user_id reason session_id s =
     (let core1 = (s_core s)\<lparr>refresh_token_family :=
            revoke_family_rows t user_id reason session_id (refresh_token_family (s_core s))\<rparr>;
          core2 = delete_devices (\<lambda>d. dev_user d = user_id \<and>
            (case session_id of None \<Rightarrow> True | Some i \<Rightarrow> dev_session d = Some i)) core1
      in (Inr (rows_where (\<lambda>f. ses_user f = user_id \<and> ses_revoked_at f = None \<and>
                selected session_id (ses_id f)) (refresh_token_family (s_core s))),
          s\<lparr>s_core := core2,
            refresh_tokens := revoke_token_rows user_id session_id (refresh_tokens s),
            web_billing_session :=
              (if session_id = None then del_where (\<lambda>u. u = user_id) (web_billing_session s)
               else web_billing_session s)\<rparr>))"

section \<open>Operations\<close>

definition create_session ::
  "env \<Rightarrow> uuid \<Rightarrow> uuid \<Rightarrow> new_token \<Rightarrow>
   (session_db, database_error, mobile_session_identity option) op" where
  "create_session e session_id user_id token = transaction (\<lambda>s.
     if \<not> lock_active_account s user_id then (Inr None, s)
     else bind_op (insert_session e 0 session_id user_id token) (\<lambda>i. ok (Some i)) s)"

text \<open>\<open>recover_rotation\<close>: the sealed successor of a token that was already exchanged, while the
  successor is still the newest of its family.\<close>

definition recover_row :: "instant \<Rightarrow> session_db \<Rightarrow> uuid \<Rightarrow> (byte list \<times> uuid \<times> string) option" where
  "recover_row t s parent_id =
     (case find_token s parent_id of
        None \<Rightarrow> None
      | Some p \<Rightarrow>
          (case (tk_result p, tk_rotated_at p) of
             (Some encrypted, Some x) \<Rightarrow>
               if x > t - receipt_window then
                 map_option (\<lambda>c. (encrypted, tk_jti c, tk_hash c))
                   (find (\<lambda>c. tk_parent c = Some (tk_id p) \<and> tk_family c = tk_family p \<and>
                              \<not> tk_revoked c \<and> tk_expires_at c > t) (refresh_tokens s))
               else None
           | _ \<Rightarrow> None))"

definition recover_rotation ::
  "primitives \<Rightarrow> text_crates \<Rightarrow> instant \<Rightarrow> stored_refresh_token \<Rightarrow> refresh_recovery \<Rightarrow>
   (session_db, database_error, refresh_rotation) op" where
  "recover_rotation P X t parent recovery s =
     (case recover_row t s (st_id parent) of
        None \<Rightarrow> (Inr (Outcome Invalid), s)
      | Some (encrypted, child_jti, child_hash) \<Rightarrow>
          (case recovery_open P recovery encrypted of
             Inl _ \<Rightarrow> (Inl QueryFailed, s)
           | Inr raw \<Rightarrow>
               (case parse_refresh_token P X raw of
                  None \<Rightarrow> (Inl QueryFailed, s)
                | Some parsed \<Rightarrow>
                    if prt_jti parsed \<noteq> child_jti \<or> \<not> same_hash child_hash (prt_hash parsed)
                    then (Inl QueryFailed, s)
                    else (Inr (Recovered \<lparr>si_user_id = st_user_id parent,
                                          si_session_id = st_family_id parent\<rparr> raw), s))))"

definition rotated_token :: "instant \<Rightarrow> refresh_recovery option \<Rightarrow> token_row \<Rightarrow> token_row" where
  "rotated_token t recovery r =
     r\<lparr>tk_revoked := True, tk_rotated_at := Some t,
       tk_request_hash := map_option request_hash recovery,
       tk_result := map_option encrypted_token recovery\<rparr>"

definition refreshed_family :: "instant \<Rightarrow> instant \<Rightarrow> session_row \<Rightarrow> session_row" where
  "refreshed_family t expires f = f\<lparr>ses_last_refreshed_at := t, ses_expires_at := expires\<rparr>"

definition exchange_token ::
  "env \<Rightarrow> stored_refresh_token \<Rightarrow> new_token \<Rightarrow> refresh_recovery option \<Rightarrow>
   (session_db, database_error, refresh_rotation) op" where
  "exchange_token e token new recovery =
     then_op (modify (update_token (st_id token) (rotated_token (clk e 2) recovery)))
     (then_op (insert_token (st_user_id token) (st_family_id token) new (Some (st_id token)))
     (then_op (modify (update_family (st_family_id token)
        (refreshed_family (clk e 3) (nrt_expires_at new))))
     (ok (Outcome (Rotated \<lparr>si_user_id = st_user_id token, si_session_id = st_family_id token\<rparr>)))))"

text \<open>The receipt of the caller, when the token was exchanged for the same request.\<close>

definition matching_receipt ::
  "session_db \<Rightarrow> uuid \<Rightarrow> refresh_recovery option \<Rightarrow> refresh_recovery option" where
  "matching_receipt s i recovery =
     (case recovery of
        None \<Rightarrow> None
      | Some receipt \<Rightarrow>
          (case Option.bind (find_token s i) tk_request_hash of
             None \<Rightarrow> None
           | Some stored \<Rightarrow>
               if same_hash stored (request_hash receipt) then Some receipt else None))"

definition rotate_inner ::
  "primitives \<Rightarrow> text_crates \<Rightarrow> env \<Rightarrow> uuid \<Rightarrow> string \<Rightarrow> new_token \<Rightarrow>
   refresh_recovery option \<Rightarrow> (session_db, database_error, refresh_rotation) op" where
  "rotate_inner P X e jti hash new recovery = transaction (\<lambda>s.
     case lock_token (clk e 0) s jti hash None (map_option request_hash recovery) of
       None \<Rightarrow> (Inr (Outcome Invalid), s)
     | Some token \<Rightarrow>
         if \<not> active_family (clk e 1) s (st_user_id token) (st_family_id token)
         then (Inr (Outcome Invalid), s)
         else if st_revoked token then
           (case matching_receipt s (st_id token) recovery of
              Some receipt \<Rightarrow> recover_rotation P X (clk e 2) token receipt s
            | None \<Rightarrow>
                if st_rotated_at token \<noteq> None
                then bind_op (revoke_families (clk e 2) (st_user_id token) Replay
                       (Some (st_family_id token))) (\<lambda>_. ok (Outcome ReplayRevoked)) s
                else (Inr (Outcome Invalid), s))
         else exchange_token e token new recovery s)"

definition rotate ::
  "primitives \<Rightarrow> text_crates \<Rightarrow> env \<Rightarrow> uuid \<Rightarrow> string \<Rightarrow> new_token \<Rightarrow>
   (session_db, database_error, rotation_outcome) op" where
  "rotate P X e jti hash new =
     bind_op (rotate_inner P X e jti hash new None) (\<lambda>r. ok (into_outcome r))"

definition rotate_recoverable ::
  "primitives \<Rightarrow> text_crates \<Rightarrow> env \<Rightarrow> uuid \<Rightarrow> string \<Rightarrow> new_token \<Rightarrow> refresh_recovery \<Rightarrow>
   (session_db, database_error, refresh_rotation) op" where
  "rotate_recoverable P X e jti hash new recovery =
     rotate_inner P X e jti hash new (Some recovery)"

definition logout ::
  "env \<Rightarrow> uuid \<Rightarrow> uuid \<Rightarrow> uuid \<Rightarrow> string \<Rightarrow> uuid option \<Rightarrow> (session_db, database_error, bool) op" where
  "logout e user_id session_id jti hash device_id = transaction (\<lambda>s.
     case lock_token (clk e 0) s jti hash (Some user_id) None of
       None \<Rightarrow> (Inr False, s)
     | Some token \<Rightarrow>
         if st_family_id token \<noteq> session_id \<or> \<not> active_family (clk e 1) s user_id session_id
         then (Inr False, s)
         else bind_op (revoke_families (clk e 2) user_id Logout (Some session_id)) (\<lambda>_.
           then_op (case device_id of
               None \<Rightarrow> ok ()
             | Some d \<Rightarrow> on_session_core
                 (modify (delete_devices (\<lambda>r. dev_id r = d \<and> dev_user r = user_id))))
             (ok True)) s)"

definition revoke_session ::
  "env \<Rightarrow> uuid \<Rightarrow> uuid \<Rightarrow> uuid option \<Rightarrow> (session_db, database_error, nat option) op" where
  "revoke_session e user_id current_session_id target_id = transaction (\<lambda>s.
     if \<not> lock_active_account s user_id \<or> \<not> active_family (clk e 0) s user_id current_session_id
     then (Inr None, s)
     else if (case target_id of
                None \<Rightarrow> False
              | Some i \<Rightarrow> \<not> (\<exists>f \<in> set (refresh_token_family (s_core s)).
                              ses_id f = i \<and> ses_user f = user_id))
     then (Inr (Some 0), s)
     else bind_op (revoke_families (clk e 1) user_id
         (if target_id \<noteq> None then UserRevoked else LogoutAll) target_id)
       (\<lambda>count. ok (Some (if target_id \<noteq> None then 1 else count))) s)"

definition session_is_active :: "instant \<Rightarrow> session_db \<Rightarrow> uuid \<Rightarrow> uuid \<Rightarrow> bool" where
  "session_is_active now s user_id session_id \<longleftrightarrow>
     (\<exists>f \<in> set (refresh_token_family (s_core s)).
        family_active now user_id session_id f \<and> live_account (s_core s) (ses_user f))"

definition has_consent :: "db \<Rightarrow> uuid \<Rightarrow> string \<Rightarrow> string \<Rightarrow> bool" where
  "has_consent db u ty version \<longleftrightarrow>
     (\<exists>c \<in> set (user_consent db). con_user c = u \<and> con_type c = ty \<and> con_granted c \<and>
        con_withdrawn_at c = None \<and> con_version c = version)"

definition read_active_account ::
  "instant \<Rightarrow> session_db \<Rightarrow> uuid \<Rightarrow> uuid \<Rightarrow> string \<Rightarrow> string \<Rightarrow> database_error + active_account option"
where
  "read_active_account now s user_id session_id terms privacy =
     (case user_account (s_core s) user_id of
        None \<Rightarrow> Inr None
      | Some a \<Rightarrow>
          if deleted_at a \<noteq> None \<or> \<not> active_family now s user_id session_id then Inr None
          else case (account_role_parse (acc_role a), language_parse (preferred_language a)) of
            (Inr role, Some language) \<Rightarrow>
              Inr (Some \<lparr>aa_preferred_language = language, aa_user_id = user_id, aa_role = role, aa_is_banned = is_banned a,
                aa_onboarding_complete = (acc_role a \<noteq> ''user'' \<or>
                  (has_consent (s_core s) user_id ''terms_of_service_acceptance'' terms \<and>
                   has_consent (s_core s) user_id ''privacy_notice_acknowledgement'' privacy))\<rparr>)
          | _ \<Rightarrow> Inl QueryFailed)"

end
