(* ===== verification/Session_Service.thy ===== *)
theory Session_Service
  imports Sessions Paging
begin

text \<open>
  \<^verbatim>\<open>src/identity/mobile/service.rs\<close>, the listing of \<^verbatim>\<open>pg.rs\<close> and the cursors of \<^verbatim>\<open>domain.rs\<close>:
  what a mobile client can do with its tokens and its sessions.  The JSON and RFC 3339 formats and
  the text of a \<^verbatim>\<open>timestamptz\<close> are third-party code, the fields of \<open>session_text\<close>.
\<close>

section \<open>Listing and cursors\<close>

record session_text =
  to_char_micros :: "instant \<Rightarrow> string"
  timestamptz_in :: "string \<Rightarrow> instant option"
  rfc3339_millis :: "instant \<Rightarrow> string"
  rfc3339_ok :: "string \<Rightarrow> bool"
  cursor_to_json :: "string \<times> string \<Rightarrow> byte list"
  cursor_from_json :: "byte list \<Rightarrow> (string \<times> string) option"

definition family_key :: "session_row \<Rightarrow> instant \<times> uuid" where
  "family_key f = (ses_created_at f, ses_id f)"

definition listed_families :: "instant \<Rightarrow> session_db \<Rightarrow> uuid \<Rightarrow> session_row list" where
  "listed_families now s user_id =
     filter (\<lambda>f. ses_user f = user_id \<and> ses_revoked_at f = None \<and> ses_expires_at f > now)
       (refresh_token_family (s_core s))"

definition session_view_row :: "session_text \<Rightarrow> session_row \<Rightarrow> mobile_session_row" where
  "session_view_row T f =
     \<lparr>msr_id = ses_id f, msr_created_at = ses_created_at f,
      msr_last_refreshed_at = ses_last_refreshed_at f, msr_expires_at = ses_expires_at f,
      msr_cursor_at = to_char_micros T (ses_created_at f)\<rparr>"

definition fetch_families ::
  "instant \<Rightarrow> session_db \<Rightarrow> uuid \<Rightarrow> nat \<Rightarrow> (instant \<times> uuid) option \<Rightarrow> session_row list" where
  "fetch_families now s user_id limit cur =
     select_page family_key (listed_families now s user_id) limit 0 cur"

text \<open>The cast of the cursor to a \<^verbatim>\<open>timestamptz\<close> fails the query when the text is not one.\<close>

definition list_rows ::
  "session_text \<Rightarrow> instant \<Rightarrow> session_db \<Rightarrow> uuid \<Rightarrow> nat \<Rightarrow> session_cursor option \<Rightarrow>
   database_error + mobile_session_row list" where
  "list_rows T now s user_id limit cursor =
     (case cursor of
        None \<Rightarrow> Inr (map (session_view_row T) (fetch_families now s user_id limit None))
      | Some c \<Rightarrow>
          (case timestamptz_in T (sc_at c) of
             None \<Rightarrow> Inl QueryFailed
           | Some t \<Rightarrow>
               Inr (map (session_view_row T)
                 (fetch_families now s user_id limit (Some (t, sc_id c))))))"

definition is_ascii_digit :: "char \<Rightarrow> bool" where
  "is_ascii_digit c \<longleftrightarrow> (let n = of_char c :: nat in 48 \<le> n \<and> n \<le> 57)"

definition strip_suffix_char :: "char \<Rightarrow> string \<Rightarrow> string option" where
  "strip_suffix_char c v = (if v \<noteq> [] \<and> last v = c then Some (butlast v) else None)"

definition rsplit_once :: "char \<Rightarrow> string \<Rightarrow> (string \<times> string) option" where
  "rsplit_once c v =
     map_option (\<lambda>(a, b). (rev b, rev a)) (split_once c (rev v))"

definition valid_cursor_timestamp :: "session_text \<Rightarrow> string \<Rightarrow> bool" where
  "valid_cursor_timestamp T v =
     (case Option.bind (strip_suffix_char CHR ''Z'' v) (rsplit_once CHR ''.'') of
        None \<Rightarrow> False
      | Some (date, fraction) \<Rightarrow>
          \<not> (length fraction < 3 \<or> length fraction > 6 \<or> \<not> list_all is_ascii_digit fraction \<or>
             length date \<noteq> 19) \<and>
          rfc3339_ok T v)"

definition decode_session_cursor ::
  "text_crates \<Rightarrow> session_text \<Rightarrow> string option \<Rightarrow> session_domain_error + session_cursor option" where
  "decode_session_cursor X T raw =
     (case raw of
        None \<Rightarrow> Inr None
      | Some v \<Rightarrow>
          if v = [] then Inr None
          else case Option.bind (base64url_decode X v) (cursor_from_json T) of
            None \<Rightarrow> Inl SessionInvalidCursor
          | Some (at_text, i) \<Rightarrow>
              if \<not> valid_cursor_timestamp T at_text then Inl SessionInvalidCursor
              else case parse_uuid X i of
                None \<Rightarrow> Inl SessionInvalidCursor
              | Some u \<Rightarrow>
                  if \<not> (1 \<le> version_num u \<and> version_num u \<le> 8) \<or> \<not> variant_rfc4122 u
                  then Inl SessionInvalidCursor
                  else Inr (Some \<lparr>sc_at = at_text, sc_id = u\<rparr>))"

definition encode_session_cursor :: "text_crates \<Rightarrow> session_text \<Rightarrow> session_cursor \<Rightarrow> string" where
  "encode_session_cursor X T c =
     base64url_encode X (cursor_to_json T (sc_at c, hyphenated X (sc_id c)))"

section \<open>Errors and views\<close>

datatype mobile_auth_error =
  InvalidRefreshToken | AuthInvalidAccessToken | AuthenticationRequired | AuthAccountUnavailable
| AccountCheckFailed | SessionNotFound | AuthInvalidCursor | AuthInternal

fun mobile_auth_error_display :: "mobile_auth_error \<Rightarrow> string" where
  "mobile_auth_error_display InvalidRefreshToken = ''invalid_or_expired_refresh_token''"
| "mobile_auth_error_display AuthInvalidAccessToken = ''invalid_or_expired_access_token''"
| "mobile_auth_error_display AuthenticationRequired = ''authentication_required''"
| "mobile_auth_error_display AuthAccountUnavailable = ''account_unavailable''"
| "mobile_auth_error_display AccountCheckFailed = ''account_check_failed''"
| "mobile_auth_error_display SessionNotFound = ''session_not_found''"
| "mobile_auth_error_display AuthInvalidCursor = ''invalid_cursor''"
| "mobile_auth_error_display AuthInternal = ''internal_error''"

record token_pair =
  tp_access_token :: string
  tp_refresh_token :: string

record authenticated_mobile =
  am_account :: active_account
  am_session_id :: uuid
  am_access_expires_at_seconds :: nat

record mobile_session_view =
  mv_id :: uuid
  mv_created_at :: string
  mv_last_refreshed_at :: string
  mv_expires_at :: string
  mv_current :: bool

record mobile_session_page =
  mp_sessions :: "mobile_session_view list"
  mp_next_cursor :: "string option"

text \<open>What the service is built with.\<close>

record mobile_auth_service =
  auth_primitives :: primitives
  auth_text :: text_crates
  auth_jwt :: jwt_crate
  auth_config :: jwt_config
  auth_terms_version :: string
  auth_privacy_version :: string

text \<open>What one request reads outside the tables: the random bytes, the nonce of a receipt, and the
  clock of the process when the refresh token and the access token are made.\<close>

record auth_request =
  req_random :: token_randomness
  req_nonce :: "byte list option"
  req_now :: instant
  req_signed_at :: instant

section \<open>The service\<close>

definition sign_access ::
  "mobile_auth_service \<Rightarrow> instant \<Rightarrow> mobile_session_identity \<Rightarrow> mobile_auth_error + string" where
  "sign_access a now session =
     (case access_token (auth_text a) (auth_jwt a) (auth_config a) now
             (si_user_id session) (si_session_id session) of
        Inl _ \<Rightarrow> Inl AuthInternal
      | Inr token \<Rightarrow> Inr token)"

definition token_pair_for ::
  "mobile_auth_service \<Rightarrow> instant \<Rightarrow> mobile_session_identity \<Rightarrow> string \<Rightarrow>
   mobile_auth_error + token_pair" where
  "token_pair_for a now session refresh_token =
     (case sign_access a now session of
        Inl e \<Rightarrow> Inl e
      | Inr access \<Rightarrow> Inr \<lparr>tp_access_token = access, tp_refresh_token = refresh_token\<rparr>)"

definition authenticate ::
  "mobile_auth_service \<Rightarrow> instant \<Rightarrow> instant \<Rightarrow> session_db \<Rightarrow> string \<Rightarrow>
   mobile_auth_error + authenticated_mobile" where
  "authenticate a now statement_now s bearer_token =
     (case verify_access_token (auth_text a) (auth_jwt a) (auth_config a) now bearer_token of
        Inl _ \<Rightarrow> Inl AuthInvalidAccessToken
      | Inr verified \<Rightarrow>
          (case read_active_account statement_now s (va_user_id verified) (va_session_id verified)
                  (auth_terms_version a) (auth_privacy_version a) of
             Inl _ \<Rightarrow> Inl AccountCheckFailed
           | Inr None \<Rightarrow> Inl AuthenticationRequired
           | Inr (Some account) \<Rightarrow>
               if aa_is_banned account then Inl AuthAccountUnavailable
               else Inr \<lparr>am_account = account, am_session_id = va_session_id verified,
                         am_access_expires_at_seconds = va_expires_at_seconds verified\<rparr>))"

definition pair_from_session ::
  "mobile_auth_service \<Rightarrow> instant \<Rightarrow> mobile_session_identity option \<Rightarrow> string \<Rightarrow>
   mobile_auth_error + token_pair" where
  "pair_from_session a now session refresh_token =
     (case session of
        None \<Rightarrow> Inl AuthAccountUnavailable
      | Some i \<Rightarrow> token_pair_for a now i refresh_token)"

definition internal :: "(session_db, database_error, 'a) op \<Rightarrow> (session_db, mobile_auth_error, 'a) op" where
  "internal = map_err (\<lambda>_. AuthInternal)"

definition make_refresh_token ::
  "mobile_auth_service \<Rightarrow> auth_request \<Rightarrow> mobile_auth_error + new_token" where
  "make_refresh_token a q =
     (case new_refresh_token (auth_primitives a) (auth_text a) (auth_config a) (req_now q)
             (req_random q) of
        Inl _ \<Rightarrow> Inl AuthInternal
      | Inr t \<Rightarrow> Inr t)"

definition issue_token_pair ::
  "mobile_auth_service \<Rightarrow> auth_request \<Rightarrow> env \<Rightarrow> uuid \<Rightarrow> uuid \<Rightarrow>
   (session_db, mobile_auth_error, token_pair) op" where
  "issue_token_pair a q e session_id user_id =
     bind_op (lift_result (\<lambda>_. make_refresh_token a q)) (\<lambda>refresh.
     bind_op (internal (create_session e session_id user_id refresh)) (\<lambda>session.
     lift_result (\<lambda>_. pair_from_session a (req_signed_at q) session (nrt_plain refresh))))"

definition rotate_for_attempt ::
  "mobile_auth_service \<Rightarrow> auth_request \<Rightarrow> env \<Rightarrow> string \<Rightarrow> parsed_refresh_token \<Rightarrow>
   new_token \<Rightarrow> uuid option \<Rightarrow> (session_db, mobile_auth_error, refresh_rotation) op" where
  "rotate_for_attempt a q e raw_token parsed new attempt =
     (case attempt of
        Some i \<Rightarrow>
          (case refresh_recovery_new (auth_primitives a) (req_nonce q) raw_token i (nrt_plain new) of
             Inl _ \<Rightarrow> err AuthInternal
           | Inr recovery \<Rightarrow>
               internal (rotate_recoverable (auth_primitives a) (auth_text a) e
                 (prt_jti parsed) (prt_hash parsed) new recovery))
      | None \<Rightarrow>
          bind_op (internal (rotate (auth_primitives a) (auth_text a) e
            (prt_jti parsed) (prt_hash parsed) new)) (\<lambda>r. ok (Outcome r)))"

definition refresh_with_attempt ::
  "mobile_auth_service \<Rightarrow> auth_request \<Rightarrow> env \<Rightarrow> string \<Rightarrow> uuid option \<Rightarrow>
   (session_db, mobile_auth_error, token_pair) op" where
  "refresh_with_attempt a q e raw_token attempt =
     (case parse_refresh_token (auth_primitives a) (auth_text a) raw_token of
        None \<Rightarrow> err InvalidRefreshToken
      | Some parsed \<Rightarrow>
          bind_op (lift_result (\<lambda>_. make_refresh_token a q)) (\<lambda>new.
          bind_op (rotate_for_attempt a q e raw_token parsed new attempt) (\<lambda>rotation.
            case rotation of
              Outcome (Rotated session) \<Rightarrow>
                lift_result (\<lambda>_. token_pair_for a (req_signed_at q) session (nrt_plain new))
            | Recovered session refresh_token \<Rightarrow>
                lift_result (\<lambda>_. token_pair_for a (req_signed_at q) session refresh_token)
            | Outcome Invalid \<Rightarrow> err InvalidRefreshToken
            | Outcome ReplayRevoked \<Rightarrow> err InvalidRefreshToken)))"

definition refresh ::
  "mobile_auth_service \<Rightarrow> auth_request \<Rightarrow> env \<Rightarrow> string \<Rightarrow> (session_db, mobile_auth_error, token_pair) op"
where
  "refresh a q e raw_token = refresh_with_attempt a q e raw_token None"

definition logout_with_token ::
  "mobile_auth_service \<Rightarrow> env \<Rightarrow> uuid \<Rightarrow> uuid \<Rightarrow> string \<Rightarrow> uuid option \<Rightarrow>
   (session_db, mobile_auth_error, unit) op" where
  "logout_with_token a e user_id session_id raw_token device_id =
     (case parse_refresh_token (auth_primitives a) (auth_text a) raw_token of
        None \<Rightarrow> err InvalidRefreshToken
      | Some parsed \<Rightarrow>
          bind_op (internal (logout e user_id session_id (prt_jti parsed) (prt_hash parsed) device_id))
            (\<lambda>found. if found then ok () else err InvalidRefreshToken))"

definition session_view :: "session_text \<Rightarrow> uuid \<Rightarrow> mobile_session_row \<Rightarrow> mobile_session_view" where
  "session_view T current_session_id r =
     \<lparr>mv_id = msr_id r, mv_created_at = rfc3339_millis T (msr_created_at r),
      mv_last_refreshed_at = rfc3339_millis T (msr_last_refreshed_at r),
      mv_expires_at = rfc3339_millis T (msr_expires_at r), mv_current = (msr_id r = current_session_id)\<rparr>"

definition list_sessions ::
  "mobile_auth_service \<Rightarrow> session_text \<Rightarrow> instant \<Rightarrow> session_db \<Rightarrow> uuid \<Rightarrow> uuid \<Rightarrow> nat \<Rightarrow>
   string option \<Rightarrow> mobile_auth_error + mobile_session_page" where
  "list_sessions a T now s user_id current_session_id limit raw_cursor =
     (case decode_session_cursor (auth_text a) T raw_cursor of
        Inl _ \<Rightarrow> Inl AuthInvalidCursor
      | Inr cursor \<Rightarrow>
          (case list_rows T now s user_id (limit + 1) cursor of
             Inl _ \<Rightarrow> Inl AuthInternal
           | Inr fetched \<Rightarrow>
               (let has_more = length fetched > limit;
                    rows = (if has_more then take limit fetched else fetched)
                in Inr \<lparr>mp_sessions = map (session_view T current_session_id) rows,
                        mp_next_cursor =
                          (if has_more \<and> rows \<noteq> []
                           then Some (encode_session_cursor (auth_text a) T
                                  \<lparr>sc_at = msr_cursor_at (last rows), sc_id = msr_id (last rows)\<rparr>)
                           else None)\<rparr>)))"

definition revoke_one ::
  "env \<Rightarrow> uuid \<Rightarrow> uuid \<Rightarrow> uuid \<Rightarrow> (session_db, mobile_auth_error, unit) op" where
  "revoke_one e user_id current_session_id target_id =
     bind_op (internal (revoke_session e user_id current_session_id (Some target_id))) (\<lambda>r.
       case r of
         None \<Rightarrow> err InvalidRefreshToken
       | Some n \<Rightarrow> if n = 0 then err SessionNotFound else ok ())"

definition logout_all :: "env \<Rightarrow> uuid \<Rightarrow> uuid \<Rightarrow> (session_db, mobile_auth_error, nat) op" where
  "logout_all e user_id current_session_id =
     bind_op (internal (revoke_session e user_id current_session_id None)) (\<lambda>r.
       case r of None \<Rightarrow> err InvalidRefreshToken | Some n \<Rightarrow> ok n)"

section \<open>The listing is paged\<close>

definition session_listing :: "instant \<times> session_db \<times> uuid \<Rightarrow> session_row list" where
  "session_listing q = (case q of (now, s, u) \<Rightarrow> order_desc family_key (listed_families now s u))"

definition session_fetch ::
  "instant \<times> session_db \<times> uuid \<Rightarrow> nat \<Rightarrow> (instant \<times> uuid) option \<Rightarrow> session_row list" where
  "session_fetch q = (case q of (now, s, u) \<Rightarrow> fetch_families now s u)"

definition family_ids_distinct :: "session_db \<Rightarrow> bool" where
  "family_ids_distinct s \<longleftrightarrow> distinct (map ses_id (refresh_token_family (s_core s)))"

lemma family_keys_distinct:
  "family_ids_distinct s \<Longrightarrow> distinct (map family_key (listed_families now s u))"
  by (auto simp: family_ids_distinct_def listed_families_def distinct_map family_key_def
      intro!: inj_onI dest: inj_onD)

interpretation session_list: paged_store session_fetch session_listing family_key
  "\<lambda>(now, s, u). family_ids_distinct s"
proof unfold_locales
  fix q :: "instant \<times> session_db \<times> uuid" and n and cur :: "(instant \<times> uuid) option"
  assume wf: "case q of (now, s, u) \<Rightarrow> family_ids_distinct s"
  show "session_fetch q n cur = take n (filter (before_cursor family_key cur) (session_listing q))"
    by (cases q) (simp add: session_fetch_def fetch_families_def select_page_def session_listing_def
        filter_order_desc)
  show "sorted_wrt (\<lambda>a b. family_key b < family_key a) (session_listing q)"
    using wf by (cases q) (simp add: session_listing_def sorted_wrt_order_desc family_keys_distinct)
qed

end
