(* ===== verification/Session_Invariant.thy ===== *)
theory Session_Invariant
  imports Session_Service
begin

text \<open>
  The invariant of the mobile sessions: a session that is not revoked has exactly one token that is
  not revoked, and it ends with that token (or none, once the retention has removed it); a revoked
  session has none, and no sealed successor is left.
\<close>

section \<open>The invariant\<close>

definition live_tokens :: "token_row list \<Rightarrow> uuid \<Rightarrow> token_row list" where
  "live_tokens ts i = filter (\<lambda>t. tk_family t = i \<and> \<not> tk_revoked t) ts"

text \<open>\<open>gone f\<close> tells whether the retention may have removed the tokens of the session \<open>f\<close>.\<close>

definition family_ok :: "(session_row \<Rightarrow> bool) \<Rightarrow> token_row list \<Rightarrow> session_row \<Rightarrow> bool" where
  "family_ok gone ts f \<longleftrightarrow>
     (if ses_revoked_at f = None
      then (\<exists>t. live_tokens ts (ses_id f) = [t] \<and> tk_expires_at t = ses_expires_at f) \<or>
           gone f \<and> live_tokens ts (ses_id f) = []
      else live_tokens ts (ses_id f) = [] \<and>
           (\<forall>t \<in> set ts. tk_family t = ses_id f \<longrightarrow> tk_result t = None))"

definition token_owned :: "session_row list \<Rightarrow> token_row \<Rightarrow> bool" where
  "token_owned fs t \<longleftrightarrow> (\<exists>f \<in> set fs. ses_id f = tk_family t \<and> ses_user f = tk_user t)"

definition tables_ok :: "(session_row \<Rightarrow> bool) \<Rightarrow> session_row list \<Rightarrow> token_row list \<Rightarrow> bool" where
  "tables_ok gone fs ts \<longleftrightarrow>
     distinct (map ses_id fs) \<and> distinct (map tk_id ts) \<and> distinct (map tk_jti ts) \<and>
     (\<forall>t \<in> set ts. token_owned fs t) \<and> (\<forall>t \<in> set ts. tk_rotated_at t \<noteq> None \<longrightarrow> tk_revoked t) \<and>
     (\<forall>f \<in> set fs. family_ok gone ts f)"

definition sessions_ok :: "session_db \<Rightarrow> bool" where
  "sessions_ok s \<longleftrightarrow> tables_ok (\<lambda>_. False) (refresh_token_family (s_core s)) (refresh_tokens s)"

section \<open>The tables of a session\<close>

lemma live_tokens_append [simp]: "live_tokens (xs @ ys) i = live_tokens xs i @ live_tokens ys i"
  by (simp add: live_tokens_def)

lemma distinct_id_eq:
  "distinct (map f xs) \<Longrightarrow> x \<in> set xs \<Longrightarrow> y \<in> set xs \<Longrightarrow> f x = f y \<Longrightarrow> x = y"
  by (auto simp: distinct_map dest: inj_onD)

text \<open>A change of tokens that keeps what the invariant reads of the other families.\<close>

lemma live_tokens_upd_other:
  assumes "\<And>t. t \<in> set ts \<Longrightarrow> P t \<Longrightarrow> tk_family t \<noteq> i" "\<And>t. tk_family (g t) = tk_family t"
  shows "live_tokens (upd_where P g ts) i = live_tokens ts i"
  using assms(1) by (induction ts) (auto simp: upd_where_def live_tokens_def assms(2))

lemma set_upd_whereD: "x \<in> set (upd_where P g xs) \<Longrightarrow> \<exists>y \<in> set xs. x = (if P y then g y else y)"
  by (auto simp: upd_where_def)

text \<open>A new session.\<close>

lemma fresh_token_simps [simp]:
  "tk_id (fresh_token u i n p) = nrt_id n" "tk_user (fresh_token u i n p) = u"
  "tk_family (fresh_token u i n p) = i" "tk_parent (fresh_token u i n p) = p"
  "tk_hash (fresh_token u i n p) = nrt_hash n" "tk_jti (fresh_token u i n p) = nrt_jti n"
  "tk_expires_at (fresh_token u i n p) = nrt_expires_at n" "\<not> tk_revoked (fresh_token u i n p)"
  "tk_rotated_at (fresh_token u i n p) = None" "tk_result (fresh_token u i n p) = None"
  by (simp_all add: fresh_token_def)

lemma new_family_simps [simp]:
  "ses_id (new_family i u n) = i" "ses_user (new_family i u n) = u"
  "ses_revoked_at (new_family i u n) = None" "ses_expires_at (new_family i u n) = nrt_expires_at n"
  by (simp_all add: new_family_def)

lemma insert_tokenE:
  assumes "insert_token u i n p s = (Inr v, s')"
  obtains "s' = s\<lparr>refresh_tokens := refresh_tokens s @ [fresh_token u i n p]\<rparr>"
    "nrt_id n \<notin> tk_id ` set (refresh_tokens s)" "nrt_jti n \<notin> tk_jti ` set (refresh_tokens s)"
    "live_tokens (refresh_tokens s) i = []"
    "\<exists>f \<in> set (refresh_token_family (s_core s)). ses_id f = i \<and> ses_user f = u"
proof -
  have new: "\<forall>r \<in> set (refresh_tokens s).
      tk_id r \<noteq> nrt_id n \<and> tk_jti r \<noteq> nrt_jti n \<and> \<not> (tk_family r = i \<and> \<not> tk_revoked r)"
    and eff: "s' = s\<lparr>refresh_tokens := refresh_tokens s @ [fresh_token u i n p]\<rparr>"
    and own: "\<exists>f \<in> set (refresh_token_family (s_core s)). ses_id f = i \<and> ses_user f = u"
    using assms by (auto simp: insert_token_def split: if_splits)
  have "nrt_id n \<notin> tk_id ` set (refresh_tokens s)" "nrt_jti n \<notin> tk_jti ` set (refresh_tokens s)"
    "live_tokens (refresh_tokens s) i = []"
    using new by (fastforce simp: live_tokens_def filter_empty_conv)+
  then show thesis
    using that eff own by blast
qed

lemma family_ok_other_token:
  "family_ok gone ts f \<Longrightarrow> tk_family t \<noteq> ses_id f \<Longrightarrow> family_ok gone (ts @ [t]) f"
  by (auto simp: family_ok_def live_tokens_def)

lemma tables_ok_new_family:
  assumes ok: "tables_ok gone fs ts" and new: "i \<notin> ses_id ` set fs"
    and ids: "nrt_id n \<notin> tk_id ` set ts" "nrt_jti n \<notin> tk_jti ` set ts"
  shows "tables_ok gone (fs @ [new_family i u n]) (ts @ [fresh_token u i n None])"
proof -
  have none: "tk_family t \<noteq> i" if "t \<in> set ts" for t
    using ok new that unfolding tables_ok_def token_owned_def by (metis image_eqI)
  have "live_tokens ts i = []"
    using none by (auto simp: live_tokens_def filter_empty_conv)
  then have "family_ok gone (ts @ [fresh_token u i n None]) (new_family i u n)"
    by (simp add: family_ok_def new_family_def live_tokens_def fresh_token_def)
  moreover have "family_ok gone (ts @ [fresh_token u i n None]) f" if "f \<in> set fs" for f
    using ok new that by (intro family_ok_other_token) (auto simp: tables_ok_def)
  ultimately show ?thesis
    using ok new ids by (auto simp: tables_ok_def token_owned_def new_family_def)
qed

text \<open>An exchange: the one live token is revoked and its successor inserted.\<close>

lemma live_tokens_revoke_one:
  assumes "distinct (map tk_id ts)" "live_tokens ts i = [r]"
  shows "live_tokens (upd_where (\<lambda>t. tk_id t = tk_id r) (rotated_token x rc) ts) j =
    (if j = i then [] else live_tokens ts j)"
proof (cases "j = i")
  case True
  have "tk_revoked t \<or> tk_id t = tk_id r" if "t \<in> set ts" "tk_family t = i" for t
    using arg_cong [OF assms(2), of set] that by (auto simp: live_tokens_def)
  then show ?thesis
    using True by (auto simp: live_tokens_def upd_where_def filter_empty_conv rotated_token_def)
next
  case False
  have r: "r \<in> set ts" "tk_family r = i"
    using arg_cong [OF assms(2), of set] by (auto simp: live_tokens_def)
  then have "tk_family t \<noteq> j" if "t \<in> set ts" "tk_id t = tk_id r" for t
    using distinct_id_eq [OF assms(1) that(1) r(1)] that False by auto
  then show ?thesis
    using False by (auto intro!: live_tokens_upd_other simp: rotated_token_def)
qed

lemma rotated_token_simps [simp]:
  "tk_id (rotated_token x rc t) = tk_id t" "tk_user (rotated_token x rc t) = tk_user t"
  "tk_family (rotated_token x rc t) = tk_family t" "tk_jti (rotated_token x rc t) = tk_jti t"
  "tk_parent (rotated_token x rc t) = tk_parent t" "tk_hash (rotated_token x rc t) = tk_hash t"
  "tk_expires_at (rotated_token x rc t) = tk_expires_at t" "tk_revoked (rotated_token x rc t)"
  "tk_rotated_at (rotated_token x rc t) = Some x"
  "tk_request_hash (rotated_token x rc t) = map_option request_hash rc"
  "tk_result (rotated_token x rc t) = map_option encrypted_token rc"
  by (simp_all add: rotated_token_def)

lemma token_owned_upd:
  assumes "token_owned fs t" "\<And>f. ses_id (g f) = ses_id f" "\<And>f. ses_user (g f) = ses_user f"
  shows "token_owned (upd_where P g fs) t"
proof -
  obtain f where f: "f \<in> set fs" "ses_id f = tk_family t" "ses_user f = tk_user t"
    using assms(1) by (auto simp: token_owned_def)
  then have "(if P f then g f else f) \<in> set (upd_where P g fs)"
    by (auto simp: upd_where_def)
  then show ?thesis
    using f assms(2,3) unfolding token_owned_def by (metis (full_types))
qed

lemma tables_ok_family_of:
  assumes "tables_ok gone fs ts" "t \<in> set ts" "f \<in> set fs" "tk_family t = ses_id f"
  shows "tk_user t = ses_user f"
proof -
  obtain f' where "f' \<in> set fs" "ses_id f' = tk_family t" "ses_user f' = tk_user t"
    using assms(1,2) by (auto simp: tables_ok_def token_owned_def)
  then show ?thesis
    using assms distinct_id_eq [of ses_id fs f' f] by (auto simp: tables_ok_def)
qed

text \<open>The one live token of a session that is not revoked.\<close>

lemma tables_ok_live:
  assumes "tables_ok gone fs ts" "r \<in> set ts" "\<not> tk_revoked r" "f \<in> set fs" "ses_id f = tk_family r"
  shows "ses_revoked_at f = None" "live_tokens ts (tk_family r) = [r]"
    "tk_expires_at r = ses_expires_at f"
proof -
  have r: "r \<in> set (live_tokens ts (ses_id f))"
    using assms by (simp add: live_tokens_def)
  have "family_ok gone ts f"
    using assms by (simp add: tables_ok_def)
  then show "ses_revoked_at f = None" "live_tokens ts (tk_family r) = [r]"
    "tk_expires_at r = ses_expires_at f"
    using r assms(5) by (auto simp: family_ok_def split: if_splits)
qed

lemma refreshed_family_simps [simp]:
  "ses_id (refreshed_family t x f) = ses_id f" "ses_user (refreshed_family t x f) = ses_user f"
  "ses_revoked_at (refreshed_family t x f) = ses_revoked_at f"
  "ses_expires_at (refreshed_family t x f) = x"
  by (simp_all add: refreshed_family_def)

lemma tables_ok_exchange:
  assumes ok: "tables_ok gone fs ts" and r: "r \<in> set ts" "\<not> tk_revoked r"
    and ids: "nrt_id n \<notin> tk_id ` set ts" "nrt_jti n \<notin> tk_jti ` set ts"
  shows "tables_ok gone (upd_where (\<lambda>f. ses_id f = tk_family r) (refreshed_family y (nrt_expires_at n)) fs)
    (upd_where (\<lambda>t. tk_id t = tk_id r) (rotated_token x rc) ts @
     [fresh_token (tk_user r) (tk_family r) n p])"
    (is "tables_ok gone ?fs (?ts @ [?new])")
proof -
  obtain f where f: "f \<in> set fs" "ses_id f = tk_family r" "ses_user f = tk_user r"
    using ok r by (auto simp: tables_ok_def token_owned_def)
  note one = tables_ok_live [OF ok r f(1,2)]
  have live: "live_tokens ?ts j = (if j = tk_family r then [] else live_tokens ts j)" for j
    using ok one(2) by (intro live_tokens_revoke_one) (auto simp: tables_ok_def)
  have "family_ok gone (?ts @ [?new]) g" if g: "g \<in> set ?fs" for g
  proof (cases "ses_id g = tk_family r")
    case True
    obtain h where h: "h \<in> set fs"
      "g = (if ses_id h = tk_family r then refreshed_family y (nrt_expires_at n) h else h)"
      using set_upd_whereD [OF g] by blast
    have "ses_id h = ses_id f"
      using h(2) True f(2) by (auto split: if_splits)
    then have "h = f"
      using distinct_id_eq [OF _ h(1) f(1), of ses_id] ok by (auto simp: tables_ok_def)
    then have "g = refreshed_family y (nrt_expires_at n) f"
      using h(2) f(2) by simp
    then show ?thesis
      using one(1) True by (simp add: family_ok_def live) (simp add: live_tokens_def)
  next
    case False
    have "g \<in> set fs"
      using g False by (auto dest!: set_upd_whereD split: if_splits)
    then have "family_ok gone ts g"
      using ok by (simp add: tables_ok_def)
    moreover have "tk_result t = None" if t: "t \<in> set ?ts" "tk_family t = ses_id g"
      "\<forall>t \<in> set ts. tk_family t = ses_id g \<longrightarrow> tk_result t = None" for t
    proof -
      obtain t' where t': "t' \<in> set ts" "t = (if tk_id t' = tk_id r then rotated_token x rc t' else t')"
        using set_upd_whereD [OF t(1)] by blast
      have "t' \<noteq> r"
        using t' t(2) False by auto
      then have "tk_id t' \<noteq> tk_id r"
        using distinct_id_eq [OF _ t'(1) r(1), of tk_id] ok by (auto simp: tables_ok_def)
      then show ?thesis
        using t' t by simp
    qed
    ultimately show ?thesis
      using False by (intro family_ok_other_token) (auto simp: family_ok_def live)
  qed
  moreover have "token_owned ?fs t" if "t \<in> set (?ts @ [?new])" for t
  proof (rule token_owned_upd)
    show "token_owned fs t"
      using that ok f by (auto simp: tables_ok_def token_owned_def dest!: set_upd_whereD split: if_splits)
  qed simp_all
  ultimately show ?thesis
    using ok ids
    by (auto simp: tables_ok_def map_upd_where dest!: set_upd_whereD split: if_splits)
qed

text \<open>A revocation: the families of a user, or one of them, with their tokens.\<close>

lemma revoke_token_rows_simps:
  "map tk_id (revoke_token_rows u i ts) = map tk_id ts"
  "map tk_jti (revoke_token_rows u i ts) = map tk_jti ts"
  by (simp_all add: revoke_token_rows_def map_upd_where)

lemma set_revoke_token_rowsD:
  assumes "t \<in> set (revoke_token_rows u i ts)"
  obtains t' where "t' \<in> set ts" "tk_id t = tk_id t'" "tk_jti t = tk_jti t'" "tk_user t = tk_user t'"
    "tk_family t = tk_family t'" "tk_hash t = tk_hash t'" "tk_rotated_at t = tk_rotated_at t'"
    "tk_revoked t' \<Longrightarrow> tk_revoked t" "tk_result t' = None \<Longrightarrow> tk_result t = None"
    "tk_user t' = u \<Longrightarrow> selected i (tk_family t') \<Longrightarrow> tk_revoked t \<and> tk_result t = None"
    "\<not> (tk_user t' = u \<and> selected i (tk_family t')) \<Longrightarrow> t = t'"
  using assms by (auto simp: revoke_token_rows_def dest!: set_upd_whereD split: if_splits)

lemma family_ok_revoke:
  assumes ok: "tables_ok gone fs ts" and f: "f \<in> set fs"
    and h: "ses_id (h f) = ses_id f" "ses_revoked_at (h f) \<noteq> None"
  shows "family_ok gone (revoke_token_rows u i ts)
    (if ses_user f = u \<and> ses_revoked_at f = None \<and> selected i (ses_id f) then h f else f)"
proof -
  have user: "tk_user x = ses_user f" if "x \<in> set ts" "tk_family x = ses_id f" for x
    using tables_ok_family_of [OF ok that(1) f] that(2) by simp
  have fok: "family_ok gone ts f"
    using ok f by (simp add: tables_ok_def)
  show ?thesis
  proof (cases "ses_user f = u \<and> selected i (ses_id f)")
    case True
    have "tk_revoked x \<and> tk_result x = None"
      if x: "x \<in> set (revoke_token_rows u i ts)" "tk_family x = ses_id f" for x
      using x(1) by (rule set_revoke_token_rowsD) (use x(2) True user in auto)
    then have "live_tokens (revoke_token_rows u i ts) (ses_id f) = []"
      "\<forall>x \<in> set (revoke_token_rows u i ts). tk_family x = ses_id f \<longrightarrow> tk_result x = None"
      by (auto simp: live_tokens_def filter_empty_conv)
    then show ?thesis
      using True h by (auto simp: family_ok_def)
  next
    case False
    have "live_tokens (revoke_token_rows u i ts) (ses_id f) = live_tokens ts (ses_id f)"
      unfolding revoke_token_rows_def
      by (rule live_tokens_upd_other) (use False user in auto)
    moreover have "tk_result x = None"
      if x: "x \<in> set (revoke_token_rows u i ts)" "tk_family x = ses_id f"
        and none: "\<forall>x \<in> set ts. tk_family x = ses_id f \<longrightarrow> tk_result x = None" for x
      using x(1) by (rule set_revoke_token_rowsD) (use x(2) none in auto)
    ultimately show ?thesis
      using fok False by (auto simp: family_ok_def)
  qed
qed

lemma revoked_family_simps [simp]:
  "ses_id (revoked_family t reason f) = ses_id f" "ses_user (revoked_family t reason f) = ses_user f"
  "ses_revoked_at (revoked_family t reason f) = Some t"
  by (simp_all add: revoked_family_def)

lemma tables_ok_revoke_with:
  fixes u :: uuid and i :: "uuid option"
  assumes ok: "tables_ok gone fs ts"
    and h: "\<And>f. ses_id (h f) = ses_id f" "\<And>f. ses_user (h f) = ses_user f"
      "\<And>f. ses_revoked_at (h f) \<noteq> None"
  defines "fs' \<equiv> upd_where (\<lambda>f. ses_user f = u \<and> ses_revoked_at f = None \<and> selected i (ses_id f)) h fs"
  shows "tables_ok gone fs' (revoke_token_rows u i ts)"
proof -
  have "token_owned fs' x" if x: "x \<in> set (revoke_token_rows u i ts)" for x
    using x
  proof (rule set_revoke_token_rowsD)
    fix y
    assume "y \<in> set ts" "tk_user x = tk_user y" "tk_family x = tk_family y"
    then have "token_owned fs x"
      using ok by (auto simp: tables_ok_def token_owned_def)
    then show ?thesis
      unfolding fs'_def using h(1,2) by (rule token_owned_upd)
  qed
  moreover have "tk_revoked x" if x: "x \<in> set (revoke_token_rows u i ts)" "tk_rotated_at x \<noteq> None" for x
    using x(1) by (rule set_revoke_token_rowsD) (use x(2) ok in \<open>auto simp: tables_ok_def\<close>)
  moreover have "family_ok gone (revoke_token_rows u i ts) g"
    if g: "g \<in> set fs'" for g
    using g family_ok_revoke [OF ok, where h = h] h(1,3) unfolding fs'_def
    by (auto dest!: set_upd_whereD simp del: not_None_eq)
  ultimately show ?thesis
    using ok
    by (simp add: tables_ok_def revoke_token_rows_simps)
       (simp add: fs'_def map_upd_where h(1))
qed

lemma tables_ok_revoke:
  "tables_ok gone fs ts \<Longrightarrow> tables_ok gone (revoke_family_rows t u reason i fs) (revoke_token_rows u i ts)"
  unfolding revoke_family_rows_def by (rule tables_ok_revoke_with) simp_all

end
