(* ===== verification/Session_Proofs.thy ===== *)
theory Session_Proofs
  imports Session_Invariant
begin

text \<open>
  The operations of the session repository keep the invariant, a session that is revoked stays
  revoked, and what an exchange, a replay and a retry do to the tables.
\<close>

section \<open>Tokens found by a query\<close>

lemma find_unique:
  assumes "distinct (map f xs)" "x \<in> set xs" "f x = k" "P x"
  shows "find (\<lambda>y. f y = k \<and> P y) xs = Some x"
  using assms by (induction xs) (auto simp: rev_image_eqI)

lemma find_key:
  "distinct (map f xs) \<Longrightarrow> x \<in> set xs \<Longrightarrow> f x = k \<Longrightarrow> find (\<lambda>y. f y = k) xs = Some x"
  using find_unique [of f xs x k "\<lambda>_. True"] by simp

lemma stored_token_simps [simp]:
  "st_id (stored_token r) = tk_id r" "st_user_id (stored_token r) = tk_user r"
  "st_token_hash (stored_token r) = tk_hash r" "st_family_id (stored_token r) = tk_family r"
  "st_revoked (stored_token r) = tk_revoked r" "st_rotated_at (stored_token r) = tk_rotated_at r"
  by (simp_all add: stored_token_def)

lemma same_hash_iff [simp]: "same_hash a b \<longleftrightarrow> a = b"
  by (simp add: same_hash_def)

definition tokens_distinct :: "session_db \<Rightarrow> bool" where
  "tokens_distinct s \<longleftrightarrow>
     distinct (map tk_id (refresh_tokens s)) \<and> distinct (map tk_jti (refresh_tokens s))"

lemma sessions_ok_distinct: "sessions_ok s \<Longrightarrow> tokens_distinct s"
  by (simp add: sessions_ok_def tables_ok_def tokens_distinct_def)

text \<open>What \<open>lock_token\<close> gives back is the row of that \<^verbatim>\<open>jti\<close>.\<close>

lemma lock_token_row:
  assumes "tokens_distinct s" "r \<in> set (refresh_tokens s)" "tk_jti r = jti"
  shows "lock_token t s jti h own rh =
    (if (own = None \<or> own = Some (tk_user r)) \<and> tk_hash r = h \<and> live_account (s_core s) (tk_user r) \<and>
        token_usable t rh r
     then Some (stored_token r) else None)"
proof -
  have "find (\<lambda>x. tk_jti x = jti) (refresh_tokens s) = Some r"
    using assms by (intro find_key) (auto simp: tokens_distinct_def)
  moreover have "find (\<lambda>x. tk_id x = tk_id r \<and> token_usable t rh x) (refresh_tokens s) =
      (if token_usable t rh r then Some r else None)"
  proof (cases "token_usable t rh r")
    case True
    then show ?thesis
      using assms find_unique [of tk_id "refresh_tokens s" r] by (simp add: tokens_distinct_def)
  next
    case False
    then show ?thesis
      using assms distinct_id_eq [of tk_id "refresh_tokens s"]
      by (fastforce simp: tokens_distinct_def find_None_iff)
  qed
  ultimately show ?thesis
    by (auto simp: lock_token_def lock_active_account_def Let_def split: option.splits)
qed

lemma lock_tokenE:
  assumes "tokens_distinct s" "lock_token t s jti h own rh = Some token"
  obtains r where "r \<in> set (refresh_tokens s)" "tk_jti r = jti" "token = stored_token r"
    "tk_hash r = h" "live_account (s_core s) (tk_user r)" "token_usable t rh r"
    "own = None \<or> own = Some (tk_user r)"
proof -
  obtain r where r: "r \<in> set (refresh_tokens s)" "tk_jti r = jti"
    using assms(2) by (auto simp: lock_token_def split: option.splits dest!: find_SomeD)
  then show thesis
    using that [OF r] assms(2) lock_token_row [OF assms(1) r, of t h own rh] by (auto split: if_splits)
qed

lemma find_token_row:
  "tokens_distinct s \<Longrightarrow> r \<in> set (refresh_tokens s) \<Longrightarrow> find_token s (tk_id r) = Some r"
  by (auto simp: find_token_def tokens_distinct_def intro: find_key)

section \<open>Statements on the core tables\<close>

lemma on_session_core_Inr:
  "on_session_core m s = (Inr v, s') \<Longrightarrow> \<exists>d. m (s_core s) = (Inr v, d) \<and> s' = s\<lparr>s_core := d\<rparr>"
  by (auto simp: on_session_core_def split: prod.splits)

lemma enqueue_keeps_families:
  "enqueue_notification e k t u src i db = (r, db') \<Longrightarrow>
   refresh_token_family db' = refresh_token_family db \<and> device_token db' = device_token db \<and>
   user_account db' = user_account db"
  by (auto simp: enqueue_notification_def Let_def split: if_splits)

lemma delete_devices_simps [simp]:
  "refresh_token_family (delete_devices P db) = refresh_token_family db"
  "user_account (delete_devices P db) = user_account db"
  "device_token (delete_devices P db) = del_where P (device_token db)"
  by (simp_all add: delete_devices_def)

lemma revoke_families_eq:
  "revoke_families t u reason i s = (Inr n, s') \<Longrightarrow>
   refresh_token_family (s_core s') = revoke_family_rows t u reason i (refresh_token_family (s_core s)) \<and>
   refresh_tokens s' = revoke_token_rows u i (refresh_tokens s) \<and>
   user_account (s_core s') = user_account (s_core s) \<and>
   device_token (s_core s') = del_where (\<lambda>d. dev_user d = u \<and>
     (case i of None \<Rightarrow> True | Some j \<Rightarrow> dev_session d = Some j)) (device_token (s_core s))"
  by (auto simp: revoke_families_def Let_def)

lemma revoke_families_Ok: "\<exists>n s'. revoke_families t u reason i s = (Inr n, s')"
  by (simp add: revoke_families_def Let_def)

section \<open>What the statements of a transaction keep\<close>

lemma insert_session_keeps: "keeps sessions_ok (insert_session e k i u n)"
proof (rule validI)
  fix s v s'
  assume ok: "sessions_ok s" and run: "insert_session e k i u n s = (Inr v, s')"
  obtain s1 s2 s3 where s1: "on_session_core (insert_family i u n) s = (Inr (), s1)"
    and s2: "insert_token u i n None s1 = (Inr (), s2)"
    and s3: "on_session_core (enqueue_notification e 0 (clk e k) u (SUuid i) (NewSession i)) s2 =
      (Inr (), s3)" and s': "s' = s3"
    using run by (auto simp: insert_session_def ok_def dest!: then_op_InrD)
  have f1: "refresh_token_family (s_core s1) = refresh_token_family (s_core s) @ [new_family i u n]"
    "refresh_tokens s1 = refresh_tokens s" "i \<notin> ses_id ` set (refresh_token_family (s_core s))"
    using on_session_core_Inr [OF s1] by (auto simp: insert_family_def split: if_splits)
  have "tables_ok (\<lambda>_. False) (refresh_token_family (s_core s2)) (refresh_tokens s2)"
    using s2 ok f1 tables_ok_new_family [OF _ f1(3)]
    by (elim insert_tokenE) (auto simp: sessions_ok_def)
  then show "sessions_ok s'"
    using on_session_core_Inr [OF s3] s' by (auto simp: sessions_ok_def dest: enqueue_keeps_families)
qed

lemma revoke_families_keeps: "keeps sessions_ok (revoke_families t u reason i)"
  by (rule validI) (auto simp: sessions_ok_def dest!: revoke_families_eq intro: tables_ok_revoke)

lemma exchange_tokenE:
  assumes "exchange_token e (stored_token r) n rc s = (Inr v, s')"
  obtains "v = Outcome (Rotated \<lparr>si_user_id = tk_user r, si_session_id = tk_family r\<rparr>)"
    "s' = s\<lparr>s_core := (s_core s)\<lparr>refresh_token_family :=
              upd_where (\<lambda>f. ses_id f = tk_family r) (refreshed_family (clk e 3) (nrt_expires_at n))
                (refresh_token_family (s_core s))\<rparr>,
           refresh_tokens :=
             upd_where (\<lambda>t. tk_id t = tk_id r) (rotated_token (clk e 2) rc) (refresh_tokens s) @
             [fresh_token (tk_user r) (tk_family r) n (Some (tk_id r))]\<rparr>"
    "nrt_id n \<notin> tk_id ` set (refresh_tokens s)" "nrt_jti n \<notin> tk_jti ` set (refresh_tokens s)"
proof -
  let ?s1 = "update_token (tk_id r) (rotated_token (clk e 2) rc) s"
  let ?up = "upd_where (\<lambda>t. tk_id t = tk_id r) (rotated_token (clk e 2) rc) (refresh_tokens s)"
  obtain s2 where s2: "insert_token (tk_user r) (tk_family r) n (Some (tk_id r)) ?s1 = (Inr (), s2)"
    and fin: "v = Outcome (Rotated \<lparr>si_user_id = tk_user r, si_session_id = tk_family r\<rparr>)"
      "s' = update_family (tk_family r) (refreshed_family (clk e 3) (nrt_expires_at n)) s2"
    using assms
    by (auto simp: exchange_token_def modify_def ok_def dest!: then_op_InrD)
  have "set (map tk_id ?up) = tk_id ` set (refresh_tokens s)"
    "set (map tk_jti ?up) = tk_jti ` set (refresh_tokens s)"
    by (subst map_upd_where; simp)+
  then show thesis
    using that fin s2 by (elim insert_tokenE) (simp add: update_token_def update_family_def)
qed

lemma exchange_token_keeps:
  assumes "sessions_ok s" "r \<in> set (refresh_tokens s)" "\<not> tk_revoked r"
    "exchange_token e (stored_token r) n rc s = (Inr v, s')"
  shows "sessions_ok s'"
  using assms(4)
  by (rule exchange_tokenE)
     (use assms tables_ok_exchange [of _ "refresh_token_family (s_core s)" "refresh_tokens s" r n]
       in \<open>auto simp: sessions_ok_def\<close>)

lemma recover_rotation_reads: "recover_rotation P X t token rc s = (v, s') \<Longrightarrow> s' = s"
  by (auto simp: recover_rotation_def split: option.splits sum.splits if_splits)

section \<open>The steps of the system\<close>

text \<open>Every transaction of the session repository, whatever its outcome, and every change of other tables.
  Bans, erasures and the retention are added by \<open>session_life\<close> of \<open>Session_Upkeep\<close>.\<close>

inductive session_step :: "session_db \<Rightarrow> session_db \<Rightarrow> bool" where
  created: "session_step s (snd (create_session e i u n s))"
| rotated: "session_step s (snd (rotate_inner P X e jti h n rc s))"
| logged_out: "session_step s (snd (logout e u i jti h d s))"
| revoked: "session_step s (snd (revoke_session e u c target s))"
| elsewhere: "refresh_token_family (s_core s') = refresh_token_family (s_core s) \<Longrightarrow>
    refresh_tokens s' = refresh_tokens s \<Longrightarrow> session_step s s'"

inductive session_reachable :: "session_db \<Rightarrow> bool" where
  started: "refresh_token_family (s_core s) = [] \<Longrightarrow> refresh_tokens s = [] \<Longrightarrow> session_reachable s"
| moved: "session_reachable s \<Longrightarrow> session_step s s' \<Longrightarrow> session_reachable s'"

inductive_cases session_stepE: "session_step s s'"

text \<open>What is kept by the successful transactions, and depends on the two tables only, is kept by
  every step.\<close>

lemma op_snd_keeps:
  assumes "keeps I m" "\<And>x s'. m s = (Inl x, s') \<Longrightarrow> s' = s" "I s"
  shows "I (snd (m s))"
  using assms by (cases "m s"; cases "fst (m s)") (auto dest: validD)

lemma session_op_rolls_back:
  "create_session e i u n s = (Inl x, s') \<Longrightarrow> s' = s"
  "rotate_inner P X e jti h n rc s = (Inl x, s') \<Longrightarrow> s' = s"
  "logout e u i jti h d s = (Inl x, s') \<Longrightarrow> s' = s"
  "revoke_session e u c target s = (Inl x, s') \<Longrightarrow> s' = s"
  by (auto simp: create_session_def rotate_inner_def logout_def revoke_session_def
      dest: transaction_rolls_back)

lemma lock_token_stored:
  "lock_token t s jti h own rh = Some token \<Longrightarrow> \<exists>r \<in> set (refresh_tokens s). token = stored_token r"
  by (auto simp: lock_token_def Let_def split: option.splits if_splits dest!: find_SomeD)

locale kept_by_statements =
  fixes I :: "session_db \<Rightarrow> bool"
  assumes insert_keeps: "keeps I (insert_session e k i u n)"
    and revoke_keeps: "keeps I (revoke_families t u reason target)"
    and exchange_keeps: "I s \<Longrightarrow> r \<in> set (refresh_tokens s) \<Longrightarrow> \<not> tk_revoked r \<Longrightarrow>
      exchange_token e (stored_token r) n rc s = (Inr v, s') \<Longrightarrow> I s'"
    and tables_only: "refresh_token_family (s_core s') = refresh_token_family (s_core s) \<Longrightarrow>
      refresh_tokens s' = refresh_tokens s \<Longrightarrow> I s \<Longrightarrow> I s'"
begin

lemma create_keeps: "keeps I (create_session e i u n)"
  unfolding create_session_def
  by (rule valid_transaction, rule validI)
     (auto simp: ok_def split: if_splits dest!: bind_op_InrD keeps_apply [OF insert_keeps])

lemma rotate_keeps: "keeps I (rotate_inner P X e jti h n rc)"
  unfolding rotate_inner_def
proof (rule valid_transaction, rule validI, goal_cases)
  case (1 s v s')
  show ?case
  proof (cases "lock_token (clk e 0) s jti h None (map_option request_hash rc)")
    case None
    then show ?thesis
      using 1 by simp
  next
    case (Some token)
    then obtain r where r: "r \<in> set (refresh_tokens s)" "token = stored_token r"
      by (auto dest: lock_token_stored)
    show ?thesis
      using 1 Some r exchange_keeps [OF 1(1) r(1)]
      by (auto simp: ok_def split: if_splits option.splits
          dest!: recover_rotation_reads bind_op_InrD keeps_apply [OF revoke_keeps])
  qed
qed

lemma logout_keeps: "keeps I (logout e u i jti h d)"
  unfolding logout_def
proof (rule valid_transaction, rule validI, goal_cases)
  case (1 s v s')
  have "keeps I (on_session_core (modify (delete_devices D)))" for D
    by (rule validI) (auto simp: on_session_core_def modify_def intro: tables_only [rotated 2])
  then have "keeps I (case d of None \<Rightarrow> ok () | Some d \<Rightarrow>
      on_session_core (modify (delete_devices (\<lambda>r. dev_id r = d \<and> dev_user r = u))))"
    by (auto split: option.split)
  then have "keeps I (bind_op (revoke_families (clk e 2) u Logout (Some i)) (\<lambda>_.
      then_op (case d of None \<Rightarrow> ok () | Some d \<Rightarrow>
        on_session_core (modify (delete_devices (\<lambda>r. dev_id r = d \<and> dev_user r = u)))) (ok True)))"
    by (intro keeps_intros revoke_keeps)
  then show ?case
    using 1 by (auto split: option.splits if_splits dest: keeps_apply)
qed

lemma revoke_session_keeps: "keeps I (revoke_session e u c target)"
  unfolding revoke_session_def
  by (rule valid_transaction, rule validI)
     (auto simp: ok_def split: if_splits option.splits
       dest!: bind_op_InrD keeps_apply [OF revoke_keeps])

lemma step_keeps: "session_step s s' \<Longrightarrow> I s \<Longrightarrow> I s'"
  by (erule session_stepE)
     (auto intro: op_snd_keeps [OF create_keeps] op_snd_keeps [OF rotate_keeps]
       op_snd_keeps [OF logout_keeps] op_snd_keeps [OF revoke_session_keeps] tables_only
       dest: session_op_rolls_back)

lemma steps_keep: "session_step\<^sup>*\<^sup>* s s' \<Longrightarrow> I s \<Longrightarrow> I s'"
  by (induction rule: rtranclp_induct) (auto intro: step_keeps)

end

lemma sessions_ok_tables:
  "refresh_token_family (s_core s') = refresh_token_family (s_core s) \<Longrightarrow>
   refresh_tokens s' = refresh_tokens s \<Longrightarrow> sessions_ok s \<Longrightarrow> sessions_ok s'"
  by (simp add: sessions_ok_def)

interpretation consistent: kept_by_statements sessions_ok
  by unfold_locales
     (auto intro: insert_session_keeps revoke_families_keeps exchange_token_keeps sessions_ok_tables)

lemma no_sessions_ok:
  "refresh_token_family (s_core s) = [] \<Longrightarrow> refresh_tokens s = [] \<Longrightarrow> sessions_ok s"
  by (simp add: sessions_ok_def tables_ok_def)

lemma reachable_sessions_ok: "session_reachable s \<Longrightarrow> sessions_ok s"
  by (induction rule: session_reachable.induct) (auto intro: no_sessions_ok consistent.step_keeps)

section \<open>A revoked session stays revoked\<close>

definition family_revoked :: "uuid \<Rightarrow> session_db \<Rightarrow> bool" where
  "family_revoked i s \<longleftrightarrow>
     (\<exists>f \<in> set (refresh_token_family (s_core s)). ses_id f = i \<and> ses_revoked_at f \<noteq> None)"

lemma family_revoked_upd:
  assumes "family_revoked i s" "refresh_token_family (s_core s') =
      upd_where P g (refresh_token_family (s_core s))"
    "\<And>f. ses_id (g f) = ses_id f" "\<And>f. ses_revoked_at f \<noteq> None \<Longrightarrow> ses_revoked_at (g f) \<noteq> None"
  shows "family_revoked i s'"
proof -
  obtain f where f: "f \<in> set (refresh_token_family (s_core s))" "ses_id f = i" "ses_revoked_at f \<noteq> None"
    using assms(1) by (auto simp: family_revoked_def)
  then have "(if P f then g f else f) \<in> set (refresh_token_family (s_core s'))"
    using assms(2) by (auto simp: upd_where_def)
  moreover have "ses_id (if P f then g f else f) = i" "ses_revoked_at (if P f then g f else f) \<noteq> None"
    using f assms(3,4) by (simp_all del: not_None_eq)
  ultimately show ?thesis
    unfolding family_revoked_def by blast
qed

lemma family_revoked_append:
  "family_revoked i s \<Longrightarrow>
   refresh_token_family (s_core s') = refresh_token_family (s_core s) @ rest \<Longrightarrow> family_revoked i s'"
  by (auto simp: family_revoked_def)

lemma revoke_families_keeps_revoked: "keeps (family_revoked j) (revoke_families t u reason i)"
  by (rule validI, drule revoke_families_eq, rule family_revoked_upd [where g = "revoked_family t reason"])
     (auto simp: revoke_family_rows_def)

lemma insert_session_keeps_revoked: "keeps (family_revoked j) (insert_session e k i u n)"
proof (rule validI)
  fix s v s'
  assume old: "family_revoked j s" and run: "insert_session e k i u n s = (Inr v, s')"
  obtain s1 s2 s3 where s1: "on_session_core (insert_family i u n) s = (Inr (), s1)"
    and s2: "insert_token u i n None s1 = (Inr (), s2)"
    and s3: "on_session_core (enqueue_notification e 0 (clk e k) u (SUuid i) (NewSession i)) s2 =
      (Inr (), s3)" and s': "s' = s3"
    using run by (auto simp: insert_session_def ok_def dest!: then_op_InrD)
  have "refresh_token_family (s_core s1) = refresh_token_family (s_core s) @ [new_family i u n]"
    using on_session_core_Inr [OF s1] by (auto simp: insert_family_def split: if_splits)
  moreover have "s_core s2 = s_core s1"
    using s2 by (rule insert_tokenE) simp
  moreover have "refresh_token_family (s_core s3) = refresh_token_family (s_core s2)"
    using on_session_core_Inr [OF s3] by (auto dest: enqueue_keeps_families)
  ultimately show "family_revoked j s'"
    using s' by (intro family_revoked_append [OF old]) simp
qed

lemma exchange_token_keeps_revoked:
  assumes "exchange_token e (stored_token r) n rc s = (Inr v, s')" "family_revoked j s"
  shows "family_revoked j s'"
  using assms(1)
  by (rule exchange_tokenE)
     (rule family_revoked_upd
       [OF assms(2), where g = "refreshed_family (clk e 3) (nrt_expires_at n)"], auto)

lemma family_revoked_tables:
  "refresh_token_family (s_core s') = refresh_token_family (s_core s) \<Longrightarrow>
   family_revoked i s \<Longrightarrow> family_revoked i s'"
  by (simp add: family_revoked_def)

interpretation ended: kept_by_statements "family_revoked i"
  by unfold_locales
     (auto intro: insert_session_keeps_revoked revoke_families_keeps_revoked
       exchange_token_keeps_revoked family_revoked_tables)

text \<open>Nothing can be done with a token of a revoked session.\<close>

lemma family_revoked_inactive:
  assumes "sessions_ok s" "family_revoked i s"
  shows "\<not> active_family t s u i" "\<not> session_is_active t s u i"
  using assms distinct_id_eq [of ses_id "refresh_token_family (s_core s)"]
  by (fastforce simp: family_revoked_def active_family_def session_is_active_def family_active_def
      sessions_ok_def tables_ok_def)+

lemma revoked_token_is_dead:
  assumes "sessions_ok s" "family_revoked (tk_family r) s" "r \<in> set (refresh_tokens s)"
  shows "rotate_inner P X e (tk_jti r) h n rc s = (Inr (Outcome Invalid), s)"
    "logout e u i (tk_jti r) h d s = (Inr False, s)"
  using family_revoked_inactive [OF assms(1,2)]
  by (auto simp: rotate_inner_def logout_def transaction_def
      lock_token_row [OF sessions_ok_distinct [OF assms(1)] assms(3) refl])

section \<open>A replayed token ends its session\<close>

text \<open>A receipt that was not made for the exchange of the token.\<close>

definition foreign_receipt :: "token_row \<Rightarrow> refresh_recovery option \<Rightarrow> bool" where
  "foreign_receipt r recovery \<longleftrightarrow>
     (case recovery of None \<Rightarrow> True | Some c \<Rightarrow> tk_request_hash r \<noteq> Some (request_hash c))"

lemma matching_receipt_row:
  assumes "tokens_distinct s" "r \<in> set (refresh_tokens s)"
  shows "matching_receipt s (tk_id r) rc = (if foreign_receipt r rc then None else rc)"
  using find_token_row [OF assms]
  by (auto simp: matching_receipt_def foreign_receipt_def split: option.splits)

lemma family_revoked_by_revocation:
  assumes "revoke_families t u reason (Some i) s = (Inr n, s')"
    "f \<in> set (refresh_token_family (s_core s))" "ses_id f = i" "ses_user f = u"
  shows "family_revoked i s'"
proof -
  let ?g = "if ses_revoked_at f = None then revoked_family t reason f else f"
  have "?g \<in> set (refresh_token_family (s_core s'))"
    using assms revoke_families_eq [OF assms(1)]
    by (auto simp: revoke_family_rows_def upd_where_def selected_def)
  then show ?thesis
    using assms(3) unfolding family_revoked_def by (intro bexI [of _ ?g]) auto
qed

lemma replay_revokes:
  assumes ok: "sessions_ok s" and r: "r \<in> set (refresh_tokens s)" "tk_rotated_at r \<noteq> None"
    and usable: "tk_expires_at r > clk e 0" "live_account (s_core s) (tk_user r)"
    and active: "active_family (clk e 1) s (tk_user r) (tk_family r)"
    and receipt: "foreign_receipt r rc"
  obtains s' where "rotate_inner P X e (tk_jti r) (tk_hash r) n rc s = (Inr (Outcome ReplayRevoked), s')"
    "family_revoked (tk_family r) s'" "sessions_ok s'"
    "\<forall>d \<in> set (device_token (s_core s')). \<not> (dev_user d = tk_user r \<and> dev_session d = Some (tk_family r))"
proof -
  note dist = sessions_ok_distinct [OF ok]
  obtain m s' where s': "revoke_families (clk e 2) (tk_user r) Replay (Some (tk_family r)) s = (Inr m, s')"
    using revoke_families_Ok by blast
  have "tk_revoked r"
    using ok r by (auto simp: sessions_ok_def tables_ok_def)
  then have run: "rotate_inner P X e (tk_jti r) (tk_hash r) n rc s = (Inr (Outcome ReplayRevoked), s')"
    using s' active usable receipt r(2)
    by (auto simp: rotate_inner_def transaction_def lock_token_row [OF dist r(1) refl] ok_def
        matching_receipt_row [OF dist r(1)] token_usable_def)
  obtain f where "f \<in> set (refresh_token_family (s_core s))" "ses_id f = tk_family r" "ses_user f = tk_user r"
    using active by (auto simp: active_family_def family_active_def)
  then have "family_revoked (tk_family r) s'"
    by (rule family_revoked_by_revocation [OF s'])
  moreover have "\<forall>d \<in> set (device_token (s_core s')).
      \<not> (dev_user d = tk_user r \<and> dev_session d = Some (tk_family r))"
    using revoke_families_eq [OF s'] by (auto simp: del_where_def)
  moreover have "sessions_ok s'"
    using validD [OF revoke_families_keeps s' ok] .
  ultimately show thesis
    using that run by blast
qed

section \<open>A retry returns the successor it already made\<close>

lemma find_only:
  assumes "x \<in> set xs" "P x" "\<And>y. y \<in> set xs \<Longrightarrow> P y \<Longrightarrow> y = x"
  shows "find P xs = Some x"
proof (cases "find P xs")
  case None
  then show ?thesis
    using assms(1,2) by (auto simp: find_None_iff)
next
  case (Some y)
  then show ?thesis
    using assms(3) find_SomeD by fastforce
qed

text \<open>The receipts of one attempt differ in the sealed token only.\<close>

lemma receipt_of_attempt:
  assumes "refresh_recovery_new P n1 raw attempt v1 = Inr c1" "refresh_recovery_new P n2 raw attempt v2 = Inr c2"
  shows "request_hash c2 = request_hash c1" "recovery_open P c2 = recovery_open P c1"
  using assms
  by (auto simp: refresh_recovery_new_def recovery_open_def Let_def fun_eq_iff split: sum.splits)

lemma receipt_opens:
  assumes "aead_laws P" "length nonce = GCM_NONCE_BYTES" "is_ascii v"
    "refresh_recovery_new P (Some nonce) raw attempt v = Inr c"
  shows "recovery_open P c (encrypted_token c) = Inr v"
  using assms open_seal_secret [OF assms(1,2) valid_utf8_ascii [OF assms(3)]]
  by (auto simp: refresh_recovery_new_def recovery_open_def Let_def split: sum.splits)

lemma exchange_then_recover:
  assumes ok: "sessions_ok s" and r: "r \<in> set (refresh_tokens s)" "\<not> tk_revoked r"
    and first: "rotate_inner P X e (tk_jti r) (tk_hash r) n (Some c) s = (Inr v, s')"
    and exchanged: "v \<noteq> Outcome Invalid"
    and same: "request_hash c' = request_hash c" "recovery_open P c' (encrypted_token c) = Inr (nrt_plain n)"
    and parse: "parse_refresh_token P X (nrt_plain n) = Some \<lparr>prt_jti = nrt_jti n, prt_hash = nrt_hash n\<rparr>"
    and clock: "\<And>k. clk e' k < clk e 2 + receipt_window" "\<And>k. clk e' k < nrt_expires_at n"
  shows "v = Outcome (Rotated \<lparr>si_user_id = tk_user r, si_session_id = tk_family r\<rparr>)"
    "rotate_inner P X e' (tk_jti r) (tk_hash r) n' (Some c') s' =
      (Inr (Recovered \<lparr>si_user_id = tk_user r, si_session_id = tk_family r\<rparr> (nrt_plain n)), s')"
proof -
  let ?new = "fresh_token (tk_user r) (tk_family r) n (Some (tk_id r))"
  let ?old = "rotated_token (clk e 2) (Some c) r"
  have run: "exchange_token e (stored_token r) n (Some c) s = (Inr v, s')"
    and live: "live_account (s_core s) (tk_user r)"
    using first r(2) exchanged
    by (auto simp: rotate_inner_def lock_token_row [OF sessions_ok_distinct [OF ok] r(1) refl]
        split: if_splits dest!: transaction_OkD)
  show v: "v = Outcome (Rotated \<lparr>si_user_id = tk_user r, si_session_id = tk_family r\<rparr>)"
    using run by (rule exchange_tokenE)
  have ok': "sessions_ok s'"
    by (rule exchange_token_keeps [OF ok r run])
  note dist = sessions_ok_distinct [OF ok']
  have rows: "?old \<in> set (refresh_tokens s')" "?new \<in> set (refresh_tokens s')"
    and acc: "user_account (s_core s') = user_account (s_core s)"
    using run r(1) by (auto elim!: exchange_tokenE simp: upd_where_def)
  obtain f where f: "f \<in> set (refresh_token_family (s_core s'))" "ses_id f = tk_family r"
    "ses_user f = tk_user r"
    using ok' rows(2) by (auto simp: sessions_ok_def tables_ok_def token_owned_def)
  note one = tables_ok_live [OF ok' [unfolded sessions_ok_def] rows(2), simplified, OF f(1,2)]
  have locked: "lock_token (clk e' 0) s' (tk_jti r) (tk_hash r) None (Some (request_hash c')) =
      Some (stored_token ?old)"
    using lock_token_row [OF dist rows(1), of "tk_jti r"] live acc same clock(1) [of 0]
    by (simp add: token_usable_def live_account_def)
  have "active_family (clk e' 1) s' (tk_user r) (tk_family r)"
    using f one(1,3) clock(2) [of 1] by (auto simp: active_family_def family_active_def)
  moreover have "matching_receipt s' (tk_id r) (Some c') = Some c'"
    using matching_receipt_row [OF dist rows(1)] same by (simp add: foreign_receipt_def)
  moreover have "recover_row (clk e' 2) s' (tk_id r) = Some (encrypted_token c, nrt_jti n, nrt_hash n)"
  proof -
    have "find (\<lambda>x. tk_parent x = Some (tk_id r) \<and> tk_family x = tk_family r \<and> \<not> tk_revoked x \<and>
        tk_expires_at x > clk e' 2) (refresh_tokens s') = Some ?new"
      using rows(2) one(2) clock(2) [of 2]
      by (intro find_only) (auto simp: live_tokens_def dest!: arg_cong [where f = set])
    then show ?thesis
      using find_token_row [OF dist rows(1)] clock(1) [of 2] by (simp add: recover_row_def)
  qed
  ultimately show "rotate_inner P X e' (tk_jti r) (tk_hash r) n' (Some c') s' =
      (Inr (Recovered \<lparr>si_user_id = tk_user r, si_session_id = tk_family r\<rparr> (nrt_plain n)), s')"
    using locked same(2) parse
    by (simp add: rotate_inner_def transaction_def recover_rotation_def)
qed

end
