(* ===== verification/Session_Upkeep.thy ===== *)
theory Session_Upkeep
  imports Session_Proofs
begin

text \<open>
  Everything else that writes the sessions: the ban of an account (\<^verbatim>\<open>src/administration/pg.rs\<close>), its
  erasure (\<^verbatim>\<open>fct_anonymize_user\<close> and \<^verbatim>\<open>fct_erase_mobile_sessions\<close> of \<^verbatim>\<open>db/001_schema_postgres.sql\<close>) and
  the three retention statements of \<^verbatim>\<open>src/privacy/maintenance.rs\<close>, and what they leave of the
  invariant: the retention may remove the last token of a session, but only after the session has
  expired.
\<close>

section \<open>Statements\<close>

text \<open>\<^verbatim>\<open>revoke_mobile_sessions\<close>: the ban of a user.\<close>

definition banned_family :: "instant \<Rightarrow> session_row \<Rightarrow> session_row" where
  "banned_family t f = f\<lparr>ses_revoked_at := Some t, ses_revocation_reason := Some ''banned''\<rparr>"

definition revoke_mobile_sessions :: "instant \<Rightarrow> uuid \<Rightarrow> session_db \<Rightarrow> session_db" where
  "revoke_mobile_sessions t u s =
     s\<lparr>s_core := delete_devices (\<lambda>d. dev_user d = u) ((s_core s)\<lparr>refresh_token_family :=
         upd_where (\<lambda>f. ses_user f = u \<and> ses_revoked_at f = None) (banned_family t)
           (refresh_token_family (s_core s))\<rparr>),
       refresh_tokens := revoke_token_rows u None (refresh_tokens s)\<rparr>"

text \<open>\<^verbatim>\<open>DELETE FROM refresh_tokens\<close>: a token whose parent goes loses the reference to it.\<close>

definition delete_tokens :: "(token_row \<Rightarrow> bool) \<Rightarrow> token_row list \<Rightarrow> token_row list" where
  "delete_tokens P ts =
     map (\<lambda>t. if \<exists>d \<in> set ts. P d \<and> tk_parent t = Some (tk_id d) then t\<lparr>tk_parent := None\<rparr> else t)
       (filter (\<lambda>t. \<not> P t) ts)"

text \<open>\<^verbatim>\<open>DELETE FROM refresh_token_family\<close>: its tokens and devices go with a session.\<close>

definition delete_families :: "(session_row \<Rightarrow> bool) \<Rightarrow> session_db \<Rightarrow> session_db" where
  "delete_families P s =
     (let gone = (\<lambda>i u. \<exists>f \<in> set (refresh_token_family (s_core s)). P f \<and> ses_id f = i \<and> ses_user f = u) in
      s\<lparr>s_core := delete_devices (\<lambda>d. case dev_session d of None \<Rightarrow> False | Some i \<Rightarrow> gone i (dev_user d))
          ((s_core s)\<lparr>refresh_token_family := del_where P (refresh_token_family (s_core s))\<rparr>),
        refresh_tokens := delete_tokens (\<lambda>t. gone (tk_family t) (tk_user t)) (refresh_tokens s)\<rparr>)"

text \<open>The erasure of an account, as far as its sessions go.\<close>

definition erase_sessions :: "uuid \<Rightarrow> session_db \<Rightarrow> session_db" where
  "erase_sessions u s =
     (let s = s\<lparr>refresh_tokens := delete_tokens (\<lambda>t. tk_user t = u) (refresh_tokens s)\<rparr>;
          s = s\<lparr>s_core := delete_devices (\<lambda>d. dev_user d = u) (s_core s),
                web_billing_session := del_where (\<lambda>v. v = u) (web_billing_session s)\<rparr>
      in delete_families (\<lambda>f. ses_user f = u) s)"

text \<open>The retention; \<open>skip\<close> tells the rows another transaction has locked.\<close>

definition token_retained :: "instant \<Rightarrow> token_row \<Rightarrow> bool" where
  "token_retained now t \<longleftrightarrow>
     \<not> tk_expires_at t \<le> now \<or>
     tk_result t \<noteq> None \<and> (case tk_rotated_at t of Some x \<Rightarrow> x > now - days 7 | None \<Rightarrow> False)"

definition retention_refresh_tokens ::
  "(uuid \<Rightarrow> bool) \<Rightarrow> instant \<Rightarrow> nat \<Rightarrow> session_db \<Rightarrow> session_db" where
  "retention_refresh_tokens skip now limit s =
     (let ids = map tk_id (order_limit (\<lambda>t. (tk_expires_at t, tk_id t)) limit
            (filter (\<lambda>t. \<not> token_retained now t \<and> \<not> skip (tk_id t)) (refresh_tokens s)))
      in s\<lparr>refresh_tokens := delete_tokens (\<lambda>t. tk_id t \<in> set ids) (refresh_tokens s)\<rparr>)"

definition retention_token_families :: "instant \<Rightarrow> nat \<Rightarrow> session_db \<Rightarrow> session_db" where
  "retention_token_families now limit s =
     (let ids = map ses_id (order_limit (\<lambda>f. (ses_expires_at f, ses_id f)) limit
            (filter (\<lambda>f. ses_expires_at f \<le> now \<and>
               \<not> (\<exists>t \<in> set (refresh_tokens s). tk_family t = ses_id f)) (refresh_token_family (s_core s))))
      in delete_families (\<lambda>f. ses_id f \<in> set ids) s)"

definition retention_receipts :: "(uuid \<Rightarrow> bool) \<Rightarrow> instant \<Rightarrow> nat \<Rightarrow> session_db \<Rightarrow> session_db" where
  "retention_receipts skip now limit s =
     (let ids = map tk_id (order_limit (\<lambda>t. (the (tk_rotated_at t), tk_id t)) limit
            (filter (\<lambda>t. tk_result t \<noteq> None \<and> \<not> skip (tk_id t) \<and>
               (case tk_rotated_at t of Some x \<Rightarrow> x \<le> now - days 7 | None \<Rightarrow> False)) (refresh_tokens s)))
      in s\<lparr>refresh_tokens := upd_where (\<lambda>t. tk_id t \<in> set ids) (\<lambda>t. t\<lparr>tk_result := None\<rparr>) (refresh_tokens s)\<rparr>)"

section \<open>The states of the sessions\<close>

text \<open>\<open>session_life t s\<close>: the program can reach \<open>s\<close> by \<open>t\<close>, which no retention so far has run ahead of.  A
  session is opened by a login, by a verified code or by a review login; each ends in
  \<open>insert_session\<close>.\<close>

inductive session_life :: "instant \<Rightarrow> session_db \<Rightarrow> bool" where
  empty: "refresh_token_family (s_core s) = [] \<Longrightarrow> refresh_tokens s = [] \<Longrightarrow> session_life t s"
| waited: "session_life t s \<Longrightarrow> t \<le> t' \<Longrightarrow> session_life t' s"
| opened: "session_life t s \<Longrightarrow> insert_session e k i u n s = (Inr v, s') \<Longrightarrow> session_life t s'"
| operated: "session_life t s \<Longrightarrow> session_step s s' \<Longrightarrow> session_life t s'"
| banned: "session_life t s \<Longrightarrow> session_life t (revoke_mobile_sessions now u s)"
| erased: "session_life t s \<Longrightarrow> session_life t (erase_sessions u s)"
| tokens_retained: "session_life t s \<Longrightarrow> now \<le> t \<Longrightarrow> session_life t (retention_refresh_tokens skip now limit s)"
| families_retained: "session_life t s \<Longrightarrow> now \<le> t \<Longrightarrow> session_life t (retention_token_families now limit s)"
| receipts_retained: "session_life t s \<Longrightarrow> now \<le> t \<Longrightarrow> session_life t (retention_receipts skip now limit s)"

lemma reachable_life: "session_reachable s \<Longrightarrow> session_life t s"
  by (induction rule: session_reachable.induct) (auto intro: session_life.empty session_life.operated)

text \<open>A token was exchanged for at most one other, and is revoked since.\<close>

definition parents_ok :: "token_row list \<Rightarrow> bool" where
  "parents_ok ts \<longleftrightarrow>
     (\<forall>x \<in> set ts. \<forall>p. tk_parent x = Some p \<longrightarrow>
        (\<exists>y \<in> set ts. tk_id y = p \<and> tk_family y = tk_family x \<and> tk_revoked y))"

definition kept_ok :: "instant \<Rightarrow> session_db \<Rightarrow> bool" where
  "kept_ok t s \<longleftrightarrow>
     tables_ok (\<lambda>f. ses_expires_at f \<le> t) (refresh_token_family (s_core s)) (refresh_tokens s) \<and>
     parents_ok (refresh_tokens s)"

section \<open>Deleting\<close>

lemma set_delete_tokensD:
  assumes "x \<in> set (delete_tokens P ts)"
  obtains y where "y \<in> set ts" "\<not> P y" "tk_id x = tk_id y" "tk_jti x = tk_jti y" "tk_user x = tk_user y"
    "tk_family x = tk_family y" "tk_revoked x = tk_revoked y" "tk_result x = tk_result y"
    "tk_rotated_at x = tk_rotated_at y" "tk_expires_at x = tk_expires_at y"
    "\<And>p. tk_parent x = Some p \<Longrightarrow> tk_parent y = Some p \<and> (\<forall>d \<in> set ts. P d \<longrightarrow> tk_id d \<noteq> p)"
  using assms by (auto simp: delete_tokens_def split: if_splits)

lemma delete_tokens_keys:
  assumes "distinct (map tk_id ts)" "distinct (map tk_jti ts)"
  shows "distinct (map tk_id (delete_tokens P ts))" "distinct (map tk_jti (delete_tokens P ts))"
proof -
  have "map tk_id (delete_tokens P ts) = map tk_id (filter (\<lambda>t. \<not> P t) ts)"
    "map tk_jti (delete_tokens P ts) = map tk_jti (filter (\<lambda>t. \<not> P t) ts)"
    by (simp_all add: delete_tokens_def)
  then show "distinct (map tk_id (delete_tokens P ts))" "distinct (map tk_jti (delete_tokens P ts))"
    using assms by (simp_all add: distinct_map_filter)
qed

lemma delete_tokens_none: "(\<And>x. x \<in> set ts \<Longrightarrow> \<not> P x) \<Longrightarrow> delete_tokens P ts = ts"
  unfolding delete_tokens_def by (subst filter_True) (auto intro!: map_idI)

lemma live_tokens_delete:
  "map tk_expires_at (live_tokens (delete_tokens P ts) i) =
   map tk_expires_at (filter (\<lambda>t. \<not> P t) (live_tokens ts i))"
  by (simp add: delete_tokens_def live_tokens_def filter_map comp_def filter_filter
      if_distrib [of tk_family] if_distrib [of tk_revoked] if_distrib [of tk_expires_at] conj_commute
      cong: if_cong)

lemma family_ok_delete:
  assumes "family_ok gone ts f"
    and "\<And>t. t \<in> set ts \<Longrightarrow> tk_family t = ses_id f \<Longrightarrow> P t \<Longrightarrow> \<not> tk_revoked t \<Longrightarrow>
      tk_expires_at t = ses_expires_at f \<Longrightarrow> gone f"
  shows "family_ok gone (delete_tokens P ts) f"
proof (cases "ses_revoked_at f = None")
  case True
  note len = live_tokens_delete [of P ts "ses_id f"]
  from True assms(1) consider t where "live_tokens ts (ses_id f) = [t]" "tk_expires_at t = ses_expires_at f"
    | "gone f" "live_tokens ts (ses_id f) = []"
    by (auto simp: family_ok_def)
  then show ?thesis
  proof cases
    case 1
    have t: "t \<in> set ts" "tk_family t = ses_id f" "\<not> tk_revoked t"
      using arg_cong [OF 1(1), of set] by (auto simp: live_tokens_def)
    show ?thesis
    proof (cases "P t")
      case P: True
      then have "live_tokens (delete_tokens P ts) (ses_id f) = []"
        using len 1(1) by simp
      then show ?thesis
        using True assms(2) [OF t(1,2) P t(3) 1(2)] by (simp add: family_ok_def)
    next
      case False
      then have "map tk_expires_at (live_tokens (delete_tokens P ts) (ses_id f)) = [ses_expires_at f]"
        using len 1 by simp
      then show ?thesis
        using True by (auto simp: family_ok_def map_eq_Cons_conv)
    qed
  next
    case 2
    then show ?thesis
      using True len by (simp add: family_ok_def)
  qed
next
  case False
  then have "live_tokens ts (ses_id f) = []" "\<forall>t \<in> set ts. tk_family t = ses_id f \<longrightarrow> tk_result t = None"
    using assms(1) by (auto simp: family_ok_def)
  then show ?thesis
    using False live_tokens_delete [of P ts "ses_id f"]
    by (auto simp: family_ok_def elim!: set_delete_tokensD)
qed

lemma parents_ok_delete: "parents_ok ts \<Longrightarrow> parents_ok (delete_tokens P ts)"
  unfolding parents_ok_def
proof (intro ballI allI impI)
  fix x p
  assume ok: "\<forall>x \<in> set ts. \<forall>p. tk_parent x = Some p \<longrightarrow>
      (\<exists>y \<in> set ts. tk_id y = p \<and> tk_family y = tk_family x \<and> tk_revoked y)"
    and x: "x \<in> set (delete_tokens P ts)" "tk_parent x = Some p"
  from x(1) obtain y where y: "y \<in> set ts" "tk_family x = tk_family y" "tk_parent y = Some p"
    "\<forall>d \<in> set ts. P d \<longrightarrow> tk_id d \<noteq> p"
    by (rule set_delete_tokensD) (use x(2) in blast)
  obtain z where z: "z \<in> set ts" "tk_id z = p" "tk_family z = tk_family y" "tk_revoked z"
    using ok y(1,3) by blast
  then have "\<not> P z"
    using y(4) by blast
  let ?w = "if \<exists>d \<in> set ts. P d \<and> tk_parent z = Some (tk_id d) then z\<lparr>tk_parent := None\<rparr> else z"
  have w: "?w \<in> set (delete_tokens P ts)"
    using z(1) \<open>\<not> P z\<close> by (auto simp: delete_tokens_def)
  show "\<exists>y \<in> set (delete_tokens P ts). tk_id y = p \<and> tk_family y = tk_family x \<and> tk_revoked y"
    by (rule bexI [OF _ w]) (use z(2-4) y(2) in simp)
qed

lemma tables_ok_delete_tokens:
  assumes ok: "tables_ok gone fs ts"
    and "\<And>f t. f \<in> set fs \<Longrightarrow> t \<in> set ts \<Longrightarrow> tk_family t = ses_id f \<Longrightarrow> P t \<Longrightarrow> \<not> tk_revoked t \<Longrightarrow>
      tk_expires_at t = ses_expires_at f \<Longrightarrow> gone f"
  shows "tables_ok gone fs (delete_tokens P ts)"
proof -
  have "token_owned fs x \<and> (tk_rotated_at x \<noteq> None \<longrightarrow> tk_revoked x)" if "x \<in> set (delete_tokens P ts)" for x
    using that by (rule set_delete_tokensD) (use ok in \<open>auto simp: tables_ok_def token_owned_def\<close>)
  moreover have "family_ok gone (delete_tokens P ts) f" if "f \<in> set fs" for f
    by (rule family_ok_delete) (use ok that assms(2) in \<open>auto simp: tables_ok_def\<close>)
  ultimately show ?thesis
    using ok delete_tokens_keys by (simp add: tables_ok_def)
qed

text \<open>Dropping sessions together with all their tokens.\<close>

lemma tables_ok_delete_families:
  assumes ok: "tables_ok gone fs ts"
    and all: "\<And>t f. t \<in> set ts \<Longrightarrow> f \<in> set fs \<Longrightarrow> P f \<Longrightarrow> tk_family t = ses_id f \<Longrightarrow> Q t"
    and only: "\<And>t f. t \<in> set ts \<Longrightarrow> f \<in> set fs \<Longrightarrow> \<not> P f \<Longrightarrow> tk_family t = ses_id f \<Longrightarrow> \<not> Q t"
  shows "tables_ok gone (del_where P fs) (delete_tokens Q ts)"
proof -
  have "token_owned (del_where P fs) x \<and> (tk_rotated_at x \<noteq> None \<longrightarrow> tk_revoked x)"
    if "x \<in> set (delete_tokens Q ts)" for x
    using that
  proof (rule set_delete_tokensD)
    fix y
    assume y: "y \<in> set ts" "\<not> Q y" "tk_user x = tk_user y" "tk_family x = tk_family y"
      "tk_revoked x = tk_revoked y" "tk_rotated_at x = tk_rotated_at y"
    obtain f where f: "f \<in> set fs" "ses_id f = tk_family y" "ses_user f = tk_user y"
      using ok y(1) by (auto simp: tables_ok_def token_owned_def)
    then have "\<not> P f"
      using all [OF y(1) f(1)] y(2) by auto
    then show ?thesis
      using f y ok by (auto simp: tables_ok_def token_owned_def del_where_def)
  qed
  moreover have "family_ok gone (delete_tokens Q ts) f" if "f \<in> set (del_where P fs)" for f
    by (rule family_ok_delete) (use ok that only in \<open>auto simp: tables_ok_def del_where_def\<close>)
  moreover have "distinct (map ses_id (del_where P fs))"
    using ok by (simp add: tables_ok_def del_where_def distinct_map_filter)
  ultimately show ?thesis
    using ok delete_tokens_keys by (simp add: tables_ok_def)
qed

section \<open>The invariant\<close>

lemma family_ok_mono: "family_ok gone ts f \<Longrightarrow> (gone f \<Longrightarrow> gone' f) \<Longrightarrow> family_ok gone' ts f"
  by (auto simp: family_ok_def split: if_splits)

lemma kept_ok_mono: "kept_ok t s \<Longrightarrow> t \<le> t' \<Longrightarrow> kept_ok t' s"
  by (auto simp: kept_ok_def tables_ok_def elim!: family_ok_mono)

lemma kept_ok_tables:
  "refresh_token_family (s_core s') = refresh_token_family (s_core s) \<Longrightarrow>
   refresh_tokens s' = refresh_tokens s \<Longrightarrow> kept_ok t s \<Longrightarrow> kept_ok t s'"
  by (simp add: kept_ok_def)

lemma kept_ok_distinct: "kept_ok t s \<Longrightarrow> tokens_distinct s"
  by (simp add: kept_ok_def tables_ok_def tokens_distinct_def)

lemma parents_ok_upd:
  assumes "parents_ok ts"
    and "\<And>t. tk_id (g t) = tk_id t \<and> tk_family (g t) = tk_family t \<and> tk_parent (g t) = tk_parent t \<and>
      (tk_revoked t \<longrightarrow> tk_revoked (g t))"
  shows "parents_ok (upd_where P g ts)"
  unfolding parents_ok_def
proof (intro ballI allI impI)
  fix x p
  assume x: "x \<in> set (upd_where P g ts)" "tk_parent x = Some p"
  obtain x0 where x0: "x0 \<in> set ts" "x = (if P x0 then g x0 else x0)"
    using set_upd_whereD [OF x(1)] by blast
  have "tk_parent x0 = Some p" "tk_family x = tk_family x0"
    using x(2) x0(2) assms(2) by (auto split: if_splits)
  then obtain y where y: "y \<in> set ts" "tk_id y = p" "tk_family y = tk_family x" "tk_revoked y"
    using assms(1) x0(1) unfolding parents_ok_def by metis
  let ?y = "if P y then g y else y"
  have "?y \<in> set (upd_where P g ts)"
    using y(1) by (auto simp: upd_where_def)
  then show "\<exists>y \<in> set (upd_where P g ts). tk_id y = p \<and> tk_family y = tk_family x \<and> tk_revoked y"
    by (rule bexI [rotated]) (use y(2-4) assms(2) in simp)
qed

lemma parents_ok_append:
  assumes "parents_ok ts" "\<And>p. tk_parent t = Some p \<Longrightarrow>
      \<exists>y \<in> set ts. tk_id y = p \<and> tk_family y = tk_family t \<and> tk_revoked y"
  shows "parents_ok (ts @ [t])"
  using assms by (auto simp: parents_ok_def)

lemma insert_session_kept: "keeps (kept_ok t) (insert_session e k i u n)"
proof (rule validI)
  fix s v s'
  assume ok: "kept_ok t s" and run: "insert_session e k i u n s = (Inr v, s')"
  obtain s1 s2 s3 where s1: "on_session_core (insert_family i u n) s = (Inr (), s1)"
    and s2: "insert_token u i n None s1 = (Inr (), s2)"
    and s3: "on_session_core (enqueue_notification e 0 (clk e k) u (SUuid i) (NewSession i)) s2 =
      (Inr (), s3)" and s': "s' = s3"
    using run by (auto simp: insert_session_def ok_def dest!: then_op_InrD)
  have f1: "refresh_token_family (s_core s1) = refresh_token_family (s_core s) @ [new_family i u n]"
    "refresh_tokens s1 = refresh_tokens s" "i \<notin> ses_id ` set (refresh_token_family (s_core s))"
    using on_session_core_Inr [OF s1] by (auto simp: insert_family_def split: if_splits)
  have "kept_ok t s2"
    using s2 ok f1 tables_ok_new_family [OF _ f1(3)]
    by (elim insert_tokenE) (auto simp: kept_ok_def intro!: parents_ok_append)
  then show "kept_ok t s'"
    using on_session_core_Inr [OF s3] s' by (auto simp: kept_ok_def dest: enqueue_keeps_families)
qed

lemma parents_ok_revoke: "parents_ok ts \<Longrightarrow> parents_ok (revoke_token_rows u i ts)"
  unfolding revoke_token_rows_def by (rule parents_ok_upd) simp_all

lemma revoke_families_kept: "keeps (kept_ok t) (revoke_families now u reason i)"
  by (rule validI) (auto simp: kept_ok_def dest!: revoke_families_eq intro: tables_ok_revoke parents_ok_revoke)

lemma exchange_token_kept:
  assumes ok: "kept_ok t s" and r: "r \<in> set (refresh_tokens s)" "\<not> tk_revoked r"
    and run: "exchange_token e (stored_token r) n rc s = (Inr v, s')"
  shows "kept_ok t s'"
  using run
proof (rule exchange_tokenE)
  let ?ts = "upd_where (\<lambda>t. tk_id t = tk_id r) (rotated_token (clk e 2) rc) (refresh_tokens s)"
  let ?new = "fresh_token (tk_user r) (tk_family r) n (Some (tk_id r))"
  assume s': "s' = s\<lparr>s_core := (s_core s)\<lparr>refresh_token_family :=
              upd_where (\<lambda>f. ses_id f = tk_family r) (refreshed_family (clk e 3) (nrt_expires_at n))
                (refresh_token_family (s_core s))\<rparr>, refresh_tokens := ?ts @ [?new]\<rparr>"
    and ids: "nrt_id n \<notin> tk_id ` set (refresh_tokens s)" "nrt_jti n \<notin> tk_jti ` set (refresh_tokens s)"
  have old: "rotated_token (clk e 2) rc r \<in> set ?ts"
    using r(1) by (auto simp: upd_where_def)
  have "parents_ok (?ts @ [?new])"
  proof (rule parents_ok_append)
    show "parents_ok ?ts"
      using ok by (intro parents_ok_upd) (simp_all add: kept_ok_def)
  next
    fix p
    assume "tk_parent ?new = Some p"
    then show "\<exists>y \<in> set ?ts. tk_id y = p \<and> tk_family y = tk_family ?new \<and> tk_revoked y"
      by (intro bexI [OF _ old]) simp
  qed
  then show ?thesis
    using ok r ids tables_ok_exchange [of _ "refresh_token_family (s_core s)" "refresh_tokens s" r n]
    by (simp add: kept_ok_def s')
qed

interpretation upkept: kept_by_statements "kept_ok t"
  by unfold_locales
     (auto intro: insert_session_kept revoke_families_kept exchange_token_kept kept_ok_tables)

section \<open>The invariant under the other writers\<close>

lemma banned_kept: "kept_ok t s \<Longrightarrow> kept_ok t (revoke_mobile_sessions now u s)"
proof -
  assume ok: "kept_ok t s"
  have "tables_ok (\<lambda>f. ses_expires_at f \<le> t)
      (upd_where (\<lambda>f. ses_user f = u \<and> ses_revoked_at f = None \<and> selected None (ses_id f)) (banned_family now)
        (refresh_token_family (s_core s))) (revoke_token_rows u None (refresh_tokens s))"
    using ok by (intro tables_ok_revoke_with) (auto simp: kept_ok_def banned_family_def)
  then show ?thesis
    using ok by (simp add: kept_ok_def revoke_mobile_sessions_def selected_def parents_ok_revoke)
qed

lemma delete_families_eq:
  "refresh_token_family (s_core (delete_families P s)) = del_where P (refresh_token_family (s_core s))"
  "refresh_tokens (delete_families P s) = delete_tokens (\<lambda>t. \<exists>f \<in> set (refresh_token_family (s_core s)).
     P f \<and> ses_id f = tk_family t \<and> ses_user f = tk_user t) (refresh_tokens s)"
  by (simp_all add: delete_families_def Let_def)

lemma delete_families_kept:
  assumes ok: "kept_ok t s"
  shows "kept_ok t (delete_families P s)"
proof -
  let ?fs = "refresh_token_family (s_core s)" and ?ts = "refresh_tokens s"
  have tab: "tables_ok (\<lambda>f. ses_expires_at f \<le> t) ?fs ?ts"
    using ok by (simp add: kept_ok_def)
  note user = tables_ok_family_of [OF tab]
  have same: "g = f" if "f \<in> set ?fs" "g \<in> set ?fs" "ses_id g = ses_id f" for f g
    using tab distinct_id_eq [of ses_id ?fs g f] that by (simp add: tables_ok_def)
  have "tables_ok (\<lambda>f. ses_expires_at f \<le> t) (del_where P ?fs)
      (delete_tokens (\<lambda>t. \<exists>f \<in> set ?fs. P f \<and> ses_id f = tk_family t \<and> ses_user f = tk_user t) ?ts)"
  proof (rule tables_ok_delete_families [OF tab], goal_cases)
    case (1 x f)
    then show ?case
      using user [OF 1(1,2,4)] by auto
  next
    case (2 x f)
    then show ?case
      using same [OF 2(2)] by auto
  qed
  then show ?thesis
    using ok by (simp add: kept_ok_def delete_families_eq parents_ok_delete)
qed

lemma erased_kept:
  assumes "kept_ok t s"
  shows "kept_ok t (erase_sessions u s)"
proof -
  let ?fs = "refresh_token_family (s_core s)" and ?ts = "refresh_tokens s"
  let ?s = "s\<lparr>refresh_tokens := delete_tokens (\<lambda>t. tk_user t = u) ?ts,
      s_core := delete_devices (\<lambda>d. dev_user d = u) (s_core s),
      web_billing_session := del_where (\<lambda>v. v = u) (web_billing_session s)\<rparr>"
  have tab: "tables_ok (\<lambda>f. ses_expires_at f \<le> t) ?fs ?ts"
    using assms by (simp add: kept_ok_def)
  have "tables_ok (\<lambda>f. ses_expires_at f \<le> t) (del_where (\<lambda>f. ses_user f = u) ?fs)
      (delete_tokens (\<lambda>t. tk_user t = u) ?ts)"
    by (rule tables_ok_delete_families [OF tab]) (use tables_ok_family_of [OF tab] in auto)
  moreover have "\<not> (\<exists>f \<in> set ?fs. ses_user f = u \<and> ses_id f = tk_family x \<and> ses_user f = tk_user x)"
    if "x \<in> set (delete_tokens (\<lambda>t. tk_user t = u) ?ts)" for x
    using that by (rule set_delete_tokensD) auto
  then have "delete_tokens (\<lambda>x. \<exists>f \<in> set ?fs. ses_user f = u \<and> ses_id f = tk_family x \<and> ses_user f = tk_user x)
      (delete_tokens (\<lambda>t. tk_user t = u) ?ts) = delete_tokens (\<lambda>t. tk_user t = u) ?ts"
    by (intro delete_tokens_none) blast
  ultimately show ?thesis
    using assms
    by (simp add: kept_ok_def erase_sessions_def Let_def delete_families_eq parents_ok_delete)
qed

lemma tokens_retained_kept:
  assumes "kept_ok t s" "now \<le> t"
  shows "kept_ok t (retention_refresh_tokens skip now limit s)"
proof -
  let ?due = "filter (\<lambda>t. \<not> token_retained now t \<and> \<not> skip (tk_id t)) (refresh_tokens s)"
  let ?ids = "tk_id ` set (order_limit (\<lambda>t. (tk_expires_at t, tk_id t)) limit ?due)"
  have due: "tk_expires_at x \<le> now" if x: "x \<in> set (refresh_tokens s)" "tk_id x \<in> ?ids" for x
  proof -
    obtain y where y: "y \<in> set ?due" "tk_id y = tk_id x"
      using x(2) by (auto simp: image_iff dest!: subsetD [OF set_order_limit_subset])
    then have "y = x"
      using kept_ok_distinct [OF assms(1)] distinct_id_eq [of tk_id "refresh_tokens s" y x] x(1)
      by (simp add: tokens_distinct_def)
    then show ?thesis
      using y(1) by (simp add: token_retained_def)
  qed
  have "tables_ok (\<lambda>f. ses_expires_at f \<le> t) (refresh_token_family (s_core s))
      (delete_tokens (\<lambda>x. tk_id x \<in> ?ids) (refresh_tokens s))"
  proof (rule tables_ok_delete_tokens, goal_cases)
    case (2 f x)
    then show ?case
      using due [of x] assms(2) by auto
  qed (use assms(1) in \<open>simp add: kept_ok_def\<close>)
  then show ?thesis
    using assms(1) by (simp add: kept_ok_def retention_refresh_tokens_def Let_def parents_ok_delete)
qed

lemma receipts_retained_kept:
  assumes "kept_ok t s"
  shows "kept_ok t (retention_receipts skip now limit s)"
proof -
  have "tables_ok gone fs (upd_where P (\<lambda>t. t\<lparr>tk_result := None\<rparr>) ts)"
    if "tables_ok gone fs ts" for gone fs ts P
  proof -
    have live: "map tk_expires_at (live_tokens (upd_where P (\<lambda>t. t\<lparr>tk_result := None\<rparr>) ts) i) =
        map tk_expires_at (live_tokens ts i)" for i
      by (induction ts) (auto simp: live_tokens_def upd_where_def)
    have "family_ok gone (upd_where P (\<lambda>t. t\<lparr>tk_result := None\<rparr>) ts) f" if "family_ok gone ts f" for f
      using that live [of "ses_id f"]
      by (fastforce simp: family_ok_def map_eq_Cons_conv Cons_eq_map_conv dest!: set_upd_whereD split: if_splits)
    then show ?thesis
      using that by (auto simp: tables_ok_def map_upd_where token_owned_def dest!: set_upd_whereD split: if_splits)
  qed
  then show ?thesis
    using assms by (simp add: kept_ok_def retention_receipts_def Let_def parents_ok_upd)
qed

lemma session_life_kept: "session_life t s \<Longrightarrow> kept_ok t s"
proof (induction rule: session_life.induct)
  case (empty s t)
  then show ?case
    by (simp add: kept_ok_def tables_ok_def parents_ok_def)
next
  case (opened t s e k i u n v s')
  then show ?case
    using keeps_apply [OF insert_session_kept] by blast
next
  case (families_retained t s now limit)
  then show ?case
    unfolding retention_token_families_def Let_def by (intro delete_families_kept)
qed (auto intro: kept_ok_mono upkept.step_keeps banned_kept erased_kept tokens_retained_kept
     receipts_retained_kept)

section \<open>Exchanging a token\<close>

lemma exchanged_token_is_live:
  assumes "tokens_distinct s" "x \<in> set (refresh_tokens s)"
    and "rotate_inner P X e (tk_jti x) h n rc s = (Inr (Outcome (Rotated i)), s')"
  shows "\<not> tk_revoked x" "live_account (s_core s) (tk_user x)"
    "active_family (clk e 1) s (tk_user x) (tk_family x)"
  using assms(3)
  by (auto simp: rotate_inner_def transaction_def lock_token_row [OF assms(1,2) refl] recover_rotation_def
      ok_def split: if_splits option.splits sum.splits prod.splits dest!: bind_op_InrD)

text \<open>The successor of a live token can be inserted: no token has it as its parent.\<close>

lemma live_token_has_no_child:
  assumes "kept_ok t s" "r \<in> set (refresh_tokens s)" "\<not> tk_revoked r" "x \<in> set (refresh_tokens s)"
  shows "tk_parent x \<noteq> Some (tk_id r)"
proof
  assume "tk_parent x = Some (tk_id r)"
  then obtain y where y: "y \<in> set (refresh_tokens s)" "tk_id y = tk_id r" "tk_revoked y"
    using assms(1,4) by (auto simp: kept_ok_def parents_ok_def)
  then have "y = r"
    using kept_ok_distinct [OF assms(1)] distinct_id_eq [of tk_id "refresh_tokens s" y r] assms(2)
    by (simp add: tokens_distinct_def)
  then show False
    using y(3) assms(3) by simp
qed

lemma live_token_exchanged:
  assumes ok: "kept_ok t s" and r: "r \<in> set (refresh_tokens s)" "\<not> tk_revoked r"
    and usable: "clk e 0 < tk_expires_at r" "live_account (s_core s) (tk_user r)"
      "active_family (clk e 1) s (tk_user r) (tk_family r)"
    and ids: "nrt_id n \<notin> tk_id ` set (refresh_tokens s)" "nrt_jti n \<notin> tk_jti ` set (refresh_tokens s)"
  shows "\<exists>s'. rotate_inner P X e (tk_jti r) (tk_hash r) n rc s =
    (Inr (Outcome (Rotated \<lparr>si_user_id = tk_user r, si_session_id = tk_family r\<rparr>)), s')"
proof -
  let ?s1 = "update_token (tk_id r) (rotated_token (clk e 2) rc) s"
  have tab: "tables_ok (\<lambda>f. ses_expires_at f \<le> t) (refresh_token_family (s_core s)) (refresh_tokens s)"
    using ok by (simp add: kept_ok_def)
  obtain f where f: "f \<in> set (refresh_token_family (s_core s))" "ses_id f = tk_family r" "ses_user f = tk_user r"
    using tab r(1) by (auto simp: tables_ok_def token_owned_def)
  have new: "tk_id x \<noteq> nrt_id n \<and> tk_jti x \<noteq> nrt_jti n \<and> \<not> (tk_family x = tk_family r \<and> \<not> tk_revoked x) \<and>
      tk_parent x \<noteq> Some (tk_id r)" if x: "x \<in> set (refresh_tokens ?s1)" for x
  proof -
    obtain y where y: "y \<in> set (refresh_tokens s)"
      "x = (if tk_id y = tk_id r then rotated_token (clk e 2) rc y else y)"
      using set_upd_whereD [OF x [unfolded update_token_def, simplified]] by blast
    have "y = r" if "tk_family y = tk_family r" "\<not> tk_revoked y"
      using arg_cong [OF tables_ok_live(2) [OF tab r f(1,2)], of set] that y(1) by (auto simp: live_tokens_def)
    moreover have "tk_id y \<noteq> nrt_id n" "tk_jti y \<noteq> nrt_jti n"
      using ids y(1) by force+
    ultimately show ?thesis
      using y live_token_has_no_child [OF ok r y(1)] by (auto split: if_splits)
  qed
  have "rotated_token (clk e 2) rc r \<in> set (refresh_tokens ?s1)"
    using r(1) by (auto simp: update_token_def upd_where_def)
  then have parent: "\<exists>x \<in> set (refresh_tokens ?s1). tk_id x = tk_id r \<and> tk_family x = tk_family r"
    by (rule bexI [rotated]) simp
  have core: "s_core ?s1 = s_core s"
    by (simp add: update_token_def)
  have account: "user_account (s_core s) (tk_user r) \<noteq> None"
    using usable(2) by (auto simp: live_account_def split: option.splits)
  have id: "tk_id r \<noteq> nrt_id n"
    using ids(1) r(1) by force
  have "\<exists>s2. insert_token (tk_user r) (tk_family r) n (Some (tk_id r)) ?s1 = (Inr (), s2)"
    unfolding insert_token_def core using id new parent account f by (auto simp: split: if_splits)
  then obtain s2 where s2: "insert_token (tk_user r) (tk_family r) n (Some (tk_id r)) ?s1 = (Inr (), s2)"
    by blast
  have "lock_token (clk e 0) s (tk_jti r) (tk_hash r) None rh = Some (stored_token r)" for rh
    using usable(1,2) by (simp add: lock_token_row [OF kept_ok_distinct [OF ok] r(1) refl] token_usable_def)
  then show ?thesis
    using usable(3) r(2) s2
    by (simp add: rotate_inner_def transaction_def exchange_token_def then_op_def bind_op_def modify_def ok_def
        stored_token_def)
qed

text \<open>The live token of a session that has not expired.\<close>

lemma live_token_of_session:
  assumes ok: "kept_ok t s" and f: "f \<in> set (refresh_token_family (s_core s))" "ses_revoked_at f = None"
    "t < ses_expires_at f"
  obtains r where "r \<in> set (refresh_tokens s)" "tk_family r = ses_id f" "\<not> tk_revoked r"
    "tk_user r = ses_user f" "tk_expires_at r = ses_expires_at f"
    "\<And>x. x \<in> set (refresh_tokens s) \<Longrightarrow> tk_family x = ses_id f \<Longrightarrow> \<not> tk_revoked x \<Longrightarrow> x = r"
proof -
  have tab: "tables_ok (\<lambda>f. ses_expires_at f \<le> t) (refresh_token_family (s_core s)) (refresh_tokens s)"
    using ok by (simp add: kept_ok_def)
  obtain r where r: "live_tokens (refresh_tokens s) (ses_id f) = [r]" "tk_expires_at r = ses_expires_at f"
    using tab f by (auto simp: tables_ok_def family_ok_def dest!: bspec)
  have live: "x \<in> set (refresh_tokens s) \<and> tk_family x = ses_id f \<and> \<not> tk_revoked x \<longleftrightarrow> x = r" for x
    using arg_cong [OF r(1), of set] by (auto simp: live_tokens_def)
  then show thesis
    using that [of r] r(2) tables_ok_family_of [OF tab _ f(1), of r] by blast
qed

lemma session_of_token:
  assumes ok: "kept_ok t s" and f: "f \<in> set (refresh_token_family (s_core s))"
    and x: "x \<in> set (refresh_tokens s)" "tk_family x = ses_id f"
  shows "active_family now s (tk_user x) (tk_family x) \<longleftrightarrow> ses_revoked_at f = None \<and> now < ses_expires_at f"
    "tk_user x = ses_user f"
proof -
  have tab: "tables_ok (\<lambda>f. ses_expires_at f \<le> t) (refresh_token_family (s_core s)) (refresh_tokens s)"
    using ok by (simp add: kept_ok_def)
  show user: "tk_user x = ses_user f"
    by (rule tables_ok_family_of [OF tab x(1) f x(2)])
  have "g = f" if "g \<in> set (refresh_token_family (s_core s))" "ses_id g = ses_id f" for g
    using distinct_id_eq [OF _ that(1) f that(2)] tab by (simp add: tables_ok_def)
  then show "active_family now s (tk_user x) (tk_family x) \<longleftrightarrow> ses_revoked_at f = None \<and> now < ses_expires_at f"
    using f user x(2) by (auto simp: active_family_def family_active_def)
qed

end
