(* ===== verification/Session_Samples.thy ===== *)
theory Session_Samples
  imports Session_Proofs Samples
begin

text \<open>
  A small world for the sessions: the hyphenated and base64 texts written out, a cipher and a digest
  that satisfy the documented laws, a service, and a session of user 1 that is created and refreshed.
\<close>

section \<open>Text\<close>

definition hyphenate :: "string \<Rightarrow> string" where
  "hyphenate h =
     take 8 h @ ''-'' @ take 4 (drop 8 h) @ ''-'' @ take 4 (drop 12 h) @ ''-'' @
     take 4 (drop 16 h) @ ''-'' @ drop 20 h"

definition sample_hyphenated :: "uuid \<Rightarrow> string" where
  "sample_hyphenated u = hyphenate (hex_lower (be_bytes 16 u))"

definition sample_parse :: "string \<Rightarrow> uuid option" where
  "sample_parse v = map_option from_be_bytes (hex_decode (filter (\<lambda>c. c \<noteq> CHR ''-'') v))"

definition base64url_alphabet :: string where
  "base64url_alphabet = ''ABCDEFGHIJKLMNOPQRSTUVWXYZabcdefghijklmnopqrstuvwxyz0123456789-_''"

definition sextet :: "nat \<Rightarrow> char" where
  "sextet n = base64url_alphabet ! (n mod 64)"

fun sample_base64 :: "byte list \<Rightarrow> string" where
  "sample_base64 (a # b # c # r) =
     (let n = unat a * 65536 + unat b * 256 + unat c
      in [sextet (n div 262144), sextet (n div 4096), sextet (n div 64), sextet n] @ sample_base64 r)"
| "sample_base64 [a, b] =
     (let n = unat a * 1024 + unat b * 4
      in [sextet (n div 4096), sextet (n div 64), sextet n])"
| "sample_base64 [a] = [sextet (unat a div 4), sextet (unat a * 16)]"
| "sample_base64 [] = []"

definition sample_text :: text_crates where
  "sample_text =
     \<lparr>hyphenated = sample_hyphenated, parse_uuid = sample_parse, base64url_encode = sample_base64,
      base64url_decode = (\<lambda>_. None)\<rparr>"

lemma sextet_char: "base64url_char (sextet n)"
proof -
  have "\<forall>c \<in> set base64url_alphabet. base64url_char c"
    by code_simp
  moreover have "sextet n \<in> set base64url_alphabet"
    unfolding sextet_def by (rule nth_mem) (simp add: base64url_alphabet_def)
  ultimately show ?thesis
    by blast
qed

lemma sample_base64_shape:
  "list_all base64url_char (sample_base64 bs)" "length (sample_base64 bs) = (4 * length bs + 2) div 3"
  by (induction bs rule: sample_base64.induct) (auto simp: sextet_char Let_def)

lemma hex_char_plain: "n < 16 \<Longrightarrow> hex_char n \<noteq> CHR ''-'' \<and> hex_char n \<noteq> CHR '':''"
proof -
  have "\<forall>n \<in> set [0..<16]. hex_char n \<noteq> CHR ''-'' \<and> hex_char n \<noteq> CHR '':''"
    by code_simp
  then show "n < 16 \<Longrightarrow> ?thesis"
    by simp
qed

lemma set_hyphenate: "set (hyphenate h) \<subseteq> insert CHR ''-'' (set h)"
  by (auto simp: hyphenate_def dest: in_set_takeD in_set_dropD)

lemma take_drop_rejoin: "take n (drop m h) @ drop (m + n) h = drop m h"
  by (metis append_take_drop_id drop_drop add.commute)

lemma filter_hyphenate: "CHR ''-'' \<notin> set h \<Longrightarrow> filter (\<lambda>c. c \<noteq> CHR ''-'') (hyphenate h) = h"
proof -
  assume no: "CHR ''-'' \<notin> set h"
  have keep: "filter (\<lambda>c. c \<noteq> CHR ''-'') (take n (drop m h)) = take n (drop m h)"
    "filter (\<lambda>c. c \<noteq> CHR ''-'') (take n h) = take n h"
    "filter (\<lambda>c. c \<noteq> CHR ''-'') (drop m h) = drop m h" for n m
    using no by (auto simp: filter_id_conv dest: in_set_takeD in_set_dropD)
  have "filter (\<lambda>c. c \<noteq> CHR ''-'') (hyphenate h) =
      take 8 h @ take 4 (drop 8 h) @ take 4 (drop 12 h) @ take 4 (drop 16 h) @ drop 20 h"
    by (simp add: hyphenate_def keep)
  also have "\<dots> = h"
    using take_drop_rejoin [of 4 16 h] take_drop_rejoin [of 4 12 h] take_drop_rejoin [of 4 8 h]
    by simp
  finally show ?thesis .
qed

lemma sample_text_laws: "text_laws sample_text"
proof -
  have hex: "CHR ''-'' \<notin> set (hex_lower bs)" "CHR '':'' \<notin> set (hex_lower bs)" for bs
    using set_hex_lower hex_char_plain by metis+
  have "is_ascii (hyphenate (hex_lower bs))" for bs
    using set_hyphenate [of "hex_lower bs"] hex_lower_ascii [of bs] by (fastforce simp: is_ascii_def)
  moreover have "CHR '':'' \<notin> set (hyphenate (hex_lower bs))" for bs
    using set_hyphenate [of "hex_lower bs"] hex by auto
  moreover have "sample_parse (sample_hyphenated v) = Some v" for v
    by (simp add: sample_parse_def sample_hyphenated_def filter_hyphenate hex from_be_bytes_inverse)
  ultimately show ?thesis
    by (simp add: text_laws_def sample_text_def sample_hyphenated_def sample_base64_shape)
qed

section \<open>Cryptography\<close>

definition sample_primitives :: primitives where
  "sample_primitives =
     \<lparr>gcm_encrypt = (\<lambda>k n a m. Some (m @ replicate 16 7)),
      gcm_decrypt = (\<lambda>k n a c. Some (take (length c - 16) c)),
      sha256_digest = (\<lambda>m. take 32 (m @ replicate 32 0)),
      hmac_digest = (\<lambda>k m. take 32 (m @ replicate 32 0))\<rparr>"

lemma sample_aead_laws: "aead_laws sample_primitives"
  by (simp add: aead_laws_def sample_primitives_def)

section \<open>A service and its requests\<close>

definition sample_service :: mobile_auth_service where
  "sample_service =
     \<lparr>auth_primitives = sample_primitives, auth_text = sample_text,
      auth_jwt = \<lparr>jwt_encode = (\<lambda>kid c key. Some (ac_sid c)), decode_header = (\<lambda>_. None),
                  jwt_decode = (\<lambda>t k a i. None)\<rparr>,
      auth_config = \<lparr>jwt_secret = ''secret'', active_kid = ''primary'',
                     verification_keys = [''primary'' \<mapsto> ''secret''], access_ttl = 900,
                     refresh_ttl = hours 1\<rparr>,
      auth_terms_version = ''1'', auth_privacy_version = ''1''\<rparr>"

definition sample_request :: "nat \<Rightarrow> auth_request" where
  "sample_request k =
     \<lparr>req_random = \<lparr>rnd_id = Some (500 + of_nat k),
                    rnd_jti = Some (0x11111111111141118111111111111100 + of_nat k),
                    rnd_secret = Some (replicate 32 (of_nat k))\<rparr>,
      req_nonce = Some (replicate 12 1), req_now = 0, req_signed_at = 0\<rparr>"

definition sample_sessions :: session_db where
  "sample_sessions = \<lparr>s_core = sample_empty, refresh_tokens = [], web_billing_session = []\<rparr>"

text \<open>The token a request makes, its text left folded.\<close>

definition sample_plain :: "nat \<Rightarrow> string" where
  "sample_plain k =
     hyphenated sample_text (0x11111111111141118111111111111100 + of_nat k) @ '':'' @
     base64url_encode sample_text (replicate 32 (of_nat k))"

definition sample_hash :: "nat \<Rightarrow> string" where
  "sample_hash k =
     sha256_hex_of sample_primitives (as_bytes (base64url_encode sample_text (replicate 32 (of_nat k))))"

definition sample_token :: "nat \<Rightarrow> new_token" where
  "sample_token k =
     \<lparr>nrt_id = 500 + of_nat k, nrt_jti = 0x11111111111141118111111111111100 + of_nat k,
      nrt_plain = sample_plain k, nrt_hash = sample_hash k, nrt_created_at = 0,
      nrt_expires_at = 3600000000\<rparr>"

lemma sample_make_token: "make_refresh_token sample_service (sample_request k) = Inr (sample_token k)"
  by (simp add: make_refresh_token_def sample_service_def sample_request_def new_refresh_token_def
      ttl_from_std_def checked_add_signed_def hours_def seconds_def days_def max_utc_def min_utc_def Let_def
      sample_token_def sample_plain_def sample_hash_def)

lemma sample_random_ok: "k = 0 \<or> k = 1 \<Longrightarrow> random_ok (req_random (sample_request k))"
  by (auto simp: random_ok_def sample_request_def random_v4_def version_num_def variant_rfc4122_def)

lemma sample_parse_token:
  "k = 0 \<or> k = 1 \<Longrightarrow> parse_refresh_token sample_primitives sample_text (sample_plain k) =
     Some \<lparr>prt_jti = 0x11111111111141118111111111111100 + of_nat k, prt_hash = sample_hash k\<rparr>"
  using parse_new_refresh_token [OF sample_text_laws sample_random_ok, of k sample_primitives
      "auth_config sample_service" 0 "sample_token k"] sample_make_token [of k]
  by (auto simp: make_refresh_token_def sample_token_def sample_service_def sample_request_def
      split: sum.splits)

text \<open>A session of user 1 and its first token.\<close>

definition sample_signed_in :: session_db where
  "sample_signed_in = snd (create_session (sample_env 10) 9 1 (sample_token 0) sample_sessions)"

lemma sample_signed_in_reachable: "session_reachable sample_signed_in"
  unfolding sample_signed_in_def
  by (rule session_reachable.moved [OF session_reachable.started session_step.created])
     (simp_all add: sample_sessions_def sample_empty_def)

lemma sample_signed_in_rows:
  "refresh_tokens sample_signed_in = [fresh_token 1 9 (sample_token 0) None]"
  "refresh_token_family (s_core sample_signed_in) = [new_family 9 1 (sample_token 0)]"
  "user_account (s_core sample_signed_in) = user_account sample_empty"
  by (simp_all add: sample_signed_in_def create_session_def transaction_def lock_active_account_def
      live_account_def sample_sessions_def sample_empty_def sample_account_def insert_session_def
      then_op_def insert_family_def insert_token_def on_session_core_def enqueue_notification_def
      notification_eligible_def match_notification_types_def billing_notification_eligible_def
      bind_op_def ok_def Let_def)

text \<open>The token is exchanged once.\<close>

lemma sample_token_simps [simp]:
  "nrt_id (sample_token k) = 500 + of_nat k" "nrt_plain (sample_token k) = sample_plain k"
  "nrt_jti (sample_token k) = 0x11111111111141118111111111111100 + of_nat k"
  "nrt_hash (sample_token k) = sample_hash k" "nrt_expires_at (sample_token k) = 3600000000"
  by (simp_all add: sample_token_def)

lemma sample_locked:
  "lock_token 20 sample_signed_in 0x11111111111141118111111111111100 (sample_hash 0) None rh =
     Some (stored_token (fresh_token 1 9 (sample_token 0) None))"
  by (simp add: lock_token_def sample_signed_in_rows lock_active_account_def live_account_def
      sample_empty_def sample_account_def token_usable_def Let_def)

definition sample_exchanged :: "refresh_recovery option \<Rightarrow> session_db" where
  "sample_exchanged rc =
     snd (rotate_inner sample_primitives sample_text (sample_env 20)
       0x11111111111141118111111111111100 (sample_hash 0) (sample_token 1) rc sample_signed_in)"

lemma sample_exchange:
  "rotate_inner sample_primitives sample_text (sample_env 20)
     0x11111111111141118111111111111100 (sample_hash 0) (sample_token 1) rc sample_signed_in =
   (Inr (Outcome (Rotated \<lparr>si_user_id = 1, si_session_id = 9\<rparr>)), sample_exchanged rc)"
  "refresh_tokens (sample_exchanged rc) =
     [rotated_token 22 rc (fresh_token 1 9 (sample_token 0) None),
      fresh_token 1 9 (sample_token 1) (Some 500)]"
  "refresh_token_family (s_core (sample_exchanged rc)) =
     [refreshed_family 23 3600000000 (new_family 9 1 (sample_token 0))]"
  "user_account (s_core (sample_exchanged rc)) = user_account sample_empty"
  by (simp_all add: sample_exchanged_def rotate_inner_def transaction_def sample_env_def
      sample_locked [unfolded sample_env_def] active_family_def family_active_def exchange_token_def
      sample_signed_in_rows then_op_def bind_op_def modify_def ok_def insert_token_def update_token_def
      update_family_def upd_where_def sample_empty_def refreshed_family_def)

lemma sample_exchanged_reachable: "session_reachable (sample_exchanged rc)"
  unfolding sample_exchanged_def
  by (rule session_reachable.moved [OF sample_signed_in_reachable session_step.rotated])

text \<open>The same exchange with a receipt, through the service.\<close>

definition sample_receipt :: "nat \<Rightarrow> refresh_recovery" where
  "sample_receipt k =
     (case refresh_recovery_new sample_primitives (Some (replicate 12 1)) (sample_plain 0) 77
        (sample_plain k) of Inr c \<Rightarrow> c)"

lemma sample_receipt_made:
  "refresh_recovery_new sample_primitives (Some (replicate 12 1)) (sample_plain 0) 77 (sample_plain k) =
     Inr (sample_receipt k)"
proof -
  have "digest_laws sample_primitives"
    by (simp add: digest_laws_def sample_primitives_def AES_KEY_BYTES_def min_def)
  then have "\<exists>c. refresh_recovery_new sample_primitives (Some (replicate 12 1)) (sample_plain 0) 77
      (sample_plain k) = Inr c"
    by (simp add: refresh_recovery_new_def seal_secret_def aes_key_sha256 Let_def)
       (simp add: sample_primitives_def)
  then show ?thesis
    by (auto simp: sample_receipt_def)
qed

lemma sample_service_simps:
  "auth_primitives sample_service = sample_primitives" "auth_text sample_service = sample_text"
  "refresh_ttl (auth_config sample_service) = 3600000000"
  by (simp_all add: sample_service_def hours_def seconds_def)

lemma sample_refresh:
  "refresh_with_attempt sample_service (sample_request 1) (sample_env 20) (sample_plain 0) (Some 77)
     sample_signed_in =
   (Inr \<lparr>tp_access_token = hyphenated sample_text 9, tp_refresh_token = sample_plain 1\<rparr>,
    sample_exchanged (Some (sample_receipt 1)))"
proof -
  have "access_token (auth_text sample_service) (auth_jwt sample_service) (auth_config sample_service) 0 1 9 =
      Inr (hyphenated sample_text 9)"
    by (simp add: access_token_def access_token_at_def sample_service_def timestamp_def u64_max_def
        max_safe_integer_def)
  then show ?thesis
    using sample_parse_token [of 0] sample_make_token [of 1] sample_receipt_made [of 1]
      sample_exchange(1) [of "Some (sample_receipt 1)"]
    by (simp add: refresh_with_attempt_def lift_result_def rotate_for_attempt_def internal_def map_err_def
        rotate_recoverable_def sample_service_simps bind_op_def token_pair_for_def sign_access_def
        sample_request_def)
qed

end
