(* ===== verification/Session_Properties.thy ===== *)
theory Session_Properties
  imports Session_Upkeep Session_Samples
begin

text \<open>
  The properties of the mobile sessions (C29, C39, C40): which tokens can still be exchanged, what a
  replayed token does to its session, and what a retry of a lost answer returns.
\<close>

section \<open>One token per session\<close>

text \<open>\<^bold>\<open>C39.\<close> In every state the program can reach, by logins, refreshes, log-outs, revocations, bans,
  erasures and the retention, a session that is not revoked, has not expired and belongs to an account
  that is neither deleted nor banned has exactly one token that can be exchanged.  It belongs to the
  owner of the session and expires with it; presenting it with its secret, and with a new token of
  unused identifiers, is answered with the rotated session, with or without a receipt.  No other token
  of the session is ever answered so, whatever is presented with it; and in any other session no token
  is.\<close>

theorem one_exchangeable_token_per_session:
  assumes life: "session_life t s" and f: "f \<in> set (refresh_token_family (s_core s))" and clock: "clock_from t e"
  shows "if ses_revoked_at f = None \<and> clk e 1 < ses_expires_at f \<and> live_account (s_core s) (ses_user f)
    then \<exists>r \<in> set (refresh_tokens s).
      tk_family r = ses_id f \<and> tk_user r = ses_user f \<and> tk_expires_at r = ses_expires_at f \<and>
      (\<forall>P X new recovery. nrt_id new \<notin> tk_id ` set (refresh_tokens s) \<longrightarrow>
         nrt_jti new \<notin> tk_jti ` set (refresh_tokens s) \<longrightarrow>
         (\<exists>s'. rotate_inner P X e (tk_jti r) (tk_hash r) new recovery s =
           (Inr (Outcome (Rotated \<lparr>si_user_id = ses_user f, si_session_id = ses_id f\<rparr>)), s'))) \<and>
      (\<forall>x \<in> set (refresh_tokens s). tk_family x = ses_id f \<longrightarrow> x \<noteq> r \<longrightarrow>
         (\<forall>P X hash new recovery i.
            fst (rotate_inner P X e (tk_jti x) hash new recovery s) \<noteq> Inr (Outcome (Rotated i))))
    else \<forall>x \<in> set (refresh_tokens s). tk_family x = ses_id f \<longrightarrow>
         (\<forall>P X hash new recovery i.
            fst (rotate_inner P X e (tk_jti x) hash new recovery s) \<noteq> Inr (Outcome (Rotated i)))"
proof -
  note ok = session_life_kept [OF life]
  note times = clock_fromD [OF clock, of 1] clock_from_le [OF clock, of 0 1]
  have rotated: "\<not> tk_revoked x \<and> live_account (s_core s) (ses_user f) \<and>
      ses_revoked_at f = None \<and> clk e 1 < ses_expires_at f"
    if "x \<in> set (refresh_tokens s)" "tk_family x = ses_id f"
      "fst (rotate_inner P X e (tk_jti x) hash new recovery s) = Inr (Outcome (Rotated i))"
    for x P X hash new recovery i
    using exchanged_token_is_live [OF kept_ok_distinct [OF ok] that(1), of P X e hash new recovery i]
      session_of_token [OF ok f that(1,2)] that(3) by (metis prod.collapse)
  show ?thesis
  proof (cases "ses_revoked_at f = None \<and> clk e 1 < ses_expires_at f \<and> live_account (s_core s) (ses_user f)")
    case True
    then have open_now: "t < ses_expires_at f"
      using times(1) by simp
    obtain r where r: "r \<in> set (refresh_tokens s)" "tk_family r = ses_id f" "\<not> tk_revoked r"
      "tk_user r = ses_user f" "tk_expires_at r = ses_expires_at f"
      "\<And>x. x \<in> set (refresh_tokens s) \<Longrightarrow> tk_family x = ses_id f \<Longrightarrow> \<not> tk_revoked x \<Longrightarrow> x = r"
      using live_token_of_session [OF ok f conjunct1 [OF True] open_now] by blast
    have usable: "clk e 0 < tk_expires_at r" "live_account (s_core s) (tk_user r)"
      "active_family (clk e 1) s (tk_user r) (tk_family r)"
      using True times(2) r(4,5) session_of_token(1) [OF ok f r(1,2)] by auto
    show ?thesis
      unfolding if_P [OF True]
    proof (intro bexI [OF _ r(1)] conjI allI impI ballI)
      fix P X recovery and new :: new_token
      assume "nrt_id new \<notin> tk_id ` set (refresh_tokens s)" "nrt_jti new \<notin> tk_jti ` set (refresh_tokens s)"
      then show "\<exists>s'. rotate_inner P X e (tk_jti r) (tk_hash r) new recovery s =
          (Inr (Outcome (Rotated \<lparr>si_user_id = ses_user f, si_session_id = ses_id f\<rparr>)), s')"
        using live_token_exchanged [OF ok r(1,3) usable] r(2,4) by simp
    qed (use r rotated in blast)+
  next
    case False
    then show ?thesis
      unfolding if_not_P [OF False] using rotated by blast
  qed
qed

theorem one_exchangeable_token_per_session_witness:
  "\<exists>r \<in> set (refresh_tokens (sample_exchanged None)). tk_family r = 9 \<and> tk_user r = 1 \<and>
     tk_expires_at r = 3600000000 \<and>
     (\<exists>s'. rotate_inner sample_primitives sample_text (sample_env 100) (tk_jti r) (tk_hash r) (sample_token 2)
        None (sample_exchanged None) =
      (Inr (Outcome (Rotated \<lparr>si_user_id = 1, si_session_id = 9\<rparr>)), s'))"
proof -
  let ?f = "refreshed_family 23 3600000000 (new_family 9 1 (sample_token 0))"
  have f: "?f \<in> set (refresh_token_family (s_core (sample_exchanged None)))"
    by (simp add: sample_exchange)
  have "clock_from 50 (sample_env 100)"
    by (auto simp: clock_from_def sample_env_def mono_def)
  note one = one_exchangeable_token_per_session [OF reachable_life [OF sample_exchanged_reachable] f this]
  have live: "ses_revoked_at ?f = None \<and> clk (sample_env 100) 1 < ses_expires_at ?f \<and>
      live_account (s_core (sample_exchanged None)) (ses_user ?f)"
    by (simp add: sample_env_def live_account_def sample_exchange sample_empty_def sample_account_def)
  obtain r where r: "r \<in> set (refresh_tokens (sample_exchanged None))"
    "tk_family r = 9" "tk_user r = 1" "tk_expires_at r = 3600000000"
    "\<forall>P X new recovery. nrt_id new \<notin> tk_id ` set (refresh_tokens (sample_exchanged None)) \<longrightarrow>
         nrt_jti new \<notin> tk_jti ` set (refresh_tokens (sample_exchanged None)) \<longrightarrow>
         (\<exists>s'. rotate_inner P X (sample_env 100) (tk_jti r) (tk_hash r) new recovery (sample_exchanged None) =
           (Inr (Outcome (Rotated \<lparr>si_user_id = 1, si_session_id = 9\<rparr>)), s'))"
    using one [unfolded if_P [OF live], unfolded refreshed_family_simps new_family_simps] by blast
  show ?thesis
    by (rule bexI [OF _ r(1)]) (use r(2-4) r(5) [rule_format, of "sample_token 2"] in \<open>simp add: sample_exchange\<close>)
qed

section \<open>Theft\<close>

text \<open>\<^bold>\<open>C40.\<close> Presenting a token that was already exchanged, without the receipt of that exchange, while
  its session is active revokes the session and signs out its devices.  From then on, whatever the
  session operations do, no token of the session, in particular not the newest one, can be exchanged or
  used to log out, and the session is never active again.\<close>

theorem replayed_token_ends_session:
  assumes "session_reachable s" "r \<in> set (refresh_tokens s)" "tk_rotated_at r \<noteq> None"
    and "tk_expires_at r > clk e 0" "live_account (s_core s) (tk_user r)"
    and "active_family (clk e 1) s (tk_user r) (tk_family r)" "foreign_receipt r recovery"
  shows "\<exists>s'. rotate_inner P X e (tk_jti r) (tk_hash r) new recovery s =
      (Inr (Outcome ReplayRevoked), s') \<and>
    (\<forall>d \<in> set (device_token (s_core s')).
       \<not> (dev_user d = tk_user r \<and> dev_session d = Some (tk_family r))) \<and>
    (\<forall>s'' t now u. session_step\<^sup>*\<^sup>* s' s'' \<longrightarrow> \<not> session_is_active now s'' u (tk_family r) \<and>
      (t \<in> set (refresh_tokens s'') \<longrightarrow> tk_family t = tk_family r \<longrightarrow>
         (\<forall>P X e hash new recovery.
            rotate_inner P X e (tk_jti t) hash new recovery s'' = (Inr (Outcome Invalid), s'')) \<and>
         (\<forall>e u i hash d. logout e u i (tk_jti t) hash d s'' = (Inr False, s''))))"
proof -
  obtain s' where run: "rotate_inner P X e (tk_jti r) (tk_hash r) new recovery s =
      (Inr (Outcome ReplayRevoked), s')"
    and gone: "family_revoked (tk_family r) s'" and ok: "sessions_ok s'"
    and devices: "\<forall>d \<in> set (device_token (s_core s')).
      \<not> (dev_user d = tk_user r \<and> dev_session d = Some (tk_family r))"
    using replay_revokes [OF reachable_sessions_ok [OF assms(1)] assms(2-7)] by metis
  have later: "sessions_ok s''" "family_revoked (tk_family r) s''" if "session_step\<^sup>*\<^sup>* s' s''" for s''
    using consistent.steps_keep [OF that ok] ended.steps_keep [OF that gone] .
  show ?thesis
    using run devices family_revoked_inactive [OF later] revoked_token_is_dead [OF later(1)] later(2)
    by (intro exI [of _ s']) auto
qed

theorem replayed_token_ends_session_witness:
  "\<exists>s'. rotate_inner sample_primitives sample_text (sample_env 30) 0x11111111111141118111111111111100
       (sample_hash 0) (sample_token 2) None (sample_exchanged None) = (Inr (Outcome ReplayRevoked), s')"
  using replayed_token_ends_session [OF sample_exchanged_reachable,
      of "rotated_token 22 None (fresh_token 1 9 (sample_token 0) None)" None "sample_env 30" None
      sample_primitives sample_text "sample_token 2"]
  by (auto simp: sample_exchange sample_env_def active_family_def family_active_def foreign_receipt_def
      live_account_def sample_empty_def sample_account_def)

section \<open>Lost answers\<close>

text \<open>\<^bold>\<open>C29.\<close> A refresh names its attempt.  When the answer is lost and the client retries with the same
  token and attempt, within seven days and before the new token expires, it receives the refresh token
  of the first answer again, and nothing is changed.\<close>

theorem refresh_retry_returns_same_token:
  assumes laws: "text_laws (auth_text a)" "aead_laws (auth_primitives a)"
    and reach: "session_reachable s"
    and token: "parse_refresh_token (auth_primitives a) (auth_text a) raw = Some p"
      "r \<in> set (refresh_tokens s)" "tk_jti r = prt_jti p" "\<not> tk_revoked r"
    and random: "random_ok (req_random q)" "req_nonce q = Some nonce" "length nonce = GCM_NONCE_BYTES"
    and first: "refresh_with_attempt a q e raw (Some attempt) s = (Inr pair, s')"
    and made: "make_refresh_token a q' = Inr new'"
      "refresh_recovery_new (auth_primitives a) (req_nonce q') raw attempt (nrt_plain new') = Inr c'"
    and clock: "\<And>k. clk e' k < clk e 2 + days 7"
      "\<And>k. clk e' k < req_now q + refresh_ttl (auth_config a)"
  shows "refresh_with_attempt a q' e' raw (Some attempt) s' =
    (token_pair_for a (req_signed_at q') \<lparr>si_user_id = tk_user r, si_session_id = tk_family r\<rparr>
       (tp_refresh_token pair), s')"
proof -
  let ?P = "auth_primitives a" and ?X = "auth_text a"
  let ?id = "\<lparr>si_user_id = tk_user r, si_session_id = tk_family r\<rparr>"
  obtain new where new: "make_refresh_token a q = Inr new"
    using first token(1)
    by (auto simp: refresh_with_attempt_def lift_result_def dest!: bind_op_InrD)
  obtain c where c: "refresh_recovery_new ?P (Some nonce) raw attempt (nrt_plain new) = Inr c"
    using first token(1) new random(2)
    by (auto simp: refresh_with_attempt_def lift_result_def rotate_for_attempt_def err_def
        split: sum.splits dest!: bind_op_InrD)
  obtain v where v: "rotate_inner ?P ?X e (prt_jti p) (prt_hash p) new (Some c) s = (Inr v, s')"
    "v \<noteq> Outcome Invalid"
    "\<And>i. v = Outcome (Rotated i) \<Longrightarrow> tp_refresh_token pair = nrt_plain new"
    using first token(1) new random(2) c
    by (auto simp: refresh_with_attempt_def lift_result_def rotate_for_attempt_def err_def internal_def
        map_err_def rotate_recoverable_def token_pair_for_def
        split: sum.splits prod.splits refresh_rotation.splits rotation_outcome.splits
        dest!: bind_op_InrD)
  have ok: "sessions_ok s"
    by (rule reachable_sessions_ok [OF reach])
  have hash: "tk_hash r = prt_hash p"
    using v(1,2) by (auto simp: rotate_inner_def transaction_def
        lock_token_row [OF sessions_ok_distinct [OF ok] token(2,3)] split: if_splits)
  have made_new: "new_refresh_token ?P ?X (auth_config a) (req_now q) (req_random q) = Inr new"
    using new by (simp add: make_refresh_token_def split: sum.splits)
  have "recovery_open ?P c' (encrypted_token c) = Inr (nrt_plain new)"
    using receipt_of_attempt(2) [OF c made(2)] receipt_opens [OF laws(2) random(3)
        new_refresh_token_ascii [OF laws(1) made_new] c] by simp
  note retry = exchange_then_recover [OF ok token(2,4) v(1) [folded token(3) hash] v(2)
      receipt_of_attempt(1) [OF c made(2)] this parse_new_refresh_token [OF laws(1) random(1) made_new]
      clock(1) [folded receipt_window_def] clock(2) [folded new_refresh_token_times(2) [OF made_new]]]
  show ?thesis
    using token(1) made retry(2) [of new'] v(3) [OF retry(1)] token(3) hash
    by (simp add: refresh_with_attempt_def lift_result_def rotate_for_attempt_def internal_def map_err_def
        rotate_recoverable_def bind_op_def)
qed

theorem refresh_retry_returns_same_token_witness:
  "refresh_with_attempt sample_service (sample_request 2) (sample_env 100) (sample_plain 0) (Some 77)
     (sample_exchanged (Some (sample_receipt 1))) =
   (token_pair_for sample_service 0 \<lparr>si_user_id = 1, si_session_id = 9\<rparr> (sample_plain 1),
    sample_exchanged (Some (sample_receipt 1)))"
proof -
  let ?r = "fresh_token 1 9 (sample_token 0) None"
  note retry = refresh_retry_returns_same_token [where a = sample_service and q = "sample_request 1"
      and q' = "sample_request 2" and e = "sample_env 20" and e' = "sample_env 100" and r = ?r
      and raw = "sample_plain 0" and attempt = 77, OF _ _ sample_signed_in_reachable _ _ _ _ _ _ _
      sample_refresh sample_make_token]
  have "clk (sample_env 100) k < clk (sample_env 20) 2 + days 7" "clk (sample_env 100) k < 3600000000" for k
    by (auto simp: sample_env_def days_def seconds_def)
  then show ?thesis
    using retry [of _ "replicate 12 1" "sample_receipt 2"] sample_text_laws sample_aead_laws
      sample_parse_token [of 0] sample_receipt_made [of 2] sample_random_ok [of 1]
    by (simp add: sample_service_simps sample_signed_in_rows sample_request_def GCM_NONCE_BYTES_def)
qed

end
