(* ===== verification/Sms_Safety.thy ===== *)
theory Sms_Safety
  imports Sessions Shared_Text
begin

text \<open>
  \<^verbatim>\<open>src/identity/mobile/sms_safety\<close> and \<^verbatim>\<open>src/identity/mobile/phone_blocklist\<close>: whether a text
  message may be sent to a telephone number.  A number is known by its keyed digest only.  Observed
  abuse blocks a number for ninety days unless an operator decides otherwise; a permit is taken from
  the hourly and daily budgets of the number and of the service before the provider is called.

  The tables of identification stand beside those of the sessions.  The successive readings of
  \<^verbatim>\<open>clock_timestamp()\<close> in a transaction are \<open>clk e k\<close>; the rows another transaction holds, which
  \<^verbatim>\<open>SKIP LOCKED\<close> leaves out, are the parameter \<open>skip\<close>.
\<close>

section \<open>Telephone numbers\<close>

text \<open>\<^verbatim>\<open>char::is_whitespace\<close> and \<^verbatim>\<open>str::trim\<close>.\<close>

definition is_whitespace :: "nat \<Rightarrow> bool" where
  "is_whitespace c \<longleftrightarrow>
     (9 \<le> c \<and> c \<le> 13) \<or> c \<in> {32, 133, 160, 5760, 8232, 8233, 8239, 8287, 12288} \<or>
     (8192 \<le> c \<and> c \<le> 8202)"

definition trim :: "utext \<Rightarrow> utext" where
  "trim v = rev (dropWhile is_whitespace (rev (dropWhile is_whitespace v)))"

text \<open>The bytes of a text.\<close>

fun utf8_scalar :: "nat \<Rightarrow> string" where
  "utf8_scalar c =
     (if c < 128 then [char_of c]
      else if c < 2048 then [char_of (192 + c div 64), char_of (128 + c mod 64)]
      else if c < 65536
      then [char_of (224 + c div 4096), char_of (128 + c div 64 mod 64), char_of (128 + c mod 64)]
      else [char_of (240 + c div 262144), char_of (128 + c div 4096 mod 64),
            char_of (128 + c div 64 mod 64), char_of (128 + c mod 64)])"

definition utf8_encode :: "utext \<Rightarrow> string" where
  "utf8_encode v = concat (map utf8_scalar v)"

definition ascii_digit :: "char \<Rightarrow> bool" where
  "ascii_digit c \<longleftrightarrow> (let n = of_char c :: nat in 48 \<le> n \<and> n \<le> 57)"

definition normalize_phone :: "utext \<Rightarrow> string option" where
  "normalize_phone input =
     (let bytes = utf8_encode (filter (\<lambda>c. c \<notin> {32, 46, 40, 41, 45}) (trim input)) in
      if length bytes = 12 \<and> take 3 bytes = ''+33'' \<and> ascii_digit (bytes ! 3) \<and>
         bytes ! 3 \<noteq> CHR ''0'' \<and> list_all ascii_digit (drop 4 bytes)
      then Some bytes else None)"

section \<open>Tables\<close>

datatype blocklist_decision = Automatic | Block | Allow

fun decision_str :: "blocklist_decision \<Rightarrow> string" where
  "decision_str Automatic = ''automatic''"
| "decision_str Block = ''block''"
| "decision_str Allow = ''allow''"

record blocklist_entry =
  ble_id :: uuid
  ble_phone_hash :: string
  ble_phone_hint :: utext
  ble_decision :: blocklist_decision
  ble_decision_until :: "instant option"
  ble_version :: int

record blocklist_observation =
  blo_entry :: uuid
  blo_source :: string
  blo_last_seen_at :: instant

record blocklist_source =
  bls_source :: string
  bls_last_attempt_at :: "instant option"
  bls_last_success_at :: "instant option"
  bls_last_error :: "string option"
  bls_imported_count :: int

record sms_attempt =
  sa_delivery_id :: uuid
  sa_phone_hash :: string
  sa_reserved_at :: instant

record sms_control =
  ctl_suspended :: bool
  ctl_version :: int
  ctl_updated_at :: "instant option"

record audit_row =
  au_accessed_user :: uuid
  au_accessor :: uuid
  au_role :: string
  au_action :: string
  au_reason :: utext

datatype otp_delivery_state = OtpPending | OtpAccepted | OtpSent | OtpFailed | OtpUnknown

text \<open>The CHECK constraints of the tables leave five delivery states and four languages.\<close>

record otp_row =
  otp_id :: uuid
  otp_phone_hash :: string
  otp_code_hash :: string
  otp_language :: language
  otp_expires_at :: instant
  otp_used :: bool
  otp_idempotency_key :: uuid
  otp_delivery_status :: otp_delivery_state
  otp_provider :: string
  otp_transaction_id :: "string option"
  otp_message_id :: "string option"
  otp_error_code :: "string option"
  otp_sent_at :: "instant option"
  otp_created_at :: instant
  otp_attempt_number :: nat
  otp_settlement_deadline :: instant
  otp_provider_sent_at :: "instant option"
  otp_failed_at :: "instant option"
  otp_last_webhook_at :: "instant option"

record otp_request_row =
  rq_id :: uuid
  rq_phone_hash :: string
  rq_encrypted_phone :: "byte list option"
  rq_registration :: bool
  rq_language :: language
  rq_created_at :: instant
  rq_expires_at :: instant
  rq_resend_at :: instant

text \<open>\<open>account_phone\<close> is the unique key \<^verbatim>\<open>user_account(phone_number_hash)\<close>; \<open>otp_next_attempt\<close> the
  next value of the identity column \<^verbatim>\<open>attempt_number\<close>.\<close>

record identity_db =
  id_sessions :: session_db
  account_phone :: "string \<rightharpoonup> uuid"
  account_tombstone :: "string \<rightharpoonup> instant"
  phone_blocklist_key :: "string option"
  phone_blocklist_entry :: "blocklist_entry list"
  phone_blocklist_observation :: "blocklist_observation list"
  phone_blocklist_source :: "blocklist_source list"
  sms_send_control :: sms_control
  sms_send_attempt :: "sms_attempt list"
  data_access_log :: "audit_row list"
  otp_verification :: "otp_row list"
  otp_next_attempt :: nat
  mobile_otp_request :: "otp_request_row list"

abbreviation id_core :: "identity_db \<Rightarrow> db" where
  "id_core s \<equiv> s_core (id_sessions s)"

definition on_sessions :: "(session_db, 'e, 'a) op \<Rightarrow> (identity_db, 'e, 'a) op" where
  "on_sessions m s = (case m (id_sessions s) of (r, d) \<Rightarrow> (r, s\<lparr>id_sessions := d\<rparr>))"

section \<open>The policy on a number\<close>

definition OBSERVATION_DAYS :: int where "OBSERVATION_DAYS = 90"

definition decided :: "instant \<Rightarrow> blocklist_entry \<Rightarrow> bool" where
  "decided t e = (case ble_decision_until e of Some u \<Rightarrow> u > t | None \<Rightarrow> False)"

definition observed :: "instant \<Rightarrow> identity_db \<Rightarrow> uuid \<Rightarrow> bool" where
  "observed t s i \<longleftrightarrow>
     (\<exists>o' \<in> set (phone_blocklist_observation s).
        blo_entry o' = i \<and> blo_last_seen_at o' > t - days OBSERVATION_DAYS)"

definition entry_blocked :: "instant \<Rightarrow> identity_db \<Rightarrow> blocklist_entry \<Rightarrow> bool" where
  "entry_blocked t s e \<longleftrightarrow>
     (if decided t e then ble_decision e = Block else observed t s (ble_id e))"

definition blocklist_ready :: "instant \<Rightarrow> identity_db \<Rightarrow> bool" where
  "blocklist_ready t s \<longleftrightarrow>
     (\<exists>r \<in> set (phone_blocklist_source s).
        case bls_last_success_at r of Some x \<Rightarrow> x > t - days 7 | None \<Rightarrow> False)"

definition find_entry :: "identity_db \<Rightarrow> string \<Rightarrow> blocklist_entry option" where
  "find_entry s hash = find (\<lambda>e. ble_phone_hash e = hash) (phone_blocklist_entry s)"

text \<open>\<^verbatim>\<open>CHECK_POLICY\<close>: allowed, blocked, ready.\<close>

definition check_on :: "instant \<Rightarrow> identity_db \<Rightarrow> string \<Rightarrow> bool \<times> bool \<times> bool" where
  "check_on t s hash =
     (case find_entry s hash of
        None \<Rightarrow> (False, False, blocklist_ready t s)
      | Some e \<Rightarrow>
          (ble_decision e = Allow \<and> decided t e, entry_blocked t s e, blocklist_ready t s))"

datatype sms_send_rejection =
  Suspended | PhoneBlocked | HourlyLimit | DailyLimit | GlobalHourlyLimit | GlobalDailyLimit
| AlreadyReserved | Unavailable

definition permit_on :: "instant \<Rightarrow> identity_db \<Rightarrow> string \<Rightarrow> sms_send_rejection + unit" where
  "permit_on t s hash =
     (case check_on t s hash of
        (allowed, blocked, ready) \<Rightarrow>
          if allowed then Inr ()
          else if blocked then Inl PhoneBlocked
          else if \<not> ready then Inl Unavailable
          else Inr ())"

definition otp_blocked_on :: "instant \<Rightarrow> identity_db \<Rightarrow> string \<Rightarrow> bool" where
  "otp_blocked_on t s hash = (case check_on t s hash of (_, blocked, _) \<Rightarrow> blocked)"

section \<open>Permits\<close>

record sms_safety_config =
  hourly_global :: nat
  daily_global :: nat
  hourly_per_phone :: nat
  daily_per_phone :: nat
  spike_per_5_minutes :: nat
  policy_suspended :: bool

definition attempts_since :: "instant \<Rightarrow> (sms_attempt \<Rightarrow> bool) \<Rightarrow> identity_db \<Rightarrow> nat" where
  "attempts_since t Q s = rows_where (\<lambda>a. Q a \<and> sa_reserved_at a > t) (sms_send_attempt s)"

text \<open>The oldest attempts that are 25 hours old are deleted, at most \<open>limit\<close>.\<close>

definition purge_attempts ::
  "nat \<Rightarrow> (sms_attempt \<Rightarrow> bool) \<Rightarrow> instant \<Rightarrow> sms_attempt list \<Rightarrow> sms_attempt list" where
  "purge_attempts limit skip now rows =
     (let victims = order_limit sa_reserved_at limit
            (filter (\<lambda>a. sa_reserved_at a \<le> now - hours 25 \<and> \<not> skip a) rows)
      in del_where (\<lambda>a. sa_delivery_id a \<in> set (map sa_delivery_id victims)) rows)"

text \<open>The retention of \<^verbatim>\<open>src/privacy/maintenance.rs\<close> deletes them too.\<close>

definition retention_attempts :: "instant \<Rightarrow> nat \<Rightarrow> identity_db \<Rightarrow> identity_db" where
  "retention_attempts now limit s =
     s\<lparr>sms_send_attempt := purge_attempts limit (\<lambda>_. False) now (sms_send_attempt s)\<rparr>"

definition sms_reserve ::
  "env \<Rightarrow> (sms_attempt \<Rightarrow> bool) \<Rightarrow> uuid \<Rightarrow> string \<Rightarrow> sms_safety_config \<Rightarrow>
   (identity_db, database_error, sms_send_rejection + unit) op" where
  "sms_reserve e skip delivery_id phone_hash policy = transaction (\<lambda>s.
     if ctl_suspended (sms_send_control s) then (Inr (Inl Suspended), s)
     else case permit_on (clk e 0) s phone_hash of
       Inl reason \<Rightarrow> (Inr (Inl reason), s)
     | Inr _ \<Rightarrow>
         (let now = clk e 1;
              own = (\<lambda>a. sa_phone_hash a = phone_hash);
              all = (\<lambda>_. True)
          in
          if attempts_since (now - hours 24) own s \<ge> daily_per_phone policy
          then (Inr (Inl DailyLimit), s)
          else if attempts_since (now - hours 1) own s \<ge> hourly_per_phone policy
          then (Inr (Inl HourlyLimit), s)
          else if attempts_since (now - hours 24) all s \<ge> daily_global policy
          then (Inr (Inl GlobalDailyLimit), s)
          else if attempts_since (now - hours 1) all s \<ge> hourly_global policy
          then (Inr (Inl GlobalHourlyLimit), s)
          else if \<exists>a \<in> set (sms_send_attempt s). sa_delivery_id a = delivery_id
          then (Inr (Inl AlreadyReserved), s)
          else (Inr (Inr ()), s\<lparr>sms_send_attempt := purge_attempts 1000 skip now (sms_send_attempt s @
                 [\<lparr>sa_delivery_id = delivery_id, sa_phone_hash = phone_hash,
                   sa_reserved_at = now\<rparr>])\<rparr>)))"

text \<open>\<^verbatim>\<open>SmsSafetyService::reserve\<close>.\<close>

definition reserve_permit ::
  "primitives \<Rightarrow> string \<Rightarrow> sms_safety_config \<Rightarrow> env \<Rightarrow> (sms_attempt \<Rightarrow> bool) \<Rightarrow> uuid \<Rightarrow> utext \<Rightarrow>
   identity_db \<Rightarrow> (sms_send_rejection + unit) \<times> identity_db" where
  "reserve_permit P hash_key policy e skip delivery_id phone s =
     (if policy_suspended policy then (Inl Suspended, s)
      else case normalize_phone phone of
        None \<Rightarrow> (Inl Unavailable, s)
      | Some canonical \<Rightarrow>
          (case hmac_sha256 P canonical hash_key of
             Inl _ \<Rightarrow> (Inl Unavailable, s)
           | Inr phone_hash \<Rightarrow>
               (case sms_reserve e skip delivery_id phone_hash policy s of
                  (Inl _, s') \<Rightarrow> (Inl Unavailable, s')
                | (Inr r, s') \<Rightarrow> (r, s'))))"

section \<open>Supervision\<close>

record sms_usage =
  us_manual_suspended :: bool
  us_blocklist_ready :: bool
  us_source_errors :: nat
  us_version :: int
  us_last_5_minutes :: nat
  us_last_hour :: nat
  us_last_day :: nat
  us_previous_hour :: nat
  us_updated_at :: "instant option"

definition sms_usage_at :: "instant \<Rightarrow> identity_db \<Rightarrow> sms_usage" where
  "sms_usage_at now s =
     \<lparr>us_manual_suspended = ctl_suspended (sms_send_control s),
      us_blocklist_ready = blocklist_ready now s,
      us_source_errors = rows_where (\<lambda>r. bls_last_error r \<noteq> None) (phone_blocklist_source s),
      us_version = ctl_version (sms_send_control s),
      us_last_5_minutes = attempts_since (now - minutes 5) (\<lambda>_. True) s,
      us_last_hour = attempts_since (now - hours 1) (\<lambda>_. True) s,
      us_last_day = attempts_since (now - hours 24) (\<lambda>_. True) s,
      us_previous_hour = attempts_since (now - minutes 65) (\<lambda>a. sa_reserved_at a \<le> now - minutes 5) s,
      us_updated_at = ctl_updated_at (sms_send_control s)\<rparr>"

text \<open>The counts are \<^verbatim>\<open>i64\<close> and far from saturation.\<close>

definition traffic_spike :: "sms_safety_config \<Rightarrow> sms_usage \<Rightarrow> bool" where
  "traffic_spike policy u \<longleftrightarrow>
     us_last_5_minutes u \<ge> spike_per_5_minutes policy \<or>
     (us_previous_hour u \<ge> 12 \<and> us_last_5_minutes u \<ge> 5 \<and>
      us_last_5_minutes u * 12 \<ge> us_previous_hour u * 4)"

record sms_safety_snapshot =
  snap_provider_enabled :: bool
  snap_suspended :: bool
  snap_manual_suspended :: bool
  snap_blocklist_ready :: bool
  snap_source_errors :: nat
  snap_environment_suspended :: bool
  snap_version :: int
  snap_hourly_limit_per_phone :: nat
  snap_daily_limit_per_phone :: nat
  snap_hourly_limit_global :: nat
  snap_daily_limit_global :: nat
  snap_last_5_minutes :: nat
  snap_last_hour :: nat
  snap_last_24_hours :: nat
  snap_spike_threshold :: nat
  snap_traffic_spike :: bool
  snap_updated_at :: "instant option"

definition sms_snapshot :: "sms_safety_config \<Rightarrow> bool \<Rightarrow> instant \<Rightarrow> identity_db \<Rightarrow> sms_safety_snapshot" where
  "sms_snapshot policy enabled now s =
     (let u = sms_usage_at now s in
      \<lparr>snap_provider_enabled = enabled,
       snap_suspended = (policy_suspended policy \<or> us_manual_suspended u),
       snap_manual_suspended = us_manual_suspended u, snap_blocklist_ready = us_blocklist_ready u,
       snap_source_errors = us_source_errors u, snap_environment_suspended = policy_suspended policy,
       snap_version = us_version u, snap_hourly_limit_per_phone = hourly_per_phone policy,
       snap_daily_limit_per_phone = daily_per_phone policy,
       snap_hourly_limit_global = hourly_global policy, snap_daily_limit_global = daily_global policy,
       snap_last_5_minutes = us_last_5_minutes u, snap_last_hour = us_last_hour u,
       snap_last_24_hours = us_last_day u, snap_spike_threshold = spike_per_5_minutes policy,
       snap_traffic_spike = traffic_spike policy u, snap_updated_at = us_updated_at u\<rparr>)"

datatype sms_control_error = ControlForbidden | ControlConflict | ControlDatabase database_error

definition actor_role :: "identity_db \<Rightarrow> uuid \<Rightarrow> string option" where
  "actor_role s actor =
     (if live_account (id_core s) actor then map_option acc_role (user_account (id_core s) actor)
      else None)"

definition utext_of :: "string \<Rightarrow> utext" where
  "utext_of = map of_char"

definition set_suspended ::
  "env \<Rightarrow> uuid \<Rightarrow> bool \<Rightarrow> int \<Rightarrow> (identity_db, sms_control_error, unit) op" where
  "set_suspended e actor suspended version = transaction (\<lambda>s.
     if actor_role s actor \<noteq> Some ''superadmin'' then (Inl ControlForbidden, s)
     else if ctl_version (sms_send_control s) \<noteq> version then (Inl ControlConflict, s)
     else (Inr (), s\<lparr>sms_send_control :=
             \<lparr>ctl_suspended = suspended, ctl_version = ctl_version (sms_send_control s) + 1,
              ctl_updated_at = Some (clk e 0)\<rparr>,
           data_access_log := data_access_log s @
             [\<lparr>au_accessed_user = actor, au_accessor = actor, au_role = ''superadmin'',
               au_action = (if suspended then ''admin_suspend_sms'' else ''admin_resume_sms''),
               au_reason = utext_of (if suspended then ''SMS sending suspended''
                                     else ''SMS sending resumed'')\<rparr>]\<rparr>))"

section \<open>Decisions and observations\<close>

datatype policy_error =
  PolicyForbidden | PolicyInvalid | PolicyConflict | PolicyNotFound | PolicyUnavailable
| PolicyKeyMismatch

fun policy_safe_code :: "policy_error \<Rightarrow> string" where
  "policy_safe_code PolicyKeyMismatch = ''phone_blocklist_key_mismatch''"
| "policy_safe_code _ = ''phone_policy_unavailable''"

fun policy_error_display :: "policy_error \<Rightarrow> string" where
  "policy_error_display PolicyForbidden = ''admin_action_forbidden''"
| "policy_error_display PolicyInvalid = ''invalid_admin_request''"
| "policy_error_display PolicyConflict = ''resource_changed''"
| "policy_error_display PolicyNotFound = ''resource_not_found''"
| "policy_error_display PolicyUnavailable = ''phone_policy_unavailable''"
| "policy_error_display PolicyKeyMismatch = ''phone_blocklist_key_mismatch''"

datatype admin_role = AdminRole | SuperadminRole

definition admin_role_parse :: "string \<Rightarrow> admin_role option" where
  "admin_role_parse v =
     (if v = ''admin'' then Some AdminRole
      else if v = ''superadmin'' then Some SuperadminRole else None)"

fun admin_role_str :: "admin_role \<Rightarrow> string" where
  "admin_role_str AdminRole = ''admin''"
| "admin_role_str SuperadminRole = ''superadmin''"

definition audit_reason :: "admin_role \<Rightarrow> utext \<Rightarrow> utext \<Rightarrow> utext" where
  "audit_reason role supplied automatic =
     (if role = SuperadminRole \<and> javascript_trim supplied = [] then automatic else supplied)"

record phone_key =
  pk_hash :: string
  pk_hint :: utext

text \<open>The hint keeps the last four digits, after \<^verbatim>\<open>+33\<close> and two ellipses.\<close>

definition phone_key_new :: "primitives \<Rightarrow> utext \<Rightarrow> string \<Rightarrow> policy_error + phone_key" where
  "phone_key_new P phone key =
     (if length (utf8_encode phone) > 64 then Inl PolicyInvalid
      else case normalize_phone phone of
        None \<Rightarrow> Inl PolicyInvalid
      | Some canonical \<Rightarrow>
          (case hmac_sha256 P canonical key of
             Inl _ \<Rightarrow> Inl PolicyUnavailable
           | Inr hash \<Rightarrow>
               Inr \<lparr>pk_hash = hash,
                    pk_hint = utext_of ''+33'' @ [8230, 8230] @ utext_of (drop (length canonical - 4) canonical)\<rparr>))"

datatype policy_target = TargetId uuid | TargetPhone phone_key

record policy_change =
  ch_actor :: uuid
  ch_target :: policy_target
  ch_decision :: blocklist_decision
  ch_days :: "nat option"
  ch_version :: int
  ch_reason :: "utext option"

fun accepts_duration :: "blocklist_decision \<Rightarrow> nat option \<Rightarrow> bool" where
  "accepts_duration Automatic d = (d = None)"
| "accepts_duration _ d = (case d of Some n \<Rightarrow> 1 \<le> n \<and> n \<le> 90 | None \<Rightarrow> False)"

fun audit_action :: "blocklist_decision \<Rightarrow> string" where
  "audit_action Automatic = ''admin_reset_phone_policy''"
| "audit_action Allow = ''admin_allow_phone''"
| "audit_action Block = ''admin_block_phone''"

definition utf16_count :: "utext \<Rightarrow> nat" where
  "utf16_count v = sum_list (map (\<lambda>c. if c \<ge> 65536 then 2 else 1) v)"

definition is_control :: "nat \<Rightarrow> bool" where
  "is_control c \<longleftrightarrow> c < 32 \<or> (127 \<le> c \<and> c < 160)"

definition authorized_reason :: "policy_change \<Rightarrow> admin_role \<Rightarrow> policy_error + utext" where
  "authorized_reason c role =
     (if role = AdminRole \<and> ch_decision c \<noteq> Allow then Inl PolicyForbidden
      else if ch_version c < 0 \<or> \<not> accepts_duration (ch_decision c) (ch_days c) then Inl PolicyInvalid
      else
        (let supplied = javascript_trim (case ch_reason c of Some r \<Rightarrow> r | None \<Rightarrow> []);
             reason = audit_reason role supplied (utext_of ''Superadmin phone policy change'')
         in if \<not> (3 \<le> utf16_count reason \<and> utf16_count reason \<le> 500) \<or> list_ex is_control reason
            then Inl PolicyInvalid else Inr reason))"

definition new_entry :: "uuid \<Rightarrow> phone_key \<Rightarrow> blocklist_entry" where
  "new_entry i key =
     \<lparr>ble_id = i, ble_phone_hash = pk_hash key, ble_phone_hint = pk_hint key,
      ble_decision = Automatic, ble_decision_until = None, ble_version = 0\<rparr>"

text \<open>\<^verbatim>\<open>INSERT ... ON CONFLICT (phone_hash) DO NOTHING\<close>; \<open>i\<close> is the new identifier.\<close>

definition insert_entry :: "uuid \<Rightarrow> phone_key \<Rightarrow> (identity_db, policy_error, unit) op" where
  "insert_entry i key s =
     (if find_entry s (pk_hash key) \<noteq> None then (Inr (), s)
      else if \<exists>e \<in> set (phone_blocklist_entry s). ble_id e = i then (Inl PolicyUnavailable, s)
      else (Inr (), s\<lparr>phone_blocklist_entry := phone_blocklist_entry s @ [new_entry i key]\<rparr>))"

definition resolve_target :: "uuid \<Rightarrow> policy_target \<Rightarrow> (identity_db, policy_error, uuid) op" where
  "resolve_target new_id target =
     (case target of
        TargetId i \<Rightarrow> ok i
      | TargetPhone key \<Rightarrow>
          then_op (insert_entry new_id key)
            (lift_result (\<lambda>s. case find_entry s (pk_hash key) of
               Some e \<Rightarrow> Inr (ble_id e) | None \<Rightarrow> Inl PolicyUnavailable)))"

definition changed_entry :: "instant \<Rightarrow> policy_change \<Rightarrow> blocklist_entry \<Rightarrow> blocklist_entry" where
  "changed_entry t c e =
     e\<lparr>ble_decision := ch_decision c,
       ble_decision_until := map_option (\<lambda>d. t + days (int d)) (ch_days c),
       ble_version := ble_version e + 1\<rparr>"

definition change_on ::
  "text_crates \<Rightarrow> env \<Rightarrow> policy_change \<Rightarrow> (identity_db, policy_error, unit) op" where
  "change_on X e c s =
     (case Option.bind (actor_role s (ch_actor c)) admin_role_parse of
        None \<Rightarrow> (Inl PolicyForbidden, s)
      | Some role \<Rightarrow>
          (case authorized_reason c role of
             Inl x \<Rightarrow> (Inl x, s)
           | Inr reason \<Rightarrow>
               bind_op (resolve_target (new_v4 e 0) (ch_target c)) (\<lambda>i s'.
                 case find (\<lambda>x. ble_id x = i) (phone_blocklist_entry s') of
                   None \<Rightarrow> (Inl PolicyNotFound, s')
                 | Some x \<Rightarrow>
                     if ble_version x \<noteq> ch_version c then (Inl PolicyConflict, s')
                     else (Inr (), s'\<lparr>phone_blocklist_entry :=
                             upd_where (\<lambda>y. ble_id y = i) (changed_entry (clk e 0) c)
                               (phone_blocklist_entry s'),
                           data_access_log := data_access_log s' @
                             [\<lparr>au_accessed_user = ch_actor c, au_accessor = ch_actor c,
                               au_role = admin_role_str role, au_action = audit_action (ch_decision c),
                               au_reason = reason @ utext_of ('' [policy:'' @ hyphenated X i @ '']'')\<rparr>]\<rparr>)) s))"

definition blocklist_change ::
  "text_crates \<Rightarrow> env \<Rightarrow> policy_change \<Rightarrow> (identity_db, policy_error, unit) op" where
  "blocklist_change X e c = transaction (change_on X e c)"

text \<open>What an operator sees of a number: the entry with the observations in the order of their source, or
  the defaults.\<close>

record entry_view =
  en_id :: "uuid option"
  en_phone_hint :: utext
  en_decision :: blocklist_decision
  en_decision_until :: "instant option"
  en_version :: int
  en_blocked :: bool
  en_observations :: "(string \<times> instant \<times> instant) list"

definition map_entry :: "instant \<Rightarrow> identity_db \<Rightarrow> blocklist_entry \<Rightarrow> entry_view" where
  "map_entry t s x =
     \<lparr>en_id = Some (ble_id x), en_phone_hint = ble_phone_hint x, en_decision = ble_decision x,
      en_decision_until = ble_decision_until x, en_version = ble_version x,
      en_blocked = entry_blocked t s x,
      en_observations =
        map (\<lambda>r. (blo_source r, blo_last_seen_at r, blo_last_seen_at r + days OBSERVATION_DAYS))
          (filter (\<lambda>r. blo_entry r = ble_id x \<and> blo_source r = ''castle'') (phone_blocklist_observation s) @
           filter (\<lambda>r. blo_entry r = ble_id x \<and> blo_source r = ''ip1'') (phone_blocklist_observation s))\<rparr>"

definition blocklist_lookup :: "instant \<Rightarrow> phone_key \<Rightarrow> identity_db \<Rightarrow> entry_view" where
  "blocklist_lookup t key s =
     (case find_entry s (pk_hash key) of
        Some x \<Rightarrow> map_entry t s x
      | None \<Rightarrow>
          \<lparr>en_id = None, en_phone_hint = pk_hint key, en_decision = Automatic,
           en_decision_until = None, en_version = 0, en_blocked = False, en_observations = []\<rparr>)"

section \<open>Imports\<close>

definition MAX_IMPORT_ENTRIES :: nat where "MAX_IMPORT_ENTRIES = 200000"

datatype feed_source = Castle | Ip1

fun feed_name :: "feed_source \<Rightarrow> string" where
  "feed_name Castle = ''castle''"
| "feed_name Ip1 = ''ip1''"

record imported_number =
  im_key :: phone_key
  im_last_seen_at :: instant

definition key_fingerprint :: "primitives \<Rightarrow> string \<Rightarrow> policy_error + string" where
  "key_fingerprint P key =
     (case hmac_sha256 P ''histae:phone-blocklist:key-check:v1'' key of
        Inl _ \<Rightarrow> Inl PolicyUnavailable | Inr f \<Rightarrow> Inr f)"

definition verify_key_on :: "string \<Rightarrow> (identity_db, policy_error, unit) op" where
  "verify_key_on expected s =
     (if phone_blocklist_key s = Some expected then (Inr (), s) else (Inl PolicyKeyMismatch, s))"

definition initialize_key :: "primitives \<Rightarrow> string \<Rightarrow> (identity_db, policy_error, unit) op" where
  "initialize_key P key =
     (case key_fingerprint P key of
        Inl x \<Rightarrow> err x
      | Inr f \<Rightarrow> transaction (then_op
          (modify (\<lambda>s. if phone_blocklist_key s = None then s\<lparr>phone_blocklist_key := Some f\<rparr> else s))
          (verify_key_on f)))"

definition check_key :: "primitives \<Rightarrow> string \<Rightarrow> (identity_db, policy_error, unit) op" where
  "check_key P key =
     (case key_fingerprint P key of Inl x \<Rightarrow> err x | Inr f \<Rightarrow> verify_key_on f)"

text \<open>One entry per number that has none yet, then one observation per entry, never older than the
  one it replaces; a number twice in one statement fails it.\<close>

fun insert_entries :: "env \<Rightarrow> nat \<Rightarrow> imported_number list \<Rightarrow> (identity_db, policy_error, unit) op" where
  "insert_entries e k [] = ok ()"
| "insert_entries e k (n # ns) =
     then_op (insert_entry (new_v4 e k) (im_key n)) (insert_entries e (Suc k) ns)"

definition observe :: "feed_source \<Rightarrow> imported_number \<Rightarrow> identity_db \<Rightarrow> identity_db" where
  "observe source n s =
     (case find_entry s (pk_hash (im_key n)) of
        None \<Rightarrow> s
      | Some x \<Rightarrow>
          (if \<exists>r \<in> set (phone_blocklist_observation s).
                blo_entry r = ble_id x \<and> blo_source r = feed_name source
           then s\<lparr>phone_blocklist_observation :=
             upd_where (\<lambda>r. blo_entry r = ble_id x \<and> blo_source r = feed_name source)
               (\<lambda>r. r\<lparr>blo_last_seen_at := max (blo_last_seen_at r) (im_last_seen_at n)\<rparr>)
               (phone_blocklist_observation s)\<rparr>
           else s\<lparr>phone_blocklist_observation := phone_blocklist_observation s @
             [\<lparr>blo_entry = ble_id x, blo_source = feed_name source,
               blo_last_seen_at = im_last_seen_at n\<rparr>]\<rparr>))"

definition import_observations ::
  "feed_source \<Rightarrow> imported_number list \<Rightarrow> (identity_db, policy_error, unit) op" where
  "import_observations source ns s =
     (if \<not> distinct (map (\<lambda>n. pk_hash (im_key n)) ns) then (Inl PolicyUnavailable, s)
      else (Inr (), fold (observe source) ns s))"

definition source_succeeded :: "instant \<Rightarrow> feed_source \<Rightarrow> nat \<Rightarrow> identity_db \<Rightarrow> identity_db" where
  "source_succeeded t source count s =
     s\<lparr>phone_blocklist_source := upd_where (\<lambda>r. bls_source r = feed_name source)
        (\<lambda>r. r\<lparr>bls_last_attempt_at := Some t, bls_last_success_at := Some t, bls_last_error := None,
               bls_imported_count := int count\<rparr>) (phone_blocklist_source s)\<rparr>"

definition import_numbers ::
  "primitives \<Rightarrow> env \<Rightarrow> feed_source \<Rightarrow> imported_number list \<Rightarrow> string \<Rightarrow>
   (identity_db, policy_error, nat) op" where
  "import_numbers P e source ns key =
     (if length ns > MAX_IMPORT_ENTRIES then err PolicyInvalid
      else case key_fingerprint P key of
        Inl x \<Rightarrow> err x
      | Inr f \<Rightarrow> transaction (
          then_op (verify_key_on f)
          (then_op (insert_entries e 0 ns)
          (then_op (import_observations source ns)
          (then_op (modify (source_succeeded (clk e 0) source (length ns)))
          (ok (length ns)))))))"

definition record_failure :: "instant \<Rightarrow> feed_source \<Rightarrow> (identity_db, policy_error, unit) op" where
  "record_failure t source = modify (\<lambda>s.
     s\<lparr>phone_blocklist_source := upd_where (\<lambda>r. bls_source r = feed_name source)
        (\<lambda>r. r\<lparr>bls_last_attempt_at := Some t, bls_last_error := Some ''phone_feed_unavailable''\<rparr>)
        (phone_blocklist_source s)\<rparr>)"

end
