(* ===== verification/Otp.thy ===== *)
theory Otp
  imports Sms_Safety
begin

text \<open>
  \<^verbatim>\<open>src/identity/mobile/otp/pg.rs\<close>, \<^verbatim>\<open>otp/domain.rs\<close> and the failure reasons of
  \<^verbatim>\<open>sweego.rs\<close>: the ledger of one-time codes.  A code becomes usable when the provider accepts or
  reports its delivery, and it replaces the older codes of the number.
\<close>

section \<open>Domain\<close>

fun otp_state_as_str :: "otp_delivery_state \<Rightarrow> string" where
  "otp_state_as_str OtpPending = ''pending''"
| "otp_state_as_str OtpAccepted = ''accepted''"
| "otp_state_as_str OtpSent = ''sent''"
| "otp_state_as_str OtpFailed = ''failed''"
| "otp_state_as_str OtpUnknown = ''unknown''"

definition otp_state_parse :: "string \<Rightarrow> database_error + otp_delivery_state" where
  "otp_state_parse v =
     (if v = ''pending'' then Inr OtpPending else if v = ''accepted'' then Inr OtpAccepted
      else if v = ''sent'' then Inr OtpSent else if v = ''failed'' then Inr OtpFailed
      else if v = ''unknown'' then Inr OtpUnknown else Inl QueryFailed)"

lemma otp_state_round_trip [simp]: "otp_state_parse (otp_state_as_str v) = Inr v"
  by (cases v) (simp_all add: otp_state_parse_def)

datatype sms_failure_reason =
  NotConfigured | ReasonPhoneBlocked | ProviderRejected | ProviderUnavailable | ProviderNetworkError
| ProviderInvalidResponse | PhoneHourlyLimit | PhoneDailyLimit | ReasonGlobalHourlyLimit
| ReasonGlobalDailyLimit | SendingSuspended | SafetyUnavailable | AttemptAlreadyReserved

fun sms_reason_as_str :: "sms_failure_reason \<Rightarrow> string" where
  "sms_reason_as_str ReasonPhoneBlocked = ''sms_phone_blocked''"
| "sms_reason_as_str NotConfigured = ''not_configured''"
| "sms_reason_as_str ProviderRejected = ''provider_rejected''"
| "sms_reason_as_str ProviderUnavailable = ''provider_unavailable''"
| "sms_reason_as_str ProviderNetworkError = ''provider_network_error''"
| "sms_reason_as_str ProviderInvalidResponse = ''provider_invalid_response''"
| "sms_reason_as_str PhoneHourlyLimit = ''sms_phone_hourly_limit''"
| "sms_reason_as_str PhoneDailyLimit = ''sms_phone_daily_limit''"
| "sms_reason_as_str ReasonGlobalHourlyLimit = ''sms_global_hourly_limit''"
| "sms_reason_as_str ReasonGlobalDailyLimit = ''sms_global_daily_limit''"
| "sms_reason_as_str SendingSuspended = ''sms_sending_suspended''"
| "sms_reason_as_str SafetyUnavailable = ''sms_safety_unavailable''"
| "sms_reason_as_str AttemptAlreadyReserved = ''sms_attempt_already_reserved''"

definition is_budget_limit :: "sms_failure_reason \<Rightarrow> bool" where
  "is_budget_limit r \<longleftrightarrow>
     r \<in> {PhoneHourlyLimit, PhoneDailyLimit, ReasonGlobalHourlyLimit, ReasonGlobalDailyLimit}"

definition policy_rejection :: "string \<Rightarrow> sms_failure_reason option" where
  "policy_rejection c =
     (if c = ''sms_phone_hourly_limit'' then Some PhoneHourlyLimit
      else if c = ''sms_phone_daily_limit'' then Some PhoneDailyLimit
      else if c = ''sms_global_hourly_limit'' then Some ReasonGlobalHourlyLimit
      else if c = ''sms_global_daily_limit'' then Some ReasonGlobalDailyLimit
      else if c = ''sms_phone_blocked'' then Some ReasonPhoneBlocked
      else if c = ''sms_sending_suspended'' then Some SendingSuspended
      else if c = ''sms_safety_unavailable'' then Some SafetyUnavailable
      else if c = ''sms_attempt_already_reserved'' then Some AttemptAlreadyReserved
      else None)"

datatype otp_delivery_start =
  Created uuid | Existing otp_delivery_state uuid | Conflict | PolicyRejected sms_failure_reason

record begin_otp_delivery =
  bod_language :: language
  bod_id :: uuid
  bod_phone_hash :: string
  bod_otp_hash :: string
  bod_idempotency_key :: uuid
  bod_ttl :: duration
  bod_settlement :: duration

datatype sms_event_kind = EventSent | EventUndelivered

record sms_delivery_event =
  ev_delivery_id :: uuid
  ev_message_id :: string
  ev_transaction_id :: "string option"
  ev_kind :: sms_event_kind

datatype sms_event_outcome = EventApplied | EventIgnored | EventConflict

section \<open>Statements\<close>

text \<open>Whole milliseconds, if they fit an \<^verbatim>\<open>i64\<close>.\<close>

definition duration_millis :: "duration \<Rightarrow> database_error + int" where
  "duration_millis d =
     (let ms = d div 1000 in if ms < 2 ^ 63 then Inr ms else Inl QueryFailed)"

definition find_otp :: "identity_db \<Rightarrow> (otp_row \<Rightarrow> bool) \<Rightarrow> otp_row option" where
  "find_otp s Q = find Q (otp_verification s)"

definition update_otp :: "(otp_row \<Rightarrow> bool) \<Rightarrow> (otp_row \<Rightarrow> otp_row) \<Rightarrow> identity_db \<Rightarrow> identity_db" where
  "update_otp Q f s = s\<lparr>otp_verification := upd_where Q f (otp_verification s)\<rparr>"

text \<open>The index \<^verbatim>\<open>idx_otp_one_usable_per_phone\<close>.\<close>

definition otp_usable :: "otp_row \<Rightarrow> bool" where
  "otp_usable r \<longleftrightarrow> otp_delivery_status r \<in> {OtpAccepted, OtpSent} \<and> \<not> otp_used r"

definition usable_index_ok :: "otp_row list \<Rightarrow> bool" where
  "usable_index_ok rows \<longleftrightarrow> distinct (map otp_phone_hash (filter otp_usable rows))"

definition locked_delivery :: "identity_db \<Rightarrow> uuid \<Rightarrow> string \<Rightarrow> otp_row option" where
  "locked_delivery s i phone_hash = find_otp s (\<lambda>r. otp_id r = i \<and> otp_phone_hash r = phone_hash)"

definition matches_receipt :: "otp_row \<Rightarrow> string \<Rightarrow> string option \<Rightarrow> bool" where
  "matches_receipt r message_id transaction_id \<longleftrightarrow>
     (case otp_message_id r of None \<Rightarrow> True | Some stored \<Rightarrow> stored = message_id) \<and>
     (case otp_transaction_id r of
        None \<Rightarrow> True
      | Some stored \<Rightarrow> (case transaction_id of None \<Rightarrow> True | Some supplied \<Rightarrow> supplied = stored))"

text \<open>A code that is expired or older than a confirmed one is spent; otherwise it spends the older
  ones.\<close>

definition mark_used :: "otp_row \<Rightarrow> otp_row" where
  "mark_used r = r\<lparr>otp_used := True\<rparr>"

definition superseded :: "instant \<Rightarrow> otp_row list \<Rightarrow> otp_row \<Rightarrow> otp_row \<Rightarrow> bool" where
  "superseded t rows row r \<longleftrightarrow>
     otp_id r = otp_id row \<and>
     (otp_expires_at r \<le> t \<or>
      (\<exists>x \<in> set rows. otp_phone_hash x = otp_phone_hash row \<and>
         otp_attempt_number x > otp_attempt_number row \<and> otp_sent_at x \<noteq> None))"

definition older_unused :: "otp_row list \<Rightarrow> otp_row \<Rightarrow> otp_row \<Rightarrow> bool" where
  "older_unused rows row r \<longleftrightarrow>
     otp_phone_hash r = otp_phone_hash row \<and> otp_attempt_number r < otp_attempt_number row \<and>
     \<not> otp_used r \<and> (\<exists>x \<in> set rows. otp_id x = otp_id row \<and> \<not> otp_used x)"

definition activate_rows :: "instant \<Rightarrow> otp_row \<Rightarrow> otp_row list \<Rightarrow> otp_row list" where
  "activate_rows t row rows =
     (if otp_used row then rows
      else let first = upd_where (superseded t rows row) mark_used rows
           in upd_where (older_unused first row) mark_used first)"

definition activate :: "instant \<Rightarrow> otp_row \<Rightarrow> identity_db \<Rightarrow> identity_db" where
  "activate t row s = s\<lparr>otp_verification := activate_rows t row (otp_verification s)\<rparr>"

text \<open>An update that would leave two usable codes of one number violates the index.\<close>

definition update_checked ::
  "uuid \<Rightarrow> (otp_row \<Rightarrow> otp_row) \<Rightarrow> (identity_db, database_error, unit) op" where
  "update_checked i f s =
     (let s' = update_otp (\<lambda>r. otp_id r = i) f s
      in if usable_index_ok (otp_verification s') then (Inr (), s')
         else (Inl (Constraint Unique), s))"

definition or_now :: "instant \<Rightarrow> instant option \<Rightarrow> instant option" where
  "or_now t x = (case x of None \<Rightarrow> Some t | Some y \<Rightarrow> Some y)"

section \<open>Operations\<close>

definition new_otp_row :: "env \<Rightarrow> begin_otp_delivery \<Rightarrow> int \<Rightarrow> int \<Rightarrow> nat \<Rightarrow> otp_row" where
  "new_otp_row e input ttl_millis settlement_millis attempt =
     \<lparr>otp_id = bod_id input, otp_phone_hash = bod_phone_hash input, otp_code_hash = bod_otp_hash input,
      otp_language = bod_language input, otp_expires_at = clk e 0 + ttl_millis * 1000,
      otp_used = False, otp_idempotency_key = bod_idempotency_key input,
      otp_delivery_status = OtpPending, otp_provider = ''sweego'', otp_transaction_id = None,
      otp_message_id = None, otp_error_code = None, otp_sent_at = None, otp_created_at = tx_now e,
      otp_attempt_number = attempt, otp_settlement_deadline = clk e 1 + settlement_millis * 1000,
      otp_provider_sent_at = None, otp_failed_at = None, otp_last_webhook_at = None\<rparr>"

definition settle_stale :: "instant \<Rightarrow> begin_otp_delivery \<Rightarrow> identity_db \<Rightarrow> identity_db" where
  "settle_stale t input =
     update_otp (\<lambda>r. otp_idempotency_key r = bod_idempotency_key input \<and>
         otp_phone_hash r = bod_phone_hash input \<and> otp_language r = bod_language input \<and>
         otp_delivery_status r = OtpPending \<and> otp_settlement_deadline r \<le> t)
       (\<lambda>r. r\<lparr>otp_delivery_status := OtpUnknown, otp_error_code := Some ''delivery_unknown''\<rparr>)"

definition begin_existing :: "begin_otp_delivery \<Rightarrow> (identity_db, database_error, otp_delivery_start) op" where
  "begin_existing input s =
     (case find_otp s (\<lambda>r. otp_idempotency_key r = bod_idempotency_key input) of
        None \<Rightarrow> (Inl QueryFailed, s)
      | Some r \<Rightarrow>
          if otp_phone_hash r \<noteq> bod_phone_hash input \<or> otp_language r \<noteq> bod_language input
          then (Inr Conflict, s)
          else (case (otp_delivery_status r, Option.bind (otp_error_code r) policy_rejection) of
              (OtpFailed, Some reason) \<Rightarrow> (Inr (PolicyRejected reason), s)
            | (state, _) \<Rightarrow> (Inr (Existing state (otp_id r)), s)))"

definition otp_begin ::
  "env \<Rightarrow> begin_otp_delivery \<Rightarrow> (identity_db, database_error, otp_delivery_start) op" where
  "otp_begin e input = transaction (\<lambda>s.
     case (duration_millis (bod_ttl input), duration_millis (bod_settlement input)) of
       (Inr ttl, Inr settlement) \<Rightarrow>
         (let numbered = s\<lparr>otp_next_attempt := Suc (otp_next_attempt s)\<rparr> in
          if find_otp s (\<lambda>r. otp_idempotency_key r = bod_idempotency_key input) \<noteq> None
          then begin_existing input (settle_stale (clk e 2) input numbered)
          else if find_otp s (\<lambda>r. otp_id r = bod_id input) \<noteq> None
          then (Inl (Constraint Unique), s)
          else (Inr (Created (bod_id input)),
                numbered\<lparr>otp_verification := otp_verification s @
                  [new_otp_row e input ttl settlement (otp_next_attempt s)]\<rparr>))
     | _ \<Rightarrow> (Inl QueryFailed, s))"

definition accepted_row :: "instant \<Rightarrow> string \<Rightarrow> string \<Rightarrow> otp_row \<Rightarrow> otp_row" where
  "accepted_row t transaction_id message_id r =
     r\<lparr>otp_delivery_status := (if otp_delivery_status r = OtpSent then OtpSent else OtpAccepted),
       otp_transaction_id := Some transaction_id, otp_message_id := Some message_id,
       otp_sent_at := or_now t (otp_sent_at r), otp_error_code := None\<rparr>"

definition mark_accepted ::
  "env \<Rightarrow> uuid \<Rightarrow> string \<Rightarrow> string \<Rightarrow> string \<Rightarrow> (identity_db, database_error, bool) op" where
  "mark_accepted e i phone_hash transaction_id message_id = transaction (\<lambda>s.
     case locked_delivery s i phone_hash of
       None \<Rightarrow> (Inr False, s)
     | Some row \<Rightarrow>
         if \<not> matches_receipt row message_id (Some transaction_id) \<or> otp_delivery_status row = OtpFailed
         then (Inr False, s)
         else then_op (modify (activate (clk e 0) row))
           (then_op (update_checked i (accepted_row (clk e 1) transaction_id message_id))
             (gets (\<lambda>s. case find_otp s (\<lambda>r. otp_id r = i) of
                Some r \<Rightarrow> otp_expires_at r > clk e 1 | None \<Rightarrow> False))) s)"

definition outcome_row :: "instant \<Rightarrow> otp_delivery_state \<Rightarrow> sms_failure_reason \<Rightarrow> otp_row \<Rightarrow> otp_row" where
  "outcome_row t state reason r =
     r\<lparr>otp_delivery_status := state, otp_error_code := Some (sms_reason_as_str reason),
       otp_failed_at := (if state = OtpFailed then or_now t (otp_failed_at r) else otp_failed_at r)\<rparr>"

text \<open>Called with \<^verbatim>\<open>Unknown\<close> or \<^verbatim>\<open>Failed\<close>.\<close>

definition mark_outcome ::
  "env \<Rightarrow> uuid \<Rightarrow> string \<Rightarrow> otp_delivery_state \<Rightarrow> sms_failure_reason \<Rightarrow>
   (identity_db, database_error, otp_delivery_state) op" where
  "mark_outcome e i phone_hash state reason = transaction (\<lambda>s.
     case locked_delivery s i phone_hash of
       None \<Rightarrow> (Inr state, s)
     | Some row \<Rightarrow>
         if otp_delivery_status row \<notin> {OtpPending, OtpUnknown} then (Inr (otp_delivery_status row), s)
         else then_op (update_checked i (outcome_row (clk e 0) state reason)) (ok state) s)"

definition sms_event_row :: "instant \<Rightarrow> sms_delivery_event \<Rightarrow> otp_row \<Rightarrow> otp_row" where
  "sms_event_row t event r =
     (let sent = (ev_kind event = EventSent) in
      r\<lparr>otp_delivery_status := (if sent then OtpSent else OtpFailed),
        otp_message_id := Some (ev_message_id event),
        otp_transaction_id := (case otp_transaction_id r of
            None \<Rightarrow> ev_transaction_id event | Some x \<Rightarrow> Some x),
        otp_sent_at := (if sent then or_now t (otp_sent_at r) else otp_sent_at r),
        otp_provider_sent_at :=
          (if sent then or_now t (otp_provider_sent_at r) else otp_provider_sent_at r),
        otp_failed_at := (if sent then otp_failed_at r else or_now t (otp_failed_at r)),
        otp_error_code := (if sent then None else Some ''provider_undelivered''),
        otp_last_webhook_at := Some t\<rparr>)"

definition apply_sms_event ::
  "env \<Rightarrow> sms_delivery_event \<Rightarrow> (identity_db, database_error, sms_event_outcome) op" where
  "apply_sms_event e event = transaction (\<lambda>s.
     case find_otp s (\<lambda>r. otp_id r = ev_delivery_id event \<and> otp_provider r = ''sweego'') of
       None \<Rightarrow> (Inr EventIgnored, s)
     | Some found \<Rightarrow>
         (case locked_delivery s (ev_delivery_id event) (otp_phone_hash found) of
            None \<Rightarrow> (Inr EventIgnored, s)
          | Some row \<Rightarrow>
              if \<not> matches_receipt row (ev_message_id event) (ev_transaction_id event)
              then (Inr EventConflict, s)
              else if otp_delivery_status row = OtpFailed \<or>
                      (otp_delivery_status row = OtpSent \<and> ev_kind event = EventSent)
              then (Inr EventIgnored, s)
              else then_op
                (modify (if ev_kind event = EventSent then activate (clk e 0) row else id))
                (then_op (update_checked (ev_delivery_id event) (sms_event_row (clk e 1) event))
                  (ok EventApplied)) s))"

definition consumable :: "instant \<Rightarrow> string \<Rightarrow> string \<Rightarrow> otp_row \<Rightarrow> bool" where
  "consumable t phone_hash otp_hash r \<longleftrightarrow>
     otp_phone_hash r = phone_hash \<and> otp_code_hash r = otp_hash \<and> otp_usable r \<and> otp_expires_at r > t"

definition otp_consume :: "env \<Rightarrow> string \<Rightarrow> string \<Rightarrow> (identity_db, database_error, bool) op" where
  "otp_consume e phone_hash otp_hash = transaction (\<lambda>s.
     if otp_blocked_on (clk e 0) s phone_hash then (Inr False, s)
     else (Inr (rows_where (consumable (clk e 1) phone_hash otp_hash) (otp_verification s) = 1),
           update_otp (consumable (clk e 1) phone_hash otp_hash) mark_used s))"

text \<open>The retention of \<^verbatim>\<open>src/privacy/maintenance.rs\<close> deletes expired codes.\<close>

definition retention_otps :: "instant \<Rightarrow> nat \<Rightarrow> identity_db \<Rightarrow> identity_db" where
  "retention_otps now limit s =
     (let victims = order_limit otp_expires_at limit
            (filter (\<lambda>r. otp_expires_at r \<le> now) (otp_verification s))
      in s\<lparr>otp_verification :=
             del_where (\<lambda>r. otp_id r \<in> set (map otp_id victims)) (otp_verification s)\<rparr>)"

end
