(* ===== verification/Otp_Proofs.thy ===== *)
theory Otp_Proofs
  imports Otp
begin

text \<open>
  The ledger of codes stays consistent: a number never has two usable codes, so that recording a
  delivery never violates the index that says so; a code that was spent stays spent.
\<close>

section \<open>The invariant\<close>

definition otp_ok :: "nat \<Rightarrow> otp_row list \<Rightarrow> bool" where
  "otp_ok n rows \<longleftrightarrow>
     distinct (map otp_id rows) \<and> distinct (map otp_idempotency_key rows) \<and>
     distinct (map otp_attempt_number rows) \<and> (\<forall>r \<in> set rows. otp_attempt_number r < n) \<and>
     usable_index_ok rows \<and>
     (\<forall>r \<in> set rows. otp_delivery_status r \<in> {OtpAccepted, OtpSent} \<longrightarrow> otp_sent_at r \<noteq> None)"

lemma usable_index_iff:
  assumes "distinct (map otp_id rows)"
  shows "usable_index_ok rows \<longleftrightarrow>
    (\<forall>x \<in> set rows. \<forall>y \<in> set rows. otp_usable x \<longrightarrow> otp_usable y \<longrightarrow>
       otp_phone_hash x = otp_phone_hash y \<longrightarrow> x = y)"
  using assms by (auto simp: usable_index_ok_def distinct_map inj_on_def)

text \<open>A change of rows that keeps what identifies them.\<close>

definition same_row :: "otp_row \<Rightarrow> otp_row \<Rightarrow> bool" where
  "same_row r r' \<longleftrightarrow>
     otp_id r' = otp_id r \<and> otp_idempotency_key r' = otp_idempotency_key r \<and>
     otp_attempt_number r' = otp_attempt_number r \<and> otp_phone_hash r' = otp_phone_hash r \<and>
     otp_code_hash r' = otp_code_hash r \<and> (otp_used r \<longrightarrow> otp_used r')"

lemma same_row_refl [simp]: "same_row r r"
  by (simp add: same_row_def)

lemma same_row_trans: "same_row a b \<Longrightarrow> same_row b c \<Longrightarrow> same_row a c"
  by (simp add: same_row_def)

lemma same_rows_map:
  assumes "\<And>r. r \<in> set rows \<Longrightarrow> same_row r (g r)"
  shows "map otp_id (map g rows) = map otp_id rows"
    "map otp_idempotency_key (map g rows) = map otp_idempotency_key rows"
    "map otp_attempt_number (map g rows) = map otp_attempt_number rows"
  using assms by (auto simp: same_row_def)

lemma otp_ok_map:
  assumes ok: "otp_ok n rows" and same: "\<And>r. r \<in> set rows \<Longrightarrow> same_row r (g r)"
    and sent: "\<And>r. r \<in> set rows \<Longrightarrow> otp_delivery_status (g r) \<in> {OtpAccepted, OtpSent} \<Longrightarrow>
      otp_sent_at (g r) \<noteq> None"
    and index: "\<And>x y. x \<in> set rows \<Longrightarrow> y \<in> set rows \<Longrightarrow> otp_usable (g x) \<Longrightarrow> otp_usable (g y) \<Longrightarrow>
      otp_phone_hash x = otp_phone_hash y \<Longrightarrow> x = y"
  shows "otp_ok n (map g rows)"
proof -
  note maps = same_rows_map [of rows g, OF same]
  have ids: "distinct (map otp_id (map g rows))"
    using ok by (simp add: maps(1) otp_ok_def del: map_map)
  have phone: "otp_phone_hash (g r) = otp_phone_hash r" if "r \<in> set rows" for r
    using same [OF that] by (simp add: same_row_def)
  have "g x = g y" if "x \<in> set rows" "y \<in> set rows" "otp_usable (g x)" "otp_usable (g y)"
    "otp_phone_hash (g x) = otp_phone_hash (g y)" for x y
    using index [OF that(1-4)] that phone by simp
  then have "usable_index_ok (map g rows)"
    unfolding usable_index_iff [OF ids] by simp
  moreover have "\<forall>r \<in> set (map g rows). otp_attempt_number r < n"
    using ok same by (auto simp: otp_ok_def same_row_def)
  ultimately show ?thesis
    using ok sent by (simp add: maps otp_ok_def del: map_map)
qed

lemma otp_ok_shrink:
  assumes ok: "otp_ok n rows" and "\<And>r. r \<in> set rows \<Longrightarrow> same_row r (g r)"
    "\<And>r. r \<in> set rows \<Longrightarrow> otp_delivery_status (g r) \<in> {OtpAccepted, OtpSent} \<Longrightarrow>
      otp_delivery_status r \<in> {OtpAccepted, OtpSent} \<and> otp_sent_at (g r) = otp_sent_at r"
  shows "otp_ok n (map g rows)"
proof (rule otp_ok_map [OF ok assms(2)])
  fix x y
  assume "x \<in> set rows" "y \<in> set rows" "otp_usable (g x)" "otp_usable (g y)"
    "otp_phone_hash x = otp_phone_hash y"
  then have "otp_usable x" "otp_usable y"
    using assms(2,3) by (auto simp: otp_usable_def same_row_def)
  then show "x = y"
    using ok usable_index_iff [of rows] \<open>x \<in> set rows\<close> \<open>y \<in> set rows\<close> \<open>otp_phone_hash x = otp_phone_hash y\<close>
    by (auto simp: otp_ok_def)
next
  fix r
  assume "r \<in> set rows" "otp_delivery_status (g r) \<in> {OtpAccepted, OtpSent}"
  then show "otp_sent_at (g r) \<noteq> None"
    using assms(3) ok by (fastforce simp: otp_ok_def)
qed

section \<open>Activation\<close>

lemma mark_used_simps [simp]:
  "same_row r (mark_used r)" "otp_used (mark_used r)"
  "otp_delivery_status (mark_used r) = otp_delivery_status r" "otp_sent_at (mark_used r) = otp_sent_at r"
  "otp_id (mark_used r) = otp_id r" "otp_phone_hash (mark_used r) = otp_phone_hash r"
  "otp_attempt_number (mark_used r) = otp_attempt_number r"
  "otp_expires_at (mark_used r) = otp_expires_at r"
  by (simp_all add: mark_used_def same_row_def)

text \<open>An activation spends some codes; the code itself stays unspent only when no other code of the
  number stays usable.\<close>

lemma activation:
  assumes ok: "otp_ok n rows" and row: "row \<in> set rows"
  obtains g where "activate_rows t row rows = map g rows" "\<And>r. g r = r \<or> g r = mark_used r"
    "\<And>x. \<not> otp_used (g row) \<Longrightarrow> x \<in> set rows \<Longrightarrow> otp_usable (g x) \<Longrightarrow>
       otp_phone_hash x = otp_phone_hash row \<Longrightarrow> x = row"
proof (cases "otp_used row")
  case True
  have "activate_rows t row rows = map id rows"
    using True by (simp add: activate_rows_def)
  then show thesis
    by (rule that) (use True in auto)
next
  case False
  define a where "a = (\<lambda>r. if superseded t rows row r then mark_used r else r)"
  define g where "g = (\<lambda>r. if older_unused (map a rows) row (a r) then mark_used (a r) else a r)"
  have "activate_rows t row rows = map g rows"
    using False by (simp add: activate_rows_def upd_where_def a_def g_def Let_def)
  moreover have "g r = r \<or> g r = mark_used r" for r
    by (simp add: g_def a_def mark_used_def)
  moreover have "x = row"
    if g: "\<not> otp_used (g row)" "x \<in> set rows" "otp_usable (g x)" "otp_phone_hash x = otp_phone_hash row" for x
  proof (rule ccontr)
    assume ne: "x \<noteq> row"
    have live: "\<not> otp_used (a row)" "\<not> superseded t rows row row"
      using g(1) by (auto simp: g_def a_def split: if_splits)
    have x: "otp_usable x" "\<not> older_unused (map a rows) row (a x)" "\<not> otp_used (a x)"
      using g(3) by (auto simp: g_def a_def otp_usable_def split: if_splits)
    have "otp_sent_at x \<noteq> None"
      using ok x(1) g(2) by (auto simp: otp_ok_def otp_usable_def)
    then have "\<not> otp_attempt_number x > otp_attempt_number row"
      using live(2) g(2,4) by (auto simp: superseded_def)
    moreover have "otp_attempt_number x \<noteq> otp_attempt_number row"
      using ok ne g(2) row by (auto simp: otp_ok_def distinct_map dest: inj_onD)
    moreover have "otp_phone_hash (a x) = otp_phone_hash x"
      "otp_attempt_number (a x) = otp_attempt_number x" "otp_id (a row) = otp_id row"
      by (simp_all add: a_def)
    ultimately have "older_unused (map a rows) row (a x)"
      using live(1) x(3) g(4) row by (auto simp: older_unused_def intro!: bexI [of _ row])
    then show False
      using x(2) by simp
  qed
  ultimately show thesis
    by (rule that)
qed

text \<open>Recording the delivery of an activated code keeps the invariant, and the index accepts it.\<close>

lemma activate_then_update:
  assumes ok: "otp_ok n rows" and row: "row \<in> set rows"
    and f: "\<And>r. same_row r (f r)" "\<And>r. otp_sent_at (f r) \<noteq> None"
  shows "otp_ok n (upd_where (\<lambda>r. otp_id r = otp_id row) f (activate_rows t row rows))"
proof -
  obtain g where g: "activate_rows t row rows = map g rows" "\<forall>r. g r = r \<or> g r = mark_used r"
    "\<forall>x \<in> set rows. \<not> otp_used (g row) \<longrightarrow> otp_usable (g x) \<longrightarrow>
       otp_phone_hash x = otp_phone_hash row \<longrightarrow> x = row"
    using activation [OF ok row, of t thesis] by blast
  define k where "k = (\<lambda>r. if otp_id r = otp_id row then f (g r) else g r)"
  have gs: "same_row r (g r)" "otp_delivery_status (g r) = otp_delivery_status r"
    "otp_sent_at (g r) = otp_sent_at r" for r
    using g(2) [rule_format, of r] by auto
  have only: "x = row" if "x \<in> set rows" "otp_id x = otp_id row" for x
    using that row ok by (auto simp: otp_ok_def distinct_map dest: inj_onD)
  have "upd_where (\<lambda>r. otp_id r = otp_id row) f (activate_rows t row rows) = map k rows"
    using gs(1) by (auto simp: g(1) upd_where_def k_def same_row_def)
  moreover have "otp_ok n (map k rows)"
  proof (rule otp_ok_map [OF ok])
    show "same_row r (k r)" for r
      using gs(1) [of r] same_row_trans [OF gs(1) f(1), of r] by (simp add: k_def)
    show "otp_sent_at (k r) \<noteq> None"
      if "r \<in> set rows" "otp_delivery_status (k r) \<in> {OtpAccepted, OtpSent}" for r
      using that f(2) gs ok by (auto simp: k_def otp_ok_def split: if_splits)
    fix x y
    assume xy: "x \<in> set rows" "y \<in> set rows" "otp_usable (k x)" "otp_usable (k y)"
      "otp_phone_hash x = otp_phone_hash y"
    have unused: "\<not> otp_used (g row)" if "otp_usable (k row)"
      using that f(1) [of "g row"] by (auto simp: k_def otp_usable_def same_row_def)
    have other: "otp_usable (g z) \<and> otp_usable z"
      if z: "z \<in> set rows" "z \<noteq> row" "otp_usable (k z)" for z
    proof -
      have "k z = g z"
        using only [OF z(1)] z(2) by (auto simp: k_def)
      then show ?thesis
        using g(2) [rule_format, of z] z(3) by (auto simp: otp_usable_def)
    qed
    show "x = y"
    proof (cases "x = row \<or> y = row")
      case True
      then show ?thesis
        using xy unused other g(3) by metis
    next
      case False
      then have "otp_usable x" "otp_usable y"
        using xy other by auto
      then show ?thesis
        using ok usable_index_iff [of rows] xy by (auto simp: otp_ok_def)
    qed
  qed
  ultimately show ?thesis
    by simp
qed

section \<open>Operations\<close>

definition otp_inv :: "identity_db \<Rightarrow> bool" where
  "otp_inv s \<longleftrightarrow> otp_ok (otp_next_attempt s) (otp_verification s)"

text \<open>A later row with an old attempt number is an old row, with what identifies it.\<close>

definition grows :: "identity_db \<Rightarrow> identity_db \<Rightarrow> bool" where
  "grows s s' \<longleftrightarrow>
     otp_next_attempt s \<le> otp_next_attempt s' \<and>
     (\<forall>r' \<in> set (otp_verification s'). otp_attempt_number r' < otp_next_attempt s \<longrightarrow>
        (\<exists>r \<in> set (otp_verification s). same_row r r'))"

lemma grows_refl [simp]: "grows s s"
  unfolding grows_def using same_row_refl by blast

lemma grows_trans:
  assumes "grows a b" "grows b c"
  shows "grows a c"
  unfolding grows_def
proof (intro conjI ballI impI)
  show "otp_next_attempt a \<le> otp_next_attempt c"
    using assms by (simp add: grows_def)
  fix r'
  assume r': "r' \<in> set (otp_verification c)" "otp_attempt_number r' < otp_next_attempt a"
  then obtain r where r: "r \<in> set (otp_verification b)" "same_row r r'"
    using assms by (fastforce simp: grows_def)
  then have "otp_attempt_number r < otp_next_attempt a"
    using r'(2) by (simp add: same_row_def)
  then obtain r0 where "r0 \<in> set (otp_verification a)" "same_row r0 r"
    using assms(1) r(1) by (auto simp: grows_def)
  then show "\<exists>r0 \<in> set (otp_verification a). same_row r0 r'"
    using same_row_trans r(2) by blast
qed

lemma grows_map:
  assumes "otp_verification s' = map g (otp_verification s)" "\<And>r. same_row r (g r)"
    "otp_next_attempt s \<le> otp_next_attempt s'"
  shows "grows s s'"
  using assms by (auto simp: grows_def)

lemma activate_map:
  obtains g where "activate_rows t row rows = map g rows" "\<And>r. same_row r (g r)"
proof (cases "otp_used row")
  case True
  show thesis
    by (rule that [of id]) (simp_all add: activate_rows_def True)
next
  case False
  let ?a = "\<lambda>r. if superseded t rows row r then mark_used r else r"
  let ?b = "\<lambda>r. if older_unused (map ?a rows) row r then mark_used r else r"
  show thesis
  proof (rule that [of "?b \<circ> ?a"])
    show "activate_rows t row rows = map (?b \<circ> ?a) rows"
      using False by (simp add: activate_rows_def upd_where_def Let_def)
    show "same_row r ((?b \<circ> ?a) r)" for r
      using same_row_trans [of r "?a r" "?b (?a r)"] by simp
  qed
qed

lemma accepted_row_simps [simp]:
  "same_row r (accepted_row t x m r)" "otp_sent_at (accepted_row t x m r) \<noteq> None"
  by (simp_all add: accepted_row_def same_row_def or_now_def split: option.splits)

lemma sent_row_simps [simp]:
  "same_row r (sms_event_row t event r)"
  "ev_kind event = EventSent \<Longrightarrow> otp_sent_at (sms_event_row t event r) \<noteq> None"
  "ev_kind event = EventUndelivered \<Longrightarrow> otp_delivery_status (sms_event_row t event r) = OtpFailed"
  by (simp_all add: sms_event_row_def same_row_def or_now_def Let_def split: option.splits)

lemma outcome_row_simps [simp]:
  "same_row r (outcome_row t st reason r)" "otp_delivery_status (outcome_row t st reason r) = st"
  by (simp_all add: outcome_row_def same_row_def)

lemma locked_deliveryD:
  "locked_delivery s i p = Some row \<Longrightarrow> row \<in> set (otp_verification s) \<and> otp_id row = i \<and> otp_phone_hash row = p"
  by (auto simp: locked_delivery_def find_otp_def find_Some_iff)

lemma update_checked_ok:
  assumes "otp_inv (update_otp (\<lambda>r. otp_id r = i) f s)"
  shows "update_checked i f s = (Inr (), update_otp (\<lambda>r. otp_id r = i) f s)"
  using assms by (simp add: update_checked_def otp_inv_def otp_ok_def)

text \<open>The statements of \<^verbatim>\<open>mark_accepted\<close> and of a delivery event, run one after the other.\<close>

lemma delivered:
  assumes "otp_inv s" "row \<in> set (otp_verification s)" "\<And>r. same_row r (f r)" "\<And>r. otp_sent_at (f r) \<noteq> None"
  shows "\<exists>s'. update_checked (otp_id row) f (activate t row s) = (Inr (), s') \<and> otp_inv s' \<and> grows s s'"
proof (intro exI conjI)
  let ?s' = "update_otp (\<lambda>r. otp_id r = otp_id row) f (activate t row s)"
  show inv: "otp_inv ?s'"
    using activate_then_update [OF _ assms(2-4)] assms(1)
    by (simp add: otp_inv_def update_otp_def activate_def)
  show "update_checked (otp_id row) f (activate t row s) = (Inr (), ?s')"
    by (rule update_checked_ok [OF inv])
  obtain g where g: "activate_rows t row (otp_verification s) = map g (otp_verification s)"
    "\<And>r. same_row r (g r)"
    by (rule activate_map [of t row "otp_verification s"]) blast
  let ?k = "\<lambda>r. if otp_id (g r) = otp_id row then f (g r) else g r"
  show "grows s ?s'"
  proof (rule grows_map [of _ ?k])
    show "otp_next_attempt s \<le> otp_next_attempt ?s'"
      by (simp add: update_otp_def activate_def)
    show "otp_verification ?s' = map ?k (otp_verification s)"
      by (simp add: update_otp_def activate_def g(1) upd_where_def)
    show "same_row r (?k r)" for r
      using same_row_trans [OF g(2) assms(3)] g(2) by simp
  qed
qed

text \<open>An update that makes no code usable.\<close>

lemma retired:
  assumes "otp_inv s" "\<And>r. same_row r (f r)"
    "\<And>r. otp_delivery_status (f r) \<in> {OtpAccepted, OtpSent} \<Longrightarrow>
       otp_delivery_status (f r) = otp_delivery_status r \<and> otp_sent_at (f r) = otp_sent_at r"
  shows "otp_inv (update_otp Q f s)" "grows s (update_otp Q f s)"
proof -
  let ?g = "\<lambda>r. if Q r then f r else r"
  have rows: "otp_verification (update_otp Q f s) = map ?g (otp_verification s)"
    by (simp add: update_otp_def upd_where_def)
  have "otp_ok (otp_next_attempt s) (map ?g (otp_verification s))"
  proof (rule otp_ok_shrink)
    show "otp_ok (otp_next_attempt s) (otp_verification s)"
      using assms(1) by (simp add: otp_inv_def)
    show "same_row r (?g r)" for r
      using assms(2) by simp
    show "otp_delivery_status r \<in> {OtpAccepted, OtpSent} \<and> otp_sent_at (?g r) = otp_sent_at r"
      if "otp_delivery_status (?g r) \<in> {OtpAccepted, OtpSent}" for r
      using assms(3) [of r] that by (cases "Q r") auto
  qed
  then show "otp_inv (update_otp Q f s)"
    by (simp add: otp_inv_def update_otp_def upd_where_def)
  show "grows s (update_otp Q f s)"
    by (rule grows_map [OF rows]) (simp_all add: assms(2) update_otp_def)
qed

text \<open>What every operation keeps: the ledger stays consistent and loses nothing.\<close>

definition keeps_ledger :: "(identity_db, 'e, 'a) op \<Rightarrow> bool" where
  "keeps_ledger f \<longleftrightarrow> (\<forall>s r s'. f s = (r, s') \<longrightarrow> otp_inv s \<longrightarrow> otp_inv s' \<and> grows s s')"

lemma keeps_ledgerD: "keeps_ledger f \<Longrightarrow> f s = (r, s') \<Longrightarrow> otp_inv s \<Longrightarrow> otp_inv s' \<and> grows s s'"
  by (auto simp: keeps_ledger_def)

lemma keeps_ledger_transaction:
  assumes "\<And>s v s'. f s = (Inr v, s') \<Longrightarrow> otp_inv s \<Longrightarrow> otp_inv s' \<and> grows s s'"
  shows "keeps_ledger (transaction f)"
  unfolding keeps_ledger_def
proof (intro allI impI)
  fix s r s'
  assume run: "transaction f s = (r, s')" "otp_inv s"
  show "otp_inv s' \<and> grows s s'"
  proof (cases r)
    case (Inl e)
    then show ?thesis
      using run transaction_rolls_back [of f s e s'] by simp
  next
    case (Inr v)
    then show ?thesis
      using assms [OF transaction_OkD [of f s v s']] run by simp
  qed
qed

lemma otp_inv_insert:
  assumes "otp_inv s" "otp_id x \<notin> otp_id ` set (otp_verification s)"
    "otp_idempotency_key x \<notin> otp_idempotency_key ` set (otp_verification s)"
    "otp_attempt_number x = otp_next_attempt s" "otp_delivery_status x = OtpPending"
  shows "otp_inv (s\<lparr>otp_next_attempt := Suc (otp_next_attempt s),
    otp_verification := otp_verification s @ [x]\<rparr>)"
  using assms by (auto simp: otp_inv_def otp_ok_def usable_index_ok_def otp_usable_def less_Suc_eq)

lemma otp_inv_numbered: "otp_inv s \<Longrightarrow> otp_inv (s\<lparr>otp_next_attempt := Suc (otp_next_attempt s)\<rparr>)"
  by (auto simp: otp_inv_def otp_ok_def less_Suc_eq)

lemma grows_same:
  "otp_verification s' = otp_verification s \<Longrightarrow> otp_next_attempt s \<le> otp_next_attempt s' \<Longrightarrow> grows s s'"
  by (rule grows_map [of _ id]) simp_all

lemma begin_existing_reads: "begin_existing input s = (r, s') \<Longrightarrow> s' = s"
  by (auto simp: begin_existing_def split: option.splits if_splits otp_delivery_state.splits prod.splits)

lemma otp_begin_keeps: "keeps_ledger (otp_begin e input)"
  unfolding otp_begin_def
proof (rule keeps_ledger_transaction, goal_cases)
  case (1 s v s')
  let ?n = "s\<lparr>otp_next_attempt := Suc (otp_next_attempt s)\<rparr>"
  note run = 1(1) and inv = 1(2)
  show "otp_inv s' \<and> grows s s'"
  proof (cases "find_otp s (\<lambda>r. otp_idempotency_key r = bod_idempotency_key input) = None")
    case True
    then obtain ttl settlement where s': "s' = ?n\<lparr>otp_verification := otp_verification s @
        [new_otp_row e input ttl settlement (otp_next_attempt s)]\<rparr>"
      "find_otp s (\<lambda>r. otp_id r = bod_id input) = None"
      using run by (auto simp: Let_def split: sum.splits if_splits)
    have "otp_inv s'"
      unfolding s'(1)
      by (rule otp_inv_insert [OF inv])
        (use True s'(2) in \<open>auto simp: find_otp_def find_None_iff new_otp_row_def\<close>)
    moreover have "grows s s'"
      unfolding grows_def s'(1) using same_row_refl by (fastforce simp: new_otp_row_def)
    ultimately show ?thesis
      by simp
  next
    case False
    then have "s' = settle_stale (clk e 2) input ?n"
      using run by (auto split: sum.splits dest: begin_existing_reads)
    moreover have "otp_inv (settle_stale (clk e 2) input ?n)" "grows ?n (settle_stale (clk e 2) input ?n)"
      unfolding settle_stale_def
      by (rule retired [OF otp_inv_numbered [OF inv]]; simp add: same_row_def)+
    ultimately show ?thesis
      using grows_trans [OF grows_same, of ?n s] by simp
  qed
qed

text \<open>Recording an acceptance by the provider never violates a constraint.\<close>

lemma mark_accepted_runs:
  assumes "otp_inv s"
  shows "\<exists>b s'. mark_accepted e i p x m s = (Inr b, s') \<and> otp_inv s' \<and> grows s s'"
proof (cases "locked_delivery s i p")
  case None
  then show ?thesis
    using assms by (auto simp: mark_accepted_def transaction_def)
next
  case (Some row)
  show ?thesis
  proof (cases "\<not> matches_receipt row m (Some x) \<or> otp_delivery_status row = OtpFailed")
    case True
    then show ?thesis
      using assms Some by (auto simp: mark_accepted_def transaction_def)
  next
    case False
    have row: "row \<in> set (otp_verification s)" "otp_id row = i"
      using locked_deliveryD [OF Some] by auto
    obtain s' where "update_checked i (accepted_row (clk e 1) x m) (activate (clk e 0) row s) = (Inr (), s')"
      "otp_inv s'" "grows s s'"
      using delivered [OF assms row(1), of "accepted_row (clk e 1) x m" "clk e 0"] row(2) by auto
    then show ?thesis
      using Some False by (auto simp: mark_accepted_def op_defs transaction_def)
  qed
qed

text \<open>Nor does an event of the provider.\<close>

lemma apply_sms_event_runs:
  assumes "otp_inv s"
  shows "\<exists>b s'. apply_sms_event e event s = (Inr b, s') \<and> otp_inv s' \<and> grows s s'"
proof (cases "find_otp s (\<lambda>r. otp_id r = ev_delivery_id event \<and> otp_provider r = ''sweego'')")
  case None
  then show ?thesis
    using assms by (simp add: apply_sms_event_def transaction_def)
next
  case found: (Some found)
  show ?thesis
  proof (cases "locked_delivery s (ev_delivery_id event) (otp_phone_hash found)")
    case None
    then show ?thesis
      using assms found by (simp add: apply_sms_event_def transaction_def)
  next
    case (Some row)
    have row: "row \<in> set (otp_verification s)" "otp_id row = ev_delivery_id event"
      using locked_deliveryD [OF Some] by auto
    let ?f = "sms_event_row (clk e 1) event"
    have "\<exists>s'. update_checked (ev_delivery_id event) ?f
        ((if ev_kind event = EventSent then activate (clk e 0) row else id) s) = (Inr (), s') \<and>
        otp_inv s' \<and> grows s s'"
    proof (cases "ev_kind event")
      case EventSent
      then show ?thesis
        using delivered [OF assms row(1), of ?f "clk e 0"] row(2) by auto
    next
      case EventUndelivered
      have "otp_inv (update_otp (\<lambda>r. otp_id r = ev_delivery_id event) ?f s)"
        "grows s (update_otp (\<lambda>r. otp_id r = ev_delivery_id event) ?f s)"
        by (rule retired [OF assms]; simp add: EventUndelivered)+
      then show ?thesis
        using EventUndelivered update_checked_ok by auto
    qed
    then show ?thesis
      using found Some assms
      by (cases "\<not> matches_receipt row (ev_message_id event) (ev_transaction_id event)";
          cases "otp_delivery_status row = OtpFailed \<or>
            (otp_delivery_status row = OtpSent \<and> ev_kind event = EventSent)")
         (auto simp: apply_sms_event_def op_defs transaction_def simp del: if_split)
  qed
qed

lemma mark_accepted_keeps: "keeps_ledger (mark_accepted e i p x m)"
  unfolding keeps_ledger_def using mark_accepted_runs by (metis prod.inject)

lemma apply_sms_event_keeps: "keeps_ledger (apply_sms_event e event)"
  unfolding keeps_ledger_def using apply_sms_event_runs by (metis prod.inject)

lemma mark_outcome_keeps:
  assumes "st \<in> {OtpUnknown, OtpFailed}"
  shows "keeps_ledger (mark_outcome e i p st reason)"
  unfolding mark_outcome_def
proof (rule keeps_ledger_transaction, goal_cases)
  case (1 s v s')
  note run = 1(1) and inv = 1(2)
  have "otp_inv (update_otp (\<lambda>r. otp_id r = i) (outcome_row (clk e 0) st reason) s)"
    "grows s (update_otp (\<lambda>r. otp_id r = i) (outcome_row (clk e 0) st reason) s)"
    by (rule retired [OF inv]; use assms in auto)+
  then show "otp_inv s' \<and> grows s s'"
    using run inv update_checked_ok by (auto simp: op_defs split: option.splits if_splits)
qed

lemma otp_consume_keeps: "keeps_ledger (otp_consume e p h)"
  unfolding otp_consume_def
proof (rule keeps_ledger_transaction, goal_cases)
  case (1 s v s')
  then show "otp_inv s' \<and> grows s s'"
    using retired [of s mark_used "consumable (clk e 1) p h"] by (auto split: if_splits)
qed

lemma otp_ok_filter: "otp_ok n rows \<Longrightarrow> otp_ok n (filter Q rows)"
  by (auto simp: otp_ok_def usable_index_ok_def intro: distinct_map_filter)
     (simp add: distinct_map_filter filter_filter conj_commute flip: filter_filter)

lemma retention_otps_keeps: "otp_inv s \<Longrightarrow> otp_inv (retention_otps now limit s) \<and> grows s (retention_otps now limit s)"
  using same_row_refl
  by (fastforce simp: retention_otps_def Let_def otp_inv_def del_where_def grows_def intro: otp_ok_filter)

section \<open>Reachable ledgers\<close>

text \<open>The operations on codes, and whatever changes the other tables.\<close>

inductive otp_step :: "identity_db \<Rightarrow> identity_db \<Rightarrow> bool" where
  begun: "otp_begin e input s = (r, s') \<Longrightarrow> otp_step s s'"
| accepted: "mark_accepted e i p x m s = (r, s') \<Longrightarrow> otp_step s s'"
| outcome: "st \<in> {OtpUnknown, OtpFailed} \<Longrightarrow> mark_outcome e i p st reason s = (r, s') \<Longrightarrow> otp_step s s'"
| event: "apply_sms_event e event s = (r, s') \<Longrightarrow> otp_step s s'"
| consumed: "otp_consume e p h s = (r, s') \<Longrightarrow> otp_step s s'"
| retained: "otp_step s (retention_otps now limit s)"
| other_tables: "otp_verification s' = otp_verification s \<Longrightarrow> otp_next_attempt s' = otp_next_attempt s \<Longrightarrow>
    otp_step s s'"

definition otp_reachable :: "identity_db \<Rightarrow> bool" where
  "otp_reachable s \<longleftrightarrow> (\<exists>s0. otp_verification s0 = [] \<and> otp_step\<^sup>*\<^sup>* s0 s)"

lemma otp_step_keeps: "otp_step s s' \<Longrightarrow> otp_inv s \<Longrightarrow> otp_inv s' \<and> grows s s'"
proof (induction rule: otp_step.induct)
  case (begun e input s r s')
  show ?case
    by (rule keeps_ledgerD [OF otp_begin_keeps begun])
next
  case (accepted e i p x m s r s')
  show ?case
    by (rule keeps_ledgerD [OF mark_accepted_keeps accepted])
next
  case (outcome st e i p reason s r s')
  show ?case
    by (rule keeps_ledgerD [OF mark_outcome_keeps [OF outcome(1)] outcome(2,3)])
next
  case (event e event s r s')
  show ?case
    by (rule keeps_ledgerD [OF apply_sms_event_keeps event])
next
  case (consumed e p h s r s')
  show ?case
    by (rule keeps_ledgerD [OF otp_consume_keeps consumed])
next
  case (retained s now limit)
  then show ?case
    by (rule retention_otps_keeps)
next
  case (other_tables s' s)
  then show ?case
    using grows_same by (simp add: otp_inv_def)
qed

lemma otp_steps_keep:
  assumes "otp_step\<^sup>*\<^sup>* s s'" "otp_inv s"
  shows "otp_inv s' \<and> grows s s'"
  using assms
proof (induction rule: rtranclp_induct)
  case (step a b)
  then show ?case
    using otp_step_keeps grows_trans by blast
qed simp

lemma otp_inv_empty: "otp_verification s = [] \<Longrightarrow> otp_inv s"
  by (simp add: otp_inv_def otp_ok_def usable_index_ok_def)

lemma otp_reachable_inv: "otp_reachable s \<Longrightarrow> otp_inv s"
  unfolding otp_reachable_def using otp_steps_keep otp_inv_empty by blast

text \<open>A code that was spent stays spent, as long as its row is kept; its number is never given again.\<close>

lemma spent_stays:
  assumes "otp_inv s" "otp_step\<^sup>*\<^sup>* s s'" "r \<in> set (otp_verification s)" "otp_used r"
    "r' \<in> set (otp_verification s')" "otp_attempt_number r' = otp_attempt_number r"
  shows "otp_used r'"
proof -
  have "otp_attempt_number r' < otp_next_attempt s"
    using assms(1,3,6) by (auto simp: otp_inv_def otp_ok_def)
  then obtain x where x: "x \<in> set (otp_verification s)" "same_row x r'"
    using otp_steps_keep [OF assms(2,1)] assms(5) by (auto simp: grows_def)
  then have "otp_attempt_number x = otp_attempt_number r"
    using assms(6) by (simp add: same_row_def)
  then have "x = r"
    using assms(1,3) x(1) by (auto simp: otp_inv_def otp_ok_def distinct_map dest: inj_onD)
  then show ?thesis
    using x(2) assms(4) by (simp add: same_row_def)
qed

text \<open>At most one code of a number can be consumed, so that the count the statement returns is the
  answer to whether there is one.\<close>

lemma consumable_unique:
  assumes "otp_inv s" "x \<in> set (otp_verification s)" "y \<in> set (otp_verification s)"
    "otp_usable x" "otp_usable y" "otp_phone_hash x = otp_phone_hash y"
  shows "x = y"
  using assms usable_index_iff [of "otp_verification s"] by (auto simp: otp_inv_def otp_ok_def)

lemma consumable_count:
  assumes "otp_inv s"
  shows "rows_where (consumable t p h) (otp_verification s) = 1 \<longleftrightarrow>
    (\<exists>r \<in> set (otp_verification s). consumable t p h r)"
proof -
  let ?xs = "filter (consumable t p h) (otp_verification s)"
  have "distinct (otp_verification s)"
    using assms by (simp add: otp_inv_def otp_ok_def distinct_map)
  then have "distinct ?xs"
    by simp
  moreover have "x = y" if "x \<in> set ?xs" "y \<in> set ?xs" for x y
    using consumable_unique [OF assms, of x y] that by (auto simp: consumable_def)
  ultimately have "length ?xs \<le> 1"
    by (metis card_le_Suc0_iff_eq distinct_card One_nat_def finite_set)
  moreover have "?xs \<noteq> [] \<longleftrightarrow> (\<exists>r \<in> set (otp_verification s). consumable t p h r)"
    by (auto simp: filter_empty_conv)
  ultimately show ?thesis
    by (cases ?xs) (auto simp: rows_where_def)
qed

lemma otp_consume_answer:
  assumes "otp_inv s"
  shows "fst (otp_consume e p h s) = Inr True \<longleftrightarrow>
    \<not> otp_blocked_on (clk e 0) s p \<and> (\<exists>r \<in> set (otp_verification s). consumable (clk e 1) p h r)"
  using consumable_count [OF assms] by (simp add: otp_consume_def transaction_def)

end
