(* ===== verification/Sweego.thy ===== *)
theory Sweego
  imports Otp
begin

text \<open>
  \<^verbatim>\<open>src/identity/mobile/sweego.rs\<close>: the client of the provider of text messages and the receiver of its
  delivery events.  The HTTP exchange, the JSON parser and standard base64 are parameters; a JSON
  number is the \<^verbatim>\<open>f64\<close> that \<^verbatim>\<open>as_f64\<close> gives, a text its Unicode scalar values.
\<close>

section \<open>JSON\<close>

datatype json_value =
  JsonNull | JsonBool bool | JsonNumber f64 | JsonString utext | JsonArray "json_value list"
| JsonObject "(string \<times> json_value) list"

fun as_str :: "json_value \<Rightarrow> string option" where
  "as_str (JsonString v) = Some (utf8_encode v)"
| "as_str _ = None"

fun as_bool :: "json_value \<Rightarrow> bool option" where
  "as_bool (JsonBool v) = Some v"
| "as_bool _ = None"

definition str_of :: "(string \<times> json_value) list \<Rightarrow> string \<Rightarrow> string option" where
  "str_of object key = Option.bind (map_of object key) as_str"

record sweego_crates =
  json_from_slice :: "byte list \<Rightarrow> json_value option"
  base64_encode :: "byte list \<Rightarrow> string"
  base64_decode :: "string \<Rightarrow> byte list option"

section \<open>Characters\<close>

definition ascii_lowercase :: "char \<Rightarrow> bool" where
  "ascii_lowercase c \<longleftrightarrow> (let n = of_char c :: nat in 97 \<le> n \<and> n \<le> 122)"

definition ascii_alphanumeric :: "char \<Rightarrow> bool" where
  "ascii_alphanumeric c \<longleftrightarrow>
     ascii_digit c \<or> ascii_lowercase c \<or> (let n = of_char c :: nat in 65 \<le> n \<and> n \<le> 90)"

definition provider_identifier :: "string \<Rightarrow> bool" where
  "provider_identifier v \<longleftrightarrow>
     v \<noteq> [] \<and> length v \<le> 128 \<and>
     list_all (\<lambda>c. ascii_alphanumeric c \<or> c = CHR ''_'' \<or> c = CHR ''-'') v"

definition base64_char :: "char \<Rightarrow> bool" where
  "base64_char c \<longleftrightarrow> ascii_alphanumeric c \<or> c = CHR ''+'' \<or> c = CHR ''/''"

fun decimal :: "nat \<Rightarrow> string" where
  "decimal n =
     (if n < 10 then [char_of (48 + n)] else decimal (n div 10) @ [char_of (48 + n mod 10)])"

declare decimal.simps [simp del]

definition digits_value :: "string \<Rightarrow> int" where
  "digits_value = foldl (\<lambda>acc c. acc * 10 + (of_char c - 48)) 0"

section \<open>Sending\<close>

datatype sms_failure_outcome = OutcomeFailed | OutcomeUnknown

record sms_delivery_error =
  sde_reason :: sms_failure_reason
  sde_outcome :: sms_failure_outcome

definition failed :: "sms_failure_reason \<Rightarrow> sms_delivery_error" where
  "failed reason = \<lparr>sde_reason = reason, sde_outcome = OutcomeFailed\<rparr>"

definition unknown :: "sms_failure_reason \<Rightarrow> sms_delivery_error" where
  "unknown reason = \<lparr>sde_reason = reason, sde_outcome = OutcomeUnknown\<rparr>"

record sms_message =
  sm_language :: language
  sm_phone :: string
  sm_region :: string
  sm_code :: string
  sm_delivery_id :: uuid

record sms_delivery_receipt =
  rc_transaction_id :: string
  rc_message_id :: string

datatype sms_provider = ProviderDisabled | ProviderSweego

record sms_config =
  sms_provider :: sms_provider
  sms_endpoint :: string
  sms_api_key :: string
  sms_sender_id :: string
  sms_otp_ttl :: duration
  sms_webhook_secret :: string

record sweego_request =
  sr_channel :: string
  sr_provider :: string
  sr_campaign_type :: string
  sr_campaign_id :: string
  sr_sender_id :: string
  sr_number :: string
  sr_region :: string
  sr_text :: string
  sr_shorten_urls :: bool
  sr_shorten_with_protocol :: bool

text \<open>What \<^verbatim>\<open>send\<close> on the HTTP client gives: the status and the body, in chunks that may fail.\<close>

datatype http_reply = NetworkError | HttpReply nat "byte list option list"

type_synonym http_client = "string \<Rightarrow> string \<Rightarrow> sweego_request \<Rightarrow> http_reply"

definition MAX_SMS_PROVIDER_BODY_BYTES :: nat where "MAX_SMS_PROVIDER_BODY_BYTES = 16384"

fun otp_copy :: "language \<Rightarrow> string \<Rightarrow> nat \<Rightarrow> string" where
  "otp_copy LangFr code mins =
     ''Histae : votre code de verification est '' @ code @ ''. Il expire dans '' @ decimal mins @ '' minutes.''"
| "otp_copy LangEn code mins =
     ''Histae: your verification code is '' @ code @ ''. It expires in '' @ decimal mins @ '' minutes.''"
| "otp_copy LangEs code mins =
     ''Histae: tu codigo de verificacion es '' @ code @ ''. Caduca en '' @ decimal mins @ '' minutos.''"
| "otp_copy LangIt code mins =
     ''Histae: il tuo codice di verifica e '' @ code @ ''. Scade tra '' @ decimal mins @ '' minuti.''"

definition sweego_payload :: "text_crates \<Rightarrow> sms_config \<Rightarrow> sms_message \<Rightarrow> sweego_request" where
  "sweego_payload X cfg m =
     (let mins = (nat (sms_otp_ttl cfg div 1000000) + 59) div 60 in
      \<lparr>sr_channel = ''sms'', sr_provider = ''sweego'', sr_campaign_type = ''transac'',
       sr_campaign_id = hyphenated X (sm_delivery_id m), sr_sender_id = sms_sender_id cfg,
       sr_number = sm_phone m, sr_region = sm_region m,
       sr_text = otp_copy (sm_language m) (sm_code m) mins,
       sr_shorten_urls = False, sr_shorten_with_protocol = False\<rparr>)"

primrec read_bounded :: "byte list option list \<Rightarrow> byte list \<Rightarrow> sms_delivery_error + byte list" where
  "read_bounded [] body = Inr body"
| "read_bounded (c # cs) body =
     (case c of
        None \<Rightarrow> Inl (unknown ProviderInvalidResponse)
      | Some chunk \<Rightarrow>
          if length body + length chunk > MAX_SMS_PROVIDER_BODY_BYTES
          then Inl (unknown ProviderInvalidResponse)
          else read_bounded cs (body @ chunk))"

definition bounded_json ::
  "sweego_crates \<Rightarrow> byte list option list \<Rightarrow> sms_delivery_error + json_value" where
  "bounded_json W chunks =
     (case read_bounded chunks [] of
        Inl e \<Rightarrow> Inl e
      | Inr body \<Rightarrow>
          (case json_from_slice W body of
             None \<Rightarrow> Inl (unknown ProviderInvalidResponse) | Some v \<Rightarrow> Inr v))"

definition identifier_of :: "json_value option \<Rightarrow> string option" where
  "identifier_of v =
     (case Option.bind v as_str of
        Some x \<Rightarrow> if provider_identifier x then Some x else None
      | None \<Rightarrow> None)"

definition parse_receipt :: "json_value \<Rightarrow> sms_delivery_error + sms_delivery_receipt" where
  "parse_receipt v =
     (let invalid = Inl (unknown ProviderInvalidResponse) in
      case v of
        JsonObject object \<Rightarrow>
          (case (identifier_of (map_of object ''transaction_id''), map_of object ''swg_uids'') of
             (Some transaction_id, Some (JsonObject [(_, uid)])) \<Rightarrow>
               (case identifier_of (Some uid) of
                  Some message_id \<Rightarrow>
                    Inr \<lparr>rc_transaction_id = transaction_id, rc_message_id = message_id\<rparr>
                | None \<Rightarrow> invalid)
           | _ \<Rightarrow> invalid)
      | _ \<Rightarrow> invalid)"

definition rejected_status :: "nat \<Rightarrow> bool" where
  "rejected_status st \<longleftrightarrow> st \<in> {400, 401, 403, 404, 405, 413, 415, 422, 429}"

definition deliver_inner ::
  "text_crates \<Rightarrow> sweego_crates \<Rightarrow> http_client \<Rightarrow> sms_config \<Rightarrow> sms_message \<Rightarrow>
   sms_delivery_error + sms_delivery_receipt" where
  "deliver_inner X W http cfg m =
     (case http (sms_endpoint cfg) (sms_api_key cfg) (sweego_payload X cfg m) of
        NetworkError \<Rightarrow> Inl (unknown ProviderNetworkError)
      | HttpReply st chunks \<Rightarrow>
          if st \<noteq> 200
          then Inl (if rejected_status st then failed ProviderRejected else unknown ProviderUnavailable)
          else (case bounded_json W chunks of Inl e \<Rightarrow> Inl e | Inr v \<Rightarrow> parse_receipt v))"

fun rejection_reason :: "sms_send_rejection \<Rightarrow> sms_failure_reason" where
  "rejection_reason PhoneBlocked = ReasonPhoneBlocked"
| "rejection_reason HourlyLimit = PhoneHourlyLimit"
| "rejection_reason DailyLimit = PhoneDailyLimit"
| "rejection_reason GlobalHourlyLimit = ReasonGlobalHourlyLimit"
| "rejection_reason GlobalDailyLimit = ReasonGlobalDailyLimit"
| "rejection_reason Suspended = SendingSuspended"
| "rejection_reason AlreadyReserved = AttemptAlreadyReserved"
| "rejection_reason Unavailable = SafetyUnavailable"

text \<open>The guard is \<^verbatim>\<open>SmsSafetyService::reserve\<close>, with its key and policy.\<close>

record sweego_service =
  sw_config :: sms_config
  sw_hash_key :: string
  sw_policy :: sms_safety_config

definition deliver ::
  "primitives \<Rightarrow> text_crates \<Rightarrow> sweego_crates \<Rightarrow> http_client \<Rightarrow> sweego_service \<Rightarrow> env \<Rightarrow>
   (sms_attempt \<Rightarrow> bool) \<Rightarrow> sms_message \<Rightarrow> (identity_db, sms_delivery_error, sms_delivery_receipt) op" where
  "deliver P X W http sv e skip m s =
     (if sms_provider (sw_config sv) \<noteq> ProviderSweego then (Inl (failed NotConfigured), s)
      else case reserve_permit P (sw_hash_key sv) (sw_policy sv) e skip (sm_delivery_id m)
                  (utext_of (sm_phone m)) s of
        (Inl reason, s') \<Rightarrow> (Inl (failed (rejection_reason reason)), s')
      | (Inr _, s') \<Rightarrow> (deliver_inner X W http (sw_config sv) m, s'))"

section \<open>Delivery events\<close>

record sweego_webhook_headers =
  wh_id :: "string option"
  wh_timestamp :: "string option"
  wh_signature :: "string option"

datatype sweego_webhook_error =
  WebhookDisabled | WebhookUnavailable | WebhookInvalidSignature | WebhookInvalidEvent | WebhookConflict

datatype webhook_metric =
  MetricApplied | MetricIgnored | MetricConflict | MetricInvalidSignature | MetricInvalidEvent
| MetricUnavailable | MetricDisabled

text \<open>Seven counters of 64 bits.\<close>

type_synonym webhook_metrics = "webhook_metric \<Rightarrow> 64 word"

definition metrics_record :: "webhook_metric \<Rightarrow> webhook_metrics \<Rightarrow> webhook_metrics" where
  "metrics_record outcome m = m(outcome := m outcome + 1)"

definition metrics_snapshot :: "webhook_metrics \<Rightarrow> (string \<times> 64 word) list" where
  "metrics_snapshot m =
     [(''applied'', m MetricApplied), (''conflict'', m MetricConflict), (''disabled'', m MetricDisabled),
      (''ignored'', m MetricIgnored), (''invalid_event'', m MetricInvalidEvent),
      (''invalid_signature'', m MetricInvalidSignature), (''unavailable'', m MetricUnavailable)]"

definition i64_fits :: "int \<Rightarrow> bool" where
  "i64_fits n \<longleftrightarrow> - (2 ^ 63) \<le> n \<and> n < 2 ^ 63"

definition webhook_timestamp :: "string \<Rightarrow> bool" where
  "webhook_timestamp v \<longleftrightarrow> v \<noteq> [] \<and> length v \<le> 12 \<and> list_all ascii_digit v"

definition webhook_signature :: "string \<Rightarrow> bool" where
  "webhook_signature v \<longleftrightarrow>
     length v = 44 \<and> last v = CHR ''='' \<and> list_all base64_char (take 43 v)"

definition verify_signature ::
  "primitives \<Rightarrow> sweego_crates \<Rightarrow> byte list \<Rightarrow> sweego_webhook_headers \<Rightarrow> string \<Rightarrow> int \<Rightarrow>
   sweego_webhook_error + unit" where
  "verify_signature P W body headers secret now_millis =
     (let invalid = Inl WebhookInvalidSignature in
      case (wh_id headers, wh_timestamp headers, wh_signature headers) of
        (Some i, Some stamp, Some signature) \<Rightarrow>
          if \<not> provider_identifier i \<or> \<not> webhook_timestamp stamp \<or> \<not> webhook_signature signature
          then invalid
          else if length body > MAX_SMS_PROVIDER_BODY_BYTES \<or> length secret \<noteq> 64 \<or>
                  \<not> list_all base64_char secret
          then invalid
          else
            (let age = now_millis - digits_value stamp * 1000 in
             if \<not> i64_fits age \<or> age < - 60000 \<or> age > 300000 then invalid
             else case base64_decode W signature of
               None \<Rightarrow> invalid
             | Some supplied \<Rightarrow>
                 if base64_encode W supplied \<noteq> signature then invalid
                 else case base64_decode W secret of
                   None \<Rightarrow> invalid
                 | Some decoded_secret \<Rightarrow>
                     if supplied = hmac_digest P decoded_secret
                          (as_bytes i @ as_bytes ''.'' @ as_bytes stamp @ as_bytes ''.'' @ body)
                     then Inr () else invalid)
      | _ \<Rightarrow> invalid)"

definition STRING_FIELDS :: "string list" where
  "STRING_FIELDS =
     [''timestamp'', ''swg_uid'', ''event_id'', ''details'', ''channel'', ''client-id'', ''client_id'',
      ''country_code'', ''phone_number'', ''sender_id'', ''sms_type'', ''campaign_id'',
      ''transaction_id'', ''send_date'', ''status'']"

definition NUMBER_FIELDS :: "string list" where
  "NUMBER_FIELDS = [''sms_price'', ''nb_segments'', ''mobile_network_code'', ''mobile_country_code'']"

definition sms_event_type_ok :: "string \<Rightarrow> bool" where
  "sms_event_type_ok v \<longleftrightarrow>
     v \<noteq> [] \<and> length v \<le> 64 \<and> list_all (\<lambda>c. ascii_lowercase c \<or> c = CHR ''_'') v"

definition event_field_ok :: "string \<times> json_value \<Rightarrow> bool" where
  "event_field_ok kv =
     (case kv of (key, field) \<Rightarrow>
        key \<in> {''event_type'', ''test_mode''} \<or>
        (key \<in> set STRING_FIELDS \<and>
          (case field of JsonString v \<Rightarrow> utf16_count v \<le> 512 | _ \<Rightarrow> False)) \<or>
        (key \<in> set NUMBER_FIELDS \<and>
          (case field of JsonNumber n \<Rightarrow> f64_value n \<ge> 0 | _ \<Rightarrow> False)))"

definition uuid_text :: "text_crates \<Rightarrow> string \<Rightarrow> uuid option" where
  "uuid_text X v =
     (case parse_uuid X v of
        Some i \<Rightarrow> if length v = 36 \<and> eq_ignore_ascii_case (hyphenated X i) v then Some i else None
      | None \<Rightarrow> None)"

definition valid_uuid_all :: "text_crates \<Rightarrow> string \<Rightarrow> bool" where
  "valid_uuid_all X v = 
     (case uuid_text X v of
        Some i \<Rightarrow> 1 \<le> version_num i \<and> version_num i \<le> 8 \<and> variant_rfc4122 i
      | None \<Rightarrow> False)"

definition required_fields_ok :: "text_crates \<Rightarrow> (string \<times> json_value) list \<Rightarrow> bool" where
  "required_fields_ok X object \<longleftrightarrow>
     str_of object ''channel'' = Some ''sms'' \<and>
     Option.bind (map_of object ''test_mode'') as_bool \<noteq> None \<and>
     str_of object ''sender_id'' \<noteq> None \<and> str_of object ''timestamp'' \<noteq> None \<and>
     (case str_of object ''event_id'' of Some v \<Rightarrow> valid_uuid_all X v | None \<Rightarrow> False) \<and>
     str_of object ''campaign_id'' \<noteq> None \<and>
     (case str_of object ''swg_uid'' of Some v \<Rightarrow> provider_identifier v | None \<Rightarrow> False) \<and>
     (map_of object ''transaction_id'' \<noteq> None \<longrightarrow>
       (case str_of object ''transaction_id'' of Some v \<Rightarrow> provider_identifier v | None \<Rightarrow> False))"

definition parse_event ::
  "text_crates \<Rightarrow> json_value \<Rightarrow> string \<Rightarrow> sweego_webhook_error + sms_delivery_event option" where
  "parse_event X v sender_id =
     (case v of
        JsonObject object \<Rightarrow>
          (case str_of object ''event_type'' of
             None \<Rightarrow> Inl WebhookInvalidEvent
           | Some event_type \<Rightarrow>
               if \<not> sms_event_type_ok event_type then Inl WebhookInvalidEvent
               else if event_type \<notin> {''sms_sent'', ''sms_undelivered''} then Inr None
               else if \<not> list_all event_field_ok object \<or> \<not> required_fields_ok X object
               then Inl WebhookInvalidEvent
               else
                 (case (Option.bind (map_of object ''test_mode'') as_bool, str_of object ''sender_id'',
                        str_of object ''campaign_id'', str_of object ''swg_uid'') of
                    (Some test_mode, Some sender, Some campaign, Some message_id) \<Rightarrow>
                      (case uuid_text X campaign of
                         Some i \<Rightarrow>
                           if test_mode \<or> sender \<noteq> sender_id \<or> \<not> random_v4 i then Inr None
                           else Inr (Some
                             \<lparr>ev_delivery_id = i, ev_message_id = message_id,
                              ev_transaction_id = str_of object ''transaction_id'',
                              ev_kind = (if event_type = ''sms_sent'' then EventSent else EventUndelivered)\<rparr>)
                       | None \<Rightarrow> Inr None)
                  | _ \<Rightarrow> Inl WebhookInvalidEvent))
      | _ \<Rightarrow> Inl WebhookInvalidEvent)"

definition webhook_handle ::
  "primitives \<Rightarrow> text_crates \<Rightarrow> sweego_crates \<Rightarrow> sms_config \<Rightarrow> env \<Rightarrow> int \<Rightarrow> byte list \<Rightarrow>
   sweego_webhook_headers \<Rightarrow> (identity_db \<times> webhook_metrics, sweego_webhook_error, unit) op" where
  "webhook_handle P X W cfg e now_millis body headers sm =
     (case sm of (s, m) \<Rightarrow>
        if sms_provider cfg \<noteq> ProviderSweego \<or> sms_webhook_secret cfg = []
        then (Inl WebhookDisabled, s, metrics_record MetricDisabled m)
        else case verify_signature P W body headers (sms_webhook_secret cfg) now_millis of
          Inl _ \<Rightarrow> (Inl WebhookInvalidSignature, s, metrics_record MetricInvalidSignature m)
        | Inr _ \<Rightarrow>
            (case json_from_slice W body of
               None \<Rightarrow> (Inl WebhookInvalidEvent, s, metrics_record MetricInvalidEvent m)
             | Some v \<Rightarrow>
                 (case parse_event X v (sms_sender_id cfg) of
                    Inl _ \<Rightarrow> (Inl WebhookInvalidEvent, s, metrics_record MetricInvalidEvent m)
                  | Inr None \<Rightarrow> (Inr (), s, metrics_record MetricIgnored m)
                  | Inr (Some event) \<Rightarrow>
                      (case apply_sms_event e event s of
                         (Inl _, s') \<Rightarrow> (Inl WebhookUnavailable, s', metrics_record MetricUnavailable m)
                       | (Inr EventApplied, s') \<Rightarrow> (Inr (), s', metrics_record MetricApplied m)
                       | (Inr EventIgnored, s') \<Rightarrow> (Inr (), s', metrics_record MetricIgnored m)
                       | (Inr EventConflict, s') \<Rightarrow>
                           (Inl WebhookConflict, s', metrics_record MetricConflict m)))))"

end
