(* ===== verification/Otp_Service.thy ===== *)
theory Otp_Service
  imports Sweego
begin

text \<open>
  \<^verbatim>\<open>src/identity/mobile/otp/service.rs\<close>: sending a one-time code to a telephone number and checking
  the code the user typed.  The random bytes the operating system gives are parameters of a request.
\<close>

section \<open>Types\<close>

datatype otp_error =
  InvalidPhone | InvalidOtpRequest | InvalidOtp | InvalidIdempotencyKey | IdempotencyConflict
| DeliveryUnavailable | DeliveryUnknown | PhoneRateLimited | OtpInternal

fun otp_error_display :: "otp_error \<Rightarrow> string" where
  "otp_error_display InvalidPhone = ''invalid_phone_number''"
| "otp_error_display InvalidOtpRequest = ''invalid_otp_request''"
| "otp_error_display InvalidOtp = ''invalid_or_expired_otp''"
| "otp_error_display InvalidIdempotencyKey = ''invalid_idempotency_key''"
| "otp_error_display IdempotencyConflict = ''idempotency_key_conflict''"
| "otp_error_display DeliveryUnavailable = ''otp_delivery_unavailable''"
| "otp_error_display DeliveryUnknown = ''otp_delivery_unknown''"
| "otp_error_display PhoneRateLimited = ''otp_rate_limit_exceeded''"
| "otp_error_display OtpInternal = ''internal_error''"

record consumed_otp =
  co_phone :: string
  co_phone_hash :: string

definition DELIVERY_SETTLEMENT_GRACE :: duration where
  "DELIVERY_SETTLEMENT_GRACE = seconds 5"

text \<open>\<open>os_delivery\<close> is the client of the provider behind \<^verbatim>\<open>SmsDelivery\<close>.\<close>

record otp_service =
  os_delivery :: sweego_service
  os_hash_key :: string
  os_region :: string
  os_provider_timeout :: duration
  os_otp_ttl :: duration
  os_hash_context :: "uuid option"

text \<open>The readings of the clock in the three transactions of a request, the rows others hold during the
  reservation, the draws of \<^verbatim>\<open>getrandom\<close> for the code, and the random identifier.\<close>

record otp_request =
  rq_begin :: env
  rq_reserve :: env
  rq_skip :: "sms_attempt \<Rightarrow> bool"
  rq_settle :: env
  rq_draws :: "byte list option list"
  rq_uuid :: "uuid option"

section \<open>Helpers\<close>

definition otp_digest :: "primitives \<Rightarrow> otp_service \<Rightarrow> string \<Rightarrow> otp_error + string" where
  "otp_digest P sv v =
     (case hmac_sha256 P v (os_hash_key sv) of Inl _ \<Rightarrow> Inl OtpInternal | Inr h \<Rightarrow> Inr h)"

definition rate_limit_key ::
  "primitives \<Rightarrow> otp_service \<Rightarrow> utext \<Rightarrow> otp_error \<Rightarrow> otp_error + string" where
  "rate_limit_key P sv phone_input invalid =
     (case normalize_phone phone_input of None \<Rightarrow> Inl invalid | Some phone \<Rightarrow> otp_digest P sv phone)"

definition canonical_phone :: "utext \<Rightarrow> otp_error + string" where
  "canonical_phone input =
     (case normalize_phone input of None \<Rightarrow> Inl InvalidPhone | Some phone \<Rightarrow> Inr phone)"

definition for_web_challenge :: "uuid \<Rightarrow> otp_service \<Rightarrow> otp_service" where
  "for_web_challenge challenge sv = sv\<lparr>os_hash_context := Some challenge\<rparr>"

definition code_hash :: "primitives \<Rightarrow> text_crates \<Rightarrow> otp_service \<Rightarrow> string \<Rightarrow> otp_error + string" where
  "code_hash P X sv code =
     otp_digest P sv
       (case os_hash_context sv of
          None \<Rightarrow> code
        | Some i \<Rightarrow> ''web-billing:'' @ hyphenated X i @ '':'' @ code)"

definition policy_error_of :: "sms_failure_reason \<Rightarrow> otp_error" where
  "policy_error_of reason = (if is_budget_limit reason then PhoneRateLimited else DeliveryUnavailable)"

definition normalize_otp_key :: "text_crates \<Rightarrow> utext option \<Rightarrow> otp_error + uuid" where
  "normalize_otp_key X input =
     (let v = map ascii_lower (utf8_encode (trim (case input of None \<Rightarrow> [] | Some x \<Rightarrow> x))) in
      case parse_uuid X v of
        None \<Rightarrow> Inl InvalidIdempotencyKey
      | Some parsed \<Rightarrow>
          if hyphenated X parsed \<noteq> v \<or> \<not> random_v4 parsed then Inl InvalidIdempotencyKey
          else Inr parsed)"

definition OTP_RANGE :: "32 word" where "OTP_RANGE = 1000000"
definition OTP_ACCEPT_BELOW :: "32 word" where "OTP_ACCEPT_BELOW = - 1 - (- 1 mod OTP_RANGE)"

text \<open>\<^verbatim>\<open>format!("{:06}")\<close>.\<close>

definition pad6 :: "nat \<Rightarrow> string" where
  "pad6 n = (let d = decimal n in replicate (6 - length d) (CHR ''0'') @ d)"

definition from_le_bytes :: "byte list \<Rightarrow> 32 word" where
  "from_le_bytes bytes = from_be_bytes (rev bytes)"

text \<open>The loop over the draws; \<^const>\<open>None\<close> when they run out before one is accepted.\<close>

fun generate_otp :: "byte list option list \<Rightarrow> (otp_error + string) option" where
  "generate_otp [] = None"
| "generate_otp (None # _) = Some (Inl OtpInternal)"
| "generate_otp (Some bytes # draws) =
     (let v = from_le_bytes bytes in
      if v < OTP_ACCEPT_BELOW then Some (Inr (pad6 (unat (v mod OTP_RANGE)))) else generate_otp draws)"

definition random_uuid_v4 :: "uuid option \<Rightarrow> otp_error + uuid" where
  "random_uuid_v4 draw = (case draw of None \<Rightarrow> Inl OtpInternal | Some i \<Rightarrow> Inr i)"

text \<open>\<^verbatim>\<open>Duration::checked_add\<close>: the seconds of a duration are a \<^verbatim>\<open>u64\<close>.\<close>

definition duration_checked_add :: "duration \<Rightarrow> duration \<Rightarrow> duration option" where
  "duration_checked_add a b = (if a + b < 2 ^ 64 * 1000000 then Some (a + b) else None)"

section \<open>Sending\<close>

text \<open>After the code exists: the answer to a repeated request, the call of the provider, and the record
  of its outcome.\<close>

definition start_answer :: "otp_delivery_start \<Rightarrow> (otp_error + unit) option" where
  "start_answer start =
     (case start of
        Conflict \<Rightarrow> Some (Inl IdempotencyConflict)
      | PolicyRejected reason \<Rightarrow> Some (Inl (policy_error_of reason))
      | Existing OtpUnknown _ \<Rightarrow> Some (Inl DeliveryUnknown)
      | Existing OtpFailed _ \<Rightarrow> Some (Inl DeliveryUnavailable)
      | Existing _ _ \<Rightarrow> Some (Inr ())
      | Created _ \<Rightarrow> None)"

definition settle_failure ::
  "env \<Rightarrow> uuid \<Rightarrow> string \<Rightarrow> sms_delivery_error \<Rightarrow> (identity_db, otp_error, unit) op" where
  "settle_failure e delivery_id phone_hash error s =
     (let state = (if sde_outcome error = OutcomeFailed then OtpFailed else OtpUnknown) in
      case mark_outcome e delivery_id phone_hash state (sde_reason error) s of
        (Inl _, s') \<Rightarrow> (Inl DeliveryUnknown, s')
      | (Inr persisted, s') \<Rightarrow>
          if persisted = OtpFailed \<and> is_budget_limit (sde_reason error) then (Inl PhoneRateLimited, s')
          else if persisted \<in> {OtpAccepted, OtpSent} then (Inr (), s')
          else if persisted = OtpUnknown then (Inl DeliveryUnknown, s')
          else (Inl DeliveryUnavailable, s'))"

definition settle_receipt ::
  "env \<Rightarrow> uuid \<Rightarrow> string \<Rightarrow> sms_delivery_receipt \<Rightarrow> (identity_db, otp_error, unit) op" where
  "settle_receipt e delivery_id phone_hash receipt s =
     (case mark_accepted e delivery_id phone_hash (rc_transaction_id receipt) (rc_message_id receipt) s of
        (Inl _, s') \<Rightarrow> (Inl DeliveryUnknown, s')
      | (Inr confirmed, s') \<Rightarrow> (if confirmed then Inr () else Inl DeliveryUnavailable, s'))"

definition send_code ::
  "primitives \<Rightarrow> text_crates \<Rightarrow> sweego_crates \<Rightarrow> http_client \<Rightarrow> otp_service \<Rightarrow> otp_request \<Rightarrow>
   language \<Rightarrow> string \<Rightarrow> uuid \<Rightarrow> string \<Rightarrow> (identity_db, otp_error, unit) op" where
  "send_code P X W http sv rq lang phone key code s =
     (case (otp_digest P sv phone, code_hash P X sv code, random_uuid_v4 (rq_uuid rq),
            duration_checked_add (os_provider_timeout sv) DELIVERY_SETTLEMENT_GRACE) of
        (Inr phone_hash, Inr otp_hash, Inr delivery_id, Some settlement) \<Rightarrow>
          (case otp_begin (rq_begin rq)
                  \<lparr>bod_language = lang, bod_id = delivery_id, bod_phone_hash = phone_hash,
                   bod_otp_hash = otp_hash, bod_idempotency_key = key,
                   bod_ttl = os_otp_ttl sv, bod_settlement = settlement\<rparr> s of
             (Inl _, s1) \<Rightarrow> (Inl OtpInternal, s1)
           | (Inr start, s1) \<Rightarrow>
               (case start_answer start of
                  Some answer \<Rightarrow> (answer, s1)
                | None \<Rightarrow>
                    (case deliver P X W http (os_delivery sv) (rq_reserve rq) (rq_skip rq)
                            \<lparr>sm_language = lang, sm_phone = phone, sm_region = os_region sv,
                             sm_code = code, sm_delivery_id = delivery_id\<rparr> s1 of
                       (Inl error, s2) \<Rightarrow> settle_failure (rq_settle rq) delivery_id phone_hash error s2
                     | (Inr receipt, s2) \<Rightarrow>
                         settle_receipt (rq_settle rq) delivery_id phone_hash receipt s2)))
      | _ \<Rightarrow> (Inl OtpInternal, s))"

definition send_in ::
  "primitives \<Rightarrow> text_crates \<Rightarrow> sweego_crates \<Rightarrow> http_client \<Rightarrow> otp_service \<Rightarrow> otp_request \<Rightarrow>
   utext \<Rightarrow> utext option \<Rightarrow> language \<Rightarrow> identity_db \<Rightarrow> ((otp_error + unit) \<times> identity_db) option" where
  "send_in P X W http sv rq phone_input idempotency_input lang s =
     (case canonical_phone phone_input of
        Inl e \<Rightarrow> Some (Inl e, s)
      | Inr phone \<Rightarrow>
          (case normalize_otp_key X idempotency_input of
             Inl e \<Rightarrow> Some (Inl e, s)
           | Inr key \<Rightarrow>
               (case generate_otp (rq_draws rq) of
                  None \<Rightarrow> None
                | Some (Inl e) \<Rightarrow> Some (Inl e, s)
                | Some (Inr code) \<Rightarrow>
                    Some (send_code P X W http sv rq lang phone key code s))))"

definition otp_send ::
  "primitives \<Rightarrow> text_crates \<Rightarrow> sweego_crates \<Rightarrow> http_client \<Rightarrow> otp_service \<Rightarrow> otp_request \<Rightarrow>
   utext \<Rightarrow> utext option \<Rightarrow> identity_db \<Rightarrow> ((otp_error + unit) \<times> identity_db) option" where
  "otp_send P X W http sv rq phone_input idempotency_input =
     send_in P X W http sv rq phone_input idempotency_input LangFr"

section \<open>Checking\<close>

definition code_format :: "string \<Rightarrow> bool" where
  "code_format otp \<longleftrightarrow> length otp = 6 \<and> list_all ascii_digit otp"

definition consume_code ::
  "primitives \<Rightarrow> text_crates \<Rightarrow> otp_service \<Rightarrow> env \<Rightarrow> utext \<Rightarrow> string \<Rightarrow>
   (identity_db, otp_error, consumed_otp) op" where
  "consume_code P X sv e phone_input otp s =
     (case normalize_phone phone_input of
        None \<Rightarrow> (Inl InvalidOtpRequest, s)
      | Some phone \<Rightarrow>
          if \<not> code_format otp then (Inl InvalidOtpRequest, s)
          else (case (otp_digest P sv phone, code_hash P X sv otp) of
              (Inr phone_hash, Inr otp_hash) \<Rightarrow>
                (case otp_consume e phone_hash otp_hash s of
                   (Inl _, s') \<Rightarrow> (Inl OtpInternal, s')
                 | (Inr consumed, s') \<Rightarrow>
                     (if consumed then Inr \<lparr>co_phone = phone, co_phone_hash = phone_hash\<rparr>
                      else Inl InvalidOtp, s'))
            | _ \<Rightarrow> (Inl OtpInternal, s)))"

end
