(* ===== verification/Otp_Service_Proofs.thy ===== *)
theory Otp_Service_Proofs
  imports Otp_Proofs Otp_Service
begin

text \<open>
  What the service of codes does with the ledger: a code has six digits and every code is as likely as
  any other, a code that was sent can be used, and using it leaves the number without a usable code.
\<close>

section \<open>Codes\<close>

lemma ascii_digit_char_of: "n < 10 \<Longrightarrow> ascii_digit (char_of (48 + n :: nat))"
  by (simp add: ascii_digit_def Let_def)

lemma decimal_digits: "list_all ascii_digit (decimal n)"
proof (induction n rule: decimal.induct)
  case (1 n)
  show ?case
  proof (cases "n < 10")
    case True
    then show ?thesis
      by (simp add: decimal.simps [of n] ascii_digit_char_of)
  next
    case False
    then show ?thesis
      using 1 by (simp add: decimal.simps [of n] ascii_digit_char_of)
  qed
qed

lemma decimal_length: "n < 10 ^ Suc k \<Longrightarrow> length (decimal n) \<le> Suc k"
proof (induction k arbitrary: n)
  case 0
  then show ?case
    by (simp add: decimal.simps [of n])
next
  case (Suc k)
  have "n div 10 < 10 ^ Suc k"
    using Suc.prems by (simp add: less_mult_imp_div_less mult.commute)
  then show ?case
    using Suc.IH [of "n div 10"] by (simp add: decimal.simps [of n])
qed

lemma pad6_format: "n < 1000000 \<Longrightarrow> code_format (pad6 n)"
  using decimal_length [of n 5] decimal_digits [of n]
  by (auto simp: code_format_def pad6_def Let_def ascii_digit_def list_all_iff)

lemma otp_mod_bound: "unat (v mod OTP_RANGE) < 1000000"
proof -
  have "unat (v mod OTP_RANGE) = unat v mod 1000000"
    by (simp add: OTP_RANGE_def unat_mod_distrib)
  then show ?thesis
    by simp
qed

lemma generate_otp_format: "generate_otp draws = Some (Inr code) \<Longrightarrow> code_format code"
  by (induction draws rule: generate_otp.induct)
     (auto simp: Let_def pad6_format otp_mod_bound split: if_splits)

text \<open>The loop ends at the first draw below the bound; the draws it accepts fall evenly on the codes.\<close>

lemma generate_otp_returns:
  assumes "Some bytes \<in> set draws" "from_le_bytes bytes < OTP_ACCEPT_BELOW"
  shows "generate_otp draws \<noteq> None"
  using assms by (induction draws rule: generate_otp.induct) (auto simp: Let_def)

lemma OTP_ACCEPT_BELOW_value: "unat OTP_ACCEPT_BELOW = 4294000000"
  by (simp add: OTP_ACCEPT_BELOW_def OTP_RANGE_def)

lemma otp_codes_uniform:
  assumes "c < 1000000"
  shows "card {v. v < OTP_ACCEPT_BELOW \<and> unat (v mod OTP_RANGE) = c} = 4294"
proof -
  have draw: "(v < OTP_ACCEPT_BELOW \<and> unat (v mod OTP_RANGE) = c) \<longleftrightarrow>
      (\<exists>k<4294. unat v = c + 1000000 * k)" for v :: "32 word"
  proof -
    have "unat (v mod OTP_RANGE) = unat v mod 1000000"
      by (simp add: OTP_RANGE_def unat_mod_distrib)
    moreover have "v < OTP_ACCEPT_BELOW \<longleftrightarrow> unat v < 4294000000"
      by (simp add: word_less_nat_alt OTP_ACCEPT_BELOW_value)
    moreover have "\<exists>k<4294. unat v = c + 1000000 * k"
      if "unat v < 4294000000" "unat v mod 1000000 = c"
      using that less_mult_imp_div_less [of "unat v" 4294 1000000] mod_mult_div_eq [of "unat v" 1000000]
      by (intro exI [of _ "unat v div 1000000"]) simp
    moreover have "unat v < 4294000000 \<and> unat v mod 1000000 = c"
      if "\<exists>k<4294. unat v = c + 1000000 * k"
      using that assms by auto
    ultimately show ?thesis
      by metis
  qed
  have "bij_betw (\<lambda>k. word_of_nat (c + 1000000 * k) :: 32 word) {..<4294}
      {v. v < OTP_ACCEPT_BELOW \<and> unat (v mod OTP_RANGE) = c}"
  proof (rule bij_betw_byWitness [where f' = "\<lambda>v. (unat v - c) div 1000000"])
    have unat: "unat (word_of_nat (c + 1000000 * k) :: 32 word) = c + 1000000 * k" if "k < 4294" for k
      unfolding unat_of_nat using that assms by simp
    show "\<forall>k\<in>{..<4294}. (unat (word_of_nat (c + 1000000 * k) :: 32 word) - c) div 1000000 = k"
      using unat by simp
    show "\<forall>v\<in>{v. v < OTP_ACCEPT_BELOW \<and> unat (v mod OTP_RANGE) = c}.
        word_of_nat (c + 1000000 * ((unat v - c) div 1000000)) = v"
      unfolding mem_Collect_eq draw
    proof (intro ballI; elim CollectE exE conjE)
      fix v :: "32 word" and k
      assume v: "k < 4294" "unat v = c + 1000000 * k"
      show "word_of_nat (c + 1000000 * ((unat v - c) div 1000000)) = v"
        using v unat [OF v(1)] by (simp add: word_unat_eq_iff del: of_nat_add of_nat_mult)
    qed
    show "(\<lambda>k. word_of_nat (c + 1000000 * k)) ` {..<4294} \<subseteq>
        {v. v < OTP_ACCEPT_BELOW \<and> unat (v mod OTP_RANGE) = c}"
      unfolding draw using unat by auto
    show "(\<lambda>v. (unat v - c) div 1000000) ` {v. v < OTP_ACCEPT_BELOW \<and> unat (v mod OTP_RANGE) = c} \<subseteq> {..<4294}"
      unfolding draw by auto
  qed
  then show ?thesis
    by (simp add: bij_betw_same_card [symmetric])
qed

section \<open>A new code\<close>

lemma upd_where_hit: "x \<in> set xs \<Longrightarrow> Q x \<Longrightarrow> f x \<in> set (upd_where Q f xs)"
  by (force simp: upd_where_def)

lemma upd_where_miss: "x \<in> set xs \<Longrightarrow> \<not> Q x \<Longrightarrow> x \<in> set (upd_where Q f xs)"
  by (force simp: upd_where_def)

lemma activate_keeps_newest:
  assumes "row \<in> set rows" "otp_expires_at row > t"
    "\<forall>x \<in> set rows. otp_attempt_number x \<le> otp_attempt_number row"
  shows "row \<in> set (activate_rows t row rows)"
  using assms
  by (fastforce simp: activate_rows_def superseded_def older_unused_def Let_def intro!: upd_where_miss)

text \<open>The ledger after \<^verbatim>\<open>begin\<close> has created a delivery.\<close>

lemma otp_begin_fresh:
  assumes run: "otp_begin e input s = (Inr start, s')"
    and fresh: "\<forall>r \<in> set (otp_verification s). otp_idempotency_key r \<noteq> bod_idempotency_key input"
  shows "\<exists>ttl settlement. duration_millis (bod_ttl input) = Inr ttl \<and> start = Created (bod_id input) \<and>
    otp_verification s' = otp_verification s @ [new_otp_row e input ttl settlement (otp_next_attempt s)]"
proof -
  have none: "find_otp s (\<lambda>r. otp_idempotency_key r = bod_idempotency_key input) = None"
    using fresh by (auto simp: find_otp_def find_None_iff)
  show ?thesis
    using transaction_OkD [OF run [unfolded otp_begin_def]] none
    by (auto simp: Let_def split: sum.splits if_splits)
qed

lemma sms_reserve_frame:
  "sms_reserve e skip i p policy s = (r, s') \<Longrightarrow>
   otp_verification s' = otp_verification s \<and> otp_next_attempt s' = otp_next_attempt s"
  by (auto simp: sms_reserve_def transaction_def Let_def split: if_splits sum.splits)

lemma deliver_frame:
  "deliver P X W http sv e skip m s = (r, s') \<Longrightarrow>
   otp_verification s' = otp_verification s \<and> otp_next_attempt s' = otp_next_attempt s"
  by (auto simp: deliver_def reserve_permit_def split: if_splits prod.splits sum.splits option.splits
      dest: sms_reserve_frame)

text \<open>Accepting the newest delivery of the ledger makes its code usable.\<close>

lemma mark_accepted_newest:
  assumes inv: "otp_inv s" and row: "row \<in> set (otp_verification s)"
    and newest: "\<forall>x \<in> set (otp_verification s). otp_attempt_number x \<le> otp_attempt_number row"
    and pending: "otp_delivery_status row = OtpPending" "\<not> otp_used row" "otp_message_id row = None"
      "otp_transaction_id row = None"
    and run: "mark_accepted e (otp_id row) (otp_phone_hash row) x m s = (Inr True, s')"
    and clock: "clk e 0 \<le> clk e 1"
  shows "\<exists>r \<in> set (otp_verification s'). same_row row r \<and> otp_usable r \<and> otp_expires_at r = otp_expires_at row"
proof -
  let ?a = "accepted_row (clk e 1) x m"
  have locked: "locked_delivery s (otp_id row) (otp_phone_hash row) = Some row"
  proof -
    have "find_otp s (\<lambda>r. otp_id r = otp_id row \<and> otp_phone_hash r = otp_phone_hash row) \<noteq> None"
      using row by (auto simp: find_otp_def find_None_iff)
    then obtain r where r: "locked_delivery s (otp_id row) (otp_phone_hash row) = Some r"
      by (auto simp: locked_delivery_def)
    then have "r = row"
      using locked_deliveryD [OF r] row inv
      by (auto simp: otp_inv_def otp_ok_def distinct_map dest: inj_onD)
    then show ?thesis
      using r by simp
  qed
  obtain s1 where s1: "update_checked (otp_id row) ?a (activate (clk e 0) row s) = (Inr (), s1)" "otp_inv s1"
    using delivered [OF inv row, of ?a "clk e 0"] by auto
  have "mark_accepted e (otp_id row) (otp_phone_hash row) x m s =
      (Inr (case find_otp s1 (\<lambda>r. otp_id r = otp_id row) of
         Some r \<Rightarrow> otp_expires_at r > clk e 1 | None \<Rightarrow> False), s1)"
    using locked pending s1(1) by (simp add: mark_accepted_def transaction_def op_defs matches_receipt_def)
  then have s': "s' = s1" and found: "\<exists>r. find_otp s1 (\<lambda>r. otp_id r = otp_id row) = Some r \<and> otp_expires_at r > clk e 1"
    using run by (auto split: option.splits)
  have rows: "otp_verification s1 =
      upd_where (\<lambda>r. otp_id r = otp_id row) ?a (activate_rows (clk e 0) row (otp_verification s))"
    using s1(1) by (auto simp: update_checked_def update_otp_def activate_def Let_def split: if_splits)
  obtain r where r: "r \<in> set (otp_verification s1)" "otp_id r = otp_id row" "otp_expires_at r > clk e 1"
    using found by (auto simp: find_otp_def find_Some_iff intro: nth_mem)
  have "otp_expires_at row > clk e 0"
  proof -
    obtain g where g: "activate_rows (clk e 0) row (otp_verification s) = map g (otp_verification s)"
      "\<forall>r. g r = r \<or> g r = mark_used r"
      using activation [of "otp_next_attempt s" "otp_verification s" row "clk e 0" thesis] inv row
      by (auto simp: otp_inv_def)
    then obtain y where y: "y \<in> set (otp_verification s)" "otp_id (g y) = otp_id row" "r = ?a (g y)"
      using r(1,2) by (auto simp: rows upd_where_def accepted_row_def split: if_splits)
    then have "otp_id y = otp_id row"
      using g(2) by (metis mark_used_simps(5))
    then have "y = row"
      using y(1) row inv by (auto simp: otp_inv_def otp_ok_def distinct_map dest: inj_onD)
    then have "otp_expires_at r = otp_expires_at row"
      using y(3) g(2) [rule_format, of row] by (auto simp: accepted_row_def)
    then show ?thesis
      using r(3) clock by simp
  qed
  then have "row \<in> set (activate_rows (clk e 0) row (otp_verification s))"
    using activate_keeps_newest [OF row] newest by simp
  then have "?a row \<in> set (otp_verification s1)"
    unfolding rows by (rule upd_where_hit) simp
  moreover have "otp_usable (?a row)" "otp_expires_at (?a row) = otp_expires_at row"
    using pending by (simp_all add: otp_usable_def accepted_row_def)
  ultimately show ?thesis
    unfolding s' using accepted_row_simps(1) by blast
qed

section \<open>Using a code\<close>

text \<open>The usable code of a number is consumed, after which the number has no usable code.\<close>

lemma otp_consume_usable:
  assumes inv: "otp_inv s" and r: "r \<in> set (otp_verification s)" "otp_usable r" "clk e 1 < otp_expires_at r"
    and free: "\<not> otp_blocked_on (clk e 0) s (otp_phone_hash r)"
  obtains s' where "otp_consume e (otp_phone_hash r) (otp_code_hash r) s = (Inr True, s')" "otp_inv s'"
    "\<forall>x \<in> set (otp_verification s'). otp_phone_hash x = otp_phone_hash r \<longrightarrow> \<not> otp_usable x"
proof -
  let ?Q = "consumable (clk e 1) (otp_phone_hash r) (otp_code_hash r)"
  let ?s' = "update_otp ?Q mark_used s"
  have hit: "?Q r"
    using r by (simp add: consumable_def)
  have run: "otp_consume e (otp_phone_hash r) (otp_code_hash r) s = (Inr True, ?s')"
    using consumable_count [OF inv] r(1) hit free by (auto simp: otp_consume_def transaction_def)
  have "\<not> otp_usable x" if x: "x \<in> set (otp_verification ?s')" "otp_phone_hash x = otp_phone_hash r" for x
  proof
    assume "otp_usable x"
    then obtain y where y: "y \<in> set (otp_verification s)" "\<not> ?Q y" "x = y"
      using x(1) by (auto simp: update_otp_def upd_where_def otp_usable_def split: if_splits)
    then have "y = r"
      using consumable_unique [OF inv y(1) r(1)] \<open>otp_usable x\<close> r(2) x(2) by simp
    then show False
      using y(2) hit by simp
  qed
  then show thesis
    using that [OF run] keeps_ledgerD [OF otp_consume_keeps run inv] by blast
qed

lemma otp_consume_nothing:
  assumes "\<forall>x \<in> set (otp_verification s). otp_phone_hash x = p \<longrightarrow> \<not> otp_usable x"
  shows "otp_consume e p h s = (Inr False, s)"
proof -
  have "rows_where (consumable (clk e 1) p h) (otp_verification s) = 0"
    "upd_where (consumable (clk e 1) p h) mark_used (otp_verification s) = otp_verification s"
    using assms by (auto simp: rows_where_def consumable_def upd_where_def filter_empty_conv intro!: map_idI)
  then show ?thesis
    by (simp add: otp_consume_def transaction_def update_otp_def)
qed

section \<open>From sending to using\<close>

lemma settle_failure_pending:
  assumes "locked_delivery s i p = Some row" "otp_delivery_status row = OtpPending"
  shows "fst (settle_failure e i p error s) \<noteq> Inr ()"
  using assms
  by (auto simp: settle_failure_def mark_outcome_def transaction_def op_defs update_checked_def Let_def
      split: if_splits)

text \<open>A successful request with a new key leaves a usable code with the digests of the number and of
  the code.\<close>

lemma send_code_usable:
  assumes inv: "otp_inv s"
    and fresh: "\<forall>r \<in> set (otp_verification s). otp_idempotency_key r \<noteq> key"
    and digests: "otp_digest P sv phone = Inr ph" "code_hash P X sv code = Inr ch"
    and clock: "clk (rq_settle rq) 0 \<le> clk (rq_settle rq) 1"
    and run: "send_code P X W http sv rq lang phone key code s = (Inr (), s')"
  shows "otp_inv s' \<and> (\<exists>r \<in> set (otp_verification s'). otp_phone_hash r = ph \<and> otp_code_hash r = ch \<and>
    otp_usable r \<and> otp_expires_at r = clk (rq_begin rq) 0 + os_otp_ttl sv div 1000 * 1000)"
proof -
  obtain i st where i: "random_uuid_v4 (rq_uuid rq) = Inr i"
    "duration_checked_add (os_provider_timeout sv) DELIVERY_SETTLEMENT_GRACE = Some st"
    using run digests by (auto simp: send_code_def split: sum.splits option.splits)
  let ?input = "\<lparr>bod_language = lang, bod_id = i, bod_phone_hash = ph, bod_otp_hash = ch,
    bod_idempotency_key = key, bod_ttl = os_otp_ttl sv, bod_settlement = st\<rparr>"
  let ?m = "\<lparr>sm_language = lang, sm_phone = phone, sm_region = os_region sv, sm_code = code,
    sm_delivery_id = i\<rparr>"
  obtain start s1 where begun: "otp_begin (rq_begin rq) ?input s = (Inr start, s1)"
    using run digests i by (auto simp: send_code_def split: sum.splits prod.splits)
  obtain ttl settlement where s1: "duration_millis (os_otp_ttl sv) = Inr ttl" "start = Created i"
    "otp_verification s1 = otp_verification s @
       [new_otp_row (rq_begin rq) ?input ttl settlement (otp_next_attempt s)]"
    using otp_begin_fresh [OF begun] fresh by auto
  define row where "row = new_otp_row (rq_begin rq) ?input ttl settlement (otp_next_attempt s)"
  obtain r2 s2 where sent: "deliver P X W http (os_delivery sv) (rq_reserve rq) (rq_skip rq) ?m s1 = (r2, s2)"
    by fastforce
  have inv1: "otp_inv s1"
    using keeps_ledgerD [OF otp_begin_keeps begun inv] by simp
  have rows2: "otp_verification s2 = otp_verification s @ [row]" "otp_inv s2"
    using deliver_frame [OF sent] s1(3) inv1 by (simp_all add: row_def otp_inv_def)
  have row: "otp_id row = i" "otp_phone_hash row = ph" "otp_code_hash row = ch"
    "otp_delivery_status row = OtpPending" "\<not> otp_used row" "otp_message_id row = None"
    "otp_transaction_id row = None" "otp_attempt_number row = otp_next_attempt s"
    "otp_expires_at row = clk (rq_begin rq) 0 + os_otp_ttl sv div 1000 * 1000"
    using s1(1) by (auto simp: row_def new_otp_row_def duration_millis_def Let_def split: if_splits)
  have newest: "\<forall>x \<in> set (otp_verification s2). otp_attempt_number x \<le> otp_attempt_number row"
    using inv by (auto simp: rows2 row(8) otp_inv_def otp_ok_def intro: less_imp_le)
  have "\<forall>x \<in> set (otp_verification s). otp_id x \<noteq> i"
    using rows2 row(1) by (auto simp: otp_inv_def otp_ok_def image_iff)
  then have locked: "locked_delivery s2 i ph = Some row"
    using row(1,2)
    by (auto simp: locked_delivery_def find_otp_def rows2(1) find_append find_None_iff split: option.splits
        dest!: find_SomeD)
  have tail: "(case r2 of Inl error \<Rightarrow> settle_failure (rq_settle rq) i ph error s2
      | Inr receipt \<Rightarrow> settle_receipt (rq_settle rq) i ph receipt s2) = (Inr (), s')"
    using run digests i begun sent s1(2) by (simp add: send_code_def start_answer_def split: sum.splits)
  then obtain receipt where "r2 = Inr receipt"
    using settle_failure_pending [OF locked row(4), of "rq_settle rq"] by (cases r2) (auto, metis fst_conv)
  then have accepted: "mark_accepted (rq_settle rq) i ph (rc_transaction_id receipt) (rc_message_id receipt) s2 =
      (Inr True, s')"
    using tail by (auto simp: settle_receipt_def split: prod.splits sum.splits if_splits)
  have "otp_inv s'"
    using keeps_ledgerD [OF mark_accepted_keeps accepted rows2(2)] by simp
  moreover have "\<exists>r \<in> set (otp_verification s'). same_row row r \<and> otp_usable r \<and>
      otp_expires_at r = otp_expires_at row"
    using mark_accepted_newest [OF rows2(2) _ newest row(4-7) _ clock] accepted row(1,2) rows2(1) by simp
  ultimately show ?thesis
    using row by (auto simp: same_row_def)
qed

end
