(* ===== verification/Sms_Budget.thy ===== *)
theory Sms_Budget
  imports Sms_Safety
begin

text \<open>
  The budgets of text messages hold over the history of all permits ever granted, although the table
  forgets the attempts that are more than a day old: no window of an hour or of a day, wherever it
  lies, contains more permits than the policy allows.
\<close>

section \<open>Histories\<close>

definition new_attempt :: "uuid \<Rightarrow> string \<Rightarrow> instant \<Rightarrow> sms_attempt" where
  "new_attempt i p t = \<lparr>sa_delivery_id = i, sa_phone_hash = p, sa_reserved_at = t\<rparr>"

text \<open>\<open>permits policy s h t\<close>: under this policy, with a clock that does not run backwards, whatever the
  retention deletes and whatever happens to the other tables, \<open>h\<close> are the permits granted so far, \<open>t\<close>
  is the last time that was read, and \<open>s\<close> is the state.\<close>

inductive permits :: "sms_safety_config \<Rightarrow> identity_db \<Rightarrow> sms_attempt list \<Rightarrow> instant \<Rightarrow> bool"
  for policy where
  none_yet: "sms_send_attempt s = [] \<Longrightarrow> permits policy s [] t"
| reserved: "permits policy s h t \<Longrightarrow> t \<le> clk e 1 \<Longrightarrow>
    sms_reserve e skip i p policy s = (r, s') \<Longrightarrow>
    permits policy s' (h @ (if r = Inr (Inr ()) then [new_attempt i p (clk e 1)] else [])) (clk e 1)"
| retained: "permits policy s h t \<Longrightarrow> permits policy (retention_attempts now limit s) h (max t now)"
| elsewhere: "permits policy s h t \<Longrightarrow> sms_send_attempt s' = sms_send_attempt s \<Longrightarrow> permits policy s' h t"

text \<open>No window \<open>(x - w, x]\<close> holds more than \<open>limit\<close> of the attempts that satisfy \<open>Q\<close>.\<close>

definition in_sms_window :: "duration \<Rightarrow> instant \<Rightarrow> sms_attempt \<Rightarrow> bool" where
  "in_sms_window w x a \<longleftrightarrow> x - w < sa_reserved_at a \<and> sa_reserved_at a \<le> x"

definition window_ok :: "duration \<Rightarrow> nat \<Rightarrow> (sms_attempt \<Rightarrow> bool) \<Rightarrow> sms_attempt list \<Rightarrow> bool" where
  "window_ok w limit Q h \<longleftrightarrow> (\<forall>x. length (filter (\<lambda>a. Q a \<and> in_sms_window w x a) h) \<le> limit)"

lemma length_filter_mono:
  "(\<And>x. x \<in> set xs \<Longrightarrow> P x \<Longrightarrow> Q x) \<Longrightarrow> length (filter P xs) \<le> length (filter Q xs)"
  by (induction xs) auto

lemma window_ok_append:
  assumes "window_ok w limit Q h" "\<forall>b \<in> set h. sa_reserved_at b \<le> sa_reserved_at a"
    and "Q a \<Longrightarrow> length (filter (\<lambda>b. Q b \<and> sa_reserved_at b > sa_reserved_at a - w) h) < limit"
  shows "window_ok w limit Q (h @ [a])"
  unfolding window_ok_def
proof
  fix x
  show "length (filter (\<lambda>a. Q a \<and> in_sms_window w x a) (h @ [a])) \<le> limit"
  proof (cases "Q a \<and> in_sms_window w x a")
    case True
    then have "length (filter (\<lambda>a. Q a \<and> in_sms_window w x a) h) \<le>
        length (filter (\<lambda>b. Q b \<and> sa_reserved_at b > sa_reserved_at a - w) h)"
      by (intro length_filter_mono) (auto simp: in_sms_window_def)
    then show ?thesis
      using assms(3) True by simp
  next
    case False
    then show ?thesis
      using assms(1) by (auto simp: window_ok_def)
  qed
qed

definition budgets_ok :: "sms_safety_config \<Rightarrow> sms_attempt list \<Rightarrow> bool" where
  "budgets_ok policy h \<longleftrightarrow>
     (\<forall>p. window_ok (hours 24) (daily_per_phone policy) (\<lambda>a. sa_phone_hash a = p) h \<and>
          window_ok (hours 1) (hourly_per_phone policy) (\<lambda>a. sa_phone_hash a = p) h) \<and>
     window_ok (hours 24) (daily_global policy) (\<lambda>_. True) h \<and>
     window_ok (hours 1) (hourly_global policy) (\<lambda>_. True) h"

section \<open>The table and the history\<close>

text \<open>The table holds the attempts of the last 25 hours.\<close>

definition remembers :: "instant \<Rightarrow> sms_attempt list \<Rightarrow> sms_attempt list \<Rightarrow> bool" where
  "remembers t rows h \<longleftrightarrow>
     filter (\<lambda>a. sa_reserved_at a > t - hours 25) rows = filter (\<lambda>a. sa_reserved_at a > t - hours 25) h \<and>
     distinct (map sa_delivery_id rows) \<and> (\<forall>a \<in> set h. sa_reserved_at a \<le> t)"

lemma remembers_recent:
  assumes "remembers t rows h" "t \<le> now" "w \<le> hours 25"
  shows "filter (\<lambda>a. Q a \<and> sa_reserved_at a > now - w) rows =
    filter (\<lambda>a. Q a \<and> sa_reserved_at a > now - w) h"
proof -
  have cut: "filter (\<lambda>a. Q a \<and> sa_reserved_at a > now - w) xs =
      filter (\<lambda>a. Q a \<and> sa_reserved_at a > now - w) (filter (\<lambda>a. sa_reserved_at a > t - hours 25) xs)" for xs
    using assms(2,3) by (auto intro!: filter_cong)
  show ?thesis
    using assms(1) cut [of rows] cut [of h] by (simp add: remembers_def)
qed

lemma remembers_later: "remembers t rows h \<Longrightarrow> t \<le> now \<Longrightarrow> remembers now rows h"
  using remembers_recent [of t rows h now "hours 25" "\<lambda>_. True"] by (auto simp: remembers_def)

lemma purge_keeps_recent:
  assumes "distinct (map sa_delivery_id rows)" "now \<le> u"
  shows "filter (\<lambda>a. sa_reserved_at a > u - hours 25) (purge_attempts limit skip now rows) =
    filter (\<lambda>a. sa_reserved_at a > u - hours 25) rows"
    "distinct (map sa_delivery_id (purge_attempts limit skip now rows))"
proof -
  let ?v = "order_limit sa_reserved_at limit
    (filter (\<lambda>a. sa_reserved_at a \<le> now - hours 25 \<and> \<not> skip a) rows)"
  have v: "b \<in> set rows \<and> sa_reserved_at b \<le> now - hours 25" if "b \<in> set ?v" for b
    using that by (auto simp: order_limit_def dest!: in_set_takeD)
  have "sa_delivery_id a \<notin> sa_delivery_id ` set ?v"
    if a: "a \<in> set rows" "sa_reserved_at a > u - hours 25" for a
  proof
    assume "sa_delivery_id a \<in> sa_delivery_id ` set ?v"
    then obtain b where b: "b \<in> set ?v" "sa_delivery_id a = sa_delivery_id b"
      by auto
    then have "a = b"
      using assms(1) v [OF b(1)] a(1) by (auto simp: distinct_map dest: inj_onD)
    then show False
      using v [OF b(1)] a(2) assms(2) by simp
  qed
  then show "filter (\<lambda>a. sa_reserved_at a > u - hours 25) (purge_attempts limit skip now rows) =
      filter (\<lambda>a. sa_reserved_at a > u - hours 25) rows"
    by (auto simp: purge_attempts_def del_where_def Let_def intro!: filter_cong)
  show "distinct (map sa_delivery_id (purge_attempts limit skip now rows))"
    using assms(1) by (auto simp: purge_attempts_def del_where_def Let_def intro: distinct_map_filter)
qed

lemma sms_reserve_granted:
  assumes "sms_reserve e skip i p policy s = (Inr (Inr ()), s')"
  shows "sms_send_attempt s' = purge_attempts 1000 skip (clk e 1) (sms_send_attempt s @ [new_attempt i p (clk e 1)])"
    "i \<notin> sa_delivery_id ` set (sms_send_attempt s)"
    "attempts_since (clk e 1 - hours 24) (\<lambda>a. sa_phone_hash a = p) s < daily_per_phone policy"
    "attempts_since (clk e 1 - hours 1) (\<lambda>a. sa_phone_hash a = p) s < hourly_per_phone policy"
    "attempts_since (clk e 1 - hours 24) (\<lambda>_. True) s < daily_global policy"
    "attempts_since (clk e 1 - hours 1) (\<lambda>_. True) s < hourly_global policy"
  using assms
  by (auto simp: sms_reserve_def new_attempt_def Let_def image_iff
      split: if_splits sum.splits dest!: transaction_OkD)

lemma sms_reserve_refused:
  "sms_reserve e skip i p policy s = (r, s') \<Longrightarrow> r \<noteq> Inr (Inr ()) \<Longrightarrow> s' = s"
  by (auto simp: sms_reserve_def transaction_def Let_def split: if_splits sum.splits)

lemma remembers_granted:
  assumes "remembers t rows h" "t \<le> now" "i \<notin> sa_delivery_id ` set rows"
  shows "remembers now (purge_attempts limit skip now (rows @ [new_attempt i p now])) (h @ [new_attempt i p now])"
proof -
  have now: "remembers now rows h"
    using assms by (blast intro: remembers_later)
  then have "distinct (map sa_delivery_id (rows @ [new_attempt i p now]))"
    using assms(3) by (auto simp: remembers_def new_attempt_def)
  from purge_keeps_recent [OF this order_refl] show ?thesis
    using now by (auto simp: remembers_def new_attempt_def)
qed

lemma remembers_retained:
  assumes "remembers t rows h"
  shows "remembers (max t now) (purge_attempts limit skip now rows) h"
proof -
  have later: "remembers (max t now) rows h"
    by (rule remembers_later [OF assms]) simp
  then have "distinct (map sa_delivery_id rows)"
    by (simp add: remembers_def)
  from purge_keeps_recent [OF this, of now "max t now"] show ?thesis
    using later by (auto simp: remembers_def)
qed

lemma budgets_granted:
  assumes "remembers t (sms_send_attempt s) h" "t \<le> clk e 1" "budgets_ok policy h"
    "sms_reserve e skip i p policy s = (Inr (Inr ()), s')"
  shows "budgets_ok policy (h @ [new_attempt i p (clk e 1)])"
proof -
  let ?a = "new_attempt i p (clk e 1)"
  have at_a: "sa_reserved_at ?a = clk e 1" "sa_phone_hash ?a = p"
    by (simp_all add: new_attempt_def)
  have old: "\<forall>b \<in> set h. sa_reserved_at b \<le> sa_reserved_at ?a"
    using assms(1,2) at_a by (auto simp: remembers_def)
  have count: "attempts_since (clk e 1 - w) Q s = length (filter (\<lambda>b. Q b \<and> sa_reserved_at b > clk e 1 - w) h)"
    if "w \<le> hours 25" for w Q
    using remembers_recent [OF assms(1,2) that, of Q] by (simp add: attempts_since_def rows_where_def)
  have w: "hours 24 \<le> hours 25" "hours 1 \<le> hours 25"
    by (simp_all add: hours_def seconds_def)
  note free = sms_reserve_granted(3-6) [OF assms(4), unfolded count [OF w(1)] count [OF w(2)]]
  show ?thesis
    unfolding budgets_ok_def
    by (intro conjI allI; rule window_ok_append [OF _ old])
       (use assms(3) free at_a in \<open>auto simp: budgets_ok_def\<close>)
qed

lemma permits_keep_budgets:
  assumes "permits policy s h t"
  shows "remembers t (sms_send_attempt s) h \<and> budgets_ok policy h"
  using assms
proof (induction rule: permits.induct)
  case (none_yet s t)
  then show ?case
    by (simp add: remembers_def budgets_ok_def window_ok_def)
next
  case (reserved s h t e skip i p r s')
  show ?case
  proof (cases "r = Inr (Inr ())")
    case True
    then have run: "sms_reserve e skip i p policy s = (Inr (Inr ()), s')"
      using reserved by simp
    show ?thesis
      using True reserved.IH reserved.hyps(2) sms_reserve_granted(1,2) [OF run]
        remembers_granted budgets_granted [OF _ _ _ run] by auto
  next
    case False
    then show ?thesis
      using reserved sms_reserve_refused [OF reserved.hyps(3) False] remembers_later by auto
  qed
next
  case (retained s h t now limit)
  then show ?case
    using remembers_retained by (simp add: retention_attempts_def)
next
  case (elsewhere s h t s')
  then show ?case
    by simp
qed

end
