(* ===== verification/Otp_Samples.thy ===== *)
theory Otp_Samples
  imports Otp_Service_Proofs Sms_Budget Session_Samples
begin

text \<open>
  A small world for the one-time codes: a blocklist that is up to date, a provider that accepts every
  message, and a code sent to one number.
\<close>

section \<open>Parameters\<close>

definition sample_identity :: identity_db where
  "sample_identity =
     \<lparr>id_sessions = sample_sessions, account_phone = Map.empty, account_tombstone = Map.empty,
      phone_blocklist_key = None, phone_blocklist_entry = [], phone_blocklist_observation = [],
      phone_blocklist_source =
        [\<lparr>bls_source = ''list'', bls_last_attempt_at = Some 0, bls_last_success_at = Some 0,
          bls_last_error = None, bls_imported_count = 0\<rparr>],
      sms_send_control = \<lparr>ctl_suspended = False, ctl_version = 1, ctl_updated_at = None\<rparr>,
      sms_send_attempt = [], data_access_log = [], otp_verification = [], otp_next_attempt = 1,
      mobile_otp_request = []\<rparr>"

definition sample_policy :: sms_safety_config where
  "sample_policy =
     \<lparr>hourly_global = 100, daily_global = 500, hourly_per_phone = 3, daily_per_phone = 10,
      spike_per_5_minutes = 30, policy_suspended = False\<rparr>"

definition sample_key :: string where
  "sample_key = replicate 32 (CHR ''k'')"

definition sample_otp_service :: otp_service where
  "sample_otp_service =
     \<lparr>os_delivery = \<lparr>sw_config = \<lparr>sms_provider = ProviderSweego, sms_endpoint = ''https://provider'',
                       sms_api_key = ''key'', sms_sender_id = ''Histae'', sms_otp_ttl = minutes 5,
                       sms_webhook_secret = []\<rparr>,
                     sw_hash_key = sample_key, sw_policy = sample_policy\<rparr>,
      os_hash_key = sample_key, os_region = ''FR'', os_provider_timeout = seconds 10,
      os_otp_ttl = minutes 5, os_hash_context = None\<rparr>"

definition sample_digests :: primitives where
  "sample_digests = sample_primitives\<lparr>hmac_digest := (\<lambda>k m. m)\<rparr>"

text \<open>The answer of the provider, parsed.\<close>

definition sample_sweego :: sweego_crates where
  "sample_sweego =
     \<lparr>json_from_slice = (\<lambda>_. Some (JsonObject
        [(''transaction_id'', JsonString (utext_of ''tx'')),
         (''swg_uids'', JsonObject [(''+33612345678'', JsonString (utext_of ''uid''))])])),
      base64_encode = (\<lambda>_. []), base64_decode = (\<lambda>_. None)\<rparr>"

definition sample_http :: http_client where
  "sample_http = (\<lambda>_ _ _. HttpReply 200 [Some []])"

definition sample_uuid_text :: text_crates where
  "sample_uuid_text =
     \<lparr>hyphenated = (\<lambda>_. ''key''), parse_uuid = (\<lambda>_. Some 0x11111111111141118111111111111100),
      base64url_encode = (\<lambda>_. []), base64url_decode = (\<lambda>_. None)\<rparr>"

definition sample_otp_request :: otp_request where
  "sample_otp_request =
     \<lparr>rq_begin = sample_env 0, rq_reserve = sample_env 100, rq_skip = (\<lambda>_. False),
      rq_settle = sample_env 200, rq_draws = [Some [255, 255, 255, 255], Some [210, 4, 0, 0]],
      rq_uuid = Some 77\<rparr>"

definition sample_phone :: utext where
  "sample_phone = utext_of ''+33 6 12.34.56.78''"

lemmas sample_text_defs = utext_of_def utf8_encode_def trim_def is_whitespace_def char_of_def
  bit_Suc_0_iff ascii_digit_def ascii_lower_def ascii_lowercase_def ascii_alphanumeric_def Let_def

lemma sample_normalized:
  "normalize_phone sample_phone = Some ''+33612345678''"
  "normalize_phone (utext_of ''+33612345678'') = Some ''+33612345678''"
  by (simp_all add: sample_phone_def normalize_phone_def sample_text_defs)

lemma sample_idempotency_key:
  "normalize_otp_key sample_uuid_text (Some (utext_of ''KEY'')) =
     Inr 0x11111111111141118111111111111100"
  by (simp add: normalize_otp_key_def sample_uuid_text_def random_v4_def version_num_def
      variant_rfc4122_def sample_text_defs)

lemma sample_code: "generate_otp (rq_draws sample_otp_request) = Some (Inr ''001234'')"
  by code_simp

lemma sample_digest:
  "otp_digest sample_digests sample_otp_service ''+33612345678'' = Inr ''2b3333363132333435363738''"
  "hmac_sha256 sample_digests ''+33612345678'' sample_key = Inr ''2b3333363132333435363738''"
  "code_hash sample_digests sample_uuid_text sample_otp_service ''001234'' = Inr ''303031323334''"
  by code_simp+

lemma sample_answer:
  "deliver_inner sample_uuid_text sample_sweego sample_http cfg m =
     Inr \<lparr>rc_transaction_id = ''tx'', rc_message_id = ''uid''\<rparr>"
  by (simp add: deliver_inner_def sample_http_def bounded_json_def MAX_SMS_PROVIDER_BODY_BYTES_def
      sample_sweego_def parse_receipt_def identifier_of_def provider_identifier_def sample_text_defs)

lemma sample_otp_fields [simp]:
  "os_provider_timeout sample_otp_service = 10000000" "os_otp_ttl sample_otp_service = 300000000"
  "os_region sample_otp_service = ''FR''"
  "sms_provider (sw_config (os_delivery sample_otp_service)) = ProviderSweego"
  "sw_hash_key (os_delivery sample_otp_service) = sample_key"
  "sw_policy (os_delivery sample_otp_service) = sample_policy" "policy_suspended sample_policy = False"
  "rq_uuid sample_otp_request = Some 77" "rq_begin sample_otp_request = sample_env 0"
  "rq_reserve sample_otp_request = sample_env 100" "rq_skip sample_otp_request = (\<lambda>_. False)"
  "rq_settle sample_otp_request = sample_env 200"
  by (simp_all add: sample_otp_service_def sample_policy_def sample_otp_request_def time_simps)

section \<open>A code is sent\<close>

lemma sample_identity_reachable: "otp_reachable sample_identity"
  unfolding otp_reachable_def by (intro exI [of _ sample_identity]) (simp add: sample_identity_def)

text \<open>A permit, in any state with these tables.\<close>

lemma sample_reserve:
  assumes "ctl_suspended (sms_send_control s) = False" "phone_blocklist_entry s = []"
    "sms_send_attempt s = []" "phone_blocklist_source s = phone_blocklist_source sample_identity"
  shows "sms_reserve (sample_env 100) (\<lambda>_. False) i ph sample_policy s =
    (Inr (Inr ()), s\<lparr>sms_send_attempt := [new_attempt i ph 101]\<rparr>)"
proof -
  have "blocklist_ready (clk (sample_env 100) 0) s"
    by (simp add: blocklist_ready_def assms sample_identity_def sample_env_def time_simps)
  moreover have "clk (sample_env 100) (Suc 0) = 101"
    by (simp add: sample_env_def)
  moreover have "purge_attempts 1000 (\<lambda>_. False) 101 [new_attempt i ph 101] = [new_attempt i ph 101]"
    by (simp add: purge_attempts_def new_attempt_def time_simps order_limit_def del_where_def)
  ultimately show ?thesis
    by (simp add: sms_reserve_def transaction_def permit_on_def check_on_def find_entry_def assms
        attempts_since_def rows_where_def sample_policy_def new_attempt_def)
qed

definition sample_row :: otp_row where
  "sample_row =
    \<lparr>otp_id = 77, otp_phone_hash = ''2b3333363132333435363738'', otp_code_hash = ''303031323334'',
     otp_language = LangEn, otp_expires_at = 300000000, otp_used = False,
     otp_idempotency_key = 0x11111111111141118111111111111100, otp_delivery_status = OtpPending,
     otp_provider = ''sweego'', otp_transaction_id = None, otp_message_id = None, otp_error_code = None,
     otp_sent_at = None, otp_created_at = 0, otp_attempt_number = 1, otp_settlement_deadline = 15000001,
     otp_provider_sent_at = None, otp_failed_at = None, otp_last_webhook_at = None\<rparr>"

definition sample_started :: identity_db where
  "sample_started = sample_identity\<lparr>otp_next_attempt := 2, otp_verification := [sample_row]\<rparr>"

definition sample_permitted :: identity_db where
  "sample_permitted =
     sample_started\<lparr>sms_send_attempt := [new_attempt 77 ''2b3333363132333435363738'' 101]\<rparr>"

definition sample_code_sent :: identity_db where
  "sample_code_sent = sample_permitted\<lparr>otp_verification := [accepted_row 201 ''tx'' ''uid'' sample_row]\<rparr>"

lemma sample_begun:
  "otp_begin (sample_env 0)
     \<lparr>bod_language = LangEn, bod_id = 77, bod_phone_hash = ''2b3333363132333435363738'',
      bod_otp_hash = ''303031323334'', bod_idempotency_key = 0x11111111111141118111111111111100,
      bod_ttl = 300000000, bod_settlement = 15000000\<rparr> sample_identity = (Inr (Created 77), sample_started)"
  by (simp add: otp_begin_def duration_millis_def find_otp_def sample_identity_def transaction_def
      sample_started_def sample_row_def new_otp_row_def sample_env_def)

lemma sample_delivered:
  "deliver sample_digests sample_uuid_text sample_sweego sample_http (os_delivery sample_otp_service)
     (sample_env 100) (\<lambda>_. False)
     \<lparr>sm_language = LangEn, sm_phone = ''+33612345678'', sm_region = ''FR'', sm_code = ''001234'',
      sm_delivery_id = 77\<rparr> sample_started =
   (Inr \<lparr>rc_transaction_id = ''tx'', rc_message_id = ''uid''\<rparr>, sample_permitted)"
proof -
  have "ctl_suspended (sms_send_control sample_started) = False" "phone_blocklist_entry sample_started = []"
    "sms_send_attempt sample_started = []"
    "phone_blocklist_source sample_started = phone_blocklist_source sample_identity"
    by (simp_all add: sample_started_def sample_identity_def)
  then show ?thesis
    by (simp add: deliver_def reserve_permit_def sample_normalized sample_digest sample_reserve
        sample_permitted_def sample_answer)
qed

lemma sample_accepted:
  "mark_accepted (sample_env 200) 77 ''2b3333363132333435363738'' ''tx'' ''uid'' sample_permitted =
   (Inr True, sample_code_sent)"
  by (simp add: mark_accepted_def locked_delivery_def find_otp_def matches_receipt_def transaction_def
      op_defs activate_def activate_rows_def superseded_def older_unused_def upd_where_def
      update_checked_def update_otp_def usable_index_ok_def accepted_row_def sample_env_def
      sample_code_sent_def sample_permitted_def sample_started_def sample_row_def)

lemma sample_send:
  "send_in sample_digests sample_uuid_text sample_sweego sample_http sample_otp_service
     sample_otp_request sample_phone (Some (utext_of ''KEY'')) LangEn sample_identity =
   Some (Inr (), sample_code_sent)"
  by (simp add: send_in_def canonical_phone_def sample_normalized sample_idempotency_key sample_code
      send_code_def sample_digest random_uuid_v4_def duration_checked_add_def
      DELIVERY_SETTLEMENT_GRACE_def time_simps sample_begun start_answer_def sample_delivered
      settle_receipt_def sample_accepted)

lemma sample_code_sent_open: "\<not> otp_blocked_on t sample_code_sent ''2b3333363132333435363738''"
  by (simp add: otp_blocked_on_def check_on_def find_entry_def sample_code_sent_def sample_permitted_def
      sample_started_def sample_identity_def)

end
