(* ===== verification/Otp_Properties.thy ===== *)
theory Otp_Properties
  imports Otp_Samples
begin

text \<open>
  The properties of the one-time codes and of the budgets of text messages (C10, C19).
\<close>

section \<open>Codes\<close>

lemma otp_digest_total: "otp_digest P sv a = Inr h \<Longrightarrow> \<exists>h'. otp_digest P sv b = Inr h'"
  by (auto simp: otp_digest_def hmac_sha256_def split: sum.splits)

text \<open>\<^bold>\<open>C10.\<close> When a request with a new key succeeds, the code it generated, and texted, opens the
  number until it expires: checking it answers with the number, unless the number was blocked in the
  meantime.  After that no code of six digits, this one included, is accepted for the number until
  another one is sent, and a refused check changes nothing.\<close>

theorem sent_code_opens_once:
  assumes "otp_reachable s" "canonical_phone phone_input = Inr phone"
    "normalize_otp_key X key_input = Inr key"
    "\<forall>r \<in> set (otp_verification s). otp_idempotency_key r \<noteq> key"
    "generate_otp (rq_draws rq) = Some (Inr code)" "otp_digest P sv phone = Inr h"
    "clk (rq_settle rq) 0 \<le> clk (rq_settle rq) 1"
    "send_in P X W http sv rq phone_input key_input lang s = Some (Inr (), s1)"
    "\<not> otp_blocked_on (clk e 0) s1 h"
    "clk e 1 < clk (rq_begin rq) 0 + os_otp_ttl sv div 1000 * 1000"
  shows "\<exists>s2. consume_code P X sv e phone_input code s1 =
      (Inr \<lparr>co_phone = phone, co_phone_hash = h\<rparr>, s2) \<and>
    (\<forall>e' code'. code_format code' \<longrightarrow>
       consume_code P X sv e' phone_input code' s2 = (Inl InvalidOtp, s2))"
proof -
  have phone: "normalize_phone phone_input = Some phone"
    using assms(2) by (auto simp: canonical_phone_def split: option.splits)
  have hashed: "\<exists>c. code_hash P X sv v = Inr c" for v
    using otp_digest_total [OF assms(6)] by (simp add: code_hash_def)
  obtain c where c: "code_hash P X sv code = Inr c"
    using hashed by blast
  have "send_code P X W http sv rq lang phone key code s = (Inr (), s1)"
    using assms(2,3,5,8) by (simp add: send_in_def)
  from send_code_usable [OF otp_reachable_inv [OF assms(1)] assms(4,6) c assms(7) this]
  obtain r where r: "otp_inv s1" "r \<in> set (otp_verification s1)" "otp_phone_hash r = h" "otp_code_hash r = c"
    "otp_usable r" "otp_expires_at r = clk (rq_begin rq) 0 + os_otp_ttl sv div 1000 * 1000"
    by blast
  obtain s2 where s2: "otp_consume e h c s1 = (Inr True, s2)"
    "\<forall>x \<in> set (otp_verification s2). otp_phone_hash x = h \<longrightarrow> \<not> otp_usable x"
    using otp_consume_usable [OF r(1,2,5), of e thesis] r assms(9,10) by auto
  have "consume_code P X sv e phone_input code s1 = (Inr \<lparr>co_phone = phone, co_phone_hash = h\<rparr>, s2)"
    using phone generate_otp_format [OF assms(5)] assms(6) c s2(1) by (simp add: consume_code_def)
  moreover have "consume_code P X sv e' phone_input code' s2 = (Inl InvalidOtp, s2)"
    if "code_format code'" for e' code'
    using that phone assms(6) hashed [of code'] otp_consume_nothing [OF s2(2)]
    by (auto simp: consume_code_def)
  ultimately show ?thesis
    by blast
qed

theorem sent_code_opens_once_witness:
  "\<exists>s2. consume_code sample_digests sample_uuid_text sample_otp_service (sample_env 1000) sample_phone
      ''001234'' sample_code_sent =
      (Inr \<lparr>co_phone = ''+33612345678'', co_phone_hash = ''2b3333363132333435363738''\<rparr>, s2) \<and>
    (\<forall>e' code'. code_format code' \<longrightarrow>
       consume_code sample_digests sample_uuid_text sample_otp_service e' sample_phone code' s2 =
       (Inl InvalidOtp, s2))"
  by (rule sent_code_opens_once [OF sample_identity_reachable _ sample_idempotency_key _ sample_code
        sample_digest(1) _ sample_send sample_code_sent_open])
     (simp_all add: canonical_phone_def sample_normalized sample_identity_def sample_env_def)

section \<open>Budgets\<close>

text \<open>\<^bold>\<open>C19.\<close> Whatever sequence of deliveries asks for permits under a policy, and whatever happens to
  the other tables in between, no hour and no day, wherever it begins, holds more permits to a number
  or in all than the policy allows, although the table forgets attempts after 25 hours.\<close>

theorem sms_budgets_hold:
  assumes "permits policy s h t"
  shows "length (filter (\<lambda>a. sa_phone_hash a = p \<and> x - hours 1 < sa_reserved_at a \<and> sa_reserved_at a \<le> x) h)
      \<le> hourly_per_phone policy \<and>
    length (filter (\<lambda>a. sa_phone_hash a = p \<and> x - hours 24 < sa_reserved_at a \<and> sa_reserved_at a \<le> x) h)
      \<le> daily_per_phone policy \<and>
    length (filter (\<lambda>a. x - hours 1 < sa_reserved_at a \<and> sa_reserved_at a \<le> x) h) \<le> hourly_global policy \<and>
    length (filter (\<lambda>a. x - hours 24 < sa_reserved_at a \<and> sa_reserved_at a \<le> x) h) \<le> daily_global policy"
  using permits_keep_budgets [OF assms] by (simp add: budgets_ok_def window_ok_def in_sms_window_def)

theorem sms_budgets_hold_witness:
  "length (filter (\<lambda>a. sa_phone_hash a = ''number'' \<and> 500 - hours 1 < sa_reserved_at a \<and> sa_reserved_at a \<le> 500)
     [new_attempt 77 ''number'' 101]) \<le> hourly_per_phone sample_policy"
proof -
  have "permits sample_policy sample_identity [] 0"
    by (rule permits.none_yet) (simp add: sample_identity_def)
  then have "permits sample_policy (sample_identity\<lparr>sms_send_attempt := [new_attempt 77 ''number'' 101]\<rparr>)
      ([] @ (if Inr (Inr ()) = (Inr (Inr ()) :: database_error + sms_send_rejection + unit)
             then [new_attempt 77 ''number'' (clk (sample_env 100) 1)] else [])) (clk (sample_env 100) 1)"
    by (rule permits.reserved [OF _ _ sample_reserve]) (simp_all add: sample_identity_def sample_env_def)
  from sms_budgets_hold [OF this, of "''number''" 500] show ?thesis
    by (simp add: sample_env_def)
qed

end
