(* ===== verification/Spec2Isabelle.thy ===== *)
theory Spec2Isabelle
  imports Match_Properties Conversation_Properties Maintenance_Properties Reward_Properties
    Outbox_Properties Discovery_Properties Session_Properties Otp_Properties
begin

text \<open>
  \<^bold>\<open>The Histae API: discovery, matches, conversations, credits, rewards, the outbox,
  sessions and one-time codes\<close>

  Histae is a dating service.  Two users who like each other get a \<^emph>\<open>match\<close> that stays open for
  twenty-four hours; then both have twenty-four hours to agree to continue, each paying one credit
  (free, earned by an advertisement, or covered by a subscription); a continued match lives until
  thirty days pass without a message.  This development models the part of the server that decides
  these things, with the tables it works on, and proves the properties it relies on.

  \<^bold>\<open>Parts of the program and the theories that model them\<close>

  \<^item> \<^verbatim>\<open>Prelude\<close>: instants, durations and UTC dates, checked and saturating arithmetic, rows of a
    table (\<open>upd_where\<close>, \<open>del_where\<close>, \<open>order_limit\<close>), and the operations on the database: a function
    from a state to an error or a value with the new state, with \<open>bind_op\<close>, \<open>transaction\<close> (an error
    rolls back, \<^verbatim>\<open>src/infra/postgres.rs\<close>) and the rules \<open>valid\<close> / \<open>keeps\<close> for what operations
    establish and preserve.
  \<^item> \<^verbatim>\<open>Match_Domain\<close>, \<^verbatim>\<open>Notification_Domain\<close>, \<^verbatim>\<open>Outbox_Types\<close>, \<^verbatim>\<open>Shared_Text\<close>: the data types of
    \<^verbatim>\<open>src/matches/domain.rs\<close>, \<^verbatim>\<open>src/notifications/domain.rs\<close>, \<^verbatim>\<open>src/outbox/types.rs\<close> and
    \<^verbatim>\<open>src/shared/text.rs\<close>.
  \<^item> \<^verbatim>\<open>Database\<close>: the tables of \<^verbatim>\<open>db/001_schema_postgres.sql\<close> the match domain reads and writes, as
    one record \<open>db\<close>, their triggers, the account guard of \<^verbatim>\<open>src/identity/pg_guards.rs\<close>, and the
    environment \<open>env\<close> of a transaction (its clock readings and random identifiers).
  \<^item> \<^verbatim>\<open>Notifications\<close>: \<^verbatim>\<open>src/notifications/enqueue.rs\<close> and \<^verbatim>\<open>eligibility.rs\<close>.
  \<^item> \<^verbatim>\<open>Match_Access\<close>: the gate \<open>lock_available_match\<close> (\<^verbatim>\<open>src/matches/pg/access.rs\<close>) and the
    lifecycle of a match as a step relation.
  \<^item> \<^verbatim>\<open>Credits\<close>, \<^verbatim>\<open>Continuation\<close>: \<^verbatim>\<open>src/matches/pg/credits.rs\<close> with the effective subscription
    of the schema, and \<^verbatim>\<open>src/matches/pg/continuation.rs\<close>.
  \<^item> \<^verbatim>\<open>Paging\<close>, \<^verbatim>\<open>Messages\<close>, \<^verbatim>\<open>Match_Store\<close>: keyset paging, \<^verbatim>\<open>src/matches/pg/messages.rs\<close>,
    \<^verbatim>\<open>matches.rs\<close> and \<^verbatim>\<open>reveal.rs\<close>.
  \<^item> \<^verbatim>\<open>Match_Maintenance\<close>: \<^verbatim>\<open>src/matches/maintenance.rs\<close> and \<^verbatim>\<open>pg/maintenance.rs\<close>,
    \<^verbatim>\<open>pg/inactivity.rs\<close>, \<^verbatim>\<open>pg/reminders.rs\<close>.
  \<^item> \<^verbatim>\<open>Rewards\<close>: \<^verbatim>\<open>src/advertising/pg.rs\<close>.
  \<^item> \<^verbatim>\<open>Match_Service\<close>: \<^verbatim>\<open>src/matches/service.rs\<close>, whose operations return the events they publish.
  \<^item> \<^verbatim>\<open>Account_Privacy\<close>: blocks (\<^verbatim>\<open>src/privacy/pg.rs\<close>, \<^verbatim>\<open>service.rs\<close>) and the erasure of an account
    (\<^verbatim>\<open>fct_anonymize_user\<close>).
  \<^item> \<^verbatim>\<open>Outbox\<close>, \<^verbatim>\<open>Outbox_Worker\<close>: the table of durable events with its constraints
    (\<^verbatim>\<open>src/outbox/pg.rs\<close>) and the worker that claims, handles, retries and purges them
    (\<^verbatim>\<open>src/outbox/worker.rs\<close>), over the store interface \<open>outbox_store\<close>.
  \<^item> \<^verbatim>\<open>Discovery_Domain\<close>, \<^verbatim>\<open>Discovery\<close>, \<^verbatim>\<open>Discovery_Cursor\<close>, \<^verbatim>\<open>Discovery_Service\<close>:
    \<^verbatim>\<open>src/discovery/domain.rs\<close>, \<^verbatim>\<open>pg.rs\<close>, \<^verbatim>\<open>cursor.rs\<close> and \<^verbatim>\<open>service.rs\<close>: who may see whom, the feed
    in sealed pages, and swipes, whose mutual likes create the matches of \<^verbatim>\<open>Match_Service\<close>.
  \<^item> \<^verbatim>\<open>Bytes\<close>, \<^verbatim>\<open>Crypto\<close>, \<^verbatim>\<open>Tokens\<close>: text as bytes, identifiers (\<^verbatim>\<open>src/shared/validation.rs\<close>),
    \<^verbatim>\<open>src/infra/crypto.rs\<close> and \<^verbatim>\<open>src/identity/mobile/tokens.rs\<close>.
  \<^item> \<^verbatim>\<open>Sessions\<close>, \<^verbatim>\<open>Session_Service\<close>: mobile sessions as families of refresh tokens
    (\<^verbatim>\<open>src/identity/mobile/pg.rs\<close>, \<^verbatim>\<open>pg/rotation.rs\<close>, \<^verbatim>\<open>refresh_recovery.rs\<close>) and the service over
    them (\<^verbatim>\<open>service.rs\<close>, \<^verbatim>\<open>domain.rs\<close>); \<^verbatim>\<open>Session_Upkeep\<close>: what else writes the sessions, the ban
    (\<^verbatim>\<open>src/administration/pg.rs\<close>), the erasure and the retention (\<^verbatim>\<open>src/privacy/maintenance.rs\<close>).
  \<^item> \<^verbatim>\<open>Sms_Safety\<close>: the budgets of text messages and the blocklist of telephone numbers
    (\<^verbatim>\<open>src/identity/mobile/sms_safety\<close>, \<^verbatim>\<open>phone_blocklist\<close>) with the tables of identification, the
    record \<open>identity_db\<close>; \<^verbatim>\<open>Otp\<close>: the ledger of one-time codes (\<^verbatim>\<open>otp/pg.rs\<close>, \<^verbatim>\<open>otp/domain.rs\<close>);
    \<^verbatim>\<open>Sweego\<close>: the provider of text messages and its signed events (\<^verbatim>\<open>sweego.rs\<close>);
    \<^verbatim>\<open>Otp_Service\<close>: sending and checking a code (\<^verbatim>\<open>otp/service.rs\<close>).
  \<^item> \<^verbatim>\<open>Match_System\<close>: all transactions as the commands of one system, and its reachable states.

  \<^bold>\<open>State, time and concurrency\<close>

  The state is the record \<open>db\<close>.  A transaction runs alone: the code takes a row lock on the match
  and advisory locks on the wallets and on the pair before it reads what it decides on.  Rows that
  \<^verbatim>\<open>SKIP LOCKED\<close> leaves out are a parameter \<open>skip\<close> of the maintenance statements.  Time is an
  integer number of microseconds; the successive readings of \<^verbatim>\<open>clock_timestamp()\<close> in a transaction
  are the values \<open>clk e k\<close> of its environment, and the theorems that need it assume only that they
  never decrease (\<open>clock_from\<close>).  A statement that cannot reach the database is not modelled: the
  errors of the model are those the code raises and those the constraints and triggers raise.

  Two parts run several statements outside a transaction.  The feed reads a sequence of snapshots,
  which need not agree; a swipe is a machine with one step per statement, and \<open>two_swipes\<close> interleaves
  two of them with other transactions.  The handlers of a batch of the outbox, which the program runs
  concurrently, run one after the other in the model; what another worker does meanwhile is part of
  what a handler may do to the table.  Sending a code is three transactions and a call of the provider;
  what other requests do between them is not interleaved in the model of one request, but every
  sequence of the transactions is a run of \<open>otp_step\<close>.  The retention of expired rows is a step of the
  codes, of the budgets and of the states \<open>session_life\<close> of the sessions, together with bans and
  erasures; the relation \<open>session_step\<close>, over which the aftermath of a replay is followed (C40), has
  the transactions of the session repository only.

  \<^bold>\<open>What the lemmas show\<close>

  \<^item> \<^verbatim>\<open>Credit_Invariant\<close>, \<^verbatim>\<open>Match_Invariant\<close>: the invariant \<open>credit_inv\<close> of the credit tables and
    that every operation keeps it; \<^verbatim>\<open>Continuation_Proofs\<close>, \<^verbatim>\<open>Continuation_Confirm\<close>,
    \<^verbatim>\<open>Continuation_Errors\<close>: the effect of an agreement, with the source each participant is charged
    from as a specification over the state before it, and the errors it can raise;
    \<^verbatim>\<open>Match_Gate\<close>: the state a match stands for at an instant, whatever row is stored, and that the
    gate answers from it; \<^verbatim>\<open>Conversation_Proofs\<close>: a closed conversation stays closed under every later
    transaction;
    \<^verbatim>\<open>Message_Proofs\<close>, \<^verbatim>\<open>Match_Listing\<close>: messages and listings, as interpretations of the locale
    \<open>paged_store\<close> of \<^verbatim>\<open>Paging\<close>; \<^verbatim>\<open>Match_Lifecycle\<close>: every operation follows the lifecycle.
  \<^item> \<^verbatim>\<open>Outbox_Proofs\<close>: every statement keeps the table valid, and who holds an event after it;
    \<^verbatim>\<open>Outbox_Worker\<close> states what the worker relies on as the locale \<open>event_store\<close> and interprets it on
    the PostgreSQL store; \<^verbatim>\<open>Outbox_Claims\<close>: sequences of statements, and that a claim survives all but
    a requeue of its event.  The writes of billing, of the erasure jobs and of the operator console to
    the table of events are outside these sequences.
  \<^item> \<^verbatim>\<open>Discovery_Proofs\<close>, \<^verbatim>\<open>Discovery_Feed\<close>: the feed against its specification, the listing of the
    eligible users by distance; \<^verbatim>\<open>Discovery_Swipes\<close>: the effect of a swipe and the invariant of two
    concurrent ones.
  \<^item> \<^verbatim>\<open>Session_Invariant\<close>, \<^verbatim>\<open>Session_Proofs\<close>: the invariant \<open>sessions_ok\<close> of the sessions; what the
    statements of a transaction keep, every step keeps (the locale \<open>kept_by_statements\<close>, interpreted
    for the invariant and for a revoked session); the effect of an exchange, a replay and a retry;
    \<^verbatim>\<open>Session_Upkeep\<close>: the weaker invariant \<open>kept_ok\<close>, in which the retention may have removed the
    tokens of an expired session, again an interpretation of the locale.
  \<^item> \<^verbatim>\<open>Sms_Budget\<close>: the history of granted permits against the budgets; \<^verbatim>\<open>Otp_Proofs\<close>: the
    invariant \<open>otp_inv\<close> of the ledger (a number has at most one usable code), that every operation keeps
    it and that recording a delivery never violates the unique index; \<^verbatim>\<open>Otp_Service_Proofs\<close>: codes have
    six digits and are drawn evenly, and what sending leaves in the ledger.
  \<^item> The properties themselves are in \<^verbatim>\<open>Match_Properties\<close> (C1 to C6), \<^verbatim>\<open>Conversation_Properties\<close>
    (C7 to C9, C11 to C17), \<^verbatim>\<open>Maintenance_Properties\<close> (C18, C20), \<^verbatim>\<open>Reward_Properties\<close> (C21 to C24),
    \<^verbatim>\<open>Outbox_Properties\<close> (C25 to C28, C30 to C32), \<^verbatim>\<open>Discovery_Properties\<close> (C33 to C38) and
    \<^verbatim>\<open>Session_Properties\<close> (C29, C39, C40) and \<^verbatim>\<open>Otp_Properties\<close> (C10, C19), with instances on the
    small worlds of \<^verbatim>\<open>Samples\<close>, \<^verbatim>\<open>Session_Samples\<close> and \<^verbatim>\<open>Otp_Samples\<close>.

  \<^bold>\<open>Bounds and fuel\<close>

  The random draws of a code are a finite list, and the definition says nothing when it runs out before
  a draw is accepted; a list with an acceptable draw is enough (\<open>generate_otp_returns\<close>).  No other
  definition uses fuel.  The loops of a maintenance run and of the outbox purge count their
  batches down; the loop of the feed consumes its scan budget; the widening radius is a partial
  function, proved to return because a distance preference is at most 2147483647 km (the column type)
  and 35 doublings of a tenth of a kilometre cover it.  The walks along the pages of a listing take
  their number of requests as an argument, and the theorems say how many are enough.

  \<^bold>\<open>Not modelled\<close>

  The HTTP layer, login and registration, the accounts of reviewers and administrators, billing
  protocols, media, moderation, reports, administration (but for the ban), privacy exports and the delivery of
  notifications: they are routing, third-party cryptography and calls to external services around the
  core above.  Of the profile of the other user the listing of matches shows, the model keeps an
  opaque value.  SHA-256, HMAC, AES-GCM, base64, JSON, the HTTP exchange with the provider of text
  messages, the parsing and printing of UUIDs, the formatting of instants, the haversine distance, the
  spatial filter of PostGIS and the signature of access tokens are parameters.  Floating-point sums and
  quotients are exact.
\<close>

end
